(* ===== verification/Rust_Prelude.thy ===== *)
theory Rust_Prelude
  imports Main "HOL-Library.Word" "HOL-Library.Char_ord" "HOL-Library.List_Lexorder"
    "HOL-Library.Sublist"
begin

text \<open>
  The part of Rust's language and standard library that the runtime is written against.

  A Rust \<open>&str\<close> / \<open>String\<close> is its UTF-8 byte sequence: HOL's \<^typ>\<open>string\<close>, a list of
  8-bit characters, so \<open>len()\<close> is \<^const>\<open>length\<close> and the derived \<open>Ord\<close> is the
  lexicographic order of the library theories Char_ord and List_Lexorder. \<open>Result\<close> is a
  sum with the error on the left, and \<open>and_then\<close> is the \<open>?\<close> operator. Integer parsing and
  printing (\<open>str::parse\<close>, \<open>to_string\<close>) are written out with their bounds.
\<close>

named_theorems str_simps "rewriting of the string operations"
named_theorems result_simps "rewriting of the error-propagating operations"

section \<open>Results\<close>

definition and_then :: "'e + 'a \<Rightarrow> ('a \<Rightarrow> 'e + 'b) \<Rightarrow> 'e + 'b" where
  "and_then r f = (case r of Inl e \<Rightarrow> Inl e | Inr x \<Rightarrow> f x)"

lemma and_then_simps [simp, result_simps]:
  "and_then (Inl e) f = Inl e" "and_then (Inr x) f = f x"
  by (simp_all add: and_then_def)

lemma and_then_eq_Inr_iff [result_simps]:
  "and_then r f = Inr y \<longleftrightarrow> (\<exists>x. r = Inr x \<and> f x = Inr y)"
  by (cases r) auto

lemma and_then_eq_Inl_iff:
  "and_then r f = Inl e \<longleftrightarrow> r = Inl e \<or> (\<exists>x. r = Inr x \<and> f x = Inl e)"
  by (cases r) auto

lemma and_then_cong [fundef_cong]:
  "r = r' \<Longrightarrow> (\<And>x. r' = Inr x \<Longrightarrow> f x = g x) \<Longrightarrow> and_then r f = and_then r' g"
  by (cases r') auto

definition ok_or :: "'e \<Rightarrow> 'a option \<Rightarrow> 'e + 'a" where
  "ok_or e x = (case x of None \<Rightarrow> Inl e | Some v \<Rightarrow> Inr v)"

lemma ok_or_simps [simp, result_simps]: "ok_or e None = Inl e" "ok_or e (Some v) = Inr v"
  by (simp_all add: ok_or_def)

lemma ok_or_eq_Inr_iff [result_simps]: "ok_or e x = Inr v \<longleftrightarrow> x = Some v"
  by (cases x) auto

definition map_err :: "('e \<Rightarrow> 'f) \<Rightarrow> 'e + 'a \<Rightarrow> 'f + 'a" where
  "map_err f r = (case r of Inl e \<Rightarrow> Inl (f e) | Inr x \<Rightarrow> Inr x)"

lemma map_err_simps [simp]: "map_err f (Inl e) = Inl (f e)" "map_err f (Inr x) = Inr x"
  by (simp_all add: map_err_def)

lemma map_err_Inr_iff [simp]: "map_err f r = Inr x \<longleftrightarrow> r = Inr x"
  by (cases r) simp_all

definition ensure :: "bool \<Rightarrow> 'e \<Rightarrow> 'e + unit" where
  "ensure b e = (if b then Inr () else Inl e)"

lemma ensure_eq_Inr_iff [result_simps]: "ensure b e = Inr u \<longleftrightarrow> b"
  by (simp add: ensure_def)

lemma ensure_simps [simp]: "ensure True e = Inr ()" "ensure False e = Inl e"
  by (simp_all add: ensure_def)

definition is_ok :: "'e + 'a \<Rightarrow> bool" where
  "is_ok r = (case r of Inl _ \<Rightarrow> False | Inr _ \<Rightarrow> True)"

lemma is_ok_simps [simp]: "\<not> is_ok (Inl e)" "is_ok (Inr x)"
  by (simp_all add: is_ok_def)

lemma is_ok_iff: "is_ok r \<longleftrightarrow> (\<exists>x. r = Inr x)"
  by (cases r) auto

text \<open>\<open>iter().map(f).collect::<Result<Vec<_>, _>>()\<close>: stop at the first error.\<close>

fun map_result :: "('a \<Rightarrow> 'e + 'b) \<Rightarrow> 'a list \<Rightarrow> 'e + 'b list" where
  "map_result f [] = Inr []"
| "map_result f (x # xs) =
     and_then (f x) (\<lambda>y. and_then (map_result f xs) (\<lambda>ys. Inr (y # ys)))"

lemma map_result_eq_Inr_iff:
  "map_result f xs = Inr ys \<longleftrightarrow> list_all2 (\<lambda>x y. f x = Inr y) xs ys"
proof (induction xs arbitrary: ys)
  case Nil
  then show ?case by auto
next
  case (Cons x xs)
  then show ?case
    by (cases ys) (auto simp: and_then_eq_Inr_iff)
qed

lemma map_result_Inr_map:
  "(\<And>x. x \<in> set xs \<Longrightarrow> f x = Inr (g x)) \<Longrightarrow> map_result f xs = Inr (map g xs)"
  by (induction xs) auto

text \<open>\<open>iter().position(p)\<close>.\<close>

fun position :: "('a \<Rightarrow> bool) \<Rightarrow> 'a list \<Rightarrow> nat option" where
  "position p [] = None"
| "position p (x # xs) = (if p x then Some 0 else map_option Suc (position p xs))"

lemma position_SomeD:
  "position p xs = Some i \<Longrightarrow> i < length xs \<and> p (xs ! i) \<and> (\<forall>j < i. \<not> p (xs ! j))"
proof (induction xs arbitrary: i)
  case (Cons x xs)
  then show ?case by (cases i) (auto split: if_splits simp: nth_Cons split: nat.splits)
qed simp

lemma position_None_iff: "position p xs = None \<longleftrightarrow> (\<forall>x \<in> set xs. \<not> p x)"
  by (induction xs) auto

lemma position_distinct:
  "distinct xs \<Longrightarrow> i < length xs \<Longrightarrow> position (\<lambda>x. x = xs ! i) xs = Some i"
proof (induction xs arbitrary: i)
  case (Cons x xs)
  then show ?case by (cases i) (auto simp: in_set_conv_nth)
qed simp

section \<open>Checked and saturating arithmetic\<close>

definition U64_MAX :: nat where "U64_MAX = 2 ^ 64 - 1"
definition U128_MAX :: nat where "U128_MAX = 2 ^ 128 - 1"
definition U32_MAX :: nat where "U32_MAX = 2 ^ 32 - 1"
definition U16_MAX :: nat where "U16_MAX = 2 ^ 16 - 1"

lemma max_values [simp]:
  "U64_MAX = 18446744073709551615"
  "U128_MAX = 340282366920938463463374607431768211455"
  "U32_MAX = 4294967295" "U16_MAX = 65535"
  by (simp_all add: U64_MAX_def U128_MAX_def U32_MAX_def U16_MAX_def)

definition checked_add :: "nat \<Rightarrow> nat \<Rightarrow> nat \<Rightarrow> nat option" where
  "checked_add m a b = (if a + b \<le> m then Some (a + b) else None)"

definition checked_mul :: "nat \<Rightarrow> nat \<Rightarrow> nat \<Rightarrow> nat option" where
  "checked_mul m a b = (if a * b \<le> m then Some (a * b) else None)"

definition saturating_add :: "nat \<Rightarrow> nat \<Rightarrow> nat \<Rightarrow> nat" where
  "saturating_add m a b = min m (a + b)"

section \<open>ASCII character classes\<close>

abbreviation code :: "char \<Rightarrow> nat" where "code c \<equiv> of_char c"

definition is_ascii_digit :: "char \<Rightarrow> bool" where
  "is_ascii_digit c \<longleftrightarrow> 48 \<le> code c \<and> code c \<le> 57"

definition is_ascii_lowercase :: "char \<Rightarrow> bool" where
  "is_ascii_lowercase c \<longleftrightarrow> 97 \<le> code c \<and> code c \<le> 122"

definition is_ascii_uppercase :: "char \<Rightarrow> bool" where
  "is_ascii_uppercase c \<longleftrightarrow> 65 \<le> code c \<and> code c \<le> 90"

definition is_ascii_alphanumeric :: "char \<Rightarrow> bool" where
  "is_ascii_alphanumeric c \<longleftrightarrow>
     is_ascii_digit c \<or> is_ascii_lowercase c \<or> is_ascii_uppercase c"

definition is_ascii_hexdigit :: "char \<Rightarrow> bool" where
  "is_ascii_hexdigit c \<longleftrightarrow>
     is_ascii_digit c \<or> (97 \<le> code c \<and> code c \<le> 102) \<or> (65 \<le> code c \<and> code c \<le> 70)"

definition is_ascii_control :: "char \<Rightarrow> bool" where
  "is_ascii_control c \<longleftrightarrow> code c < 32 \<or> code c = 127"

definition is_ascii_whitespace :: "char \<Rightarrow> bool" where
  "is_ascii_whitespace c \<longleftrightarrow> code c \<in> {9, 10, 12, 13, 32}"

definition is_ascii :: "string \<Rightarrow> bool" where
  "is_ascii s \<longleftrightarrow> list_all (\<lambda>c. code c < 128) s"

lemmas ascii_class_defs = is_ascii_digit_def is_ascii_lowercase_def is_ascii_uppercase_def
  is_ascii_alphanumeric_def is_ascii_hexdigit_def is_ascii_control_def is_ascii_whitespace_def

definition to_ascii_lowercase_char :: "char \<Rightarrow> char" where
  "to_ascii_lowercase_char c = (if is_ascii_uppercase c then char_of (code c + 32) else c)"

definition to_ascii_uppercase_char :: "char \<Rightarrow> char" where
  "to_ascii_uppercase_char c = (if is_ascii_lowercase c then char_of (code c - 32) else c)"

definition to_ascii_lowercase :: "string \<Rightarrow> string" where
  "to_ascii_lowercase s = map to_ascii_lowercase_char s"

definition to_ascii_uppercase :: "string \<Rightarrow> string" where
  "to_ascii_uppercase s = map to_ascii_uppercase_char s"

lemma code_to_ascii_lowercase_char:
  "code (to_ascii_lowercase_char c) = (if is_ascii_uppercase c then code c + 32 else code c)"
  by (auto simp: to_ascii_lowercase_char_def is_ascii_uppercase_def of_char_of)

lemma to_ascii_lowercase_char_id: "\<not> is_ascii_uppercase c \<Longrightarrow> to_ascii_lowercase_char c = c"
  by (simp add: to_ascii_lowercase_char_def)

lemma not_uppercase_to_lower: "\<not> is_ascii_uppercase (to_ascii_lowercase_char c)"
proof (cases "is_ascii_uppercase c")
  case True
  then show ?thesis
    by (auto simp: is_ascii_uppercase_def code_to_ascii_lowercase_char)
next
  case False
  then show ?thesis by (simp add: to_ascii_lowercase_char_id)
qed

lemma to_ascii_lowercase_idem [simp]:
  "to_ascii_lowercase (to_ascii_lowercase s) = to_ascii_lowercase s"
  by (simp add: to_ascii_lowercase_def to_ascii_lowercase_char_id not_uppercase_to_lower)

lemma length_to_ascii_lowercase [simp]: "length (to_ascii_lowercase s) = length s"
  by (simp add: to_ascii_lowercase_def)

lemma to_ascii_lowercase_append [str_simps]:
  "to_ascii_lowercase (s @ t) = to_ascii_lowercase s @ to_ascii_lowercase t"
  by (simp add: to_ascii_lowercase_def)

lemma to_ascii_lowercase_Nil_iff [simp]: "to_ascii_lowercase s = [] \<longleftrightarrow> s = []"
  by (simp add: to_ascii_lowercase_def)

text \<open>A character that is not a letter is in the lowered string exactly when it was in the string.\<close>

lemma in_set_to_ascii_lowercase:
  assumes "\<not> is_ascii_lowercase c" and "\<not> is_ascii_uppercase c"
  shows "c \<in> set (to_ascii_lowercase s) \<longleftrightarrow> c \<in> set s"
proof -
  have "to_ascii_lowercase_char d = c \<longleftrightarrow> d = c" for d
  proof (cases "is_ascii_uppercase d")
    case True
    then have "is_ascii_lowercase (to_ascii_lowercase_char d)"
      by (auto simp: is_ascii_lowercase_def is_ascii_uppercase_def code_to_ascii_lowercase_char)
    with True assms show ?thesis by auto
  next
    case False
    then show ?thesis by (simp add: to_ascii_lowercase_char_id)
  qed
  then have "c \<in> to_ascii_lowercase_char ` set s \<longleftrightarrow> c \<in> set s"
    by (metis image_iff)
  then show ?thesis by (simp add: to_ascii_lowercase_def)
qed

section \<open>Ordered collections\<close>

text \<open>A \<open>BTreeSet\<close> is its iteration order: the strictly sorted list of its elements. A
  \<open>BTreeMap\<close> is the association list in key order.\<close>

definition btree_set :: "'a :: linorder list \<Rightarrow> 'a list" where
  "btree_set xs = sort (remdups xs)"

definition btree_extend :: "'a :: linorder list \<Rightarrow> 'a list \<Rightarrow> 'a list" where
  "btree_extend s xs = btree_set (s @ xs)"

definition is_btree_set :: "'a :: linorder list \<Rightarrow> bool" where
  "is_btree_set s \<longleftrightarrow> sorted s \<and> distinct s"

fun btree_insert :: "'k :: linorder \<Rightarrow> 'v \<Rightarrow> ('k \<times> 'v) list \<Rightarrow> ('k \<times> 'v) list" where
  "btree_insert k v [] = [(k, v)]"
| "btree_insert k v ((k', v') # m) =
     (if k < k' then (k, v) # (k', v') # m
      else if k = k' then (k, v) # m
      else (k', v') # btree_insert k v m)"

definition btree_remove :: "'k \<Rightarrow> ('k \<times> 'v) list \<Rightarrow> ('k \<times> 'v) list" where
  "btree_remove k m = filter (\<lambda>p. fst p \<noteq> k) m"

definition is_btree_map :: "('k :: linorder \<times> 'v) list \<Rightarrow> bool" where
  "is_btree_map m \<longleftrightarrow> sorted_wrt (<) (map fst m)"

lemma set_btree_set [simp]: "set (btree_set xs) = set xs"
  by (simp add: btree_set_def)

lemma is_btree_set_btree_set [simp]: "is_btree_set (btree_set xs)"
  by (simp add: btree_set_def is_btree_set_def)

lemma set_btree_extend [simp]: "set (btree_extend s xs) = set s \<union> set xs"
  by (simp add: btree_extend_def)

lemma is_btree_set_btree_extend [simp]: "is_btree_set (btree_extend s xs)"
  by (simp add: btree_extend_def)

lemma is_btree_set_removeAll [simp]: "is_btree_set s \<Longrightarrow> is_btree_set (removeAll x s)"
  by (simp add: is_btree_set_def sorted_wrt_filter distinct_removeAll removeAll_filter_not_eq)

lemma is_btree_set_Nil [simp]: "is_btree_set []"
  by (simp add: is_btree_set_def)

lemma btree_set_unique: "is_btree_set s \<Longrightarrow> is_btree_set t \<Longrightarrow> set s = set t \<Longrightarrow> s = t"
  by (simp add: is_btree_set_def sorted_distinct_set_unique)

lemma btree_set_id: "is_btree_set s \<Longrightarrow> btree_set s = s"
  by (rule btree_set_unique) simp_all

lemma set_btree_insert_keys: "fst ` set (btree_insert k v m) = insert k (fst ` set m)"
  by (induction m rule: btree_insert.induct) auto

lemma is_btree_map_insert [simp]: "is_btree_map m \<Longrightarrow> is_btree_map (btree_insert k v m)"
proof (induction k v m rule: btree_insert.induct)
  case (2 k v k' v' m)
  have "x \<in> set (map fst (btree_insert k v m)) \<Longrightarrow> x = k \<or> x \<in> set (map fst m)" for x
    using set_btree_insert_keys [of k v m] by auto
  with 2 show ?case by (fastforce simp: is_btree_map_def)
qed (simp add: is_btree_map_def)

lemma map_of_btree_insert [simp]: "map_of (btree_insert k v m) = (map_of m)(k \<mapsto> v)"
  by (induction m rule: btree_insert.induct) (auto simp: fun_eq_iff)

lemma is_btree_map_remove [simp]: "is_btree_map m \<Longrightarrow> is_btree_map (btree_remove k m)"
  by (induction m) (auto simp: is_btree_map_def btree_remove_def)

lemma map_of_btree_remove [simp]: "map_of (btree_remove k m) = (map_of m)(k := None)"
  by (induction m) (auto simp: btree_remove_def fun_eq_iff)

lemma btree_remove_keys: "fst ` set (btree_remove k m) = fst ` set m - {k}"
  by (auto simp: btree_remove_def image_iff)

lemma is_btree_map_distinct: "is_btree_map m \<Longrightarrow> distinct (map fst m)"
  by (simp add: is_btree_map_def strict_sorted_iff)

lemma btree_insert_last: "is_btree_map (m @ [(k, v)]) \<Longrightarrow> btree_insert k v m = m @ [(k, v)]"
  by (induction m rule: btree_insert.induct) (auto simp: is_btree_map_def)

lemma set_btree_insert_subset: "set (btree_insert k v m) \<subseteq> insert (k, v) (set m)"
  by (induction k v m rule: btree_insert.induct) auto

end
