(* ===== verification/Rust_Str.thy ===== *)
theory Rust_Str
  imports Rust_Prelude
begin

text \<open>
  Rust's string operations as the sources use them: \<open>trim\<close>, \<open>split_once\<close>,
  \<open>rsplit_once\<close>, \<open>split\<close>, \<open>split_whitespace\<close>, \<open>lines\<close>, \<open>strip_prefix\<close>,
  \<open>strip_suffix\<close>, \<open>join\<close>, and the decimal parsers and printers of the integer types.
  White space is Unicode's \<open>White_Space\<close> property, as the byte sequences that encode it.
\<close>

section \<open>White space\<close>

text \<open>U+0009..U+000D, U+0020, U+0085, U+00A0, U+1680, U+2000..U+200A, U+2028, U+2029,
  U+202F, U+205F and U+3000, in UTF-8.\<close>

definition ws_seqs :: "string list" where
  "ws_seqs =
    [[CHR 0x09], [CHR 0x0A], [CHR 0x0B], [CHR 0x0C], [CHR 0x0D], [CHR 0x20],
     [CHR 0xC2, CHR 0x85], [CHR 0xC2, CHR 0xA0], [CHR 0xE1, CHR 0x9A, CHR 0x80],
     [CHR 0xE2, CHR 0x80, CHR 0x80], [CHR 0xE2, CHR 0x80, CHR 0x81],
     [CHR 0xE2, CHR 0x80, CHR 0x82], [CHR 0xE2, CHR 0x80, CHR 0x83],
     [CHR 0xE2, CHR 0x80, CHR 0x84], [CHR 0xE2, CHR 0x80, CHR 0x85],
     [CHR 0xE2, CHR 0x80, CHR 0x86], [CHR 0xE2, CHR 0x80, CHR 0x87],
     [CHR 0xE2, CHR 0x80, CHR 0x88], [CHR 0xE2, CHR 0x80, CHR 0x89],
     [CHR 0xE2, CHR 0x80, CHR 0x8A], [CHR 0xE2, CHR 0x80, CHR 0xA8],
     [CHR 0xE2, CHR 0x80, CHR 0xA9], [CHR 0xE2, CHR 0x80, CHR 0xAF],
     [CHR 0xE2, CHR 0x81, CHR 0x9F], [CHR 0xE3, CHR 0x80, CHR 0x80]]"

definition starts_with :: "string \<Rightarrow> string \<Rightarrow> bool" where
  "starts_with s p \<longleftrightarrow> take (length p) s = p"

definition leading_seq :: "string list \<Rightarrow> string \<Rightarrow> string option" where
  "leading_seq ws s = find (\<lambda>w. w \<noteq> [] \<and> starts_with s w) ws"

lemma leading_seq_SomeD: "leading_seq ws s = Some w \<Longrightarrow> w \<noteq> [] \<and> starts_with s w"
  by (auto simp: leading_seq_def find_Some_iff)

lemma leading_seq_shorter:
  assumes "leading_seq ws s = Some w"
  shows "length (drop (length w) s) < length s"
proof -
  from leading_seq_SomeD [OF assms] have "w \<noteq> []" and "take (length w) s = w"
    by (auto simp: starts_with_def)
  then have "s \<noteq> []" by auto
  with \<open>w \<noteq> []\<close> show ?thesis by simp
qed

function strip_seqs :: "string list \<Rightarrow> string \<Rightarrow> string" where
  "strip_seqs ws s = (case leading_seq ws s of None \<Rightarrow> s
     | Some w \<Rightarrow> strip_seqs ws (drop (length w) s))"
  by pat_completeness auto
termination
  by (relation "measure (\<lambda>(ws, s). length s)") (auto dest: leading_seq_shorter)

declare strip_seqs.simps [simp del]

definition trim_start :: "string \<Rightarrow> string" where
  "trim_start s = strip_seqs ws_seqs s"

definition trim_end :: "string \<Rightarrow> string" where
  "trim_end s = rev (strip_seqs (map rev ws_seqs) (rev s))"

definition trim :: "string \<Rightarrow> string" where
  "trim s = trim_end (trim_start s)"

text \<open>The first and the last byte of every white-space sequence.\<close>

definition ws_byte :: "char \<Rightarrow> bool" where
  "ws_byte c \<longleftrightarrow> code c \<in> {9, 10, 11, 12, 13, 32} \<or> code c \<ge> 128"

lemma ws_seqs_ends: "w \<in> set ws_seqs \<Longrightarrow> w \<noteq> [] \<and> ws_byte (hd w) \<and> ws_byte (last w)"
  by (auto simp: ws_seqs_def ws_byte_def)

lemma strip_seqs_None: "leading_seq ws s = None \<Longrightarrow> strip_seqs ws s = s"
  by (simp add: strip_seqs.simps)

lemma leading_seq_None:
  assumes "s = [] \<or> \<not> ws_byte (hd s)" and "\<And>w. w \<in> set ws \<Longrightarrow> w \<noteq> [] \<Longrightarrow> ws_byte (hd w)"
  shows "leading_seq ws s = None"
proof (rule ccontr)
  assume "leading_seq ws s \<noteq> None"
  then obtain w where w: "leading_seq ws s = Some w" by auto
  then have "w \<in> set ws"
    by (auto simp: leading_seq_def find_Some_iff)
  moreover from leading_seq_SomeD [OF w] have "w \<noteq> []" and t: "take (length w) s = w"
    by (auto simp: starts_with_def)
  ultimately have "ws_byte (hd w)" using assms(2) by blast
  moreover from t \<open>w \<noteq> []\<close> have "s \<noteq> []" by auto
  moreover from t \<open>w \<noteq> []\<close> \<open>s \<noteq> []\<close> have "hd w = hd s"
    by (metis hd_take length_greater_0_conv)
  ultimately show False using assms(1) by auto
qed

lemma trim_start_id: "s = [] \<or> \<not> ws_byte (hd s) \<Longrightarrow> trim_start s = s"
  unfolding trim_start_def
  by (rule strip_seqs_None, rule leading_seq_None) (auto dest: ws_seqs_ends)

lemma trim_end_id:
  assumes "s = [] \<or> \<not> ws_byte (last s)"
  shows "trim_end s = s"
proof -
  have "leading_seq (map rev ws_seqs) (rev s) = None"
    by (rule leading_seq_None) (use assms in \<open>auto dest: ws_seqs_ends simp: hd_rev\<close>)
  then show ?thesis by (simp add: trim_end_def strip_seqs_None)
qed

lemma trim_id: "s = [] \<or> (\<not> ws_byte (hd s) \<and> \<not> ws_byte (last s)) \<Longrightarrow> trim s = s"
  by (auto simp: trim_def trim_start_id trim_end_id)

lemma trim_plain: "\<forall>c \<in> set s. \<not> ws_byte c \<Longrightarrow> trim s = s"
  by (cases "s = []") (simp_all add: trim_id)

text \<open>\<open>split_whitespace\<close>: the non-empty pieces between white-space sequences.\<close>

function split_ws_from :: "string \<Rightarrow> string \<Rightarrow> string list" where
  "split_ws_from cur s = (case s of [] \<Rightarrow> [rev cur]
     | c # cs \<Rightarrow> (case leading_seq ws_seqs s of
         None \<Rightarrow> split_ws_from (c # cur) cs
       | Some w \<Rightarrow> rev cur # split_ws_from [] (drop (length w) s)))"
  by pat_completeness auto
termination
  by (relation "measure (\<lambda>(cur, s). length s)") (auto dest: leading_seq_shorter)

declare split_ws_from.simps [simp del]

definition split_whitespace :: "string \<Rightarrow> string list" where
  "split_whitespace s = filter (\<lambda>p. p \<noteq> []) (split_ws_from [] s)"

section \<open>Splitting at a character\<close>

definition split_once :: "char \<Rightarrow> string \<Rightarrow> (string \<times> string) option" where
  "split_once c s =
     (if c \<in> set s then Some (takeWhile (\<lambda>x. x \<noteq> c) s, tl (dropWhile (\<lambda>x. x \<noteq> c) s)) else None)"

definition rsplit_once :: "char \<Rightarrow> string \<Rightarrow> (string \<times> string) option" where
  "rsplit_once c s = map_option (\<lambda>(a, b). (rev b, rev a)) (split_once c (rev s))"

fun split_on :: "char \<Rightarrow> string \<Rightarrow> string list" where
  "split_on c [] = [[]]"
| "split_on c (x # xs) =
     (if x = c then [] # split_on c xs
      else (case split_on c xs of [] \<Rightarrow> [[x]] | p # ps \<Rightarrow> (x # p) # ps))"

definition strip_prefix :: "string \<Rightarrow> string \<Rightarrow> string option" where
  "strip_prefix p s = (if starts_with s p then Some (drop (length p) s) else None)"

definition strip_suffix :: "string \<Rightarrow> string \<Rightarrow> string option" where
  "strip_suffix p s = map_option rev (strip_prefix (rev p) (rev s))"

fun join :: "string \<Rightarrow> string list \<Rightarrow> string" where
  "join sep [] = []"
| "join sep [x] = x"
| "join sep (x # y # zs) = x @ sep @ join sep (y # zs)"

lemma split_once_append [str_simps]:
  "c \<notin> set a \<Longrightarrow> split_once c (a @ c # b) = Some (a, b)"
  by (auto simp: split_once_def takeWhile_append dropWhile_append)

lemma split_once_None_iff [str_simps]: "split_once c s = None \<longleftrightarrow> c \<notin> set s"
  by (simp add: split_once_def)

lemma split_once_SomeD: "split_once c s = Some (a, b) \<Longrightarrow> s = a @ c # b \<and> c \<notin> set a"
proof -
  assume sp: "split_once c s = Some (a, b)"
  then have "c \<in> set s" by (auto simp: split_once_def split: if_splits)
  then obtain u v where "s = u @ c # v" and "c \<notin> set u"
    by (meson split_list_first)
  with sp show ?thesis by (simp add: split_once_append)
qed

lemma rsplit_once_append [str_simps]:
  "c \<notin> set b \<Longrightarrow> rsplit_once c (a @ c # b) = Some (a, b)"
  by (simp add: rsplit_once_def split_once_append)

lemma rsplit_once_None_iff [str_simps]: "rsplit_once c s = None \<longleftrightarrow> c \<notin> set s"
  by (simp add: rsplit_once_def split_once_None_iff)

lemma rsplit_once_SomeD: "rsplit_once c s = Some (a, b) \<Longrightarrow> s = a @ c # b \<and> c \<notin> set b"
proof -
  assume "rsplit_once c s = Some (a, b)"
  then have "split_once c (rev s) = Some (rev b, rev a)"
    by (auto simp: rsplit_once_def)
  then have "rev s = rev b @ c # rev a \<and> c \<notin> set (rev b)" by (rule split_once_SomeD)
  then show ?thesis
    by (metis append_Cons append_assoc rev.simps(2) rev_append rev_rev_ident
        append_Nil set_rev)
qed

lemma split_on_not_Nil [simp]: "split_on c s \<noteq> []"
  by (induction s) (auto split: list.splits)

lemma split_on_plain [str_simps]: "c \<notin> set s \<Longrightarrow> split_on c s = [s]"
  by (induction s) auto

lemma split_on_append [str_simps]:
  "c \<notin> set a \<Longrightarrow> split_on c (a @ c # b) = a # split_on c b"
  by (induction a) auto

lemma split_on_pieces: "p \<in> set (split_on c s) \<Longrightarrow> c \<notin> set p \<and> set p \<subseteq> set s"
proof (induction s arbitrary: p)
  case Nil
  then show ?case by simp
next
  case (Cons x xs)
  then show ?case
    by (cases "split_on c xs") (fastforce split: if_splits)+
qed

lemma split_on_join:
  assumes "ps \<noteq> []" and "\<forall>p \<in> set ps. c \<notin> set p"
  shows "split_on c (join [c] ps) = ps"
  using assms
proof (induction "[c]" ps rule: join.induct)
  case (3 x y zs)
  then show ?case by (simp add: split_on_append)
qed (auto simp: split_on_plain)

lemma join_split_on: "join [c] (split_on c s) = s"
proof (induction s)
  case (Cons x xs)
  obtain p ps where sp: "split_on c xs = p # ps"
    by (cases "split_on c xs") auto
  show ?case
  proof (cases ps)
    case Nil
    with Cons sp show ?thesis by auto
  next
    case (Cons q qs)
    with Cons.IH sp show ?thesis by auto
  qed
qed simp

lemma starts_with_append [simp]: "starts_with (p @ s) p"
  by (simp add: starts_with_def)

lemma starts_with_iff: "starts_with s p \<longleftrightarrow> (\<exists>t. s = p @ t)"
  by (metis append_take_drop_id starts_with_append starts_with_def)

lemma strip_prefix_append [str_simps, simp]: "strip_prefix p (p @ s) = Some s"
  by (simp add: strip_prefix_def)

lemma strip_prefix_SomeD: "strip_prefix p s = Some t \<Longrightarrow> s = p @ t"
  by (auto simp: strip_prefix_def starts_with_iff split: if_splits)

lemma strip_suffix_append [str_simps, simp]: "strip_suffix p (s @ p) = Some s"
  by (simp add: strip_suffix_def)

lemma strip_suffix_SomeD: "strip_suffix p s = Some t \<Longrightarrow> s = t @ p"
proof -
  assume "strip_suffix p s = Some t"
  then have "strip_prefix (rev p) (rev s) = Some (rev t)"
    by (auto simp: strip_suffix_def)
  then show ?thesis by (metis rev_append rev_rev_ident strip_prefix_SomeD)
qed

text \<open>\<open>lines()\<close>: pieces ended by a line feed, with one carriage return before it dropped;
  an unterminated last piece is kept as it is, an empty one is not a line.\<close>

definition strip_cr :: "string \<Rightarrow> string" where
  "strip_cr l = (case strip_suffix [CHR 0x0D] l of None \<Rightarrow> l | Some l' \<Rightarrow> l')"

definition lines :: "string \<Rightarrow> string list" where
  "lines s = (let ps = split_on (CHR 0x0A) s in
     map strip_cr (butlast ps) @ (if last ps = [] then [] else [last ps]))"

section \<open>Decimal numbers\<close>

definition digit_char :: "nat \<Rightarrow> char" where
  "digit_char d = ''0123456789'' ! d"

definition digit_val :: "char \<Rightarrow> nat option" where
  "digit_val c = (if is_ascii_digit c then Some (code c - 48) else None)"

fun digits_val :: "nat \<Rightarrow> string \<Rightarrow> nat option" where
  "digits_val acc [] = Some acc"
| "digits_val acc (c # cs) =
     (case digit_val c of None \<Rightarrow> None | Some d \<Rightarrow> digits_val (10 * acc + d) cs)"

text \<open>\<open>str::parse\<close> for an unsigned type with maximum \<open>m\<close>: one optional plus sign, then at
  least one digit and nothing else.\<close>

definition parse_uint :: "nat \<Rightarrow> string \<Rightarrow> nat option" where
  "parse_uint m s =
     (let ds = (case s of [] \<Rightarrow> [] | c # cs \<Rightarrow> if c = CHR ''+'' then cs else s) in
      if ds = [] then None
      else (case digits_val 0 ds of None \<Rightarrow> None | Some n \<Rightarrow> if n \<le> m then Some n else None))"

text \<open>\<open>str::parse\<close> for a signed type with range \<open>lo..hi\<close>.\<close>

definition parse_int :: "int \<Rightarrow> int \<Rightarrow> string \<Rightarrow> int option" where
  "parse_int lo hi s =
     (let (neg, ds) = (case s of [] \<Rightarrow> (False, [])
        | c # cs \<Rightarrow> if c = CHR ''+'' then (False, cs)
                   else if c = CHR ''-'' then (True, cs) else (False, s)) in
      if ds = [] then None
      else (case digits_val 0 ds of None \<Rightarrow> None
        | Some n \<Rightarrow> let v = (if neg then - int n else int n) in
                   if lo \<le> v \<and> v \<le> hi then Some v else None))"

abbreviation parse_i32 :: "string \<Rightarrow> int option" where
  "parse_i32 \<equiv> parse_int (- (2 ^ 31)) (2 ^ 31 - 1)"

abbreviation parse_i64 :: "string \<Rightarrow> int option" where
  "parse_i64 \<equiv> parse_int (- (2 ^ 63)) (2 ^ 63 - 1)"

abbreviation parse_i128 :: "string \<Rightarrow> int option" where
  "parse_i128 \<equiv> parse_int (- (2 ^ 127)) (2 ^ 127 - 1)"

fun show_nat :: "nat \<Rightarrow> string" where
  "show_nat n = (if n < 10 then [digit_char n] else show_nat (n div 10) @ [digit_char (n mod 10)])"

declare show_nat.simps [simp del]

definition show_int :: "int \<Rightarrow> string" where
  "show_int i = (if i < 0 then CHR ''-'' # show_nat (nat (- i)) else show_nat (nat i))"

lemma digits_val_append:
  "digits_val acc (s @ t) = (case digits_val acc s of None \<Rightarrow> None | Some n \<Rightarrow> digits_val n t)"
  by (induction s arbitrary: acc) (auto split: option.splits)

lemma code_digit_char:
  assumes "d < 10"
  shows "code (digit_char d) = 48 + d"
proof -
  have "\<forall>k \<in> set [0..<10]. code (''0123456789'' ! k) = 48 + k"
    by (simp add: upt_rec)
  with assms show ?thesis by (auto simp: digit_char_def)
qed

lemma digit_val_digit_char [simp]: "d < 10 \<Longrightarrow> digit_val (digit_char d) = Some d"
  by (simp add: digit_val_def is_ascii_digit_def code_digit_char)

lemma is_ascii_digit_digit_char [simp]: "d < 10 \<Longrightarrow> is_ascii_digit (digit_char d)"
  by (simp add: is_ascii_digit_def code_digit_char)

lemma show_nat_digits: "list_all is_ascii_digit (show_nat n)"
proof (induction n rule: show_nat.induct)
  case (1 n)
  then show ?case
    by (subst show_nat.simps) auto
qed

lemma show_nat_not_Nil [simp]: "show_nat n \<noteq> []"
  by (subst show_nat.simps) simp

lemma show_nat_is_digit: "c \<in> set (show_nat n) \<Longrightarrow> is_ascii_digit c"
  using show_nat_digits by (auto simp: list_all_iff)

lemma digits_val_show_nat [simp]: "digits_val 0 (show_nat n) = Some n"
proof (induction n rule: show_nat.induct)
  case (1 n)
  show ?case
  proof (cases "n < 10")
    case True
    then show ?thesis by (subst show_nat.simps) simp
  next
    case False
    with 1 have "digits_val 0 (show_nat (n div 10)) = Some (n div 10)" by simp
    with False show ?thesis
      by (subst show_nat.simps) (simp add: digits_val_append)
  qed
qed

lemma not_digit_not_in_show_nat: "\<not> is_ascii_digit c \<Longrightarrow> c \<notin> set (show_nat n)"
  using show_nat_is_digit by blast

lemma parse_uint_digits:
  assumes "s \<noteq> []" and "list_all is_ascii_digit s"
  shows "parse_uint m s =
    (case digits_val 0 s of None \<Rightarrow> None | Some n \<Rightarrow> if n \<le> m then Some n else None)"
proof -
  from assms obtain c cs where s: "s = c # cs" and "is_ascii_digit c"
    by (cases s) auto
  then have "c \<noteq> CHR ''+''" by (auto simp: is_ascii_digit_def)
  with s show ?thesis by (simp add: parse_uint_def)
qed

lemma parse_uint_show_nat [simp]: "parse_uint m (show_nat n) = (if n \<le> m then Some n else None)"
  by (simp add: parse_uint_digits show_nat_digits)

lemma parse_uint_bound: "parse_uint m s = Some n \<Longrightarrow> n \<le> m"
  by (auto simp: parse_uint_def Let_def split: option.splits if_splits list.splits)

lemma parse_int_bounds: "parse_int lo hi s = Some v \<Longrightarrow> lo \<le> v \<and> v \<le> hi"
  by (auto simp: parse_int_def Let_def split: option.splits if_splits list.splits)

lemma parse_int_show_int [simp]:
  "parse_int lo hi (show_int v) = (if lo \<le> v \<and> v \<le> hi then Some v else None)"
proof (cases "v < 0")
  case True
  then show ?thesis by (simp add: parse_int_def show_int_def)
next
  case False
  obtain c cs where s: "show_nat (nat v) = c # cs"
    by (cases "show_nat (nat v)") auto
  then have "is_ascii_digit c"
    using show_nat_is_digit [of c "nat v"] by simp
  then have "c \<noteq> CHR ''+'' \<and> c \<noteq> CHR ''-''" by (auto simp: is_ascii_digit_def)
  with False s digits_val_show_nat [of "nat v"] show ?thesis
    by (auto simp: parse_int_def show_int_def)
qed

text \<open>What the simplifier needs to evaluate these operations on literals.\<close>

lemmas str_eval = trim_def trim_start_def trim_end_def strip_seqs.simps split_ws_from.simps
  split_whitespace_def leading_seq_def ws_seqs_def starts_with_def split_once_def rsplit_once_def
  strip_prefix_def strip_suffix_def lines_def strip_cr_def digit_val_def ascii_class_defs
  parse_uint_def parse_int_def show_nat.simps show_int_def digit_char_def
  to_ascii_lowercase_def to_ascii_lowercase_char_def to_ascii_uppercase_def
  to_ascii_uppercase_char_def char_of_def bit_Suc_0_iff

lemma digits_val_total: "list_all is_ascii_digit s \<Longrightarrow> \<exists>n. digits_val acc s = Some n"
  by (induction s arbitrary: acc) (auto simp: digit_val_def)

lemma digit_not_ws: "is_ascii_digit c \<Longrightarrow> \<not> ws_byte c"
  by (auto simp: is_ascii_digit_def ws_byte_def)

lemma trim_show_nat [simp]: "trim (show_nat n) = show_nat n"
  by (rule trim_plain) (auto dest: show_nat_is_digit digit_not_ws)

text \<open>A digit string of \<open>k\<close> digits denotes a number below \<open>10 ^ k\<close>.\<close>

lemma digits_val_bound:
  "digits_val acc s = Some n \<Longrightarrow> n < (acc + 1) * 10 ^ length s"
proof (induction s arbitrary: acc)
  case Nil
  then show ?case by simp
next
  case (Cons c cs)
  then obtain d where d: "digit_val c = Some d" and n: "digits_val (10 * acc + d) cs = Some n"
    by (auto split: option.splits)
  from d have "d < 10" by (auto simp: digit_val_def is_ascii_digit_def split: if_splits)
  from Cons.IH [OF n] have "n < (10 * acc + d + 1) * 10 ^ length cs" by simp
  also have "\<dots> \<le> (10 * (acc + 1)) * 10 ^ length cs"
    using \<open>d < 10\<close> by (intro mult_right_mono) auto
  finally show ?case by (simp add: algebra_simps)
qed

text \<open>The components after the root of an absolute path, as \<open>Path::components\<close> gives them: empty ones and
  dots are dropped, \<open>..\<close> is a component of its own.\<close>

definition path_parts :: "string \<Rightarrow> string list" where
  "path_parts p = filter (\<lambda>c. c \<noteq> [] \<and> c \<noteq> ''.'') (split_on (CHR ''/'') p)"

end
