(* ===== verification/Units.thy ===== *)
theory Units
  imports Rust_Str
begin

text \<open>
  Binary byte sizes (src/units.rs): \<open>split_size_suffix\<close> peels an optional \<open>b\<close> and one unit
  letter, \<open>parse_size\<close> scales a decimal number in 128-bit checked arithmetic and narrows the
  result to 64 bits. The main fact is that an accepted size is the exact floor of the scaled
  decimal, and that a refusal is exactly an overflow of one of the checked steps.
\<close>

section \<open>Definitions\<close>

datatype size_error = SizeUnparsable string | SizeTooLarge string

definition split_size_suffix :: "string \<Rightarrow> string \<times> nat" where
  "split_size_suffix s0 =
     (let s = (if s0 \<noteq> [] \<and> last s0 \<in> {CHR ''b'', CHR ''B''} then butlast s0 else s0) in
      if s = [] then (s, 1)
      else if last s \<in> {CHR ''k'', CHR ''K''} then (butlast s, 1024)
      else if last s \<in> {CHR ''m'', CHR ''M''} then (butlast s, 1024 * 1024)
      else if last s \<in> {CHR ''g'', CHR ''G''} then (butlast s, 1024 * 1024 * 1024)
      else if last s \<in> {CHR ''t'', CHR ''T''} then (butlast s, 1024 * 1024 * 1024 * 1024)
      else (s, 1))"

definition parse_size :: "string \<Rightarrow> size_error + nat" where
  "parse_size s0 =
     (let s = trim s0;
          (number0, multiplier) = split_size_suffix s;
          number = trim number0;
          (whole, fraction) = (case split_once (CHR ''.'') number of
             None \<Rightarrow> (number, []) | Some p \<Rightarrow> p)
      in if (whole = [] \<and> fraction = []) \<or> \<not> list_all is_ascii_digit whole
            \<or> \<not> list_all is_ascii_digit fraction \<or> length fraction > 38
         then Inl (SizeUnparsable s)
         else
           and_then (if whole = [] then Inr 0
                     else ok_or (SizeTooLarge s) (parse_uint U128_MAX whole)) (\<lambda>whole_value.
           and_then (ok_or (SizeTooLarge s) (checked_mul U128_MAX whole_value multiplier))
             (\<lambda>scaled_whole.
           and_then (if fraction = [] then Inr 0
                     else and_then (ok_or (SizeTooLarge s) (parse_uint U128_MAX fraction))
                       (\<lambda>digits. and_then
                          (ok_or (SizeTooLarge s) (checked_mul U128_MAX digits multiplier))
                          (\<lambda>scaled. Inr (scaled div 10 ^ length fraction))))
             (\<lambda>fractional.
           and_then (ok_or (SizeTooLarge s) (checked_add U128_MAX scaled_whole fractional))
             (\<lambda>total. if total \<le> U64_MAX then Inr total else Inl (SizeTooLarge s))))))"

text \<open>The unit spellings \<open>split_size_suffix\<close> understands, with their multipliers.\<close>

definition size_suffixes :: "(string \<times> nat) list" where
  "size_suffixes =
     [('''', 1), (''b'', 1), (''B'', 1)] @
     concat (map (\<lambda>(cs, m). concat (map (\<lambda>c. [([c], m), ([c, CHR ''b''], m), ([c, CHR ''B''], m)]) cs))
       [(''kK'', 2 ^ 10), (''mM'', 2 ^ 20), (''gG'', 2 ^ 30), (''tT'', 2 ^ 40)])"

text \<open>The decimal value of a digit string; the empty string counts as zero.\<close>

definition dec_val :: "string \<Rightarrow> nat" where
  "dec_val s = the (digits_val 0 s)"

section \<open>Lemmas\<close>

lemma dec_val_digits: "list_all is_ascii_digit s \<Longrightarrow> digits_val 0 s = Some (dec_val s)"
  using digits_val_total [of s 0] by (auto simp: dec_val_def)

lemma dec_val_Nil [simp]: "dec_val [] = 0"
  by (simp add: dec_val_def)

lemma dec_val_show_nat [simp]: "dec_val (show_nat n) = n"
  by (simp add: dec_val_def)

lemma parse_uint_dec_val:
  "s \<noteq> [] \<Longrightarrow> list_all is_ascii_digit s \<Longrightarrow>
     parse_uint m s = (if dec_val s \<le> m then Some (dec_val s) else None)"
  by (simp add: parse_uint_digits dec_val_digits)

text \<open>A number body: it ends in a digit or a dot, so no unit letter can be mistaken for it.\<close>

definition number_body :: "string \<Rightarrow> bool" where
  "number_body s \<longleftrightarrow> s \<noteq> [] \<and> list_all (\<lambda>c. is_ascii_digit c \<or> c = CHR ''.'') s"

lemma number_body_last: "number_body s \<Longrightarrow> is_ascii_digit (last s) \<or> last s = CHR ''.''"
  by (auto simp: number_body_def list_all_iff)

lemma number_body_char:
  "number_body s \<Longrightarrow> c \<in> set s \<Longrightarrow> is_ascii_digit c \<or> c = CHR ''.''"
  by (auto simp: number_body_def list_all_iff)

lemma number_body_not_ws: "number_body s \<Longrightarrow> c \<in> set s \<Longrightarrow> \<not> ws_byte c"
  by (drule (1) number_body_char) (auto dest: digit_not_ws simp: ws_byte_def)

lemma split_size_suffix_body:
  assumes "number_body s" and "(suf, m) \<in> set size_suffixes"
  shows "split_size_suffix (s @ suf) = (s, m)"
proof -
  from number_body_last [OF assms(1)]
  have l: "last s \<notin> set ''bBkKmMgGtT''" by (auto simp: is_ascii_digit_def)
  from assms(1) have "s \<noteq> []" by (simp add: number_body_def)
  with l have "\<forall>p \<in> set size_suffixes. split_size_suffix (s @ fst p) = (s, snd p)"
    by (simp add: size_suffixes_def split_size_suffix_def butlast_append)
  with assms(2) show ?thesis by fastforce
qed

lemma trim_body: "number_body s \<Longrightarrow> trim s = s"
  by (rule trim_plain) (auto dest: number_body_not_ws)

lemma suffix_chars: "(suf, m) \<in> set size_suffixes \<Longrightarrow> c \<in> set suf \<Longrightarrow> \<not> ws_byte c"
  by (auto simp: size_suffixes_def ws_byte_def)

lemma trim_body_suffix:
  assumes "number_body s" and "(suf, m) \<in> set size_suffixes"
  shows "trim (s @ suf) = s @ suf"
proof (rule trim_plain)
  show "\<forall>c \<in> set (s @ suf). \<not> ws_byte c"
    using number_body_not_ws [OF assms(1)] suffix_chars [OF assms(2)] by auto
qed

lemma suffix_multiplier:
  "(suf, m) \<in> set size_suffixes \<Longrightarrow> 1 \<le> m \<and> m \<le> 2 ^ 40"
  by (auto simp: size_suffixes_def)

lemma scaled_floor:
  fixes W F m K :: nat
  assumes "0 < K"
  shows "W * m + F * m div K = (W * K + F) * m div K"
proof -
  have "(W * K + F) * m = W * m * K + F * m" by (simp add: algebra_simps)
  with assms show ?thesis by simp
qed

lemma le_of_scaled: "1 \<le> m \<Longrightarrow> a * m \<le> b \<Longrightarrow> a \<le> (b :: nat)"
  by (metis le_trans mult.right_neutral mult_le_mono2)

text \<open>The whole behaviour on a well-formed number: the floor, or too large.\<close>

lemma parse_size_number:
  assumes w: "list_all is_ascii_digit w" and f: "list_all is_ascii_digit f"
    and ne: "w \<noteq> [] \<or> f \<noteq> []" and len: "length f \<le> 38"
    and suf: "(suf, m) \<in> set size_suffixes"
  shows "parse_size (w @ ''.'' @ f @ suf) =
    (if dec_val f * m \<le> U128_MAX \<and> dec_val w * m + dec_val f * m div 10 ^ length f \<le> U64_MAX
     then Inr ((dec_val w * 10 ^ length f + dec_val f) * m div 10 ^ length f)
     else Inl (SizeTooLarge (w @ ''.'' @ f @ suf)))"
proof -
  let ?s = "w @ ''.'' @ f"
  have body: "number_body ?s"
    using w f by (auto simp: number_body_def list_all_iff)
  have nodot: "CHR ''.'' \<notin> set w"
    using w by (auto simp: list_all_iff is_ascii_digit_def)
  have m1: "1 \<le> m" using suffix_multiplier [OF suf] by simp
  have eqs: "trim (?s @ suf) = ?s @ suf" "split_size_suffix (?s @ suf) = (?s, m)"
    "trim ?s = ?s" "split_once (CHR ''.'') ?s = Some (w, f)"
    using trim_body_suffix [OF body suf] split_size_suffix_body [OF body suf] trim_body [OF body]
      nodot by (simp_all add: split_once_append)
  have bounds: "\<And>b. dec_val f * m \<le> b \<Longrightarrow> dec_val f \<le> b" "\<And>b. dec_val w * m \<le> b \<Longrightarrow> dec_val w \<le> b"
    "\<And>x b. dec_val w * m + x \<le> b \<Longrightarrow> dec_val w \<le> b"
    using le_of_scaled [OF m1] by (blast dest: add_leD1)+
  show ?thesis
    using eqs w f ne len
    by (cases "w = []"; cases "f = []")
      (auto dest: bounds simp: parse_size_def Let_def parse_uint_dec_val checked_mul_def checked_add_def
        scaled_floor [symmetric])
qed

lemma parse_size_plain:
  assumes w: "list_all is_ascii_digit w" and ne: "w \<noteq> []" and suf: "(suf, m) \<in> set size_suffixes"
  shows "parse_size (w @ suf) =
    (if dec_val w * m \<le> U64_MAX then Inr (dec_val w * m) else Inl (SizeTooLarge (w @ suf)))"
proof -
  have body: "number_body w"
    using w ne by (auto simp: number_body_def list_all_iff)
  have "CHR ''.'' \<notin> set w"
    using w by (auto simp: list_all_iff is_ascii_digit_def)
  then have eqs: "trim (w @ suf) = w @ suf" "split_size_suffix (w @ suf) = (w, m)"
    "trim w = w" "split_once (CHR ''.'') w = None"
    using trim_body_suffix [OF body suf] split_size_suffix_body [OF body suf] trim_body [OF body]
    by (simp_all add: split_once_None_iff)
  have "\<And>b. dec_val w * m \<le> b \<Longrightarrow> dec_val w \<le> b"
    using suffix_multiplier [OF suf] le_of_scaled by blast
  then show ?thesis
    using eqs w ne
    by (auto simp: parse_size_def Let_def parse_uint_dec_val checked_mul_def checked_add_def)
qed

lemma parse_size_show_nat [simp]:
  "parse_size (show_nat n) = (if n \<le> U64_MAX then Inr n else Inl (SizeTooLarge (show_nat n)))"
  using parse_size_plain [of "show_nat n" "''''" 1] by (simp add: show_nat_digits size_suffixes_def)

lemma parse_size_bound: "parse_size s = Inr n \<Longrightarrow> n \<le> U64_MAX"
  by (auto simp: parse_size_def Let_def and_then_eq_Inr_iff split: prod.splits if_splits)

section \<open>Properties\<close>

text \<open>A decimal size with a unit denotes exactly the floor of its value in bytes, and is refused
  exactly when the scaled fraction leaves \<open>u128\<close> or the sum leaves \<open>u64\<close>: no rounding up, no wrap-around.\<close>

lemma parse_size_exact:
  assumes "list_all is_ascii_digit w" and "list_all is_ascii_digit f"
    and "w \<noteq> [] \<or> f \<noteq> []" and "length f \<le> 38" and "(suf, m) \<in> set size_suffixes"
  shows "parse_size (w @ ''.'' @ f @ suf) =
    (if dec_val f * m \<le> U128_MAX \<and> dec_val w * m + dec_val f * m div 10 ^ length f \<le> U64_MAX
     then Inr ((dec_val w * 10 ^ length f + dec_val f) * m div 10 ^ length f)
     else Inl (SizeTooLarge (w @ ''.'' @ f @ suf)))"
  using assms by (rule parse_size_number)

lemma parse_size_exact_witness: "parse_size ''1.5k'' = Inr 1536"
  using parse_size_exact [of "''1''" "''5''" "''k''" 1024]
  by (simp add: size_suffixes_def dec_val_def digit_val_def ascii_class_defs U64_MAX_def U128_MAX_def)

text \<open>Printing a number of units and parsing it back gives the number of bytes, up to the largest
  \<open>u64\<close>, and an error above it.\<close>

lemma parse_size_print:
  assumes "(suf, m) \<in> set size_suffixes"
  shows "parse_size (show_nat n @ suf) =
    (if n * m \<le> U64_MAX then Inr (n * m) else Inl (SizeTooLarge (show_nat n @ suf)))"
  using parse_size_plain [of "show_nat n" suf m] assms show_nat_is_digit
  by (simp add: list_all_iff)

lemma parse_size_print_witness: "parse_size (show_nat 7 @ ''GB'') = Inr (7 * 2 ^ 30)"
  using parse_size_print [of "''GB''" "2 ^ 30" 7] by (simp add: size_suffixes_def U64_MAX_def)

end
