(* ===== verification/Image_Name.thy ===== *)
theory Image_Name
  imports Rust_Str
begin

text \<open>
  Image references (src/image/name.rs): \<open>Reference::parse\<close> with every validator it calls, in
  the order of the code, and \<open>Reference::canonical\<close>. \<open>str::to_lowercase\<close> is the ASCII mapping
  on ASCII text; its behaviour on other text is the parameter \<open>ul\<close>.

  The facts: the repository-component scanner accepts exactly the documented grammar, a parsed
  reference is well formed, and the canonical form parses back to the same reference.
\<close>

section \<open>Definitions\<close>

datatype ref_error =
    EmptyReference
  | InvalidDigest string
  | NoRepository string
  | EmptyRepository
  | EmptyTag
  | InvalidRegistry string
  | InvalidRegistryPort string
  | InvalidRepository string
  | InvalidRepositoryComponent string
  | InvalidTag string

record Reference =
  registry :: string
  repository :: string
  tag :: "string option"
  digest :: "string option"

definition DEFAULT_REGISTRY :: string where
  "DEFAULT_REGISTRY = ''docker.io''"

definition to_lowercase :: "(string \<Rightarrow> string) \<Rightarrow> string \<Rightarrow> string" where
  "to_lowercase ul s = (if is_ascii s then to_ascii_lowercase s else ul s)"

definition looks_like_registry :: "string \<Rightarrow> bool" where
  "looks_like_registry component \<longleftrightarrow>
     component = ''localhost'' \<or> CHR ''.'' \<in> set component \<or> CHR '':'' \<in> set component"

definition is_repo_alphanumeric :: "char \<Rightarrow> bool" where
  "is_repo_alphanumeric b \<longleftrightarrow> is_ascii_lowercase b \<or> is_ascii_digit b"

text \<open>One pass of the scanning loop: the separator after a run of alphanumerics, and what is
  left behind it; \<open>None\<close> for any other byte.\<close>

fun skip_separator :: "string \<Rightarrow> string option" where
  "skip_separator [] = None"
| "skip_separator (c # cs) =
     (if c = CHR ''.'' then Some cs
      else if c = CHR ''_'' \<and> cs \<noteq> [] \<and> hd cs = CHR ''_'' then Some (tl cs)
      else if c = CHR ''_'' then Some cs
      else if c = CHR ''-'' then Some (dropWhile (\<lambda>x. x = CHR ''-'') cs)
      else None)"

lemma skip_separator_shorter: "skip_separator s = Some r \<Longrightarrow> length r < length s"
  by (induction s rule: skip_separator.induct)
    (auto split: if_splits intro: le_imp_less_Suc length_dropWhile_le)

function component_scan :: "string \<Rightarrow> bool" where
  "component_scan bs =
     (let rest = dropWhile is_repo_alphanumeric bs in
      if rest = [] then True
      else (case skip_separator rest of
          None \<Rightarrow> False
        | Some r \<Rightarrow> if r = [] \<or> \<not> is_repo_alphanumeric (hd r) then False else component_scan r))"
  by pat_completeness auto
termination
proof (relation "measure length", simp)
  fix bs x r
  assume x: "x = dropWhile is_repo_alphanumeric bs" and r: "skip_separator x = Some r"
  have "length r < length x" using r by (rule skip_separator_shorter)
  also have "length x \<le> length bs" by (simp add: x length_dropWhile_le)
  finally show "(r, bs) \<in> measure length" by simp
qed

declare component_scan.simps [simp del]

definition valid_repository_component :: "string \<Rightarrow> bool" where
  "valid_repository_component component \<longleftrightarrow>
     component \<noteq> [] \<and> is_repo_alphanumeric (hd component) \<and> component_scan component"

definition validate_repository :: "string \<Rightarrow> ref_error + unit" where
  "validate_repository r =
     (if r = [] \<or> length r > 255 then Inl (InvalidRepository r)
      else (case find (\<lambda>c. \<not> valid_repository_component c) (split_on (CHR ''/'') r) of
          Some c \<Rightarrow> Inl (InvalidRepositoryComponent c)
        | None \<Rightarrow> Inr ()))"

definition tag_byte :: "char \<Rightarrow> bool" where
  "tag_byte b \<longleftrightarrow> is_ascii_alphanumeric b \<or> b \<in> {CHR ''_'', CHR ''.'', CHR ''-''}"

definition validate_tag :: "string \<Rightarrow> ref_error + unit" where
  "validate_tag t =
     (if t = [] \<or> length t > 128 \<or> \<not> (is_ascii_alphanumeric (hd t) \<or> hd t = CHR ''_'')
         \<or> \<not> list_all tag_byte (tl t)
      then Inl (InvalidTag t) else Inr ())"

definition is_digest :: "string \<Rightarrow> bool" where
  "is_digest d = (case split_once (CHR '':'') d of
      None \<Rightarrow> False
    | Some (algo, hex) \<Rightarrow> algo = ''sha256'' \<and> length hex = 64 \<and> list_all is_ascii_hexdigit hex)"

definition validate_port :: "string \<Rightarrow> string \<Rightarrow> ref_error + unit" where
  "validate_port port reg = (case parse_uint U16_MAX port of
      None \<Rightarrow> Inl (InvalidRegistryPort reg)
    | Some v \<Rightarrow> if v = 0 then Inl (InvalidRegistryPort reg) else Inr ())"

definition validate_registry :: "string \<Rightarrow> ref_error + unit" where
  "validate_registry reg =
     (if reg = [] \<or> list_ex (\<lambda>c. is_ascii_control c \<or> is_ascii_whitespace c) reg
         \<or> list_ex (\<lambda>c. c \<in> {CHR ''/'', CHR ''?'', CHR ''#'', CHR ''@'', CHR 0x5C}) reg
      then Inl (InvalidRegistry reg)
      else if hd reg = CHR ''['' then
        (case split_once (CHR '']'') reg of
           None \<Rightarrow> Inl (InvalidRegistry reg)
         | Some (upto_close, rest) \<Rightarrow>
             if length upto_close = 1
                \<or> list_ex (\<lambda>c. c \<noteq> CHR '':'' \<and> \<not> is_ascii_digit c) rest
             then Inl (InvalidRegistry reg)
             else (case strip_prefix '':'' rest of
                 Some port \<Rightarrow> validate_port port reg
               | None \<Rightarrow> Inr ()))
      else if hd reg = CHR '':'' \<or> count_list reg (CHR '':'') > 1 then Inl (InvalidRegistry reg)
      else (case rsplit_once (CHR '':'') reg of
          Some (host, port) \<Rightarrow>
            if host = [] then Inl (InvalidRegistry reg) else validate_port port reg
        | None \<Rightarrow> Inr ()))"

definition split_tag :: "string \<Rightarrow> ref_error + (string \<times> string option)" where
  "split_tag repo_part =
     and_then (case rsplit_once (CHR '':'') repo_part of
         Some (repo, t) \<Rightarrow>
           if CHR ''/'' \<in> set t then Inr (repo_part, None)
           else if repo = [] then Inl EmptyRepository
           else if t = [] then Inl EmptyTag
           else Inr (repo, Some (to_ascii_lowercase t))
       | None \<Rightarrow> Inr (repo_part, None)) (\<lambda>(repo, t).
     and_then (validate_repository repo) (\<lambda>_.
     and_then (case t of None \<Rightarrow> Inr () | Some t \<Rightarrow> validate_tag t) (\<lambda>_.
     Inr (to_ascii_lowercase repo, t))))"

definition Reference_parse :: "(string \<Rightarrow> string) \<Rightarrow> string \<Rightarrow> ref_error + Reference" where
  "Reference_parse ul input0 =
     (let input = trim input0 in
      if input = [] then Inl EmptyReference
      else
        and_then (case rsplit_once (CHR ''@'') input of
            Some (rest, d) \<Rightarrow>
              if is_digest d then Inr (rest, Some (to_ascii_lowercase d)) else Inl (InvalidDigest d)
          | None \<Rightarrow> Inr (input, None)) (\<lambda>(rest, dig).
        if rest = [] then Inl (NoRepository input)
        else
          (let (reg, repo_part) = (case split_once (CHR ''/'') rest of
               Some (first, tail) \<Rightarrow>
                 if looks_like_registry first then (to_lowercase ul first, tail)
                 else (DEFAULT_REGISTRY, rest)
             | None \<Rightarrow> (DEFAULT_REGISTRY, rest)) in
           and_then (validate_registry reg) (\<lambda>_.
           and_then (split_tag repo_part) (\<lambda>(repo, t).
           Inr \<lparr> registry = reg,
                 repository = (if reg = DEFAULT_REGISTRY \<and> CHR ''/'' \<notin> set repo
                               then ''library/'' @ repo else repo),
                 tag = (if dig \<noteq> None then None
                        else Some (case t of None \<Rightarrow> ''latest'' | Some t \<Rightarrow> t)),
                 digest = dig \<rparr>)))))"

definition canonical :: "Reference \<Rightarrow> string" where
  "canonical r = registry r @ ''/'' @ repository r
     @ (case tag r of None \<Rightarrow> [] | Some t \<Rightarrow> '':'' @ t)
     @ (case digest r of None \<Rightarrow> [] | Some d \<Rightarrow> ''@'' @ d)"

section \<open>The repository-component grammar\<close>

text \<open>The grammar the scanner implements: runs of lower-case letters and digits separated by one
  dot, one or two underscores, or any number of dashes.\<close>

inductive component_separator :: "string \<Rightarrow> bool" where
  sep_dot: "component_separator ''.''"
| sep_underscore: "component_separator ''_''"
| sep_double_underscore: "component_separator ''__''"
| sep_dashes: "ds \<noteq> [] \<Longrightarrow> set ds = {CHR ''-''} \<Longrightarrow> component_separator ds"

inductive repo_component :: "string \<Rightarrow> bool" where
  run: "w \<noteq> [] \<Longrightarrow> list_all is_repo_alphanumeric w \<Longrightarrow> repo_component w"
| more: "w \<noteq> [] \<Longrightarrow> list_all is_repo_alphanumeric w \<Longrightarrow> component_separator sep \<Longrightarrow>
    repo_component r \<Longrightarrow> repo_component (w @ sep @ r)"

lemma repo_component_hd: "repo_component s \<Longrightarrow> s \<noteq> [] \<and> is_repo_alphanumeric (hd s)"
  by (induction rule: repo_component.induct) (auto simp: list_all_iff)

lemma not_alnum_separators:
  "\<not> is_repo_alphanumeric (CHR ''.'')" "\<not> is_repo_alphanumeric (CHR ''_'')"
  "\<not> is_repo_alphanumeric (CHR ''-'')"
  by (simp_all add: is_repo_alphanumeric_def ascii_class_defs)

lemma dropWhile_alnum_run:
  assumes "list_all is_repo_alphanumeric w"
  shows "dropWhile is_repo_alphanumeric (w @ s) = dropWhile is_repo_alphanumeric s"
  using assms by (induction w) auto

lemma separator_skipped:
  assumes "component_separator sep" and "r \<noteq> []" and "is_repo_alphanumeric (hd r)"
  shows "skip_separator (sep @ r) = Some r"
  using assms
proof (induction rule: component_separator.induct)
  case (sep_dashes ds)
  then obtain d ds' where ds: "ds = d # ds'" by (cases ds) auto
  from sep_dashes have "d = CHR ''-''" "\<forall>x \<in> set ds'. x = CHR ''-''"
    unfolding ds by auto
  moreover have "dropWhile (\<lambda>x. x = CHR ''-'') (ds' @ r) = dropWhile (\<lambda>x. x = CHR ''-'') r"
    using \<open>\<forall>x \<in> set ds'. x = CHR ''-''\<close> by (induction ds') auto
  moreover have "hd r \<noteq> CHR ''-''" using assms(3) not_alnum_separators(3) by metis
  then have "dropWhile (\<lambda>x. x = CHR ''-'') r = r" by (cases r) auto
  ultimately show ?case by (simp add: ds)
qed (cases r; auto simp: not_alnum_separators)+

lemma separator_not_alnum:
  "component_separator sep \<Longrightarrow> sep \<noteq> [] \<and> \<not> is_repo_alphanumeric (hd sep)"
proof (induction rule: component_separator.induct)
  case (sep_dashes ds)
  then have "hd ds = CHR ''-''" using hd_in_set by fastforce
  with sep_dashes show ?case by (simp add: not_alnum_separators)
qed (auto simp: not_alnum_separators)

lemma skip_separator_sound:
  assumes "skip_separator s = Some r" and "r \<noteq> []" and "is_repo_alphanumeric (hd r)"
  shows "\<exists>sep. component_separator sep \<and> s = sep @ r"
proof -
  from assms(1) obtain c cs where s: "s = c # cs" by (cases s) auto
  consider "c = CHR ''.''" "r = cs" | "c = CHR ''_''" "cs = CHR ''_'' # r"
    | "c = CHR ''_''" "r = cs" | "c = CHR ''-''" "r = dropWhile (\<lambda>x. x = CHR ''-'') cs"
    using assms(1) unfolding s by (cases cs) (auto split: if_splits)
  then show ?thesis
  proof cases
    case 4
    let ?ds = "CHR ''-'' # takeWhile (\<lambda>x. x = CHR ''-'') cs"
    have "component_separator ?ds"
      by (rule sep_dashes) (auto dest: set_takeWhileD)
    moreover have "s = ?ds @ r" by (simp add: s 4)
    ultimately show ?thesis by blast
  qed (auto simp: s intro: component_separator.intros)
qed

lemma component_scan_complete: "repo_component s \<Longrightarrow> component_scan s"
proof (induction rule: repo_component.induct)
  case (run w)
  have "dropWhile is_repo_alphanumeric w = []"
    using run.hyps(2) by (simp add: list_all_iff)
  then show ?case by (simp add: component_scan.simps)
next
  case (more w sep r)
  note sep = separator_not_alnum [OF more.hyps(3)]
  note r = repo_component_hd [OF more.hyps(4)]
  have "dropWhile is_repo_alphanumeric (w @ sep @ r) = sep @ r"
    using more.hyps(2) sep by (cases sep) (auto simp: dropWhile_alnum_run)
  with more sep r show ?case
    by (subst component_scan.simps) (simp add: separator_skipped)
qed

lemma component_scan_sound:
  "component_scan s \<Longrightarrow> s \<noteq> [] \<Longrightarrow> is_repo_alphanumeric (hd s) \<Longrightarrow> repo_component s"
proof (induction s rule: component_scan.induct)
  case (1 s)
  let ?w = "takeWhile is_repo_alphanumeric s" and ?rest = "dropWhile is_repo_alphanumeric s"
  have w: "?w \<noteq> []" "list_all is_repo_alphanumeric ?w"
    using "1.prems" by (cases s) (auto simp: list_all_iff dest: set_takeWhileD)
  show ?case
  proof (cases "?rest = []")
    case True
    with w show ?thesis by (metis repo_component.run takeWhile_dropWhile_id append_Nil2)
  next
    case False
    with "1.prems"(1) obtain r where r: "skip_separator ?rest = Some r" "r \<noteq> []"
        "is_repo_alphanumeric (hd r)" "component_scan r"
      by (auto simp: component_scan.simps [of s] Let_def split: option.splits if_splits)
    then have "repo_component r" using "1.IH" False by simp
    moreover obtain sep where "component_separator sep" "?rest = sep @ r"
      using skip_separator_sound [OF r(1,2,3)] by blast
    ultimately show ?thesis using w
      by (metis repo_component.more takeWhile_dropWhile_id)
  qed
qed

lemma valid_repository_component_iff: "valid_repository_component s \<longleftrightarrow> repo_component s"
  unfolding valid_repository_component_def
  using component_scan_complete component_scan_sound repo_component_hd by blast

section \<open>Well-formed references\<close>

definition repo_byte :: "char \<Rightarrow> bool" where
  "repo_byte c \<longleftrightarrow> is_repo_alphanumeric c \<or> c \<in> {CHR ''.'', CHR ''_'', CHR ''-''}"

lemma separator_bytes: "component_separator sep \<Longrightarrow> list_all repo_byte sep"
  by (induction rule: component_separator.induct) (auto simp: list_all_iff repo_byte_def)

lemma component_bytes: "repo_component s \<Longrightarrow> list_all repo_byte s"
proof (induction rule: repo_component.induct)
  case (more w sep r)
  then show ?case using separator_bytes [OF more.hyps(3)]
    by (auto simp: list_all_iff repo_byte_def)
qed (auto simp: list_all_iff repo_byte_def)

text \<open>Bytes that have a meaning in a reference or a URL never occur in its parts.\<close>

lemma repo_byte_plain:
  assumes "repo_byte c"
  shows "\<not> ws_byte c" "\<not> is_ascii_uppercase c" "c \<noteq> CHR ''/''" "c \<noteq> CHR '':''" "c \<noteq> CHR ''@''"
  using assms by (auto simp: repo_byte_def is_repo_alphanumeric_def ascii_class_defs ws_byte_def)

lemma tag_byte_plain:
  assumes "tag_byte c"
  shows "\<not> ws_byte c" "c \<noteq> CHR ''/''" "c \<noteq> CHR '':''" "c \<noteq> CHR ''@''"
  using assms by (auto simp: tag_byte_def ascii_class_defs ws_byte_def)

lemma validate_repository_iff:
  "validate_repository r = Inr u \<longleftrightarrow>
     r \<noteq> [] \<and> length r \<le> 255 \<and> list_all repo_component (split_on (CHR ''/'') r)"
  by (auto simp: validate_repository_def valid_repository_component_iff find_None_iff
      list_all_iff find_Some_iff split: option.splits)

lemma validate_repository_bytes:
  assumes "validate_repository r = Inr u" and "c \<in> set r"
  shows "repo_byte c \<or> c = CHR ''/''"
proof -
  have "c \<in> set (join ''/'' (split_on (CHR ''/'') r))"
    using assms(2) by (simp add: join_split_on)
  moreover have "set (join ''/'' ps) \<subseteq> {CHR ''/''} \<union> (\<Union>p \<in> set ps. set p)" for ps
    by (induction "''/''" ps rule: join.induct) auto
  ultimately show ?thesis
    using assms(1) component_bytes by (fastforce simp: validate_repository_iff list_all_iff)
qed

lemma repository_lower:
  "validate_repository r = Inr u \<Longrightarrow> to_ascii_lowercase r = r"
  by (auto simp: to_ascii_lowercase_def intro!: map_idI to_ascii_lowercase_char_id
      dest!: validate_repository_bytes repo_byte_plain(2))
    (simp add: is_ascii_uppercase_def)

lemma repository_no_sep:
  assumes "validate_repository r = Inr u"
  shows "CHR '':'' \<notin> set r" "CHR ''@'' \<notin> set r"
  using validate_repository_bytes [OF assms] repo_byte_plain by fastforce+

lemma repository_not_ws:
  assumes "validate_repository r = Inr u" and "c \<in> set r"
  shows "\<not> ws_byte c"
  using validate_repository_bytes [OF assms] repo_byte_plain(1) by (auto simp: ws_byte_def)

lemma validate_tag_bytes:
  assumes "validate_tag t = Inr u" and "c \<in> set t"
  shows "tag_byte c"
  using assms by (cases t) (auto simp: validate_tag_def tag_byte_def list_all_iff split: if_splits)

lemma tag_no_sep:
  assumes "validate_tag t = Inr u"
  shows "t \<noteq> []" "CHR ''/'' \<notin> set t" "CHR '':'' \<notin> set t" "CHR ''@'' \<notin> set t"
  using validate_tag_bytes [OF assms] tag_byte_plain assms
  by (force simp: validate_tag_def)+

lemma split_tag_ok:
  assumes "split_tag p = Inr (repo, t)"
  shows "validate_repository repo = Inr ()"
    and "t = Some t' \<Longrightarrow> validate_tag t' = Inr () \<and> to_ascii_lowercase t' = t'"
  using assms
  by (auto simp: split_tag_def and_then_eq_Inr_iff repository_lower split: option.splits if_splits)

lemma split_tag_tagged:
  assumes "validate_repository repo = Inr ()" "validate_tag t = Inr ()" "to_ascii_lowercase t = t"
  shows "split_tag (repo @ '':'' @ t) = Inr (repo, Some t)"
proof -
  have "repo \<noteq> []" using assms(1) by (simp add: validate_repository_iff)
  with assms tag_no_sep [OF assms(2)] show ?thesis
    by (simp add: split_tag_def rsplit_once_append repository_lower)
qed

lemma split_tag_untagged:
  assumes "validate_repository repo = Inr ()"
  shows "split_tag repo = Inr (repo, None)"
proof -
  have "rsplit_once (CHR '':'') repo = None"
    using repository_no_sep [OF assms] by (simp add: rsplit_once_None_iff)
  with assms show ?thesis by (simp add: split_tag_def repository_lower)
qed

lemma validate_repository_library:
  assumes "validate_repository repo = Inr ()" and "length (''library/'' @ repo) \<le> 255"
  shows "validate_repository (''library/'' @ repo) = Inr ()"
proof -
  have "repo_component ''library''"
    by (rule repo_component.run) (simp_all add: is_repo_alphanumeric_def ascii_class_defs)
  with assms show ?thesis
    using split_on_append [of "CHR ''/''" "''library''" repo] by (simp add: validate_repository_iff)
qed

lemma is_digest_lower: "is_digest d \<Longrightarrow> is_digest (to_ascii_lowercase d)"
proof -
  assume d: "is_digest d"
  then obtain hex where d_eq: "d = ''sha256'' @ CHR '':'' # hex"
      and hex: "length hex = 64" "list_all is_ascii_hexdigit hex"
    by (auto simp: is_digest_def split: option.splits dest!: split_once_SomeD)
  have low: "to_ascii_lowercase (''sha256'' @ CHR '':'' # hex) =
      ''sha256'' @ CHR '':'' # to_ascii_lowercase hex"
    by (simp add: to_ascii_lowercase_def to_ascii_lowercase_char_def is_ascii_uppercase_def)
  have "list_all is_ascii_hexdigit (to_ascii_lowercase hex)"
    using hex(2) by (auto simp: list_all_iff to_ascii_lowercase_def ascii_class_defs
        code_to_ascii_lowercase_char)
  moreover have "split_once (CHR '':'') (''sha256'' @ CHR '':'' # h) = Some (''sha256'', h)" for h
    by (rule split_once_append) simp
  ultimately show ?thesis
    unfolding d_eq low is_digest_def using hex(1) by simp
qed

lemma digest_bytes:
  assumes "is_digest d" and "c \<in> set d"
  shows "\<not> ws_byte c" "c \<noteq> CHR ''@''"
proof -
  from assms(1) obtain hex where "d = ''sha256'' @ CHR '':'' # hex" "list_all is_ascii_hexdigit hex"
    by (auto simp: is_digest_def split: option.splits dest!: split_once_SomeD)
  with assms(2) show "\<not> ws_byte c" "c \<noteq> CHR ''@''"
    by (auto simp: list_all_iff ascii_class_defs ws_byte_def)
qed

definition wf_reference :: "Reference \<Rightarrow> bool" where
  "wf_reference r \<longleftrightarrow>
     validate_registry (registry r) = Inr () \<and> looks_like_registry (registry r) \<and>
     is_ascii (registry r) \<and> to_ascii_lowercase (registry r) = registry r \<and>
     validate_repository (repository r) = Inr () \<and>
     (registry r = DEFAULT_REGISTRY \<longrightarrow> CHR ''/'' \<in> set (repository r)) \<and>
     (case digest r of
        None \<Rightarrow> (\<exists>t. tag r = Some t \<and> validate_tag t = Inr () \<and> to_ascii_lowercase t = t)
      | Some d \<Rightarrow> tag r = None \<and> is_digest d \<and> to_ascii_lowercase d = d)"

lemma registry_bytes:
  assumes "validate_registry reg = Inr ()"
  shows "reg \<noteq> []" "CHR ''/'' \<notin> set reg" "CHR ''@'' \<notin> set reg"
    "c \<in> set reg \<Longrightarrow> is_ascii reg \<Longrightarrow> \<not> ws_byte c"
  using assms
  by (auto simp: validate_registry_def list_ex_iff is_ascii_def list_all_iff ascii_class_defs
      ws_byte_def split: if_splits)

lemma looks_like_registry_lower:
  assumes "looks_like_registry first"
  shows "looks_like_registry (to_ascii_lowercase first)"
proof (cases "first = ''localhost''")
  case True
  then show ?thesis by (simp add: looks_like_registry_def to_ascii_lowercase_def
        to_ascii_lowercase_char_def is_ascii_uppercase_def)
next
  case False
  have "CHR ''.'' \<in> set (to_ascii_lowercase first) \<longleftrightarrow> CHR ''.'' \<in> set first"
    "CHR '':'' \<in> set (to_ascii_lowercase first) \<longleftrightarrow> CHR '':'' \<in> set first"
    by (rule in_set_to_ascii_lowercase; simp add: ascii_class_defs)+
  with False assms show ?thesis by (auto simp: looks_like_registry_def)
qed

lemma default_registry_wf:
  "validate_registry DEFAULT_REGISTRY = Inr ()" "looks_like_registry DEFAULT_REGISTRY"
  "is_ascii DEFAULT_REGISTRY" "to_ascii_lowercase DEFAULT_REGISTRY = DEFAULT_REGISTRY"
  by (simp_all add: DEFAULT_REGISTRY_def validate_registry_def looks_like_registry_def
      is_ascii_def to_ascii_lowercase_def to_ascii_lowercase_char_def ascii_class_defs
      rsplit_once_def split_once_def)

lemma is_ascii_lower [simp]: "is_ascii (to_ascii_lowercase s) \<longleftrightarrow> is_ascii s"
  by (auto simp: is_ascii_def list_all_iff to_ascii_lowercase_def code_to_ascii_lowercase_char
      is_ascii_uppercase_def)

lemma is_ascii_strip_seqs: "is_ascii s \<Longrightarrow> is_ascii (strip_seqs ws s)"
proof (induction ws s rule: strip_seqs.induct)
  case (1 ws s)
  have "is_ascii (drop n s)" for n
    using "1.prems" by (auto simp: is_ascii_def list_all_iff dest: in_set_dropD)
  with 1 show ?case by (subst strip_seqs.simps) (auto split: option.split)
qed

lemma is_ascii_rev [simp]: "is_ascii (rev s) \<longleftrightarrow> is_ascii s"
  by (simp add: is_ascii_def)

lemma is_ascii_trim: "is_ascii s \<Longrightarrow> is_ascii (trim s)"
  by (simp add: trim_def trim_start_def trim_end_def is_ascii_strip_seqs)

lemma is_ascii_append [simp]: "is_ascii (s @ t) \<longleftrightarrow> is_ascii s \<and> is_ascii t"
  by (simp add: is_ascii_def)

lemma is_ascii_Cons [simp]: "is_ascii (c # t) \<longleftrightarrow> code c < 128 \<and> is_ascii t"
  by (simp add: is_ascii_def)

lemma latest_wf: "validate_tag ''latest'' = Inr ()" "to_ascii_lowercase ''latest'' = ''latest''"
  by (simp_all add: validate_tag_def tag_byte_def ascii_class_defs to_ascii_lowercase_def
      to_ascii_lowercase_char_def)

section \<open>The canonical form parses back\<close>

lemma parse_ok_wf:
  assumes "Reference_parse ul input = Inr r" and "is_ascii input" and "length (repository r) \<le> 255"
  shows "wf_reference r"
proof -
  let ?input = "trim input"
  have asc: "is_ascii ?input" using assms(2) by (rule is_ascii_trim)
  from assms(1) obtain rest dig where 1:
      "(case rsplit_once (CHR ''@'') ?input of
          Some (rest, d) \<Rightarrow>
            if is_digest d then Inr (rest, Some (to_ascii_lowercase d)) else Inl (InvalidDigest d)
        | None \<Rightarrow> Inr (?input, None)) = Inr (rest, dig)"
    by (auto simp: Reference_parse_def Let_def and_then_eq_Inr_iff split: if_splits)
  have asc_rest: "is_ascii rest"
    using 1 asc by (auto split: option.splits if_splits dest!: rsplit_once_SomeD)
  have dig: "dig = Some d \<Longrightarrow> is_digest d \<and> to_ascii_lowercase d = d" for d
    using 1 by (auto split: option.splits if_splits intro: is_digest_lower)
  from assms(1) 1 obtain reg repo_part repo t where 2:
      "(case split_once (CHR ''/'') rest of
          Some (first, tail) \<Rightarrow>
            if looks_like_registry first then (to_lowercase ul first, tail)
            else (DEFAULT_REGISTRY, rest)
        | None \<Rightarrow> (DEFAULT_REGISTRY, rest)) = (reg, repo_part)"
      and reg: "validate_registry reg = Inr ()" and st: "split_tag repo_part = Inr (repo, t)"
      and r: "r = \<lparr> registry = reg,
                 repository = (if reg = DEFAULT_REGISTRY \<and> CHR ''/'' \<notin> set repo
                               then ''library/'' @ repo else repo),
                 tag = (if dig \<noteq> None then None
                        else Some (case t of None \<Rightarrow> ''latest'' | Some t \<Rightarrow> t)),
                 digest = dig \<rparr>"
    by (auto simp: Reference_parse_def Let_def and_then_eq_Inr_iff split: if_splits prod.splits)
  have lr: "looks_like_registry reg \<and> is_ascii reg \<and> to_ascii_lowercase reg = reg"
    using 2 asc_rest
    by (auto simp: default_registry_wf to_lowercase_def looks_like_registry_lower
        split: option.splits if_splits dest!: split_once_SomeD)
  have "validate_repository (repository r) = Inr ()"
    using split_tag_ok(1) [OF st] assms(3) validate_repository_library
    by (auto simp: r split: if_splits)
  moreover have "tag r = Some u \<Longrightarrow> validate_tag u = Inr () \<and> to_ascii_lowercase u = u" for u
    using split_tag_ok(2) [OF st] latest_wf by (auto simp: r split: if_splits option.splits)
  ultimately show ?thesis
    using reg lr dig by (auto simp: wf_reference_def r split: option.splits)
qed

lemma Reference_parse_steps:
  assumes "trim c = c" and "c \<noteq> []" and "rest \<noteq> []"
    and "(case rsplit_once (CHR ''@'') c of
          Some (rest, d) \<Rightarrow>
            if is_digest d then Inr (rest, Some (to_ascii_lowercase d)) else Inl (InvalidDigest d)
        | None \<Rightarrow> Inr (c, None)) = Inr (rest, dig)"
    and "split_once (CHR ''/'') rest = Some (reg, tail)" and "looks_like_registry reg"
    and "is_ascii reg" and "to_ascii_lowercase reg = reg"
    and "validate_registry reg = Inr ()" and "split_tag tail = Inr (repo, t)"
    and "reg = DEFAULT_REGISTRY \<Longrightarrow> CHR ''/'' \<in> set repo"
  shows "Reference_parse ul c = Inr \<lparr> registry = reg, repository = repo,
     tag = (if dig \<noteq> None then None else Some (case t of None \<Rightarrow> ''latest'' | Some t \<Rightarrow> t)),
     digest = dig \<rparr>"
  using assms by (simp add: Reference_parse_def to_lowercase_def)

lemma wf_reference_parses:
  assumes wf: "wf_reference r"
  shows "Reference_parse ul (canonical r) = Inr r"
proof -
  obtain reg repo tg dg where r: "r = \<lparr>registry = reg, repository = repo, tag = tg, digest = dg\<rparr>"
    by (cases r)
  note wf' = wf [unfolded r wf_reference_def, simplified]
  have reg: "reg \<noteq> []" "CHR ''/'' \<notin> set reg" "CHR ''@'' \<notin> set reg"
      "\<And>c. c \<in> set reg \<Longrightarrow> \<not> ws_byte c"
    using registry_bytes wf' by blast+
  have repo: "CHR '':'' \<notin> set repo" "CHR ''@'' \<notin> set repo" "\<And>c. c \<in> set repo \<Longrightarrow> \<not> ws_byte c"
    using repository_no_sep repository_not_ws wf' by blast+
  let ?tail = "repo @ (case tg of None \<Rightarrow> [] | Some t \<Rightarrow> '':'' @ t)"
  let ?rest = "reg @ CHR ''/'' # ?tail"
  have tail: "split_tag ?tail = Inr (repo, tg)"
    using wf' split_tag_tagged split_tag_untagged by (auto split: option.splits)
  have tg: "CHR ''@'' \<notin> set ?tail" "\<And>c. c \<in> set ?tail \<Longrightarrow> \<not> ws_byte c"
    using wf' repo tag_no_sep validate_tag_bytes tag_byte_plain(1)
    by (auto simp: ws_byte_def split: option.splits)
  have can: "canonical r = ?rest @ (case dg of None \<Rightarrow> [] | Some d \<Rightarrow> CHR ''@'' # d)"
    by (simp add: canonical_def r split: option.split)
  have trim_c: "trim (canonical r) = canonical r"
    using reg(4) tg(2) wf' digest_bytes(1)
    by (intro trim_plain) (auto simp: can ws_byte_def split: option.splits)
  have ne: "canonical r \<noteq> []" using reg(1) by (simp add: can)
  have dig: "(case rsplit_once (CHR ''@'') (canonical r) of
          Some (rest, d) \<Rightarrow>
            if is_digest d then Inr (rest, Some (to_ascii_lowercase d)) else Inl (InvalidDigest d)
        | None \<Rightarrow> Inr (canonical r, None)) = Inr (?rest, dg)"
  proof (cases dg)
    case None
    then have "rsplit_once (CHR ''@'') (canonical r) = None"
      using reg(3) tg(1) by (simp add: rsplit_once_None_iff can)
    with None show ?thesis by (simp add: can)
  next
    case (Some d)
    then have "CHR ''@'' \<notin> set d" using wf' digest_bytes(2) by auto
    then have "rsplit_once (CHR ''@'') (?rest @ CHR ''@'' # d) = Some (?rest, d)"
      by (rule rsplit_once_append)
    then show ?thesis using Some wf' by (simp add: can)
  qed
  have sp: "split_once (CHR ''/'') ?rest = Some (reg, ?tail)"
    by (rule split_once_append) (fact reg(2))
  have tg_eq: "tg = (if dg \<noteq> None then None else Some (case tg of None \<Rightarrow> ''latest'' | Some t \<Rightarrow> t))"
    using wf' by (auto split: option.splits)
  have "Reference_parse ul (canonical r) = Inr \<lparr> registry = reg, repository = repo,
     tag = (if dg \<noteq> None then None else Some (case tg of None \<Rightarrow> ''latest'' | Some t \<Rightarrow> t)),
     digest = dg \<rparr>"
    by (rule Reference_parse_steps [OF trim_c ne _ dig sp]) (use wf' tail in auto)
  then show ?thesis using tg_eq r by simp
qed

section \<open>Properties\<close>

text \<open>C38: Every reference the parser accepts from ASCII input is printed in a canonical form that parses
  back to the same reference (the repository length is the one thing the parser checks too early, so it is a
  hypothesis).\<close>

theorem reference_roundtrip:
  assumes "Reference_parse ul input = Inr r" and "is_ascii input" and "length (repository r) \<le> 255"
  shows "Reference_parse ul (canonical r) = Inr r"
  by (rule wf_reference_parses) (rule parse_ok_wf [OF assms])

theorem reference_roundtrip_witness:
  "Reference_parse (\<lambda>s. s) (canonical \<lparr>registry = DEFAULT_REGISTRY, repository = ''library/a'',
     tag = Some ''latest'', digest = None\<rparr>) =
   Inr \<lparr>registry = DEFAULT_REGISTRY, repository = ''library/a'', tag = Some ''latest'', digest = None\<rparr>"
proof -
  let ?r = "\<lparr>registry = DEFAULT_REGISTRY, repository = ''library/a'', tag = Some ''latest'', digest = None\<rparr>"
  have "validate_repository ''a'' = Inr ()"
    by (simp add: validate_repository_def valid_repository_component_def component_scan.simps
        is_repo_alphanumeric_def ascii_class_defs)
  then have "validate_repository ''library/a'' = Inr ()"
    using validate_repository_library [of "''a''"] by simp
  then have "wf_reference ?r" by (simp add: wf_reference_def default_registry_wf latest_wf)
  then have "Reference_parse (\<lambda>s. s) (canonical ?r) = Inr ?r" by (rule wf_reference_parses)
  moreover have "is_ascii (canonical ?r)" by (simp add: canonical_def DEFAULT_REGISTRY_def is_ascii_def)
  ultimately show ?thesis by (rule reference_roundtrip) simp
qed

text \<open>The byte scanner for a repository path component accepts exactly the grammar of the distribution
  specification: alphanumeric runs separated by a dot, one or two underscores, or any number of dashes.\<close>

lemma repository_component_grammar: "valid_repository_component s \<longleftrightarrow> repo_component s"
  by (rule valid_repository_component_iff)

end
