(* ===== verification/Security.thy ===== *)
theory Security
  imports Rust_Str
begin

text \<open>
  Capability sets and the hardening sequence (src/security.rs). \<open>CapabilitySet\<close> is the
  iteration order of its \<open>BTreeSet\<close>; \<open>cap_last_cap()\<close>, a number the kernel reports, is the
  parameter \<open>last_cap\<close>. The system calls of the hardening sequence are recorded in the order
  they are issued, and the kernel's answer to each is a parameter: a failed call ends the
  sequence, as the \<open>?\<close> operator does.
\<close>

section \<open>Definitions\<close>

subsection \<open>Capability tables\<close>

definition CHOWN :: int where "CHOWN = 0"
definition DAC_OVERRIDE :: int where "DAC_OVERRIDE = 1"
definition FOWNER :: int where "FOWNER = 3"
definition FSETID :: int where "FSETID = 4"
definition KILL :: int where "KILL = 5"
definition SETGID :: int where "SETGID = 6"
definition SETUID :: int where "SETUID = 7"
definition SETPCAP :: int where "SETPCAP = 8"
definition NET_BIND_SERVICE :: int where "NET_BIND_SERVICE = 10"
definition SYS_CHROOT :: int where "SYS_CHROOT = 18"
definition MKNOD :: int where "MKNOD = 27"
definition AUDIT_WRITE :: int where "AUDIT_WRITE = 29"
definition SETFCAP :: int where "SETFCAP = 31"

lemmas cap_defs = CHOWN_def DAC_OVERRIDE_def FOWNER_def FSETID_def KILL_def SETGID_def SETUID_def
  SETPCAP_def NET_BIND_SERVICE_def SYS_CHROOT_def MKNOD_def AUDIT_WRITE_def SETFCAP_def

definition CAPABILITY_NAMES :: "string list" where
  "CAPABILITY_NAMES =
    [''CHOWN'', ''DAC_OVERRIDE'', ''DAC_READ_SEARCH'', ''FOWNER'', ''FSETID'', ''KILL'',
     ''SETGID'', ''SETUID'', ''SETPCAP'', ''LINUX_IMMUTABLE'', ''NET_BIND_SERVICE'',
     ''NET_BROADCAST'', ''NET_ADMIN'', ''NET_RAW'', ''IPC_LOCK'', ''IPC_OWNER'',
     ''SYS_MODULE'', ''SYS_RAWIO'', ''SYS_CHROOT'', ''SYS_PTRACE'', ''SYS_PACCT'',
     ''SYS_ADMIN'', ''SYS_BOOT'', ''SYS_NICE'', ''SYS_RESOURCE'', ''SYS_TIME'',
     ''SYS_TTY_CONFIG'', ''MKNOD'', ''LEASE'', ''AUDIT_WRITE'', ''AUDIT_CONTROL'', ''SETFCAP'',
     ''MAC_OVERRIDE'', ''MAC_ADMIN'', ''SYSLOG'', ''WAKE_ALARM'', ''BLOCK_SUSPEND'',
     ''AUDIT_READ'', ''PERFMON'', ''BPF'', ''CHECKPOINT_RESTORE'']"

definition DEFAULT_CAPS :: "int list" where
  "DEFAULT_CAPS = [CHOWN, DAC_OVERRIDE, FSETID, FOWNER, MKNOD, SETGID, SETUID, SETFCAP, SETPCAP,
     NET_BIND_SERVICE, SYS_CHROOT, KILL, AUDIT_WRITE]"

subsection \<open>Requests\<close>

datatype cap_error =
    CapInvalidList string
  | CapInvalid string
  | CapOutOfRange string
  | CapUnknown string
  | CapUnsupported int
  | CapAllInExactSet

datatype CapabilityRequest = AllCaps | Named int

text \<open>The derived order: \<open>AllCaps\<close> (the constructor \<open>All\<close>) first, then by number.\<close>

instantiation CapabilityRequest :: linorder
begin

fun less_eq_CapabilityRequest :: "CapabilityRequest \<Rightarrow> CapabilityRequest \<Rightarrow> bool" where
  "less_eq_CapabilityRequest AllCaps _ = True"
| "less_eq_CapabilityRequest (Named _) AllCaps = False"
| "less_eq_CapabilityRequest (Named a) (Named b) = (a \<le> b)"

definition less_CapabilityRequest :: "CapabilityRequest \<Rightarrow> CapabilityRequest \<Rightarrow> bool" where
  "less_CapabilityRequest x y \<longleftrightarrow> x \<le> y \<and> \<not> y \<le> x"

instance
proof
  fix x y z :: CapabilityRequest
  show "(x < y) = (x \<le> y \<and> \<not> y \<le> x)" by (simp add: less_CapabilityRequest_def)
  show "x \<le> x" by (cases x) auto
  show "x \<le> y \<Longrightarrow> y \<le> z \<Longrightarrow> x \<le> z" by (cases x; cases y; cases z) auto
  show "x \<le> y \<Longrightarrow> y \<le> x \<Longrightarrow> x = y" by (cases x; cases y) auto
  show "x \<le> y \<or> y \<le> x" by (cases x; cases y) auto
qed

end

definition capability_name :: "int \<Rightarrow> string" where
  "capability_name cap =
     (if 0 \<le> cap \<and> nat cap < length CAPABILITY_NAMES
      then ''CAP_'' @ CAPABILITY_NAMES ! nat cap else ''CAP_'' @ show_int cap)"

definition ensure_supported :: "int \<Rightarrow> int \<Rightarrow> cap_error + unit" where
  "ensure_supported cap lim = (if cap > lim then Inl (CapUnsupported cap) else Inr ())"

definition parse_request :: "string \<Rightarrow> cap_error + CapabilityRequest" where
  "parse_request raw =
     (let value = to_ascii_uppercase (trim raw) in
      if value = ''ALL'' then Inr AllCaps
      else
        (let name = (case strip_prefix ''CAP_'' value of None \<Rightarrow> value | Some n \<Rightarrow> n) in
         if name = [] then Inl (CapInvalid raw)
         else (case parse_i32 name of
             Some cap \<Rightarrow> if 0 \<le> cap \<and> cap \<le> 63 then Inr (Named cap) else Inl (CapOutOfRange raw)
           | None \<Rightarrow> (case position (\<lambda>candidate. candidate = name) CAPABILITY_NAMES of
               Some cap \<Rightarrow> Inr (Named (int cap))
             | None \<Rightarrow> Inl (CapUnknown raw)))))"

definition parse_requests :: "string \<Rightarrow> cap_error + CapabilityRequest list" where
  "parse_requests raw =
     (let values = split_on (CHR '','') raw in
      if list_ex (\<lambda>v. trim v = []) values then Inl (CapInvalidList raw)
      else and_then (map_result parse_request values) (\<lambda>rs. Inr (btree_set rs)))"

fun parse_requests_from ::
  "CapabilityRequest list \<Rightarrow> string list \<Rightarrow> cap_error + CapabilityRequest list" where
  "parse_requests_from requests [] = Inr requests"
| "parse_requests_from requests (v # vs) =
     and_then (parse_requests v) (\<lambda>rs. parse_requests_from (btree_extend requests rs) vs)"

definition parse_requests_many :: "string list \<Rightarrow> cap_error + CapabilityRequest list" where
  "parse_requests_many vs = parse_requests_from [] vs"

definition parse_capability_list :: "string \<Rightarrow> cap_error + string list" where
  "parse_capability_list raw =
     and_then (parse_requests raw) (\<lambda>rs. Inr (map (\<lambda>r. case r of
        AllCaps \<Rightarrow> ''ALL'' | Named cap \<Rightarrow> capability_name cap) rs))"

subsection \<open>Capability sets\<close>

definition default_set :: "int list" where
  "default_set = btree_set DEFAULT_CAPS"

fun apply_drops :: "int \<Rightarrow> CapabilityRequest list \<Rightarrow> int list \<Rightarrow> cap_error + int list" where
  "apply_drops lim [] caps = Inr caps"
| "apply_drops lim (AllCaps # rs) caps = apply_drops lim rs []"
| "apply_drops lim (Named cap # rs) caps =
     and_then (ensure_supported cap lim) (\<lambda>_. apply_drops lim rs (removeAll cap caps))"

fun apply_adds :: "int \<Rightarrow> CapabilityRequest list \<Rightarrow> int list \<Rightarrow> cap_error + int list" where
  "apply_adds lim [] caps = Inr caps"
| "apply_adds lim (AllCaps # rs) caps = apply_adds lim rs (btree_extend caps [0..lim])"
| "apply_adds lim (Named cap # rs) caps =
     and_then (ensure_supported cap lim) (\<lambda>_. apply_adds lim rs (btree_extend caps [cap]))"

definition resolve_caps :: "nat \<Rightarrow> string list \<Rightarrow> string list \<Rightarrow> cap_error + int list" where
  "resolve_caps last_cap adds drops =
     and_then (parse_requests_many adds) (\<lambda>adds.
     and_then (parse_requests_many drops) (\<lambda>drops.
     let lim = int (min last_cap 63) in
     and_then (apply_drops lim drops default_set) (\<lambda>caps.
     apply_adds lim adds caps)))"

fun exact_caps :: "int \<Rightarrow> CapabilityRequest list \<Rightarrow> int list \<Rightarrow> cap_error + int list" where
  "exact_caps lim [] caps = Inr caps"
| "exact_caps lim (AllCaps # rs) caps = Inl CapAllInExactSet"
| "exact_caps lim (Named cap # rs) caps =
     and_then (ensure_supported cap lim) (\<lambda>_. exact_caps lim rs (btree_extend caps [cap]))"

definition from_names :: "nat \<Rightarrow> string list \<Rightarrow> cap_error + int list" where
  "from_names last_cap names =
     (let lim = int (min last_cap 63) in
      and_then (parse_requests_many names) (\<lambda>rs. exact_caps lim rs []))"

definition cap_names :: "int list \<Rightarrow> string list" where
  "cap_names caps = map capability_name caps"

definition keep_mask :: "int list \<Rightarrow> 32 word \<times> 32 word" where
  "keep_mask keep = fold (\<lambda>c (lo, hi).
     let c = nat c in
     if c < 32 then (or lo (push_bit c 1), hi) else (lo, or hi (push_bit (c - 32) 1)))
     keep (0, 0)"

subsection \<open>The hardening sequence\<close>

datatype SeccompMode = Default | Unconfined

datatype sec_call =
    NoNewPrivs
  | DropBounding int
  | SetCapabilities "32 word" "32 word"
  | InstallSeccomp
  | ClearGroups
  | SetGid nat
  | SetUid nat

text \<open>Issue one call after the calls already made; the kernel accepts it or the sequence ends.\<close>

definition issue ::
  "(sec_call \<Rightarrow> bool) \<Rightarrow> sec_call \<Rightarrow> sec_call list \<Rightarrow> (sec_call \<times> sec_call list) + sec_call list" where
  "issue sys c done = (if sys c then Inr (done @ [c]) else Inl (c, done @ [c]))"

fun issue_all ::
  "(sec_call \<Rightarrow> bool) \<Rightarrow> sec_call list \<Rightarrow> sec_call list \<Rightarrow> (sec_call \<times> sec_call list) + sec_call list" where
  "issue_all sys [] done = Inr done"
| "issue_all sys (c # cs) done = and_then (issue sys c done) (issue_all sys cs)"

definition no_new_privs :: "(sec_call \<Rightarrow> bool) \<Rightarrow> sec_call list \<Rightarrow> (sec_call \<times> sec_call list) + sec_call list" where
  "no_new_privs sys done = issue sys NoNewPrivs done"

definition apply_capabilities ::
  "(sec_call \<Rightarrow> bool) \<Rightarrow> nat \<Rightarrow> int list \<Rightarrow> sec_call list \<Rightarrow> (sec_call \<times> sec_call list) + sec_call list" where
  "apply_capabilities sys last_cap keep done =
     (let (lo, hi) = keep_mask keep in
      and_then (issue_all sys (map DropBounding (filter (\<lambda>c. c \<notin> set keep) [0..int last_cap])) done)
        (issue sys (SetCapabilities lo hi)))"

definition seccomp_apply ::
  "(sec_call \<Rightarrow> bool) \<Rightarrow> SeccompMode \<Rightarrow> sec_call list \<Rightarrow> (sec_call \<times> sec_call list) + sec_call list" where
  "seccomp_apply sys mode done =
     (if mode = Unconfined then Inr done else issue sys InstallSeccomp done)"

definition harden ::
  "(sec_call \<Rightarrow> bool) \<Rightarrow> nat \<Rightarrow> SeccompMode \<Rightarrow> int list \<Rightarrow> sec_call list
    \<Rightarrow> (sec_call \<times> sec_call list) + sec_call list" where
  "harden sys last_cap mode caps done =
     and_then (no_new_privs sys done) (\<lambda>done.
     and_then (apply_capabilities sys last_cap caps done) (\<lambda>done.
     seccomp_apply sys mode done))"

subsection \<open>Dropping to the container user\<close>

text \<open>\<open>passwd\<close> and \<open>groups\<close> are the contents of the container's \<open>/etc/passwd\<close> and \<open>/etc/group\<close>, or none
  when the file cannot be read as text.\<close>

datatype user_error =
    UserEmpty
  | UserInvalid string
  | UserNoName string
  | UserNoGroup string
  | UserUnknown string
  | GroupUnknown string
  | UserRootless string

record ResolvedUser =
  uid :: nat
  gid :: nat

definition parse_id :: "string \<Rightarrow> nat option" where
  "parse_id v = (if v = [] \<or> \<not> list_all is_ascii_digit v then None else parse_uint U32_MAX v)"

definition lookup_user_uid_gid :: "string option \<Rightarrow> string \<Rightarrow> (nat \<times> nat) option" where
  "lookup_user_uid_gid passwd name = (case passwd of None \<Rightarrow> None | Some txt \<Rightarrow>
     (case find (\<lambda>fs. 4 \<le> length fs \<and> hd fs = name) (map (split_on (CHR '':'')) (lines txt)) of
        None \<Rightarrow> None
      | Some fs \<Rightarrow>
          (case (parse_uint U32_MAX (fs ! 2), parse_uint U32_MAX (fs ! 3)) of
             (Some u, Some g) \<Rightarrow> Some (u, g) | _ \<Rightarrow> None)))"

definition lookup_group_gid :: "string option \<Rightarrow> string \<Rightarrow> nat option" where
  "lookup_group_gid groups name = (case groups of None \<Rightarrow> None | Some txt \<Rightarrow>
     (case find (\<lambda>fs. 3 \<le> length fs \<and> hd fs = name) (map (split_on (CHR '':'')) (lines txt)) of
        None \<Rightarrow> None | Some fs \<Rightarrow> parse_uint U32_MAX (fs ! 2)))"

definition resolve_user_spec ::
  "string option \<Rightarrow> string option \<Rightarrow> string \<Rightarrow> user_error + ResolvedUser" where
  "resolve_user_spec passwd groups raw0 =
     (let raw = trim raw0 in
      if raw = [] then Inl UserEmpty
      else and_then (case split_once (CHR '':'') raw of
          Some (user, grp) \<Rightarrow> if CHR '':'' \<in> set grp then Inl (UserInvalid raw) else Inr (user, Some grp)
        | None \<Rightarrow> Inr (raw, None)) (\<lambda>parts. case parts of (user_part, group_part) \<Rightarrow>
      if user_part = [] then Inl (UserNoName raw)
      else and_then (case parse_id user_part of Some i \<Rightarrow> Inr i
          | None \<Rightarrow> ok_or (UserUnknown user_part) (map_option fst (lookup_user_uid_gid passwd user_part)))
        (\<lambda>u.
      and_then (case group_part of
          Some grp \<Rightarrow> if grp = [] then Inl (UserNoGroup raw)
            else (case parse_id grp of Some i \<Rightarrow> Inr i
              | None \<Rightarrow> ok_or (GroupUnknown grp) (lookup_group_gid groups grp))
        | None \<Rightarrow> (case parse_id user_part of Some i \<Rightarrow> Inr i
              | None \<Rightarrow> ok_or (UserUnknown user_part) (map_option snd (lookup_user_uid_gid passwd user_part))))
        (\<lambda>g. Inr \<lparr>uid = u, gid = g\<rparr>))))"

text \<open>The calls \<open>switch_user\<close> makes, or the error it ends with before any.\<close>

definition switch_user_calls ::
  "string option \<Rightarrow> string option \<Rightarrow> string option \<Rightarrow> bool \<Rightarrow> user_error + sec_call list" where
  "switch_user_calls passwd groups spec rootless = (case spec of None \<Rightarrow> Inr [] | Some raw \<Rightarrow>
     and_then (resolve_user_spec passwd groups raw) (\<lambda>r.
       if rootless \<and> (uid r \<noteq> 0 \<or> gid r \<noteq> 0) then Inl (UserRootless raw)
       else if uid r = 0 \<and> gid r = 0 then Inr []
       else Inr [ClearGroups, SetGid (gid r), SetUid (uid r)]))"

datatype start_error = UserFailed user_error "sec_call list" | CallFailed sec_call "sec_call list"

definition switch_user ::
  "(sec_call \<Rightarrow> bool) \<Rightarrow> string option \<Rightarrow> string option \<Rightarrow> string option \<Rightarrow> bool \<Rightarrow> sec_call list
    \<Rightarrow> start_error + sec_call list" where
  "switch_user sys passwd groups spec rootless done =
     (case switch_user_calls passwd groups spec rootless of
        Inl e \<Rightarrow> Inl (UserFailed e done)
      | Inr cs \<Rightarrow> (case issue_all sys cs done of
          Inl (c, tr) \<Rightarrow> Inl (CallFailed c tr) | Inr tr \<Rightarrow> Inr tr))"

text \<open>What the container's init does between its mounts and its \<open>execve\<close>: harden, then drop to the
  user. \<open>execc.rs\<close> runs the same two calls in the same order.\<close>

definition confine ::
  "(sec_call \<Rightarrow> bool) \<Rightarrow> nat \<Rightarrow> SeccompMode \<Rightarrow> int list \<Rightarrow> string option \<Rightarrow> string option \<Rightarrow> string option
    \<Rightarrow> bool \<Rightarrow> start_error + sec_call list" where
  "confine sys last_cap mode caps passwd groups spec rootless =
     (case harden sys last_cap mode caps [] of
        Inl (c, tr) \<Rightarrow> Inl (CallFailed c tr)
      | Inr tr \<Rightarrow> switch_user sys passwd groups spec rootless tr)"

section \<open>Names and requests\<close>

definition cap_byte :: "char \<Rightarrow> bool" where
  "cap_byte c \<longleftrightarrow> is_ascii_uppercase c \<or> is_ascii_digit c \<or> c = CHR ''_''"

lemma cap_byte_plain:
  assumes "cap_byte c"
  shows "\<not> ws_byte c" "to_ascii_uppercase_char c = c" "c \<noteq> CHR '',''"
  using assms by (auto simp: cap_byte_def ascii_class_defs ws_byte_def to_ascii_uppercase_char_def)

lemma names_plain:
  "list_all (\<lambda>n. n \<noteq> [] \<and> list_all cap_byte n \<and> is_ascii_uppercase (hd n)) CAPABILITY_NAMES"
  by (simp add: CAPABILITY_NAMES_def cap_byte_def ascii_class_defs)

lemma distinct_names: "distinct CAPABILITY_NAMES"
  by (simp add: CAPABILITY_NAMES_def)

lemma length_names [simp]: "length CAPABILITY_NAMES = 41"
  by (simp add: CAPABILITY_NAMES_def)

lemma prefixed_name:
  assumes "n \<noteq> []" and "list_all cap_byte n"
  shows "trim (''CAP_'' @ n) = ''CAP_'' @ n"
    and "to_ascii_uppercase (''CAP_'' @ n) = ''CAP_'' @ n"
    and "\<exists>c cs. ''CAP_'' @ n = c # cs \<and> list_all cap_byte (c # cs)"
proof -
  have all: "\<forall>c \<in> set (''CAP_'' @ n). cap_byte c"
    using assms(2) by (auto simp: list_all_iff cap_byte_def ascii_class_defs)
  show "trim (''CAP_'' @ n) = ''CAP_'' @ n"
    using all cap_byte_plain(1) by (intro trim_plain) blast
  show "to_ascii_uppercase (''CAP_'' @ n) = ''CAP_'' @ n"
    unfolding to_ascii_uppercase_def using all cap_byte_plain(2) by (intro map_idI) blast
  show "\<exists>c cs. ''CAP_'' @ n = c # cs \<and> list_all cap_byte (c # cs)"
    using all by (auto simp: list_all_iff)
qed

lemma parse_request_prefixed:
  assumes "n \<noteq> []" and "list_all cap_byte n"
  shows "parse_request (''CAP_'' @ n) =
    (case parse_i32 n of
       Some cap \<Rightarrow> if 0 \<le> cap \<and> cap \<le> 63 then Inr (Named cap) else Inl (CapOutOfRange (''CAP_'' @ n))
     | None \<Rightarrow> (case position (\<lambda>c. c = n) CAPABILITY_NAMES of
         Some cap \<Rightarrow> Inr (Named (int cap)) | None \<Rightarrow> Inl (CapUnknown (''CAP_'' @ n))))"
  unfolding parse_request_def prefixed_name(1,2) [OF assms] strip_prefix_append Let_def option.case
  using assms(1) by simp

lemma show_int_nonneg: "0 \<le> i \<Longrightarrow> show_int i = show_nat (nat i)"
  by (simp add: show_int_def)

lemma capability_name_body:
  assumes "0 \<le> cap"
  obtains n where "capability_name cap = ''CAP_'' @ n" "n \<noteq> []" "list_all cap_byte n"
proof (cases "nat cap < length CAPABILITY_NAMES")
  case True
  then have "CAPABILITY_NAMES ! nat cap \<in> set CAPABILITY_NAMES" by (rule nth_mem)
  with names_plain assms True show ?thesis
    by (intro that [of "CAPABILITY_NAMES ! nat cap"]) (auto simp: capability_name_def list_all_iff)
next
  case False
  with assms show ?thesis
    by (intro that [of "show_nat (nat cap)"])
      (auto simp: capability_name_def show_int_nonneg list_all_iff cap_byte_def
        dest: show_nat_is_digit)
qed

lemma uppercase_not_number:
  assumes "is_ascii_uppercase (hd n)" and "n \<noteq> []"
  shows "parse_i32 n = None"
proof -
  obtain c cs where n: "n = c # cs" using assms(2) by (cases n) auto
  then have "c \<noteq> CHR ''+''" "c \<noteq> CHR ''-''" "digit_val c = None"
    using assms(1) by (auto simp: ascii_class_defs digit_val_def)
  with n show ?thesis by (simp add: parse_int_def)
qed

lemma parse_capability_name:
  assumes "0 \<le> cap" and "cap \<le> 63"
  shows "parse_request (capability_name cap) = Inr (Named cap)"
proof (cases "nat cap < length CAPABILITY_NAMES")
  case True
  let ?n = "CAPABILITY_NAMES ! nat cap"
  have mem: "?n \<in> set CAPABILITY_NAMES" using True by (rule nth_mem)
  have n: "?n \<noteq> []" "list_all cap_byte ?n" "is_ascii_uppercase (hd ?n)"
    using names_plain mem by (auto simp: list_all_iff)
  have "position (\<lambda>c. c = ?n) CAPABILITY_NAMES = Some (nat cap)"
    using distinct_names True by (rule position_distinct)
  moreover have "capability_name cap = ''CAP_'' @ ?n"
    using True assms(1) by (simp add: capability_name_def)
  ultimately show ?thesis
    unfolding \<open>capability_name cap = _\<close> parse_request_prefixed [OF n(1,2)]
    using assms(1) uppercase_not_number [OF n(3,1)] by simp
next
  case False
  have n: "list_all cap_byte (show_nat (nat cap))"
    by (auto simp: list_all_iff cap_byte_def dest: show_nat_is_digit)
  moreover have eq: "capability_name cap = ''CAP_'' @ show_nat (nat cap)"
    using False assms(1) by (simp add: capability_name_def show_int_nonneg)
  moreover have "parse_i32 (show_nat (nat cap)) = Some cap"
    using parse_int_show_int [of "- (2 ^ 31)" "2 ^ 31 - 1" cap] assms by (simp add: show_int_nonneg)
  ultimately show ?thesis
    unfolding eq parse_request_prefixed [OF show_nat_not_Nil n] using assms by simp
qed

lemma parse_requests_name:
  assumes "0 \<le> cap" and "cap \<le> 63"
  shows "parse_requests (capability_name cap) = Inr [Named cap]"
proof -
  obtain n where n: "capability_name cap = ''CAP_'' @ n" "n \<noteq> []" "list_all cap_byte n"
    using capability_name_body [OF assms(1)] .
  have "CHR '','' \<notin> set (capability_name cap)"
    using n cap_byte_plain(3) by (auto simp: list_all_iff)
  moreover have "trim (capability_name cap) \<noteq> []"
    using prefixed_name(1) [OF n(2,3)] n(1) by simp
  ultimately show ?thesis
    using parse_capability_name [OF assms]
    by (simp add: parse_requests_def split_on_plain btree_set_def)
qed

section \<open>Requested sets\<close>

lemma parse_requests_from_names:
  assumes "\<forall>c \<in> set caps. 0 \<le> c \<and> c \<le> 63" and "is_btree_set rs"
  shows "parse_requests_from rs (cap_names caps) = Inr (btree_set (rs @ map Named caps))"
  using assms
proof (induction caps arbitrary: rs)
  case Nil
  then show ?case by (simp add: cap_names_def btree_set_id)
next
  case (Cons c caps)
  have "btree_set (btree_extend rs [Named c] @ map Named caps) = btree_set (rs @ map Named (c # caps))"
    by (rule btree_set_unique) (auto simp: btree_extend_def)
  with Cons show ?case
    by (simp add: cap_names_def parse_requests_name)
qed

lemma exact_caps_named:
  assumes "\<forall>c \<in> set caps. c \<le> lim" and "is_btree_set acc"
  shows "exact_caps lim (map Named caps) acc = Inr (btree_set (acc @ caps))"
  using assms
proof (induction caps arbitrary: acc)
  case Nil
  then show ?case by (simp add: btree_set_id)
next
  case (Cons c caps)
  have "btree_set (btree_extend acc [c] @ caps) = btree_set (acc @ c # caps)"
    by (rule btree_set_unique) (auto simp: btree_extend_def)
  with Cons show ?case by (simp add: ensure_supported_def)
qed

lemma sorted_map_Named: "sorted (map Named caps) \<longleftrightarrow> sorted caps"
  by (induction caps) auto

lemma is_btree_set_map_Named: "is_btree_set caps \<Longrightarrow> is_btree_set (map Named caps)"
  by (auto simp: is_btree_set_def sorted_map_Named distinct_map inj_on_def)

text \<open>What each request list asks for.\<close>

definition wants_all :: "CapabilityRequest list \<Rightarrow> bool" where
  "wants_all rs \<longleftrightarrow> AllCaps \<in> set rs"

definition wanted :: "CapabilityRequest list \<Rightarrow> int set" where
  "wanted rs = {c. Named c \<in> set rs}"

lemma apply_drops_spec:
  assumes "apply_drops lim rs caps = Inr out" and "is_btree_set caps"
  shows "is_btree_set out \<and> set out = (if wants_all rs then {} else set caps - wanted rs)
    \<and> (\<forall>c \<in> wanted rs. c \<le> lim)"
  using assms
proof (induction lim rs caps rule: apply_drops.induct)
  case (2 lim rs caps)
  then show ?case by (auto simp: wants_all_def wanted_def)
next
  case (3 lim cap rs caps)
  then show ?case
    by (auto simp: wants_all_def wanted_def ensure_supported_def and_then_eq_Inr_iff split: if_splits)
qed (simp add: wants_all_def wanted_def)

lemma apply_adds_spec:
  assumes "apply_adds lim rs caps = Inr out" and "is_btree_set caps"
  shows "is_btree_set out \<and>
    set out = set caps \<union> wanted rs \<union> (if wants_all rs then {0..lim} else {})
    \<and> (\<forall>c \<in> wanted rs. c \<le> lim)"
  using assms
proof (induction lim rs caps rule: apply_adds.induct)
  case (2 lim rs caps)
  then show ?case by (auto simp: wants_all_def wanted_def)
next
  case (3 lim cap rs caps)
  then show ?case
    by (auto simp: wants_all_def wanted_def ensure_supported_def and_then_eq_Inr_iff split: if_splits)
qed (simp add: wants_all_def wanted_def)

section \<open>The capability masks\<close>

lemma keep_mask_bits:
  assumes "\<forall>c \<in> set keep. 0 \<le> c \<and> c \<le> 63"
  shows "(bit (fst (keep_mask keep)) i \<longleftrightarrow> i < 32 \<and> int i \<in> set keep) \<and>
         (bit (snd (keep_mask keep)) i \<longleftrightarrow> i < 32 \<and> int i + 32 \<in> set keep)"
proof -
  let ?step = "\<lambda>c (lo :: 32 word, hi :: 32 word). let c = nat c in
     if c < 32 then (or lo (push_bit c 1), hi) else (lo, or hi (push_bit (c - 32) 1))"
  have "(bit (fst (fold ?step ks (lo, hi))) i \<longleftrightarrow> bit lo i \<or> i < 32 \<and> int i \<in> set ks) \<and>
        (bit (snd (fold ?step ks (lo, hi))) i \<longleftrightarrow> bit hi i \<or> i < 32 \<and> int i + 32 \<in> set ks)"
    if "\<forall>c \<in> set ks. 0 \<le> c \<and> c \<le> 63" for ks lo hi
    using that
  proof (induction ks arbitrary: lo hi)
    case (Cons c ks)
    have b: "bit (or w (2 ^ n)) i \<longleftrightarrow> bit w i \<or> i < 32 \<and> i = n" if "n < 32" for w :: "32 word" and n
      using that by (auto simp: bit_or_iff bit_exp_iff)
    show ?case
    proof (cases "nat c < 32")
      case True
      with Cons show ?thesis by (auto simp: Let_def b)
    next
      case False
      with Cons.prems have "nat c - 32 < 32" by auto
      then show ?thesis using Cons False by (auto simp: Let_def b)
    qed
  qed simp
  from this [OF assms, of 0 0] show ?thesis by (simp add: keep_mask_def)
qed

section \<open>The hardening sequence\<close>

lemma issue_all_ok: "list_all sys cs \<Longrightarrow> issue_all sys cs done = Inr (done @ cs)"
  by (induction cs arbitrary: "done") (auto simp: issue_def)

lemma issue_all_Inr_iff:
  "issue_all sys cs done = Inr tr \<longleftrightarrow> list_all sys cs \<and> tr = done @ cs"
  by (induction cs arbitrary: "done") (auto simp: issue_def and_then_eq_Inr_iff)

text \<open>The whole sequence as one list of calls.\<close>

definition harden_calls :: "nat \<Rightarrow> SeccompMode \<Rightarrow> int list \<Rightarrow> sec_call list" where
  "harden_calls last_cap mode caps =
     NoNewPrivs # map DropBounding (filter (\<lambda>c. c \<notin> set caps) [0..int last_cap])
     @ [SetCapabilities (fst (keep_mask caps)) (snd (keep_mask caps))]
     @ (if mode = Unconfined then [] else [InstallSeccomp])"

lemma issue_all_append:
  "issue_all sys (as @ bs) done = and_then (issue_all sys as done) (issue_all sys bs)"
proof (induction as arbitrary: "done")
  case (Cons a as)
  then show ?case by (cases "issue sys a done") auto
qed simp

lemma harden_eq: "harden sys last_cap mode caps done = issue_all sys (harden_calls last_cap mode caps) done"
proof -
  have one: "issue_all sys [c] = issue sys c" for c
    by (rule ext) (auto simp: issue_def)
  show ?thesis
    by (cases "mode = Unconfined")
      (auto simp: harden_def no_new_privs_def apply_capabilities_def seccomp_apply_def
        harden_calls_def issue_all_append issue_def and_then_def split: prod.splits sum.splits)
qed

lemma is_btree_set_default [simp]: "is_btree_set default_set"
  by (simp add: default_set_def)

section \<open>Properties\<close>


text \<open>C28: Capability resolution: drops apply to the default set first and additions win over drops;
  \<open>ALL\<close> on the drop side empties the set and on the add side gives everything the kernel has; no
  capability above the kernel's last one is ever accepted on either side.\<close>

theorem resolve_caps_spec:
  assumes "resolve_caps last_cap adds drops = Inr caps"
  shows "\<exists>as ds. parse_requests_many adds = Inr as \<and> parse_requests_many drops = Inr ds \<and>
    set caps = (if wants_all ds then {} else set default_set - wanted ds) \<union> wanted as
      \<union> (if wants_all as then {0..int (min last_cap 63)} else {}) \<and>
    (\<forall>c \<in> wanted as \<union> wanted ds. c \<le> int (min last_cap 63)) \<and> sorted caps \<and> distinct caps"
proof -
  from assms obtain as ds mid where p: "parse_requests_many adds = Inr as" "parse_requests_many drops = Inr ds"
    and d: "apply_drops (int (min last_cap 63)) ds default_set = Inr mid"
    and a: "apply_adds (int (min last_cap 63)) as mid = Inr caps"
    by (auto simp: resolve_caps_def Let_def and_then_eq_Inr_iff)
  note drops = apply_drops_spec [OF d is_btree_set_default]
  then have "is_btree_set mid" by simp
  from drops apply_adds_spec [OF a this] p show ?thesis by (auto simp: is_btree_set_def)
qed

theorem resolve_caps_spec_witness:
  "\<exists>caps. resolve_caps 40 [capability_name 12] [''ALL''] = Inr caps \<and> set caps = {12}"
proof -
  have "trim ''ALL'' = ''ALL''" "parse_request ''ALL'' = Inr AllCaps"
    by (simp_all add: parse_request_def str_eval)
  then have "parse_requests_from [] [''ALL''] = Inr [AllCaps]"
    by (simp add: parse_requests_def btree_set_def btree_extend_def)
  moreover have "parse_requests_from [] [capability_name 12] = Inr [Named 12]"
    by (simp add: parse_requests_name btree_set_def btree_extend_def)
  ultimately have r: "resolve_caps 40 [capability_name 12] [''ALL''] = Inr [12]"
    by (simp add: resolve_caps_def parse_requests_many_def ensure_supported_def btree_extend_def btree_set_def)
  from resolve_caps_spec [OF r] show ?thesis using r by auto
qed

text \<open>The names a capability set is stored under are read back as the same set, whenever the
  kernel still has its capabilities.\<close>

lemma cap_names_roundtrip:
  assumes "is_btree_set caps" and "\<forall>c \<in> set caps. 0 \<le> c \<and> c \<le> int (min last_cap 63)"
  shows "from_names last_cap (cap_names caps) = Inr caps"
proof -
  have b: "\<forall>c \<in> set caps. 0 \<le> c \<and> c \<le> 63" using assms(2) by auto
  have "parse_requests_many (cap_names caps) = Inr (map Named caps)"
    using parse_requests_from_names [OF b, of "[]"] is_btree_set_map_Named [OF assms(1)]
    by (simp add: parse_requests_many_def btree_set_id)
  with assms exact_caps_named [of caps "int (min last_cap 63)" "[]"] show ?thesis
    by (simp add: from_names_def btree_set_id)
qed

lemma cap_names_roundtrip_witness: "from_names 40 (cap_names [0, 12, 40]) = Inr [0, 12, 40]"
  by (rule cap_names_roundtrip) (auto simp: is_btree_set_def)

text \<open>The two words handed to \<open>capset\<close> have exactly the bits of the kept capabilities.\<close>

lemma keep_mask_exact:
  assumes "\<forall>c \<in> set keep. 0 \<le> c \<and> c \<le> 63"
  shows "(bit (fst (keep_mask keep)) i \<longleftrightarrow> i < 32 \<and> int i \<in> set keep) \<and>
    (bit (snd (keep_mask keep)) i \<longleftrightarrow> i < 32 \<and> int i + 32 \<in> set keep)"
  by (rule keep_mask_bits [OF assms])

lemma keep_mask_exact_witness:
  "bit (fst (keep_mask [0, 40])) 0 \<and> \<not> bit (fst (keep_mask [0, 40])) 8 \<and> bit (snd (keep_mask [0, 40])) 8"
  using keep_mask_exact [of "[0, 40]" 0] keep_mask_exact [of "[0, 40]" 8] by simp

end
