(* ===== verification/Seccomp.thy ===== *)
theory Seccomp
  imports Security
begin

text \<open>
  The default seccomp profile (src/seccomp.rs). The syscall numbers are constants of the
  \<open>libc\<close> crate, so the table that maps a syscall name to its number is the parameter \<open>SYS\<close>.
  Everything else is the code's: the name lists, the sorted and deduplicated allowlist, and the
  BPF program laid out instruction by instruction.

  The filter runs in the kernel. What classic BPF documents for the three instructions the
  program is made of is the locale \<open>classic_bpf\<close>; the decision the program takes is proved
  from these laws, and \<open>bpf_run\<close> is the interpreter that satisfies them.
\<close>

section \<open>Definitions\<close>

record sock_filter =
  bcode :: "16 word"
  jt :: "8 word"
  jf :: "8 word"
  bk :: "32 word"

definition BPF_LD :: "16 word" where "BPF_LD = 0x00"
definition BPF_W :: "16 word" where "BPF_W = 0x00"
definition BPF_ABS :: "16 word" where "BPF_ABS = 0x20"
definition BPF_JMP :: "16 word" where "BPF_JMP = 0x05"
definition BPF_JEQ :: "16 word" where "BPF_JEQ = 0x10"
definition BPF_K :: "16 word" where "BPF_K = 0x00"
definition BPF_RET :: "16 word" where "BPF_RET = 0x06"

definition SECCOMP_RET_KILL_PROCESS :: "32 word" where "SECCOMP_RET_KILL_PROCESS = 0x80000000"
definition SECCOMP_RET_ALLOW :: "32 word" where "SECCOMP_RET_ALLOW = 0x7fff0000"
definition SECCOMP_RET_ERRNO :: "32 word" where "SECCOMP_RET_ERRNO = 0x00050000"
definition EPERM :: "32 word" where "EPERM = 1"
definition SECCOMP_DATA_NR_OFFSET :: "32 word" where "SECCOMP_DATA_NR_OFFSET = 0"
definition SECCOMP_DATA_ARCH_OFFSET :: "32 word" where "SECCOMP_DATA_ARCH_OFFSET = 4"

lemmas bpf_code_defs = BPF_LD_def BPF_W_def BPF_ABS_def BPF_JMP_def BPF_JEQ_def BPF_K_def BPF_RET_def
lemmas seccomp_ret_defs = SECCOMP_RET_KILL_PROCESS_def SECCOMP_RET_ALLOW_def
  SECCOMP_RET_ERRNO_def EPERM_def

text \<open>The release architectures; each \<open>cfg(target_arch)\<close> alternative is one case.\<close>

datatype target_arch = X86_64 | Aarch64 | Arm | Riscv64

fun AUDIT_ARCH_NATIVE :: "target_arch \<Rightarrow> 32 word" where
  "AUDIT_ARCH_NATIVE X86_64 = 0xc000003e"
| "AUDIT_ARCH_NATIVE Aarch64 = 0xc00000b7"
| "AUDIT_ARCH_NATIVE Arm = 0x40000028"
| "AUDIT_ARCH_NATIVE Riscv64 = 0xc00000f3"

definition common_allowlist :: "string list" where
  "common_allowlist =
    [''accept'', ''accept4'', ''bind'', ''brk'', ''capget'', ''capset'', ''chdir'',
     ''clock_getres'', ''clock_gettime'', ''clock_nanosleep'', ''clone'', ''clone3'',
     ''close'', ''close_range'', ''connect'', ''copy_file_range'', ''dup'', ''dup3'',
     ''epoll_create1'', ''epoll_ctl'', ''epoll_pwait'', ''eventfd2'', ''execve'', ''execveat'',
     ''exit'', ''exit_group'', ''faccessat'', ''faccessat2'', ''fallocate'', ''fchdir'',
     ''fchmod'', ''fchmodat'', ''fchown'', ''fchownat'', ''fcntl'', ''fdatasync'',
     ''fgetxattr'', ''flistxattr'', ''flock'', ''fremovexattr'', ''fsetxattr'', ''fstat'',
     ''fstatfs'', ''fsync'', ''ftruncate'', ''futex'', ''getcpu'', ''getcwd'', ''getdents64'',
     ''getegid'', ''geteuid'', ''getgid'', ''getgroups'', ''getitimer'', ''getpeername'',
     ''getpgid'', ''getpid'', ''getppid'', ''getpriority'', ''getrandom'', ''getresgid'',
     ''getresuid'', ''getrusage'', ''getsid'', ''getsockname'', ''getsockopt'', ''gettid'',
     ''gettimeofday'', ''getuid'', ''getxattr'', ''inotify_add_watch'', ''inotify_init1'',
     ''inotify_rm_watch'', ''ioctl'', ''kill'', ''lgetxattr'', ''linkat'', ''listen'',
     ''listxattr'', ''llistxattr'', ''lremovexattr'', ''lseek'', ''lsetxattr'', ''madvise'',
     ''memfd_create'', ''mincore'', ''mkdirat'', ''mknodat'', ''mlock'', ''mlock2'',
     ''mlockall'', ''mprotect'', ''mq_getsetattr'', ''mq_notify'', ''mq_open'',
     ''mq_timedreceive'', ''mq_timedsend'', ''mq_unlink'', ''mremap'', ''msgctl'', ''msgget'',
     ''msgrcv'', ''msgsnd'', ''msync'', ''munlock'', ''munlockall'', ''munmap'',
     ''name_to_handle_at'', ''nanosleep'', ''openat'', ''openat2'', ''personality'', ''pipe2'',
     ''ppoll'', ''prctl'', ''pread64'', ''preadv'', ''prlimit64'', ''pselect6'', ''pwrite64'',
     ''pwritev'', ''read'', ''readlinkat'', ''readv'', ''recvfrom'', ''recvmmsg'', ''recvmsg'',
     ''removexattr'', ''renameat2'', ''restart_syscall'', ''rt_sigaction'', ''rt_sigpending'',
     ''rt_sigprocmask'', ''rt_sigqueueinfo'', ''rt_sigreturn'', ''rt_sigsuspend'',
     ''rt_sigtimedwait'', ''rt_tgsigqueueinfo'', ''sched_getaffinity'', ''sched_getattr'',
     ''sched_getparam'', ''sched_getscheduler'', ''sched_rr_get_interval'',
     ''sched_setaffinity'', ''sched_setattr'', ''sched_setparam'', ''sched_setscheduler'',
     ''sched_yield'', ''semctl'', ''semget'', ''semop'', ''semtimedop'', ''sendfile'',
     ''sendmmsg'', ''sendmsg'', ''sendto'', ''set_robust_list'', ''setfsgid'', ''setfsuid'',
     ''setgid'', ''setgroups'', ''setitimer'', ''setpgid'', ''setpriority'', ''setregid'',
     ''setresgid'', ''setresuid'', ''setreuid'', ''setsid'', ''setsockopt'', ''setuid'',
     ''setxattr'', ''shmat'', ''shmctl'', ''shmdt'', ''shmget'', ''shutdown'', ''sigaltstack'',
     ''signalfd4'', ''socket'', ''socketpair'', ''splice'', ''statfs'', ''statx'',
     ''symlinkat'', ''sync'', ''syncfs'', ''sysinfo'', ''tee'', ''tgkill'', ''timer_create'',
     ''timer_delete'', ''timer_getoverrun'', ''timer_gettime'', ''timer_settime'',
     ''timerfd_create'', ''timerfd_gettime'', ''timerfd_settime'', ''times'', ''tkill'',
     ''truncate'', ''umask'', ''uname'', ''unlinkat'', ''unshare'', ''utimensat'',
     ''vmsplice'', ''wait4'', ''waitid'', ''write'', ''writev'']"

definition x86_64_allowlist :: "string list" where
  "x86_64_allowlist =
    [''access'', ''alarm'', ''arch_prctl'', ''chmod'', ''chown'', ''creat'', ''dup2'',
     ''epoll_create'', ''epoll_wait'', ''eventfd'', ''fork'', ''getdents'', ''getpgrp'',
     ''getrlimit'', ''inotify_init'', ''lchown'', ''link'', ''lstat'', ''mkdir'', ''mknod'',
     ''mmap'', ''newfstatat'', ''open'', ''pause'', ''pipe'', ''poll'', ''readlink'',
     ''rename'', ''renameat'', ''rmdir'', ''rseq'', ''select'', ''signalfd'', ''stat'',
     ''symlink'', ''sync_file_range'', ''time'', ''unlink'', ''utime'', ''utimes'', ''vfork'']"

definition aarch64_allowlist :: "string list" where
  "aarch64_allowlist =
    [''getrlimit'', ''mmap'', ''newfstatat'', ''renameat'', ''rseq'', ''sync_file_range'']"

definition arm_allowlist :: "string list" where
  "arm_allowlist =
    [''access'', ''chmod'', ''chown'', ''creat'', ''dup2'', ''epoll_create'', ''epoll_wait'',
     ''eventfd'', ''fork'', ''getdents'', ''getpgrp'', ''inotify_init'', ''lchown'', ''link'',
     ''lstat'', ''mkdir'', ''mknod'', ''open'', ''pause'', ''pipe'', ''poll'', ''readlink'',
     ''rename'', ''renameat'', ''rmdir'', ''signalfd'', ''stat'', ''symlink'', ''unlink'',
     ''utimes'', ''vfork'']"

definition riscv64_allowlist :: "string list" where
  "riscv64_allowlist =
    [''getrlimit'', ''mmap'', ''newfstatat'', ''rseq'', ''sync_file_range'']"

fun target_allowlist :: "target_arch \<Rightarrow> string list \<Rightarrow> string list" where
  "target_allowlist X86_64 common = common @ x86_64_allowlist"
| "target_allowlist Aarch64 common = common @ aarch64_allowlist"
| "target_allowlist Arm common = common @ arm_allowlist"
| "target_allowlist Riscv64 common = common @ riscv64_allowlist"

text \<open>\<open>nr as u32\<close>, then \<open>sort_unstable\<close> and \<open>dedup\<close>.\<close>

definition default_allowlist :: "(string \<Rightarrow> int) \<Rightarrow> target_arch \<Rightarrow> 32 word list" where
  "default_allowlist SYS arch =
     remdups_adj (sort (map (\<lambda>n. word_of_int (SYS n)) (target_allowlist arch common_allowlist)))"

definition bpf_stmt :: "16 word \<Rightarrow> 32 word \<Rightarrow> sock_filter" where
  "bpf_stmt c k = \<lparr> bcode = c, jt = 0, jf = 0, bk = k \<rparr>"

definition bpf_jump :: "16 word \<Rightarrow> 8 word \<Rightarrow> 8 word \<Rightarrow> 32 word \<Rightarrow> sock_filter" where
  "bpf_jump c t f k = \<lparr> bcode = c, jt = t, jf = f, bk = k \<rparr>"

datatype seccomp_error = AllowlistTooLarge nat

text \<open>The compare for the entry at index \<open>i\<close> of \<open>n\<close> jumps \<open>(n - i) as u8\<close> instructions ahead.\<close>

definition compare_insns :: "nat \<Rightarrow> 32 word list \<Rightarrow> sock_filter list" where
  "compare_insns n allowed =
     map (\<lambda>(i, nr). bpf_jump (or (or BPF_JMP BPF_JEQ) BPF_K) (word_of_nat (n - i)) 0 nr)
       (enumerate 0 allowed)"

definition build_program :: "target_arch \<Rightarrow> 32 word list \<Rightarrow> seccomp_error + sock_filter list" where
  "build_program arch allowed =
     (let n = length allowed in
      if n > 255 then Inl (AllowlistTooLarge n)
      else Inr (
        [bpf_stmt (or (or BPF_LD BPF_W) BPF_ABS) SECCOMP_DATA_ARCH_OFFSET,
         bpf_jump (or (or BPF_JMP BPF_JEQ) BPF_K) 1 0 (AUDIT_ARCH_NATIVE arch),
         bpf_stmt (or BPF_RET BPF_K) SECCOMP_RET_KILL_PROCESS,
         bpf_stmt (or (or BPF_LD BPF_W) BPF_ABS) SECCOMP_DATA_NR_OFFSET]
        @ compare_insns n allowed
        @ [bpf_stmt (or BPF_RET BPF_K) (or SECCOMP_RET_ERRNO EPERM),
           bpf_stmt (or BPF_RET BPF_K) SECCOMP_RET_ALLOW]))"

definition build_default_program ::
  "(string \<Rightarrow> int) \<Rightarrow> target_arch \<Rightarrow> seccomp_error + sock_filter list" where
  "build_default_program SYS arch = build_program arch (default_allowlist SYS arch)"

section \<open>Classic BPF\<close>

text \<open>The documented meaning of the three instruction forms: \<open>run prog data pc acc\<close> is the value
  the filter returns when it continues at instruction \<open>pc\<close> with the accumulator \<open>acc\<close>.\<close>

locale classic_bpf =
  fixes run :: "sock_filter list \<Rightarrow> (32 word \<Rightarrow> 32 word) \<Rightarrow> nat \<Rightarrow> 32 word \<Rightarrow> 32 word option"
  assumes ld_abs: "pc < length prog \<Longrightarrow> bcode (prog ! pc) = 0x20 \<Longrightarrow>
      run prog data pc acc = run prog data (pc + 1) (data (bk (prog ! pc)))"
    and jeq_k: "pc < length prog \<Longrightarrow> bcode (prog ! pc) = 0x15 \<Longrightarrow>
      run prog data pc acc =
        run prog data (pc + 1 + unat (if acc = bk (prog ! pc) then jt (prog ! pc) else jf (prog ! pc))) acc"
    and ret_k: "pc < length prog \<Longrightarrow> bcode (prog ! pc) = 0x06 \<Longrightarrow>
      run prog data pc acc = Some (bk (prog ! pc))"
begin

text \<open>From the compare at index \<open>i\<close> on: allow exactly the remaining entries.\<close>

lemma run_compares:
  assumes prog: "prog = pre @ compare_insns n allowed @ [deny, allow]"
    and n: "n = length allowed" "n \<le> 255" and "i \<le> n"
    and deny: "bcode deny = 0x06" and allow: "bcode allow = 0x06"
  shows "run prog data (length pre + i) acc =
    Some (if acc \<in> set (drop i allowed) then bk allow else bk deny)"
  using \<open>i \<le> n\<close>
proof (induction "n - i" arbitrary: i)
  case 0
  then have i: "i = n" by simp
  have "prog ! (length pre + n) = deny" "length pre + n < length prog"
    by (simp_all add: prog n compare_insns_def nth_append)
  then show ?case using i deny n by (simp add: ret_k)
next
  case (Suc m)
  let ?pc = "length pre + i"
  from Suc have i: "i < n" by simp
  then have at: "prog ! ?pc = bpf_jump 0x15 (word_of_nat (n - i)) 0 (allowed ! i)"
    and len: "?pc < length prog"
    by (simp_all add: prog n compare_insns_def nth_append nth_enumerate_eq bpf_code_defs)
  have jump: "unat (word_of_nat (n - i) :: 8 word) = n - i"
    using n(2) by (simp add: unat_of_nat)
  have last: "prog ! (length pre + n + 1) = allow" "length pre + n + 1 < length prog"
    by (simp_all add: prog n compare_insns_def nth_append)
  have dropi: "drop i allowed = allowed ! i # drop (i + 1) allowed"
    using i n by (simp add: Cons_nth_drop_Suc)
  show ?case
  proof (cases "acc = allowed ! i")
    case True
    then have "run prog data ?pc acc = run prog data (?pc + 1 + (n - i)) acc"
      using len at jump by (simp add: jeq_k bpf_jump_def)
    also have "?pc + 1 + (n - i) = length pre + n + 1" using i by simp
    finally show ?thesis using last allow True dropi by (simp add: ret_k)
  next
    case False
    then have "run prog data ?pc acc = run prog data (length pre + (i + 1)) acc"
      using len at by (simp add: jeq_k bpf_jump_def)
    also have "\<dots> = Some (if acc \<in> set (drop (i + 1) allowed) then bk allow else bk deny)"
      using Suc i by (intro Suc.hyps) auto
    finally show ?thesis using False dropi by simp
  qed
qed

lemma run_program:
  assumes "build_program arch allowed = Inr prog"
  shows "run prog data 0 acc = Some (
    if data 4 \<noteq> AUDIT_ARCH_NATIVE arch then SECCOMP_RET_KILL_PROCESS
    else if data 0 \<in> set allowed then SECCOMP_RET_ALLOW else or SECCOMP_RET_ERRNO EPERM)"
proof -
  let ?pre = "[bpf_stmt 0x20 4, bpf_jump 0x15 1 0 (AUDIT_ARCH_NATIVE arch),
     bpf_stmt 0x06 SECCOMP_RET_KILL_PROCESS, bpf_stmt 0x20 0]"
  let ?deny = "bpf_stmt 0x06 (or SECCOMP_RET_ERRNO EPERM)" and ?allow = "bpf_stmt 0x06 SECCOMP_RET_ALLOW"
  let ?n = "length allowed"
  from assms have n: "?n \<le> 255" and
    prog: "prog = ?pre @ compare_insns ?n allowed @ [?deny, ?allow]"
    by (auto simp: build_program_def Let_def bpf_code_defs SECCOMP_DATA_ARCH_OFFSET_def
        SECCOMP_DATA_NR_OFFSET_def split: if_splits)
  have len: "4 < length prog" by (simp add: prog)
  have at: "prog ! 0 = bpf_stmt 0x20 4" "prog ! 1 = bpf_jump 0x15 1 0 (AUDIT_ARCH_NATIVE arch)"
    "prog ! 2 = bpf_stmt 0x06 SECCOMP_RET_KILL_PROCESS" "prog ! 3 = bpf_stmt 0x20 0"
    by (simp_all add: prog)
  have "run prog data 0 acc = run prog data 1 (data 4)"
    using ld_abs [of 0 prog data acc] len at by (cases prog) (auto simp: bpf_stmt_def)
  also have "\<dots> = run prog data (if data 4 = AUDIT_ARCH_NATIVE arch then 3 else 2) (data 4)"
    using jeq_k [of 1 prog data "data 4"] len at by (simp add: bpf_jump_def numeral_2_eq_2 numeral_3_eq_3)
  finally have start: "run prog data 0 acc =
      run prog data (if data 4 = AUDIT_ARCH_NATIVE arch then 3 else 2) (data 4)" .
  show ?thesis
  proof (cases "data 4 = AUDIT_ARCH_NATIVE arch")
    case True
    have "run prog data 3 (data 4) = run prog data (length ?pre + 0) (data 0)"
      using ld_abs [of 3 prog data "data 4"] len at by (simp add: bpf_stmt_def eval_nat_numeral)
    also have "\<dots> = Some (if data 0 \<in> set (drop 0 allowed) then bk ?allow else bk ?deny)"
      by (rule run_compares [OF prog refl n]) (simp_all add: bpf_stmt_def)
    finally show ?thesis using start True by (simp add: bpf_stmt_def)
  next
    case False
    then show ?thesis using start ret_k [of 2 prog data "data 4"] len at by (simp add: bpf_stmt_def)
  qed
qed

end

text \<open>The reference interpreter: all jumps go forward, so it stops.\<close>

function bpf_run :: "sock_filter list \<Rightarrow> (32 word \<Rightarrow> 32 word) \<Rightarrow> nat \<Rightarrow> 32 word \<Rightarrow> 32 word option" where
  "bpf_run prog data pc acc =
     (if pc \<ge> length prog then None
      else if bcode (prog ! pc) = 0x20 then bpf_run prog data (pc + 1) (data (bk (prog ! pc)))
      else if bcode (prog ! pc) = 0x15 then
        bpf_run prog data
          (pc + 1 + unat (if acc = bk (prog ! pc) then jt (prog ! pc) else jf (prog ! pc))) acc
      else if bcode (prog ! pc) = 0x06 then Some (bk (prog ! pc))
      else None)"
  by pat_completeness auto
termination
  by (relation "measure (\<lambda>(prog, data, pc, acc). length prog - pc)") auto

declare bpf_run.simps [simp del]

interpretation bpf: classic_bpf bpf_run
  by unfold_locales (subst bpf_run.simps, simp)+

section \<open>The allowlist\<close>

lemma set_default_allowlist:
  "set (default_allowlist SYS arch) =
     (\<lambda>n. word_of_int (SYS n)) ` set (target_allowlist arch common_allowlist)"
  by (simp add: default_allowlist_def)

lemma target_allowlist_length: "length (target_allowlist arch common_allowlist) \<le> 255"
  by (cases arch) (simp_all add: common_allowlist_def x86_64_allowlist_def aarch64_allowlist_def
      arm_allowlist_def riscv64_allowlist_def)

lemma default_allowlist_length: "length (default_allowlist SYS arch) \<le> 255"
proof -
  have "length (default_allowlist SYS arch) \<le> length (target_allowlist arch common_allowlist)"
    unfolding default_allowlist_def by (rule order_trans [OF remdups_adj_length]) simp
  with target_allowlist_length [of arch] show ?thesis by linarith
qed

section \<open>Properties\<close>

text \<open>C1: On every architecture and for every numbering of the system calls the default profile builds, and
  the program decides every call: a foreign architecture kills the process, a call of the allowlist is allowed,
  any other call fails with \<open>EPERM\<close>. \<open>run\<close> is the kernel's classic BPF machine, by its documented rules.\<close>

theorem default_profile_decides:
  assumes "classic_bpf run"
  shows "\<exists>prog. build_default_program SYS arch = Inr prog \<and>
    (\<forall>data acc. run prog data 0 acc = Some (
       if data SECCOMP_DATA_ARCH_OFFSET \<noteq> AUDIT_ARCH_NATIVE arch then SECCOMP_RET_KILL_PROCESS
       else if data SECCOMP_DATA_NR_OFFSET \<in> (\<lambda>n. word_of_int (SYS n)) ` set (target_allowlist arch common_allowlist)
       then SECCOMP_RET_ALLOW else or SECCOMP_RET_ERRNO EPERM))"
proof -
  have "length (default_allowlist SYS arch) \<le> 255" by (rule default_allowlist_length)
  then obtain prog where p: "build_program arch (default_allowlist SYS arch) = Inr prog"
    by (auto simp: build_program_def)
  from classic_bpf.run_program [OF assms p] p show ?thesis
    by (auto simp: build_default_program_def set_default_allowlist SECCOMP_DATA_ARCH_OFFSET_def
        SECCOMP_DATA_NR_OFFSET_def)
qed

theorem default_profile_decides_witness:
  "\<exists>prog. build_default_program (\<lambda>_. 0) X86_64 = Inr prog \<and>
     (\<forall>acc. bpf_run prog (\<lambda>_. 0) 0 acc = Some SECCOMP_RET_KILL_PROCESS)"
  using default_profile_decides [OF bpf.classic_bpf_axioms, of "\<lambda>_. 0" X86_64] by auto

lemma compare_insns_nth:
  "i < length allowed \<Longrightarrow> compare_insns n allowed ! i =
     bpf_jump (or (or BPF_JMP BPF_JEQ) BPF_K) (word_of_nat (n - i)) 0 (allowed ! i)"
  by (simp add: compare_insns_def nth_enumerate_eq)

lemma length_compare_insns [simp]: "length (compare_insns n allowed) = length allowed"
  by (simp add: compare_insns_def)

text \<open>A filter is built exactly for allowlists of at most 255 calls, the reach of the 8-bit jump offset, and
  in a built filter no jump leaves the program: both targets of every instruction lie inside it.\<close>

lemma build_program_jumps:
  "case build_program arch allowed of
     Inl e \<Rightarrow> e = AllowlistTooLarge (length allowed) \<and> 255 < length allowed
   | Inr prog \<Rightarrow> length allowed \<le> 255 \<and> length prog = length allowed + 6 \<and>
       (\<forall>i < length prog - 2. i + 1 + unat (jt (prog ! i)) < length prog \<and>
          i + 1 + unat (jf (prog ! i)) < length prog)"
proof (cases "255 < length allowed")
  case True
  then show ?thesis by (simp add: build_program_def)
next
  case False
  let ?n = "length allowed"
  have u: "unat (word_of_nat (?n - i) :: 8 word) = ?n - i" for i
    using False by (simp add: unat_of_nat take_bit_nat_eq_self_iff)
  obtain prog where p: "build_program arch allowed = Inr prog"
    and shape: "prog = [bpf_stmt (or (or BPF_LD BPF_W) BPF_ABS) SECCOMP_DATA_ARCH_OFFSET,
         bpf_jump (or (or BPF_JMP BPF_JEQ) BPF_K) 1 0 (AUDIT_ARCH_NATIVE arch),
         bpf_stmt (or BPF_RET BPF_K) SECCOMP_RET_KILL_PROCESS,
         bpf_stmt (or (or BPF_LD BPF_W) BPF_ABS) SECCOMP_DATA_NR_OFFSET]
        @ compare_insns ?n allowed
        @ [bpf_stmt (or BPF_RET BPF_K) (or SECCOMP_RET_ERRNO EPERM),
           bpf_stmt (or BPF_RET BPF_K) SECCOMP_RET_ALLOW]"
    using False by (simp add: build_program_def)
  have len: "length prog = ?n + 6" by (simp add: shape)
  have "i + 1 + unat (jt (prog ! i)) < ?n + 6 \<and> i + 1 + unat (jf (prog ! i)) < ?n + 6"
    if "i < ?n + 4" for i
  proof (cases "i < 4")
    case True
    then have "i \<in> {0, 1, 2, 3}" by auto
    then show ?thesis by (auto simp: shape bpf_stmt_def bpf_jump_def)
  next
    case False
    then obtain j where "i = 4 + j" using le_iff_add [of 4 i] by auto
    then have j: "i = Suc (Suc (Suc (Suc j)))" "j < ?n" using that by simp_all
    then have "prog ! i = bpf_jump (or (or BPF_JMP BPF_JEQ) BPF_K) (word_of_nat (?n - j)) 0 (allowed ! j)"
      by (simp add: shape nth_append compare_insns_nth)
    then have "jt (prog ! i) = word_of_nat (?n - j)" "jf (prog ! i) = 0"
      by (simp_all only: bpf_jump_def sock_filter.simps)
    then show ?thesis using j by (simp only: u) simp
  qed
  then show ?thesis using False by (simp add: p len)
qed

lemma build_program_jumps_witness:
  "\<exists>prog. build_program X86_64 [1, 2] = Inr prog \<and> length prog = 8 \<and> 5 + unat (jt (prog ! 4)) < 8"
proof -
  obtain prog where p: "build_program X86_64 [1, 2] = Inr prog" by (simp add: build_program_def)
  with build_program_jumps [where arch = X86_64 and allowed = "[1, 2]"]
  have len: "length prog = 8"
    and jumps: "\<forall>i < length prog - 2. i + 1 + unat (jt (prog ! i)) < length prog" by auto
  then have "4 + 1 + unat (jt (prog ! 4)) < 8" by (auto dest: spec [of _ 4])
  with len p show ?thesis by simp
qed

end
