(* ===== verification/Network.thy ===== *)
theory Network
  imports Rust_Str
begin

text \<open>
  Bridge addresses (src/network.rs): allocation, naming, clean-up.

  The IPAM file is a value on disk: absent, unreadable, not JSON, or a JSON object, which is the
  ordered map it denotes. \<open>allocate_ip\<close> and \<open>release_ip\<close> run under the lock; whether the lock and
  the write succeed is the environment's choice. The interface the callers rely on is the locale
  \<open>address_pool\<close>, interpreted on these operations.

  Host-side clean-up by name is the list of netfilter and netlink calls it makes.
\<close>

section \<open>Addresses\<close>

datatype Ipv4Addr = Ipv4Addr "8 word" "8 word" "8 word" "8 word"

fun octets :: "Ipv4Addr \<Rightarrow> 8 word list" where
  "octets (Ipv4Addr a b c d) = [a, b, c, d]"

definition fnv_step :: "char \<Rightarrow> 32 word \<Rightarrow> 32 word" where
  "fnv_step b hash = (xor hash (word_of_nat (code b))) * 0x01000193"

definition container_ip :: "string \<Rightarrow> Ipv4Addr" where
  "container_ip cid =
     (let hash = fold fnv_step cid 0x811c9dc5;
          host = 2 + (and hash 0x00ffffff) mod 253
      in Ipv4Addr 10 88 0 (ucast host))"

section \<open>File-based IPAM\<close>

datatype ipam_error =
    IpamBadId string
  | IpamLock
  | IpamRead
  | IpamParse
  | IpamOutside string Ipv4Addr
  | IpamDuplicate Ipv4Addr
  | IpamExhausted
  | IpamWrite

type_synonym ipam_map = "(string \<times> Ipv4Addr) list"

datatype ipam_disk = NoFile | Unreadable | NotJson | Json ipam_map

definition validate_ipam_id :: "string \<Rightarrow> ipam_error + unit" where
  "validate_ipam_id cid =
     (if \<not> (1 \<le> length cid \<and> length cid \<le> 64) \<or> \<not> list_all is_ascii_hexdigit cid
      then Inl (IpamBadId cid) else Inr ())"

definition in_subnet :: "Ipv4Addr \<Rightarrow> bool" where
  "in_subnet ip = (case ip of Ipv4Addr a b c d \<Rightarrow> [a, b, c] = [10, 88, 0] \<and> 2 \<le> d \<and> d \<le> 254)"

fun validate_ipam_from :: "Ipv4Addr list \<Rightarrow> ipam_map \<Rightarrow> ipam_error + unit" where
  "validate_ipam_from addresses [] = Inr ()"
| "validate_ipam_from addresses ((cid, ip) # rest) =
     and_then (validate_ipam_id cid) (\<lambda>_.
       if \<not> in_subnet ip then Inl (IpamOutside cid ip)
       else if ip \<in> set addresses then Inl (IpamDuplicate ip)
       else validate_ipam_from (ip # addresses) rest)"

definition validate_ipam :: "ipam_map \<Rightarrow> ipam_error + unit" where
  "validate_ipam m = validate_ipam_from [] m"

definition read_ipam :: "ipam_disk \<Rightarrow> ipam_error + ipam_map" where
  "read_ipam disk = (case disk of
      NoFile \<Rightarrow> Inr []
    | Unreadable \<Rightarrow> Inl IpamRead
    | NotJson \<Rightarrow> Inl IpamParse
    | Json m \<Rightarrow> and_then (validate_ipam m) (\<lambda>_. Inr m))"

definition check_ipam_state :: "ipam_disk \<Rightarrow> ipam_error + bool" where
  "check_ipam_state disk =
     (if disk = NoFile then Inr False else and_then (read_ipam disk) (\<lambda>_. Inr True))"

text \<open>\<open>10.88.0.2\<close> to \<open>10.88.0.254\<close>, in the order the scan tries them.\<close>

definition candidates :: "Ipv4Addr list" where
  "candidates = map (\<lambda>h. Ipv4Addr 10 88 0 (word_of_nat h)) [2..<255]"

record ipam_env =
  lock_ok :: bool
  write_ok :: bool

definition allocate_ip ::
  "ipam_env \<Rightarrow> string \<Rightarrow> ipam_disk \<Rightarrow> (ipam_error + Ipv4Addr) \<times> ipam_disk" where
  "allocate_ip env cid disk =
     (case validate_ipam_id cid of Inl e \<Rightarrow> (Inl e, disk) | Inr _ \<Rightarrow>
      if \<not> lock_ok env then (Inl IpamLock, disk)
      else (case read_ipam disk of Inl e \<Rightarrow> (Inl e, disk) | Inr m \<Rightarrow>
        (case map_of m cid of Some ip \<Rightarrow> (Inr ip, disk) | None \<Rightarrow>
          (let preferred = container_ip cid; taken = map snd m;
               pick = (if preferred \<notin> set taken then Inr preferred
                       else ok_or IpamExhausted (find (\<lambda>cand. cand \<notin> set taken) candidates))
           in (case pick of Inl e \<Rightarrow> (Inl e, disk) | Inr ip \<Rightarrow>
             (if write_ok env then (Inr ip, Json (btree_insert cid ip m)) else (Inl IpamWrite, disk)))))))"

definition release_ip :: "ipam_env \<Rightarrow> string \<Rightarrow> ipam_disk \<Rightarrow> ipam_disk" where
  "release_ip env cid disk =
     (if \<not> lock_ok env then disk
      else (case read_ipam disk of Inl e \<Rightarrow> disk | Inr m \<Rightarrow>
        (case map_of m cid of None \<Rightarrow> disk | Some _ \<Rightarrow>
          (if write_ok env then Json (btree_remove cid m) else disk))))"

section \<open>Device names and clean-up by name\<close>

definition veth_name :: "string \<Rightarrow> string" where
  "veth_name cid = CHR ''v'' # take (min (length cid) 8) cid"

definition peer_name :: "string \<Rightarrow> string" where
  "peer_name cid = CHR ''p'' # take (min (length cid) 8) cid"

definition legacy_table_name :: "string \<Rightarrow> string" where
  "legacy_table_name cid = ''zerun-'' @ cid"

datatype net_action = RemoveTable string | DeleteLink nat

text \<open>\<open>nft_opens\<close> and \<open>nl_opens\<close>: whether the sockets open; \<open>link_index\<close>: what the link lookup
  answers (an error and an absent link end the clean-up alike).\<close>

definition teardown_named ::
  "bool \<Rightarrow> bool \<Rightarrow> (string \<Rightarrow> nat option) \<Rightarrow> string \<Rightarrow> string \<Rightarrow> string option \<Rightarrow> net_action list" where
  "teardown_named nft_opens nl_opens link_index cid veth table =
     (if veth \<noteq> veth_name cid then []
      else (case table of None \<Rightarrow> []
            | Some t \<Rightarrow> if t = legacy_table_name cid \<and> nft_opens then [RemoveTable t] else [])
         @ (if \<not> nl_opens then []
            else (case link_index veth of None \<Rightarrow> [] | Some i \<Rightarrow> [DeleteLink i])))"

section \<open>The pool interface\<close>

text \<open>What bridge setup and teardown rely on: leases only change for the cid an operation names,
  a granted address is nobody else's, and releasing removes exactly one lease.\<close>

locale address_pool =
  fixes leases :: "'s \<Rightarrow> ('cid \<rightharpoonup> 'addr)"
    and invar :: "'s \<Rightarrow> bool"
    and grant :: "'cid \<Rightarrow> 's \<Rightarrow> 's \<Rightarrow> bool"
    and give_back :: "'cid \<Rightarrow> 's \<Rightarrow> 's \<Rightarrow> bool"
  assumes invar_inj: "invar s \<Longrightarrow> leases s i = Some a \<Longrightarrow> leases s j = Some a \<Longrightarrow> i = j"
    and invar_grant: "invar s \<Longrightarrow> grant i s t \<Longrightarrow> invar t"
    and invar_give_back: "invar s \<Longrightarrow> give_back i s t \<Longrightarrow> invar t"
    and grant_frame: "invar s \<Longrightarrow> grant i s t \<Longrightarrow> j \<noteq> i \<Longrightarrow> leases t j = leases s j"
    and give_back_frame: "invar s \<Longrightarrow> give_back i s t \<Longrightarrow> j \<noteq> i \<Longrightarrow> leases t j = leases s j"
begin

inductive pool_reachable :: "'s \<Rightarrow> 's \<Rightarrow> bool" where
  here: "pool_reachable s s"
| granted: "pool_reachable s t \<Longrightarrow> grant i t u \<Longrightarrow> pool_reachable s u"
| returned: "pool_reachable s t \<Longrightarrow> give_back i t u \<Longrightarrow> pool_reachable s u"

lemma reachable_invar: "pool_reachable s t \<Longrightarrow> invar s \<Longrightarrow> invar t"
  by (induction rule: pool_reachable.induct) (auto intro: invar_grant invar_give_back)

lemma reachable_no_sharing:
  "pool_reachable s t \<Longrightarrow> invar s \<Longrightarrow> leases t i = Some a \<Longrightarrow> leases t j = Some a \<Longrightarrow> i = j"
  by (rule invar_inj) (auto intro: reachable_invar)

end

section \<open>Lemmas on the IPAM operations\<close>

lemma validate_ipam_from_iff:
  "validate_ipam_from seen m = Inr u \<longleftrightarrow>
     (\<forall>(cid, ip) \<in> set m. validate_ipam_id cid = Inr () \<and> in_subnet ip) \<and>
     distinct (map snd m) \<and> set (map snd m) \<inter> set seen = {}"
  by (induction seen m rule: validate_ipam_from.induct) (auto simp: and_then_eq_Inr_iff)

lemma validate_ipam_iff:
  "validate_ipam m = Inr u \<longleftrightarrow>
     (\<forall>(cid, ip) \<in> set m. validate_ipam_id cid = Inr () \<and> in_subnet ip) \<and> distinct (map snd m)"
  by (simp add: validate_ipam_def validate_ipam_from_iff)

definition lease_map :: "ipam_disk \<Rightarrow> string \<rightharpoonup> Ipv4Addr" where
  "lease_map disk = (case read_ipam disk of Inl _ \<Rightarrow> Map.empty | Inr m \<Rightarrow> map_of m)"

definition ipam_ok :: "ipam_disk \<Rightarrow> bool" where
  "ipam_ok disk \<longleftrightarrow> (case read_ipam disk of Inl _ \<Rightarrow> False | Inr m \<Rightarrow> is_btree_map m)"

lemma ipam_okE:
  assumes "ipam_ok disk"
  obtains m where "read_ipam disk = Inr m" "is_btree_map m" "validate_ipam m = Inr ()"
    "lease_map disk = map_of m"
  using assms
  by (cases "read_ipam disk")
    (auto simp: ipam_ok_def lease_map_def read_ipam_def and_then_eq_Inr_iff validate_ipam_iff
      split: ipam_disk.splits)

lemma ipam_ok_Json: "is_btree_map m \<Longrightarrow> validate_ipam m = Inr () \<Longrightarrow> ipam_ok (Json m)"
  by (simp add: ipam_ok_def read_ipam_def)

lemma set_btree_insert:
  "map_of m k = None \<Longrightarrow> set (btree_insert k v m) = insert (k, v) (set m)"
  by (induction m rule: btree_insert.induct) (auto simp: map_of_eq_None_iff split: if_splits)

lemma mset_btree_insert_snd:
  "map_of m k = None \<Longrightarrow> distinct (map snd (btree_insert k v m)) \<longleftrightarrow>
     distinct (map snd m) \<and> v \<notin> set (map snd m)"
proof (induction k v m rule: btree_insert.induct)
  case (2 k v k' v' m)
  have none: "map_of m k = None" using "2.prems" by (auto split: if_splits)
  have "snd ` set (btree_insert k v m) = insert v (snd ` set m)"
    using none by (auto simp: set_btree_insert)
  with 2 none show ?case by auto
qed simp

lemma octet_le: "(2 :: 8 word) \<le> d \<and> d \<le> 254 \<longleftrightarrow> 2 \<le> unat d \<and> unat d \<le> 254"
  by (simp add: word_le_nat_alt)

lemma in_subnet_iff: "in_subnet ip \<longleftrightarrow> (\<exists>h. 2 \<le> h \<and> h \<le> 254 \<and> ip = Ipv4Addr 10 88 0 (word_of_nat h))"
proof
  assume "in_subnet ip"
  then obtain d where ip: "ip = Ipv4Addr 10 88 0 d" and "2 \<le> unat d \<and> unat d \<le> 254"
    by (cases ip) (auto simp: in_subnet_def octet_le)
  then show "\<exists>h. 2 \<le> h \<and> h \<le> 254 \<and> ip = Ipv4Addr 10 88 0 (word_of_nat h)"
    by (intro exI [of _ "unat d"]) simp
next
  assume "\<exists>h. 2 \<le> h \<and> h \<le> 254 \<and> ip = Ipv4Addr 10 88 0 (word_of_nat h)"
  then obtain h where h: "2 \<le> h" "h \<le> 254" and ip: "ip = Ipv4Addr 10 88 0 (word_of_nat h)" by blast
  have "unat (word_of_nat h :: 8 word) = h" using h by (simp add: unat_of_nat)
  with h show "in_subnet ip" unfolding ip in_subnet_def Ipv4Addr.case octet_le by simp
qed

lemma candidates_range: "ip \<in> set candidates \<longleftrightarrow> in_subnet ip"
proof -
  have "h \<in> set [2..<255] \<longleftrightarrow> 2 \<le> h \<and> h \<le> 254" for h :: nat
    unfolding set_upt atLeastLessThan_iff by arith
  then show ?thesis
    unfolding candidates_def in_subnet_iff set_map image_iff by blast
qed

lemma container_ip_in_subnet: "in_subnet (container_ip cid)"
proof -
  define x :: "32 word" where "x = and (fold fnv_step cid 0x811c9dc5) 0x00ffffff"
  define h where "h = 2 + unat x mod 253"
  have h: "2 \<le> h" "h \<le> 254" by (auto simp: h_def intro: order.trans [OF mod_less_eq_dividend])
  have "2 + x mod 253 = word_of_nat h"
    by (rule word_unat_eq_iff [THEN iffD2]) (use h in \<open>simp add: h_def unat_of_nat unat_word_ariths unat_mod\<close>)
  then have "ucast (2 + x mod 253) = (word_of_nat h :: 8 word)"
    using h by (simp add: unsigned_of_nat take_bit_nat_eq_self)
  then show ?thesis
    unfolding container_ip_def x_def [symmetric] Let_def in_subnet_iff using h by auto
qed

text \<open>The address a new lease gets.\<close>

definition chosen :: "string \<Rightarrow> ipam_map \<Rightarrow> Ipv4Addr option" where
  "chosen cid m = (if container_ip cid \<notin> set (map snd m) then Some (container_ip cid)
     else find (\<lambda>cand. cand \<notin> set (map snd m)) candidates)"

lemma chosen_Some:
  assumes "chosen cid m = Some ip"
  shows "in_subnet ip \<and> ip \<notin> set (map snd m)"
  using assms container_ip_in_subnet
  by (auto simp: chosen_def find_Some_iff candidates_range [symmetric] split: if_splits)

lemma chosen_None_iff: "chosen cid m = None \<longleftrightarrow> {ip. in_subnet ip} \<subseteq> set (map snd m)"
  using container_ip_in_subnet [of cid]
  by (auto simp: chosen_def find_None_iff candidates_range [symmetric])

lemma allocate_ip_eq:
  "allocate_ip env cid disk =
     (case validate_ipam_id cid of Inl e \<Rightarrow> (Inl e, disk) | Inr _ \<Rightarrow>
      if \<not> lock_ok env then (Inl IpamLock, disk)
      else (case read_ipam disk of Inl e \<Rightarrow> (Inl e, disk) | Inr m \<Rightarrow>
        (case map_of m cid of Some ip \<Rightarrow> (Inr ip, disk) | None \<Rightarrow>
          (case chosen cid m of None \<Rightarrow> (Inl IpamExhausted, disk) | Some ip \<Rightarrow>
             (if write_ok env then (Inr ip, Json (btree_insert cid ip m)) else (Inl IpamWrite, disk))))))"
  by (auto simp: allocate_ip_def chosen_def Let_def ok_or_def split: sum.splits option.splits)

lemma validate_insert:
  assumes "validate_ipam m = Inr ()" and "validate_ipam_id cid = Inr ()" and "chosen cid m = Some ip"
    and "map_of m cid = None"
  shows "validate_ipam (btree_insert cid ip m) = Inr ()"
  using assms chosen_Some [OF assms(3)]
  by (auto simp: validate_ipam_iff set_btree_insert mset_btree_insert_snd)

lemma allocate_ip_disk:
  assumes "ipam_ok disk"
  shows "ipam_ok (snd (allocate_ip env cid disk)) \<and>
    (\<forall>j. j \<noteq> cid \<longrightarrow> lease_map (snd (allocate_ip env cid disk)) j = lease_map disk j)"
proof -
  obtain m where m: "read_ipam disk = Inr m" "is_btree_map m" "validate_ipam m = Inr ()"
      "lease_map disk = map_of m"
    using ipam_okE [OF assms] .
  show ?thesis
    using assms m
    by (auto simp: allocate_ip_eq lease_map_def read_ipam_def ipam_ok_Json validate_insert
        split: sum.splits option.splits)
qed

lemma validate_remove: "validate_ipam m = Inr () \<Longrightarrow> validate_ipam (btree_remove cid m) = Inr ()"
  by (auto simp: validate_ipam_iff btree_remove_def distinct_map_filter)

lemma release_ip_disk:
  assumes "ipam_ok disk"
  shows "ipam_ok (release_ip env cid disk) \<and>
    (\<forall>j. j \<noteq> cid \<longrightarrow> lease_map (release_ip env cid disk) j = lease_map disk j)"
proof -
  obtain m where m: "read_ipam disk = Inr m" "is_btree_map m" "validate_ipam m = Inr ()"
      "lease_map disk = map_of m"
    using ipam_okE [OF assms] .
  show ?thesis
    using assms m
    by (auto simp: release_ip_def lease_map_def read_ipam_def ipam_ok_Json validate_remove
        split: option.splits)
qed

lemma ipam_ok_inj:
  assumes "ipam_ok disk" and "lease_map disk i = Some a" and "lease_map disk j = Some a"
  shows "i = j"
proof -
  obtain m where m: "validate_ipam m = Inr ()" "lease_map disk = map_of m"
    using ipam_okE [OF assms(1)] by metis
  then have "(i, a) \<in> set m" "(j, a) \<in> set m" "distinct (map snd m)"
    using assms(2,3) by (auto dest: map_of_SomeD simp: validate_ipam_iff)
  then show ?thesis
    by (metis (no_types, lifting) distinct_map inj_on_contraD prod.sel snd_conv)
qed

definition ipam_grant :: "string \<Rightarrow> ipam_disk \<Rightarrow> ipam_disk \<Rightarrow> bool" where
  "ipam_grant cid s t \<longleftrightarrow> (\<exists>env. t = snd (allocate_ip env cid s))"

definition ipam_give_back :: "string \<Rightarrow> ipam_disk \<Rightarrow> ipam_disk \<Rightarrow> bool" where
  "ipam_give_back cid s t \<longleftrightarrow> (\<exists>env. t = release_ip env cid s)"

interpretation ipam: address_pool lease_map ipam_ok ipam_grant ipam_give_back
  by unfold_locales
    (auto simp: ipam_grant_def ipam_give_back_def allocate_ip_disk release_ip_disk
      intro: ipam_ok_inj)

lemma ipam_ok_NoFile: "ipam_ok NoFile"
  by (simp add: ipam_ok_def read_ipam_def is_btree_map_def)

section \<open>Properties\<close>

text \<open>A history of the address file: which operation ran, for which container, and which of its
  system calls failed.\<close>

datatype ipam_op = Allocate ipam_env string | Release ipam_env string

fun ipam_run :: "ipam_op list \<Rightarrow> ipam_disk \<Rightarrow> ipam_disk" where
  "ipam_run [] disk = disk"
| "ipam_run (Allocate env cid # ops) disk = ipam_run ops (snd (allocate_ip env cid disk))"
| "ipam_run (Release env cid # ops) disk = ipam_run ops (release_ip env cid disk)"

lemma ipam_run_reachable: "ipam.pool_reachable s disk \<Longrightarrow> ipam.pool_reachable s (ipam_run ops disk)"
proof (induction ops disk rule: ipam_run.induct)
  case (2 env cid ops disk)
  have "ipam_grant cid disk (snd (allocate_ip env cid disk))" by (auto simp: ipam_grant_def)
  with 2 show ?case by (auto intro: ipam.granted)
next
  case (3 env cid ops disk)
  have "ipam_give_back cid disk (release_ip env cid disk)" by (auto simp: ipam_give_back_def)
  with 3 show ?case by (auto intro: ipam.returned)
qed simp



text \<open>C34: On a valid address file an allocation for a valid id with working locks and writes returns the
  address the container already has, or else a free one of the pool which it alone then holds in
  the file; it fails exactly when all 253 addresses are leased, and then changes nothing.\<close>

theorem allocate_ip_spec:
  assumes "ipam_ok disk" and "validate_ipam_id cid = Inr ()" and "lock_ok env" and "write_ok env"
  shows "case allocate_ip env cid disk of
      (Inr ip, disk') \<Rightarrow> lease_map disk' = (lease_map disk)(cid \<mapsto> ip) \<and> in_subnet ip \<and>
        (lease_map disk cid = Some ip \<or> lease_map disk cid = None \<and> ip \<notin> ran (lease_map disk))
    | (Inl e, disk') \<Rightarrow> e = IpamExhausted \<and> disk' = disk \<and> lease_map disk cid = None \<and>
        {ip. in_subnet ip} \<subseteq> ran (lease_map disk)"
proof -
  from assms(1) obtain m where m: "read_ipam disk = Inr m" "is_btree_map m" "validate_ipam m = Inr ()"
    "lease_map disk = map_of m" by (rule ipam_okE)
  have dist: "distinct (map fst m)" using m(2) by (simp add: is_btree_map_def strict_sorted_iff)
  have ran: "ran (map_of m) = set (map snd m)" using dist by (simp add: ran_distinct)
  show ?thesis
  proof (cases "map_of m cid")
    case (Some ip)
    then have "in_subnet ip" using m(3) by (auto simp: validate_ipam_iff dest!: map_of_SomeD)
    with Some m assms(2-) show ?thesis by (auto simp: allocate_ip_eq fun_upd_idem)
  next
    case None
    show ?thesis
    proof (cases "chosen cid m")
      case c: None
      then show ?thesis using None m assms(2-) chosen_None_iff [of cid m] ran
        by (auto simp: allocate_ip_eq)
    next
      case c: (Some ip)
      have "validate_ipam (btree_insert cid ip m) = Inr ()"
        using m(3) assms(2) c None by (rule validate_insert)
      then have "lease_map (Json (btree_insert cid ip m)) = (map_of m)(cid \<mapsto> ip)"
        using m(2) by (simp add: lease_map_def read_ipam_def)
      then show ?thesis using None c m assms(2-) chosen_Some [OF c] ran
        by (auto simp: allocate_ip_eq)
    qed
  qed
qed

theorem allocate_ip_spec_witness:
  "\<exists>ip. fst (allocate_ip \<lparr>lock_ok = True, write_ok = True\<rparr> ''a1'' NoFile) = Inr ip \<and> in_subnet ip"
proof -
  let ?env = "\<lparr>lock_ok = True, write_ok = True\<rparr>"
  have "lease_map NoFile = Map.empty" by (simp add: lease_map_def read_ipam_def)
  moreover have "in_subnet (Ipv4Addr 10 88 0 2)" by (simp add: in_subnet_def)
  ultimately have "\<not> {ip. in_subnet ip} \<subseteq> ran (lease_map NoFile)" by auto
  then show ?thesis
    using allocate_ip_spec [of NoFile "''a1''" ?env]
    by (auto simp: ipam_ok_NoFile validate_ipam_id_def ascii_class_defs split: prod.splits sum.splits)
qed

end
