(* ===== verification/Port_Proxy.thy ===== *)
theory Port_Proxy
  imports Rust_Prelude "HOL-Library.AList"
begin

text \<open>
  The published-port proxies (src/network.rs): the TCP connection slots shared by every listener of
  a container, and the UDP client table of one published port.

  The TCP listeners run concurrently and share one atomic counter; a step of the relation is one
  atomic access to it, so every interleaving of the accept loops and of the connections that end is
  a run. The UDP loop is sequential: one step per datagram or read timeout.
\<close>

section \<open>TCP proxy slots\<close>

definition TCP_PROXY_CONNECTION_LIMIT :: nat where "TCP_PROXY_CONNECTION_LIMIT = 64"

text \<open>\<open>connections\<close> is the atomic counter (a \<open>usize\<close>), \<open>held\<close> the connections that own a slot,
  \<open>warned_full\<close> each accept loop's own flag.\<close>

record tcp_state =
  connections :: "64 word"
  held :: "nat list"
  warned_full :: "nat \<Rightarrow> bool"

text \<open>\<open>fetch_update\<close>: the new value of the counter, or none when the closure refuses.\<close>

definition try_acquire_tcp_proxy_slot :: "64 word \<Rightarrow> 64 word option" where
  "try_acquire_tcp_proxy_slot active =
     (if active < word_of_nat TCP_PROXY_CONNECTION_LIMIT then Some (active + 1) else None)"

definition drop_tcp_proxy_slot :: "nat \<Rightarrow> tcp_state \<Rightarrow> tcp_state" where
  "drop_tcp_proxy_slot c s = s\<lparr>connections := connections s - 1, held := remove1 c (held s)\<rparr>"

text \<open>One accepted connection \<open>c\<close> on listener \<open>l\<close>. When the thread cannot be spawned the closure is
  dropped, and the slot with it.\<close>

definition accept_one :: "nat \<Rightarrow> nat \<Rightarrow> bool \<Rightarrow> tcp_state \<Rightarrow> tcp_state" where
  "accept_one l c spawned s =
     (case try_acquire_tcp_proxy_slot (connections s) of
        None \<Rightarrow> s\<lparr>warned_full := (warned_full s)(l := True)\<rparr>
      | Some active \<Rightarrow>
          (let s' = s\<lparr>connections := active, held := c # held s, warned_full := (warned_full s)(l := False)\<rparr>
           in if spawned then s' else drop_tcp_proxy_slot c s'))"

definition bind_port_proxies_state :: tcp_state where
  "bind_port_proxies_state = \<lparr>connections = 0, held = [], warned_full = (\<lambda>_. False)\<rparr>"

inductive tcp_step :: "tcp_state \<Rightarrow> tcp_state \<Rightarrow> bool" where
  accept: "tcp_step s (accept_one l c spawned s)"
| finish: "c \<in> set (held s) \<Longrightarrow> tcp_step s (drop_tcp_proxy_slot c s)"

inductive_cases tcp_stepE: "tcp_step s t"

definition tcp_inv :: "tcp_state \<Rightarrow> bool" where
  "tcp_inv s \<longleftrightarrow> unat (connections s) = length (held s) \<and> length (held s) \<le> TCP_PROXY_CONNECTION_LIMIT"

lemma try_acquire_iff:
  assumes "unat active \<le> TCP_PROXY_CONNECTION_LIMIT"
  shows "try_acquire_tcp_proxy_slot active =
    (if unat active = TCP_PROXY_CONNECTION_LIMIT then None else Some (active + 1))"
  using assms
  by (auto simp: try_acquire_tcp_proxy_slot_def TCP_PROXY_CONNECTION_LIMIT_def word_less_nat_alt)

lemma unat_Suc_below: "unat (w :: 64 word) < 64 \<Longrightarrow> unat (w + 1) = Suc (unat w)"
  by (simp add: unat_word_ariths)

lemma unat_pred_pos: "0 < unat (w :: 64 word) \<Longrightarrow> unat (w - 1) = unat w - 1"
  by (metis unat_minus_one unat_eq_zero neq0_conv)

lemma tcp_inv_drop:
  assumes "tcp_inv s" and "c \<in> set (held s)"
  shows "tcp_inv (drop_tcp_proxy_slot c s)"
proof -
  have "0 < unat (connections s)"
    using assms by (auto simp: tcp_inv_def length_greater_0_conv intro: length_pos_if_in_set)
  then show ?thesis
    using assms by (auto simp: tcp_inv_def drop_tcp_proxy_slot_def unat_pred_pos length_remove1)
qed

lemma tcp_inv_accept: "tcp_inv s \<Longrightarrow> tcp_inv (accept_one l c spawned s)"
  by (auto simp: tcp_inv_def accept_one_def try_acquire_iff Let_def drop_tcp_proxy_slot_def
      unat_Suc_below TCP_PROXY_CONNECTION_LIMIT_def split: option.splits if_splits)

lemma tcp_inv_step: "tcp_step s t \<Longrightarrow> tcp_inv s \<Longrightarrow> tcp_inv t"
  by (auto elim: tcp_stepE simp: tcp_inv_accept tcp_inv_drop)

lemma tcp_inv_reachable: "tcp_step\<^sup>*\<^sup>* bind_port_proxies_state s \<Longrightarrow> tcp_inv s"
proof (induction rule: rtranclp_induct)
  case base
  then show ?case by (simp add: tcp_inv_def bind_port_proxies_state_def)
next
  case (step s t)
  then show ?case using tcp_inv_step by blast
qed

section \<open>UDP client table\<close>

definition UDP_CLIENT_LIMIT :: nat where "UDP_CLIENT_LIMIT = 256"
definition UDP_CLIENT_IDLE :: nat where "UDP_CLIENT_IDLE = 60 * 10 ^ 9"

text \<open>A client is its worker thread and the time of its last datagram (nanoseconds of the monotonic
  clock). \<open>stop_flags\<close> are the workers whose stop flag is set, \<open>spawned\<close> every worker started so far,
  \<open>sent\<close> the datagrams passed to the container, by worker.\<close>

record UdpClient =
  worker :: nat
  last_seen :: nat

record udp_state =
  clients :: "(string \<times> UdpClient) list"
  udp_warned_full :: bool
  stop_flags :: "nat list"
  spawned :: "nat list"
  sent :: "(nat \<times> string) list"

definition stop_udp_client :: "UdpClient \<Rightarrow> udp_state \<Rightarrow> udp_state" where
  "stop_udp_client c s = s\<lparr>stop_flags := worker c # stop_flags s\<rparr>"

definition remove_client :: "string \<Rightarrow> udp_state \<Rightarrow> udp_state" where
  "remove_client a s = (case map_of (clients s) a of None \<Rightarrow> s
     | Some c \<Rightarrow> stop_udp_client c (s\<lparr>clients := filter (\<lambda>p. fst p \<noteq> a) (clients s)\<rparr>))"

text \<open>\<open>Instant::duration_since\<close> is zero when the argument is later.\<close>

definition prune_udp_clients :: "nat \<Rightarrow> udp_state \<Rightarrow> udp_state" where
  "prune_udp_clients now s =
     fold remove_client
       (map fst (filter (\<lambda>(a, c). UDP_CLIENT_IDLE \<le> now - last_seen c) (clients s))) s"

text \<open>What the socket gives the loop: a read timeout, any other error, or a datagram. \<open>send_ok\<close>:
  the existing client's socket takes it; \<open>new_worker\<close>: the worker the loop starts for a new client, or
  none when a socket call or the spawn fails.\<close>

datatype udp_event =
    TimedOut nat
  | RecvError
  | Packet (p_now: nat) (p_client: string) (p_data: string) (send_ok: bool) (new_worker: "nat option")

definition udp_packet ::
  "nat \<Rightarrow> string \<Rightarrow> string \<Rightarrow> bool \<Rightarrow> nat option \<Rightarrow> udp_state \<Rightarrow> udp_state" where
  "udp_packet now a data ok nw s0 =
     (let s = prune_udp_clients now s0 in
      case map_of (clients s) a of
        Some c \<Rightarrow>
          (let s' = s\<lparr>clients := AList.update a (c\<lparr>last_seen := now\<rparr>) (clients s)\<rparr> in
           if ok then s'\<lparr>sent := (worker c, data) # sent s'\<rparr> else remove_client a s')
      | None \<Rightarrow>
          if UDP_CLIENT_LIMIT \<le> length (clients s) then s\<lparr>udp_warned_full := True\<rparr>
          else (case nw of
              None \<Rightarrow> s\<lparr>udp_warned_full := False\<rparr>
            | Some w \<Rightarrow> s\<lparr>udp_warned_full := False, spawned := w # spawned s,
                 sent := (w, data) # sent s,
                 clients := (a, \<lparr>worker = w, last_seen = now\<rparr>) # clients s\<rparr>))"

text \<open>After the loop every remaining client is stopped.\<close>

definition drain_clients :: "udp_state \<Rightarrow> udp_state" where
  "drain_clients s = fold (\<lambda>(a, c). stop_udp_client c) (clients s) (s\<lparr>clients := []\<rparr>)"

fun udp_loop :: "udp_event list \<Rightarrow> udp_state \<Rightarrow> udp_state" where
  "udp_loop [] s = s"
| "udp_loop (TimedOut now # es) s = udp_loop es (prune_udp_clients now s)"
| "udp_loop (RecvError # es) s = drain_clients s"
| "udp_loop (Packet now a data ok nw # es) s = udp_loop es (udp_packet now a data ok nw s)"

definition udp_start :: udp_state where
  "udp_start = \<lparr>clients = [], udp_warned_full = False, stop_flags = [], spawned = [], sent = []\<rparr>"

text \<open>The workers of the table, and the invariant: the table respects the limit and has one entry a
  client, and every started worker is in the table or has its stop flag set.\<close>

definition live_workers :: "udp_state \<Rightarrow> nat set" where
  "live_workers s = worker ` snd ` set (clients s)"

definition udp_inv :: "udp_state \<Rightarrow> bool" where
  "udp_inv s \<longleftrightarrow> length (clients s) \<le> UDP_CLIENT_LIMIT \<and> distinct (map fst (clients s)) \<and>
     distinct (map (worker \<circ> snd) (clients s)) \<and>
     set (spawned s) = live_workers s \<union> set (stop_flags s) \<and> live_workers s \<inter> set (stop_flags s) = {}"

text \<open>The thread ids of a run are those of distinct threads.\<close>

fun new_workers :: "udp_event list \<Rightarrow> nat list" where
  "new_workers [] = []"
| "new_workers (Packet now a data ok (Some w) # es) = w # new_workers es"
| "new_workers (e # es) = new_workers es"

lemma remove_client_frame [simp]:
  "spawned (remove_client a s) = spawned s" "sent (remove_client a s) = sent s"
  "clients (remove_client a s) = filter (\<lambda>p. fst p \<noteq> a) (clients s)"
  by (auto simp: remove_client_def stop_udp_client_def map_of_eq_None_iff
      intro: filter_True [symmetric] split: option.splits)

lemma fold_remove_client_frame [simp]:
  "spawned (fold remove_client as s) = spawned s"
  "clients (fold remove_client as s) = filter (\<lambda>p. fst p \<notin> set as) (clients s)"
  by (induction as arbitrary: s) (auto intro: filter_cong)

lemma distinct_map_filter: "distinct (map f xs) \<Longrightarrow> distinct (map f (filter P xs))"
  by (induction xs) auto

lemma remove_client_inv:
  assumes "udp_inv s"
  shows "udp_inv (remove_client a s)"
proof (cases "map_of (clients s) a")
  case None
  then show ?thesis using assms by (simp add: remove_client_def)
next
  case (Some c)
  have dist: "distinct (map fst (clients s))" "distinct (map (worker \<circ> snd) (clients s))"
    using assms by (simp_all add: udp_inv_def)
  have mem: "(a, c) \<in> set (clients s)" using Some by (rule map_of_SomeD)
  have only: "p = (a, c)" if "p \<in> set (clients s)" "fst p = a" for p
    using inj_onD [of fst "set (clients s)" p "(a, c)"] that mem dist(1) by (simp add: distinct_map)
  have "set (filter (\<lambda>p. fst p \<noteq> a) (clients s)) = set (clients s) - {(a, c)}"
    unfolding set_filter by (rule set_eqI) (auto dest: only)
  then have "live_workers (remove_client a s) = (worker \<circ> snd) ` (set (clients s) - {(a, c)})"
    by (simp add: live_workers_def image_comp)
  also have "\<dots> = live_workers s - {worker c}"
    using inj_on_image_set_diff [of "worker \<circ> snd" "set (clients s)" "set (clients s)" "{(a, c)}"] dist(2) mem
    by (simp add: distinct_map live_workers_def image_comp)
  finally have "live_workers (remove_client a s) = live_workers s - {worker c}" .
  moreover have "set (stop_flags (remove_client a s)) = insert (worker c) (set (stop_flags s))"
    using Some by (simp add: remove_client_def stop_udp_client_def)
  moreover have "worker c \<in> live_workers s" using mem by (force simp: live_workers_def)
  ultimately show ?thesis
    using assms by (auto simp: udp_inv_def distinct_map_filter intro: le_trans [OF length_filter_le])
qed

lemma fold_remove_client_inv: "udp_inv s \<Longrightarrow> udp_inv (fold remove_client as s)"
  by (induction as arbitrary: s) (auto simp: remove_client_inv)

lemma prune_inv: "udp_inv s \<Longrightarrow> udp_inv (prune_udp_clients now s)"
  by (simp add: prune_udp_clients_def fold_remove_client_inv)

lemma prune_spawned [simp]: "spawned (prune_udp_clients now s) = spawned s"
  by (simp add: prune_udp_clients_def)

text \<open>A prune keeps exactly the clients seen within the idle time.\<close>

lemma prune_clients:
  assumes "distinct (map fst (clients s))"
  shows "clients (prune_udp_clients now s) =
    filter (\<lambda>(a, c). now - last_seen c < UDP_CLIENT_IDLE) (clients s)"
proof -
  let ?idle = "\<lambda>p. UDP_CLIENT_IDLE \<le> now - last_seen (snd p)"
  have "fst p \<notin> fst ` {q \<in> set (clients s). ?idle q} \<longleftrightarrow> \<not> ?idle p" if "p \<in> set (clients s)" for p
    using inj_on_image_mem_iff [of fst "set (clients s)" p "{q \<in> set (clients s). ?idle q}"] that assms
    by (simp add: distinct_map)
  then have "filter (\<lambda>p. fst p \<notin> fst ` {q \<in> set (clients s). ?idle q}) (clients s) =
      filter (\<lambda>p. \<not> ?idle p) (clients s)"
    by (intro filter_cong) auto
  then show ?thesis
    by (simp add: prune_udp_clients_def case_prod_unfold not_le)
qed

lemma touch_inv:
  assumes "udp_inv s" and "map_of (clients s) a = Some c"
  shows "udp_inv (s\<lparr>clients := AList.update a (c\<lparr>last_seen := now\<rparr>) (clients s), sent := xs\<rparr>)"
proof -
  have "map fst (AList.update a (c\<lparr>last_seen := n\<rparr>) ps) = map fst ps \<and>
        map (worker \<circ> snd) (AList.update a (c\<lparr>last_seen := n\<rparr>) ps) = map (worker \<circ> snd) ps"
    if "map_of ps a = Some c" for n and ps :: "(string \<times> UdpClient) list"
    using that by (induction ps) auto
  note eqs = this [OF assms(2), of now]
  have "live_workers (s\<lparr>clients := AList.update a (c\<lparr>last_seen := now\<rparr>) (clients s), sent := xs\<rparr>) = live_workers s"
    using arg_cong [OF conjunct2 [OF eqs], of set] by (simp add: live_workers_def image_image comp_def)
  moreover have "length (AList.update a (c\<lparr>last_seen := now\<rparr>) (clients s)) = length (clients s)"
    using arg_cong [OF conjunct1 [OF eqs], of length] by simp
  ultimately show ?thesis
    using assms(1) eqs by (simp add: udp_inv_def)
qed

lemma udp_packet_inv:
  assumes inv: "udp_inv s0" and fresh: "\<And>w. nw = Some w \<Longrightarrow> w \<notin> set (spawned s0)"
  shows "udp_inv (udp_packet now a data ok nw s0)"
proof -
  define s where "s = prune_udp_clients now s0"
  have inv: "udp_inv s" and fresh: "\<And>w. nw = Some w \<Longrightarrow> w \<notin> set (spawned s)"
    using inv fresh by (simp_all add: s_def prune_inv)
  show ?thesis
  proof (cases "map_of (clients s) a")
    case None
    then show ?thesis
      using inv fresh
      by (auto simp: udp_packet_def s_def [symmetric] Let_def udp_inv_def live_workers_def
          map_of_eq_None_iff image_iff split: option.splits)
  next
    case (Some c)
    then show ?thesis
      using touch_inv [OF inv Some, of "sent s" now] touch_inv [OF inv Some, of "(worker c, data) # sent s" now]
      by (simp add: udp_packet_def s_def [symmetric] Let_def remove_client_inv)
  qed
qed

lemma spawned_udp_packet:
  "set (spawned (udp_packet now a data ok nw s)) \<subseteq> set (spawned s) \<union> set_option nw"
  by (auto simp: udp_packet_def Let_def split: option.splits if_splits)

lemma fold_stop_flags:
  "set (stop_flags (fold (\<lambda>(a, c). stop_udp_client c) ps s)) = set (stop_flags s) \<union> worker ` snd ` set ps"
  "spawned (fold (\<lambda>(a, c). stop_udp_client c) ps s) = spawned s"
  "clients (fold (\<lambda>(a, c). stop_udp_client c) ps s) = clients s"
  by (induction ps arbitrary: s) (auto simp: stop_udp_client_def)

lemma drain_inv:
  assumes "udp_inv s"
  shows "udp_inv (drain_clients s)" "clients (drain_clients s) = []"
    "set (stop_flags (drain_clients s)) = set (spawned s)"
  using assms by (auto simp: drain_clients_def udp_inv_def live_workers_def fold_stop_flags)

lemma udp_loop_inv:
  assumes "udp_inv s" and "distinct (new_workers es)" and "set (new_workers es) \<inter> set (spawned s) = {}"
  shows "udp_inv (udp_loop es s)"
  using assms
proof (induction es s rule: udp_loop.induct)
  case (4 now a data ok nw es s)
  have "udp_inv (udp_packet now a data ok nw s)"
    using 4 by (intro udp_packet_inv) (auto split: option.splits)
  moreover have "set (new_workers es) \<inter> set (spawned (udp_packet now a data ok nw s)) = {}"
    using 4(3,4) spawned_udp_packet [of now a data ok nw s] by (cases nw) auto
  moreover have "distinct (new_workers es)" using 4(3) by (cases nw) auto
  ultimately show ?case using 4 by simp
qed (auto simp: prune_inv drain_inv)

lemma udp_loop_closed:
  assumes "udp_inv s" and "distinct (new_workers es)" and "set (new_workers es) \<inter> set (spawned s) = {}"
    and "RecvError \<in> set es"
  shows "clients (udp_loop es s) = [] \<and> set (stop_flags (udp_loop es s)) = set (spawned (udp_loop es s))"
  using assms
proof (induction es s rule: udp_loop.induct)
  case (3 es s)
  then show ?case
    using drain_inv by (simp add: drain_clients_def fold_stop_flags)
next
  case (4 now a data ok nw es s)
  have "udp_inv (udp_packet now a data ok nw s)"
    using 4 by (intro udp_packet_inv) (auto split: option.splits)
  moreover have "set (new_workers es) \<inter> set (spawned (udp_packet now a data ok nw s)) = {}"
    using 4(3,4) spawned_udp_packet [of now a data ok nw s] by (cases nw) auto
  moreover have "distinct (new_workers es)" using 4(3) by (cases nw) auto
  ultimately show ?case using 4 by simp
qed (auto simp: prune_inv)

lemma udp_inv_start: "udp_inv udp_start"
  by (simp add: udp_inv_def udp_start_def live_workers_def)

section \<open>Properties\<close>

text \<open>C24: Whatever the accept loops of all published ports do, in any interleaving with connections that end
  and with threads that cannot be spawned, at most 64 proxied connections exist, and the shared counter is
  exactly their number: no slot leaks and none is released twice.\<close>

theorem tcp_slots_exact:
  assumes "tcp_step\<^sup>*\<^sup>* bind_port_proxies_state s"
  shows "unat (connections s) = length (held s) \<and> length (held s) \<le> 64"
  using tcp_inv_reachable [OF assms] by (simp add: tcp_inv_def TCP_PROXY_CONNECTION_LIMIT_def)

theorem tcp_slots_exact_witness:
  "unat (connections (accept_one 0 7 True bind_port_proxies_state)) = 1"
  using tcp_slots_exact [OF r_into_rtranclp, OF tcp_step.accept, of 0 7 True]
  by (simp add: accept_one_def try_acquire_tcp_proxy_slot_def bind_port_proxies_state_def
      TCP_PROXY_CONNECTION_LIMIT_def)

text \<open>C25: The UDP loop never has more than 256 clients, and keeps one worker a client; every worker it ever
  started is either serving a client of the table or told to stop, never both; once the socket fails the
  table is empty and every worker was told to stop.\<close>

theorem udp_workers_accounted:
  assumes "distinct (new_workers es)"
  shows "length (clients (udp_loop es udp_start)) \<le> 256 \<and>
    distinct (map (worker \<circ> snd) (clients (udp_loop es udp_start))) \<and>
    set (spawned (udp_loop es udp_start)) =
      live_workers (udp_loop es udp_start) \<union> set (stop_flags (udp_loop es udp_start)) \<and>
    live_workers (udp_loop es udp_start) \<inter> set (stop_flags (udp_loop es udp_start)) = {} \<and>
    (RecvError \<in> set es \<longrightarrow> clients (udp_loop es udp_start) = [])"
proof -
  have fresh: "set (new_workers es) \<inter> set (spawned udp_start) = {}" by (simp add: udp_start_def)
  from udp_loop_inv [OF udp_inv_start assms fresh] udp_loop_closed [OF udp_inv_start assms fresh]
  show ?thesis by (auto simp: udp_inv_def UDP_CLIENT_LIMIT_def)
qed

theorem udp_workers_accounted_witness:
  "clients (udp_loop [Packet 5 ''c'' ''hi'' True (Some 1), RecvError] udp_start) = []"
  using udp_workers_accounted [of "[Packet 5 ''c'' ''hi'' True (Some 1), RecvError]"] by simp

end
