(* ===== verification/Byte_Codec.thy ===== *)
theory Byte_Codec
  imports Rust_Str
begin

text \<open>
  Fixed-width integers as bytes (\<open>to_be_bytes\<close>, \<open>to_ne_bytes\<close> and their inverses), UTF-8 validity
  (\<open>str::from_utf8\<close>), and the interface of a framed byte stream: a codec reads back the frame that
  was written and leaves the rest of the stream. The interface is interpreted on netlink attributes,
  netlink messages and attach frames. Native byte order is little endian, as on every architecture
  the runtime has a syscall table for.
\<close>

section \<open>Integers as bytes\<close>

fun le_bytes :: "nat \<Rightarrow> nat \<Rightarrow> string" where
  "le_bytes 0 n = []"
| "le_bytes (Suc k) n = char_of (n mod 256) # le_bytes k (n div 256)"

fun le_val :: "string \<Rightarrow> nat" where
  "le_val [] = 0"
| "le_val (c # cs) = code c + 256 * le_val cs"

definition be_bytes :: "nat \<Rightarrow> nat \<Rightarrow> string" where
  "be_bytes k n = rev (le_bytes k n)"

definition be_val :: "string \<Rightarrow> nat" where
  "be_val s = le_val (rev s)"

text \<open>\<open>i32::from_ne_bytes\<close>.\<close>

definition to_signed :: "nat \<Rightarrow> nat \<Rightarrow> int" where
  "to_signed w n = (if 2 * n < 2 ^ w then int n else int n - 2 ^ w)"

lemma length_le_bytes [simp]: "length (le_bytes k n) = k"
  by (induction k n rule: le_bytes.induct) auto

lemma length_be_bytes [simp]: "length (be_bytes k n) = k"
  by (simp add: be_bytes_def)

lemma le_val_le_bytes: "le_val (le_bytes k n) = n mod 256 ^ k"
proof (induction k n rule: le_bytes.induct)
  case (2 k n)
  then show ?case
    by (simp add: mod_mult2_eq)
qed simp

lemma le_val_le_bytes_id: "n < 256 ^ k \<Longrightarrow> le_val (le_bytes k n) = n"
  by (simp add: le_val_le_bytes)

lemma be_val_be_bytes: "be_val (be_bytes k n) = n mod 256 ^ k"
  by (simp add: be_val_def be_bytes_def le_val_le_bytes)

lemma le_val_bound: "le_val s < 256 ^ length s"
proof (induction s)
  case (Cons c cs)
  have "code c < 256" by simp
  with Cons have "code c + 256 * le_val cs < 256 * (1 + le_val cs)" by simp
  also have "\<dots> \<le> 256 * 256 ^ length cs" using Cons by simp
  finally show ?case by simp
qed simp

lemma be_val_bound: "be_val s < 256 ^ length s"
  using le_val_bound [of "rev s"] by (simp add: be_val_def)

lemma le_bytes_le_val: "le_bytes (length s) (le_val s) = s"
  by (induction s) auto

lemma be_bytes_be_val: "be_bytes (length s) (be_val s) = s"
  using le_bytes_le_val [of "rev s"] by (simp add: be_bytes_def be_val_def)

section \<open>UTF-8\<close>

definition cont :: "char \<Rightarrow> bool" where
  "cont c \<longleftrightarrow> 128 \<le> code c \<and> code c \<le> 191"

definition within :: "nat \<Rightarrow> nat \<Rightarrow> char \<Rightarrow> bool" where
  "within lo hi c \<longleftrightarrow> lo \<le> code c \<and> code c \<le> hi"

fun valid_utf8 :: "string \<Rightarrow> bool" where
  "valid_utf8 [] = True"
| "valid_utf8 (a # s) =
     (if code a < 128 then valid_utf8 s
      else (case s of
          b # s2 \<Rightarrow>
            if within 0xC2 0xDF a then cont b \<and> valid_utf8 s2
            else (case s2 of
                c # s3 \<Rightarrow>
                  if within 0xE0 0xEF a then
                    (if code a = 0xE0 then within 0xA0 0xBF b
                     else if code a = 0xED then within 0x80 0x9F b else cont b)
                    \<and> cont c \<and> valid_utf8 s3
                  else (case s3 of
                      d # s4 \<Rightarrow> within 0xF0 0xF4 a \<and>
                        (if code a = 0xF0 then within 0x90 0xBF b
                         else if code a = 0xF4 then within 0x80 0x8F b else cont b)
                        \<and> cont c \<and> cont d \<and> valid_utf8 s4
                    | [] \<Rightarrow> False)
              | [] \<Rightarrow> False)
        | [] \<Rightarrow> False))"

lemma valid_utf8_ascii: "is_ascii s \<Longrightarrow> valid_utf8 s"
  by (induction s) (auto simp: is_ascii_def)

section \<open>Framed streams\<close>

text \<open>\<open>dec\<close> reads one frame off the front of a stream. \<open>fits\<close> says which values the length fields
  can carry, and \<open>seen\<close> is what the reader gets of a value.\<close>

locale frame_codec =
  fixes enc :: "'a \<Rightarrow> string"
    and dec :: "string \<Rightarrow> 'e + 'b \<times> string"
    and fits :: "'a \<Rightarrow> bool"
    and seen :: "'a \<Rightarrow> 'b"
  assumes dec_enc: "fits x \<Longrightarrow> dec (enc x @ rest) = Inr (seen x, rest)"
    and enc_not_Nil: "fits x \<Longrightarrow> enc x \<noteq> []"
begin

text \<open>Frames written one after another are read back one by one, whatever follows.\<close>

fun dec_many :: "nat \<Rightarrow> string \<Rightarrow> 'e + 'b list \<times> string" where
  "dec_many 0 s = Inr ([], s)"
| "dec_many (Suc n) s =
     and_then (dec s) (\<lambda>(y, s'). and_then (dec_many n s') (\<lambda>(ys, s''). Inr (y # ys, s'')))"

lemma dec_many_enc:
  "\<forall>x \<in> set xs. fits x \<Longrightarrow>
     dec_many (length xs) (concat (map enc xs) @ rest) = Inr (map seen xs, rest)"
  by (induction xs) (auto simp: dec_enc)

text \<open>Two streams of frames that are equal as bytes carry the same frames as seen by a reader:
  no frame boundary is ambiguous.\<close>

lemma concat_enc_seen:
  assumes "\<forall>x \<in> set xs. fits x" and "\<forall>y \<in> set ys. fits y"
    and "concat (map enc xs) = concat (map enc ys)"
  shows "map seen xs = map seen ys"
  using assms
proof (induction xs arbitrary: ys)
  case Nil
  then show ?case by (cases ys) (auto simp: enc_not_Nil)
next
  case (Cons x xs)
  then obtain y ys' where ys: "ys = y # ys'"
    using enc_not_Nil by (cases ys) auto
  have "(Inr (seen x, concat (map enc xs)) :: 'e + 'b \<times> string) = Inr (seen y, concat (map enc ys'))"
    using dec_enc [of x "concat (map enc xs)"] dec_enc [of y "concat (map enc ys')"] Cons.prems ys
    by (metis concat.simps(2) list.set_intros(1) list.simps(9))
  then have "seen x = seen y" "concat (map enc xs) = concat (map enc ys')"
    by simp_all
  then show ?case using Cons ys by auto
qed

end

end
