(* ===== verification/Nfnetlink.thy ===== *)
theory Nfnetlink
  imports Byte_Codec Network "HOL-Library.Option_ord"
begin

text \<open>
  The nf_tables netlink client (src/nfnetlink.rs): the attribute and message encoders, the messages
  and rule expressions built from them, the parsers of kernel replies, and \<open>install_nat\<close> over the
  kernel's answers. \<open>usize\<close> is 64 bits, so a 16- or 32-bit length never overflows an offset and the
  \<open>checked_add\<close> branches are never taken.
\<close>

section \<open>Encoders\<close>

definition aligned_len :: "nat \<Rightarrow> nat" where
  "aligned_len len = 4 * ((len + 3) div 4)"

definition nla :: "nat \<Rightarrow> string \<Rightarrow> string" where
  "nla typ payload =
     (let total = 4 + length payload; pad = (4 - total mod 4) mod 4 in
      le_bytes 2 total @ le_bytes 2 typ @ payload @ replicate pad (CHR 0x00))"

definition nla_nested :: "nat \<Rightarrow> string \<Rightarrow> string" where
  "nla_nested typ payload = nla (or typ 0x8000) payload"

definition nla_str :: "nat \<Rightarrow> string \<Rightarrow> string" where
  "nla_str typ s = nla typ (s @ [CHR 0x00])"

definition be32 :: "nat \<Rightarrow> string" where
  "be32 v = be_bytes 4 v"

definition nla_be32 :: "nat \<Rightarrow> nat \<Rightarrow> string" where
  "nla_be32 typ v = nla typ (be32 v)"

text \<open>One \<open>nlmsghdr\<close> and its payload: length, type, flags, sequence number 1, port 0.\<close>

definition nlmsg :: "nat \<Rightarrow> nat \<Rightarrow> string \<Rightarrow> string" where
  "nlmsg msg_type flags payload =
     le_bytes 4 (16 + length payload) @ le_bytes 2 msg_type @ le_bytes 2 flags @ le_bytes 4 1
       @ le_bytes 4 0 @ payload"

definition nfgenmsg :: "nat \<Rightarrow> nat \<Rightarrow> string" where
  "nfgenmsg family res_id =
     [char_of family, CHR 0x00, char_of (res_id div 256), char_of (res_id mod 256)]"

definition NLM_F_REQUEST :: nat where "NLM_F_REQUEST = 0x0001"
definition NLM_F_DUMP :: nat where "NLM_F_DUMP = 0x0300"
definition NLM_F_CREATE :: nat where "NLM_F_CREATE = 0x0400"
definition NLM_F_APPEND :: nat where "NLM_F_APPEND = 0x0800"
definition NFNL_SUBSYS_NFTABLES :: nat where "NFNL_SUBSYS_NFTABLES = 10"
definition NFPROTO_IPV4 :: nat where "NFPROTO_IPV4 = 2"

definition nft_msg :: "nat \<Rightarrow> nat \<Rightarrow> string \<Rightarrow> string" where
  "nft_msg msg_type flags attrs =
     nlmsg (or (NFNL_SUBSYS_NFTABLES * 256) msg_type) flags (nfgenmsg NFPROTO_IPV4 0 @ attrs)"

definition batch_bookend :: "nat \<Rightarrow> string" where
  "batch_bookend msg_type = nlmsg msg_type NLM_F_REQUEST (nfgenmsg 0 NFNL_SUBSYS_NFTABLES)"

definition msg_new_table :: "string \<Rightarrow> string" where
  "msg_new_table name = nft_msg 0 (or NLM_F_REQUEST NLM_F_CREATE) (nla_str 1 name @ nla_be32 2 0)"

definition msg_del_table :: "string \<Rightarrow> string" where
  "msg_del_table name = nft_msg 2 NLM_F_REQUEST (nla_str 1 name)"

text \<open>\<open>priority as u32\<close> is the two's complement.\<close>

definition msg_new_chain :: "string \<Rightarrow> string \<Rightarrow> nat \<Rightarrow> int \<Rightarrow> string" where
  "msg_new_chain table chain hooknum priority =
     (let hook = nla_be32 1 hooknum @ nla_be32 2 (nat (priority mod 2 ^ 32)) in
      nft_msg 3 (or NLM_F_REQUEST NLM_F_CREATE)
        (nla_str 1 table @ nla_str 3 chain @ nla_be32 5 1 @ nla_str 7 ''nat'' @ nla_nested 4 hook))"

definition msg_new_rule :: "string \<Rightarrow> string \<Rightarrow> string \<Rightarrow> string option \<Rightarrow> string" where
  "msg_new_rule table chain expressions userdata =
     nft_msg 6 (or (or NLM_F_REQUEST NLM_F_CREATE) NLM_F_APPEND)
       (nla_str 1 table @ nla_str 2 chain @ nla_nested 4 expressions
         @ (case userdata of None \<Rightarrow> [] | Some u \<Rightarrow> nla 7 u))"

definition msg_del_rule :: "string \<Rightarrow> string \<Rightarrow> nat \<Rightarrow> string" where
  "msg_del_rule table chain handle =
     nft_msg 8 NLM_F_REQUEST (nla_str 1 table @ nla_str 2 chain @ nla 3 (be_bytes 8 handle))"

section \<open>Expressions\<close>

definition expr :: "string \<Rightarrow> string \<Rightarrow> string" where
  "expr name data = nla_nested 1 (nla_str 1 name @ nla_nested 2 data)"

definition data_value :: "string \<Rightarrow> string" where
  "data_value raw = nla 1 raw"

definition cmp_data :: "nat \<Rightarrow> nat \<Rightarrow> string \<Rightarrow> string" where
  "cmp_data reg op v = nla_be32 1 reg @ nla_be32 2 op @ nla_nested 3 (data_value v)"

definition cmp_expr :: "nat \<Rightarrow> nat \<Rightarrow> string \<Rightarrow> string" where
  "cmp_expr reg op v = expr ''cmp'' (cmp_data reg op v)"

definition payload_data :: "nat \<Rightarrow> nat \<Rightarrow> nat \<Rightarrow> nat \<Rightarrow> string" where
  "payload_data reg base offset len =
     nla_be32 1 reg @ nla_be32 2 base @ nla_be32 3 offset @ nla_be32 4 len"

definition payload_expr :: "nat \<Rightarrow> nat \<Rightarrow> nat \<Rightarrow> nat \<Rightarrow> string" where
  "payload_expr reg base offset len = expr ''payload'' (payload_data reg base offset len)"

definition meta_data :: "nat \<Rightarrow> nat \<Rightarrow> string" where
  "meta_data reg key = nla_be32 2 key @ nla_be32 1 reg"

definition meta_expr :: "nat \<Rightarrow> nat \<Rightarrow> string" where
  "meta_expr reg key = expr ''meta'' (meta_data reg key)"

definition masq_expr :: string where
  "masq_expr = expr ''masq'' []"

definition bitwise_data :: "nat \<Rightarrow> nat \<Rightarrow> string \<Rightarrow> string" where
  "bitwise_data reg len m =
     nla_be32 1 reg @ nla_be32 2 reg @ nla_be32 3 len @ nla_nested 4 (data_value m)
       @ nla_nested 5 (data_value (replicate 4 (CHR 0x00)))"

definition bitwise_and_expr :: "nat \<Rightarrow> nat \<Rightarrow> string \<Rightarrow> string" where
  "bitwise_and_expr reg len m = expr ''bitwise'' (bitwise_data reg len m)"

definition mask_value :: "nat \<Rightarrow> 32 word" where
  "mask_value prefix_len = (if prefix_len = 0 then 0 else push_bit (32 - prefix_len) (- 1))"

definition prefix_to_mask :: "nat \<Rightarrow> string" where
  "prefix_to_mask prefix_len = be_bytes 4 (unat (mask_value prefix_len))"

definition octet_bytes :: "Ipv4Addr \<Rightarrow> string" where
  "octet_bytes ip = map (\<lambda>w. char_of (unat w)) (octets ip)"

definition ip_saddr_match :: "Ipv4Addr \<Rightarrow> nat \<Rightarrow> string" where
  "ip_saddr_match network prefix_len =
     payload_expr 1 1 12 4
       @ (if prefix_len < 32
          then bitwise_and_expr 1 4 (prefix_to_mask prefix_len) @ cmp_expr 1 0 (octet_bytes network)
          else cmp_expr 1 0 (octet_bytes network))"

definition ifname_value :: "string \<Rightarrow> string" where
  "ifname_value name = (let n = min (length name) 16 in take n name @ replicate (16 - n) (CHR 0x00))"

definition oifname_neq :: "string \<Rightarrow> string" where
  "oifname_neq name = meta_expr 1 7 @ cmp_expr 1 1 (ifname_value name)"

definition masquerade_rule :: "Ipv4Addr \<Rightarrow> nat \<Rightarrow> string" where
  "masquerade_rule network prefix_len =
     ip_saddr_match network prefix_len @ oifname_neq ''zerun0'' @ masq_expr"

section \<open>Reply parsers\<close>

datatype nft_error =
    AttrHeader | AttrMalformed | AttrPadding
  | DumpHeader | DumpMalformed | DumpPadding | DumpBadError
  | BadErrno int
  | NftErrno string int
  | DumpTruncated | DumpTimedOut | DumpIo
  | NoHandle string

text \<open>One attribute off the front of a buffer.\<close>

definition next_attr :: "string \<Rightarrow> nft_error + (nat \<times> string) \<times> string" where
  "next_attr buf =
     (if length buf < 4 then Inl AttrHeader
      else let len = le_val (take 2 buf) in
        if len < 4 \<or> length buf < len then Inl AttrMalformed
        else if length buf < aligned_len len then Inl AttrPadding
        else Inr ((and (le_val (take 2 (drop 2 buf))) 0x3fff, take (len - 4) (drop 4 buf)),
                  drop (aligned_len len) buf))"

lemma next_attr_shorter: "next_attr buf = Inr (a, rest) \<Longrightarrow> length rest < length buf"
  by (auto simp: next_attr_def Let_def aligned_len_def split: if_splits)

function parse_attrs :: "string \<Rightarrow> nft_error + (nat \<times> string) list" where
  "parse_attrs buf =
     (if buf = [] then Inr []
      else and_then (next_attr buf) (\<lambda>(a, rest).
        and_then (parse_attrs rest) (\<lambda>attrs. Inr (a # attrs))))"
  by pat_completeness auto
termination
  by (relation "measure length") (auto dest: next_attr_shorter)

declare parse_attrs.simps [simp del]

definition parse_string :: "string \<Rightarrow> string option" where
  "parse_string v = (let s = takeWhile (\<lambda>c. c \<noteq> CHR 0x00) v in if valid_utf8 s then Some s else None)"

text \<open>One message off the front of a datagram: its type, its bytes up to the stated length, the
  rest after the padding. Both reply parsers begin with these checks.\<close>

definition next_msg :: "string \<Rightarrow> nft_error + (nat \<times> string) \<times> string" where
  "next_msg buf =
     (if length buf < 16 then Inl DumpHeader
      else let len = le_val (take 4 buf) in
        if len < 16 \<or> length buf < len then Inl DumpMalformed
        else if length buf < aligned_len len then Inl DumpPadding
        else Inr ((le_val (take 2 (drop 4 buf)), take len buf), drop (aligned_len len) buf))"

lemma next_msg_shorter: "next_msg buf = Inr (m, rest) \<Longrightarrow> length rest < length buf"
  by (auto simp: next_msg_def Let_def aligned_len_def split: if_splits)

definition msg_errno :: "string \<Rightarrow> int" where
  "msg_errno msg = to_signed 32 (le_val (take 4 (drop 16 msg)))"

definition checked_neg :: "int \<Rightarrow> int option" where
  "checked_neg e = (if e = - (2 ^ 31) then None else Some (- e))"

text \<open>\<open>Err(())\<close> is \<open>None\<close>; \<open>Some None\<close> is no error in the datagram.\<close>

function parse_nlmsg_error :: "string \<Rightarrow> int option option" where
  "parse_nlmsg_error buf =
     (if buf = [] then Some None
      else (case next_msg buf of Inl _ \<Rightarrow> None
        | Inr ((msg_type, msg), rest) \<Rightarrow>
          if msg_type = 2 then
            (if length msg < 20 then None
             else if msg_errno msg < 0 then map_option Some (checked_neg (msg_errno msg))
             else parse_nlmsg_error rest)
          else parse_nlmsg_error rest))"
  by pat_completeness auto
termination
  by (relation "measure length") (auto dest: next_msg_shorter)

declare parse_nlmsg_error.simps [simp del]

record RuleRecord =
  handle :: "nat option"
  userdata :: "string option"

record rule_fields = RuleRecord +
  rule_table :: "string option"
  rule_chain :: "string option"

definition no_fields :: rule_fields where
  "no_fields = \<lparr>handle = None, userdata = None, rule_table = None, rule_chain = None\<rparr>"

fun take_field :: "nat \<times> string \<Rightarrow> rule_fields \<Rightarrow> rule_fields" where
  "take_field (kind, v) f =
     (if kind = 1 then f\<lparr>rule_table := parse_string v\<rparr>
      else if kind = 2 then f\<lparr>rule_chain := parse_string v\<rparr>
      else if kind = 3 \<and> length v = 8 then f\<lparr>handle := Some (be_val v)\<rparr>
      else if kind = 7 then f\<lparr>userdata := Some v\<rparr>
      else f)"

definition rule_of_attrs :: "string \<Rightarrow> string \<Rightarrow> (nat \<times> string) list \<Rightarrow> RuleRecord option" where
  "rule_of_attrs table chain attrs =
     (let f = fold take_field attrs no_fields in
      if rule_table f = Some table \<and> rule_chain f = Some chain
      then Some \<lparr>handle = handle f, userdata = userdata f\<rparr> else None)"

text \<open>The result is whether \<open>NLMSG_DONE\<close> was seen, and the rules pushed.\<close>

function parse_rule_dump ::
  "string \<Rightarrow> string \<Rightarrow> string \<Rightarrow> RuleRecord list \<Rightarrow> nft_error + bool \<times> RuleRecord list" where
  "parse_rule_dump table chain buf out =
     (if buf = [] then Inr (False, out)
      else (case next_msg buf of Inl e \<Rightarrow> Inl e | Inr ((msg_type, msg), rest) \<Rightarrow>
        if msg_type = 3 then Inr (True, out)
        else if msg_type = 2 then
          (if length msg < 20 then Inl DumpBadError
           else if msg_errno msg \<noteq> 0 then
             (case checked_neg (msg_errno msg) of None \<Rightarrow> Inl (BadErrno (msg_errno msg))
              | Some c \<Rightarrow> Inl (NftErrno ''dump NAT rules'' c))
           else parse_rule_dump table chain rest out)
        else if 20 \<le> length msg then
          and_then (parse_attrs (drop 20 msg)) (\<lambda>attrs.
            parse_rule_dump table chain rest
              (case rule_of_attrs table chain attrs of None \<Rightarrow> out | Some r \<Rightarrow> out @ [r]))
        else parse_rule_dump table chain rest out))"
  by pat_completeness auto
termination
  by (relation "measure (\<lambda>(t, c, buf, out). length buf)") (auto dest: next_msg_shorter)

declare parse_rule_dump.simps [simp del]

section \<open>Socket loops\<close>

text \<open>What successive receives on the non-blocking socket give: a datagram, \<open>WouldBlock\<close> (with
  whether the deadline has passed), or another error with its errno. A loop that is still waiting
  when the given receives are used up is \<open>None\<close>.\<close>

datatype recv = Datagram string | WouldBlock bool | RecvFail "int option"

fun dump_loop :: "string \<Rightarrow> string \<Rightarrow> recv list \<Rightarrow> RuleRecord list \<Rightarrow> (nft_error + RuleRecord list) option" where
  "dump_loop table chain [] rules = None"
| "dump_loop table chain (Datagram d # rs) rules =
     (if d = [] then Some (Inl DumpTruncated)
      else (case parse_rule_dump table chain d rules of
          Inl e \<Rightarrow> Some (Inl e)
        | Inr (True, rules') \<Rightarrow> Some (Inr rules')
        | Inr (False, rules') \<Rightarrow> dump_loop table chain rs rules'))"
| "dump_loop table chain (WouldBlock late # rs) rules =
     (if late then Some (Inl DumpTimedOut) else dump_loop table chain rs rules)"
| "dump_loop table chain (RecvFail e # rs) rules = Some (Inl DumpIo)"

definition dump_request :: "string \<Rightarrow> string \<Rightarrow> string" where
  "dump_request table chain =
     nlmsg (or (NFNL_SUBSYS_NFTABLES * 256) 7) (or NLM_F_REQUEST NLM_F_DUMP)
       (nfgenmsg NFPROTO_IPV4 0 @ nla_str 1 table @ nla_str 2 chain)"

definition EPROTO :: int where "EPROTO = 71"
definition EIO :: int where "EIO = 5"
definition ENOENT :: int where "ENOENT = 2"
definition EEXIST :: int where "EEXIST = 17"

text \<open>\<open>Some None\<close> is success, \<open>Some (Some e)\<close> the first errno.\<close>

fun drain_errors :: "int option \<Rightarrow> recv list \<Rightarrow> int option option" where
  "drain_errors first [] = None"
| "drain_errors first (Datagram d # rs) =
     drain_errors (case first of Some e \<Rightarrow> Some e
        | None \<Rightarrow> (case parse_nlmsg_error d of None \<Rightarrow> Some EPROTO | Some e \<Rightarrow> e)) rs"
| "drain_errors first (WouldBlock late # rs) = Some first"
| "drain_errors first (RecvFail e # rs) =
     Some (Some (case first of Some c \<Rightarrow> c | None \<Rightarrow> (case e of Some c \<Rightarrow> c | None \<Rightarrow> EIO)))"

definition batch :: "string list \<Rightarrow> string" where
  "batch msgs = batch_bookend 16 @ concat msgs @ batch_bookend 17"

section \<open>Installing the shared NAT table\<close>

definition NAT_RULE_USERDATA :: string where "NAT_RULE_USERDATA = ''zerun:nat:v1''"

record NatConfig =
  table :: string
  source_network :: Ipv4Addr
  prefix_len :: nat

definition marked :: "RuleRecord \<Rightarrow> bool" where
  "marked r \<longleftrightarrow> userdata r = Some NAT_RULE_USERDATA"

text \<open>The loop over the sorted rules: the messages that delete, and whether a marked rule is kept.\<close>

fun stale_rules :: "string \<Rightarrow> bool \<Rightarrow> RuleRecord list \<Rightarrow> nft_error + nat list \<times> bool" where
  "stale_rules t kept [] = Inr ([], kept)"
| "stale_rules t kept (r # rs) =
     (if marked r \<and> \<not> kept then stale_rules t True rs
      else (case handle r of None \<Rightarrow> Inl (NoHandle t)
        | Some h \<Rightarrow> and_then (stale_rules t kept rs) (\<lambda>(hs, k). Inr (h # hs, k))))"

text \<open>The kernel's answers, in the order they are asked for: \<open>None\<close> is success, \<open>Some e\<close> an errno.\<close>

record nat_answers =
  a_table :: "int option"
  a_chain :: "int option"
  a_dump :: "nft_error + RuleRecord list"
  a_rule :: "int option"
  a_delete :: "int option"
  a_dump_again :: "nft_error + RuleRecord list"

datatype nft_call = SendBatch "string list" | DumpRules string string

definition ensure_object :: "string \<Rightarrow> int option \<Rightarrow> nft_error + unit" where
  "ensure_object label ans = (case ans of None \<Rightarrow> Inr ()
     | Some c \<Rightarrow> if c = EEXIST then Inr () else Inl (NftErrno label c))"

definition has_canonical_rule :: "nft_error + RuleRecord list \<Rightarrow> nft_error + bool" where
  "has_canonical_rule dump = and_then dump (\<lambda>rules. Inr (list_ex marked rules))"

definition remove_stale :: "NatConfig \<Rightarrow> nat_answers \<Rightarrow> nat list \<Rightarrow> (nft_error + unit) \<times> nft_call list" where
  "remove_stale cfg ans hs =
     (if hs = [] then (Inr (), [])
      else let del = SendBatch (map (msg_del_rule (table cfg) ''postrouting'') hs) in
        (case a_delete ans of
           None \<Rightarrow> (Inr (), [del])
         | Some c \<Rightarrow>
            if c = ENOENT then
              (and_then (has_canonical_rule (a_dump_again ans)) (\<lambda>ok.
                 if ok then Inr () else Inl (NftErrno ''remove stale NAT rules'' ENOENT)),
               [del, DumpRules (table cfg) ''postrouting''])
            else (Inl (NftErrno ''remove stale NAT rules'' c), [del])))"

definition install_nat :: "NatConfig \<Rightarrow> nat_answers \<Rightarrow> (nft_error + unit) \<times> nft_call list" where
  "install_nat cfg ans =
     (let t = table cfg; c0 = [SendBatch [msg_new_table t]] in
      case ensure_object ''table'' (a_table ans) of Inl e \<Rightarrow> (Inl e, c0) | Inr _ \<Rightarrow>
      let c1 = c0 @ [SendBatch [msg_new_chain t ''postrouting'' 4 100]] in
      case ensure_object ''postrouting chain'' (a_chain ans) of Inl e \<Rightarrow> (Inl e, c1) | Inr _ \<Rightarrow>
      let c2 = c1 @ [DumpRules t ''postrouting''] in
      case a_dump ans of Inl e \<Rightarrow> (Inl e, c2) | Inr rules \<Rightarrow>
      case stale_rules t False (sort_key handle rules) of Inl e \<Rightarrow> (Inl e, c2) | Inr (hs, kept) \<Rightarrow>
      if kept then (let (r, cs) = remove_stale cfg ans hs in (r, c2 @ cs))
      else
        let c3 = c2 @ [SendBatch [msg_new_rule t ''postrouting''
                 (masquerade_rule (source_network cfg) (prefix_len cfg)) (Some NAT_RULE_USERDATA)]] in
        case ensure_object ''NAT rule'' (a_rule ans) of Inl e \<Rightarrow> (Inl e, c3) | Inr _ \<Rightarrow>
          (let (r, cs) = remove_stale cfg ans hs in (r, c3 @ cs)))"

section \<open>The codecs\<close>

lemma aligned_len_ge: "len \<le> aligned_len len"
  by (simp add: aligned_len_def)

lemma length_nla: "length (nla typ payload) = aligned_len (4 + length payload)"
proof -
  have "n + (4 - n mod 4) mod 4 = aligned_len n" for n
  proof (cases "n mod 4 = 0")
    case True
    then obtain k where "n = 4 * k" by auto
    then show ?thesis by (simp add: aligned_len_def)
  next
    case False
    define q r where "q = n div 4" and "r = n mod 4"
    have "n = 4 * q + r" "0 < r" "r < 4" using False by (simp_all add: q_def r_def)
    then have "r \<in> {1, 2, 3}" by auto
    with \<open>n = 4 * q + r\<close> show ?thesis by (auto simp: aligned_len_def)
  qed
  from this [of "4 + length payload"] show ?thesis by (simp add: nla_def Let_def)
qed

lemma next_attr_nla:
  assumes "length payload \<le> U16_MAX - 4"
  shows "next_attr (nla typ payload @ rest) = Inr ((typ mod 2 ^ 14, payload), rest)"
proof -
  define b where "b = nla typ payload @ rest"
  have len: "le_val (take 2 b) = 4 + length payload"
    using assms by (simp add: b_def nla_def Let_def le_val_le_bytes)
  have kind: "le_val (take 2 (drop 2 b)) = typ mod 2 ^ 16"
    by (simp add: b_def nla_def Let_def le_val_le_bytes)
  have "and (take_bit 16 typ) (mask 14) = take_bit 14 (take_bit 16 typ)"
    by (simp only: take_bit_eq_mask [of 14 "take_bit 16 typ"])
  then have low: "and (typ mod 2 ^ 16) 0x3fff = typ mod 2 ^ 14"
    by (simp add: mask_eq_exp_minus_1 take_bit_eq_mod mod_mod_cancel)
  have body: "take (length payload) (drop 4 b) = payload"
    by (simp add: b_def nla_def Let_def)
  have tail: "drop (aligned_len (4 + length payload)) b = rest"
    by (simp add: b_def length_nla [of "typ", symmetric])
  have blen: "length b = aligned_len (4 + length payload) + length rest"
    by (simp add: b_def length_nla)
  have "next_attr b = Inr ((typ mod 2 ^ 14, payload), rest)"
    using aligned_len_ge [of "4 + length payload"]
    by (simp add: next_attr_def len kind low [simplified] body tail blen Let_def)
  then show ?thesis by (simp add: b_def)
qed

lemma nla_not_Nil [simp]: "nla typ payload \<noteq> []"
proof -
  have "0 < length (nla typ payload)"
    unfolding length_nla using aligned_len_ge [of "4 + length payload"] by linarith
  then show ?thesis by simp
qed

interpretation attr: frame_codec "\<lambda>(typ, payload). nla typ payload" next_attr
  "\<lambda>(typ, payload). length payload \<le> U16_MAX - 4" "\<lambda>(typ, payload). (typ mod 2 ^ 14, payload)"
  by unfold_locales (auto simp: next_attr_nla simp del: max_values)

lemma parse_attrs_Cons:
  "length payload \<le> U16_MAX - 4 \<Longrightarrow>
     parse_attrs (nla typ payload @ rest) =
       and_then (parse_attrs rest) (\<lambda>attrs. Inr ((typ mod 2 ^ 14, payload) # attrs))"
  by (subst parse_attrs.simps) (simp add: next_attr_nla del: max_values)

lemma parse_attrs_Nil [simp]: "parse_attrs [] = Inr []"
  by (simp add: parse_attrs.simps)

lemma parse_attrs_concat:
  "\<forall>(typ, payload) \<in> set as. length payload \<le> U16_MAX - 4 \<Longrightarrow>
     parse_attrs (concat (map (\<lambda>(typ, payload). nla typ payload) as)) =
       Inr (map (\<lambda>(typ, payload). (typ mod 2 ^ 14, payload)) as)"
  by (induction as) (auto simp: parse_attrs_Cons simp del: max_values)

text \<open>A message whose payload is a multiple of four long, as every message built here is.\<close>

definition msg_fits :: "nat \<times> nat \<times> string \<Rightarrow> bool" where
  "msg_fits = (\<lambda>(t, f, p). length p mod 4 = 0 \<and> 16 + length p < 2 ^ 32)"

lemma next_msg_nlmsg:
  assumes "length p mod 4 = 0" and "16 + length p < 2 ^ 32"
  shows "next_msg (nlmsg t f p @ rest) = Inr ((t mod 2 ^ 16, nlmsg t f p), rest)"
proof -
  obtain k where "length p = 4 * k" using assms(1) by auto
  then have al: "aligned_len (16 + length p) = 16 + length p"
    by (simp add: aligned_len_def)
  have "le_val (take 4 (nlmsg t f p @ rest)) = 16 + length p"
    using assms(2) by (simp add: nlmsg_def le_val_le_bytes)
  moreover have "le_val (take 2 (drop 4 (nlmsg t f p @ rest))) = t mod 2 ^ 16"
    by (simp add: nlmsg_def le_val_le_bytes)
  moreover have "length (nlmsg t f p) = 16 + length p" by (simp add: nlmsg_def)
  ultimately show ?thesis by (simp add: next_msg_def Let_def al)
qed

lemma nlmsg_not_Nil [simp]: "nlmsg t f p \<noteq> []"
  using arg_cong [of "nlmsg t f p" "[]" length] by (auto simp: nlmsg_def)

interpretation msg: frame_codec "\<lambda>(t, f, p). nlmsg t f p" next_msg msg_fits
  "\<lambda>(t, f, p). (t mod 2 ^ 16, nlmsg t f p)"
  by unfold_locales (auto simp: msg_fits_def next_msg_nlmsg)

lemma length_nla_mod4 [simp]: "length (nla t p) mod 4 = 0"
  by (simp add: length_nla aligned_len_def)

section \<open>What the masquerade rule means\<close>

text \<open>The expressions of a rule, and the decoder of their netlink form.\<close>

datatype nft_expr =
    Payload nat nat nat nat
  | Bitwise nat nat string string
  | Cmp nat nat string
  | Meta nat nat
  | Masq

definition unwrap :: "string \<Rightarrow> string option" where
  "unwrap v = (case parse_attrs v of Inr [(k, raw)] \<Rightarrow> if k = 1 then Some raw else None | _ \<Rightarrow> None)"

definition field :: "nat \<Rightarrow> (nat \<times> string) list \<Rightarrow> nat" where
  "field k attrs = (case map_of attrs k of None \<Rightarrow> 0 | Some v \<Rightarrow> be_val v)"

definition nest :: "nat \<Rightarrow> (nat \<times> string) list \<Rightarrow> string option" where
  "nest k attrs = (case map_of attrs k of None \<Rightarrow> None | Some v \<Rightarrow> unwrap v)"

definition decode_data :: "string \<Rightarrow> (nat \<times> string) list \<Rightarrow> nft_expr option" where
  "decode_data name d =
     (if name = ''payload'' then Some (Payload (field 1 d) (field 2 d) (field 3 d) (field 4 d))
      else if name = ''bitwise'' then
        (case (nest 4 d, nest 5 d) of
           (Some m, Some x) \<Rightarrow> if field 1 d = field 2 d then Some (Bitwise (field 1 d) (field 3 d) m x) else None
         | _ \<Rightarrow> None)
      else if name = ''cmp'' then map_option (Cmp (field 1 d) (field 2 d)) (nest 3 d)
      else if name = ''meta'' then Some (Meta (field 1 d) (field 2 d))
      else if name = ''masq'' then Some Masq else None)"

definition decode_expr :: "nat \<times> string \<Rightarrow> nft_expr option" where
  "decode_expr elem =
     (case parse_attrs (snd elem) of
        Inr [(k, n), (k', d)] \<Rightarrow>
          (if fst elem = 1 \<and> k = 1 \<and> k' = 2 then
            (case (parse_string n, parse_attrs d) of (Some name, Inr attrs) \<Rightarrow> decode_data name attrs | _ \<Rightarrow> None)
           else None)
      | _ \<Rightarrow> None)"

fun decode_list :: "(nat \<times> string) list \<Rightarrow> nft_expr list option" where
  "decode_list [] = Some []"
| "decode_list (e # es) =
     (case (decode_expr e, decode_list es) of (Some x, Some xs) \<Rightarrow> Some (x # xs) | _ \<Rightarrow> None)"

definition decode_rule :: "string \<Rightarrow> nft_expr list option" where
  "decode_rule bytes = (case parse_attrs bytes of Inl _ \<Rightarrow> None | Inr es \<Rightarrow> decode_list es)"

text \<open>What nf_tables documents of these expressions: a payload load of the network header, an
  AND and XOR with constants, a comparison that ends the rule when it fails, the name of the output
  interface in sixteen bytes, and the masquerade verdict.\<close>

definition byte_and :: "char \<Rightarrow> char \<Rightarrow> char" where
  "byte_and a b = char_of (and (of_char a :: nat) (of_char b))"

definition byte_xor :: "char \<Rightarrow> char \<Rightarrow> char" where
  "byte_xor a b = char_of (xor (of_char a :: nat) (of_char b))"

locale nft_vm =
  fixes run :: "nft_expr list \<Rightarrow> string \<Rightarrow> string \<Rightarrow> (nat \<Rightarrow> string) \<Rightarrow> bool"
  assumes run_payload: "run (Payload r 1 off len # es) hdr oif regs =
      run es hdr oif (regs(r := take len (drop off hdr)))"
    and run_bitwise: "run (Bitwise r len m x # es) hdr oif regs =
      run es hdr oif (regs(r := map2 byte_xor (map2 byte_and (take len (regs r)) m) x))"
    and run_cmp_eq: "run (Cmp r 0 v # es) hdr oif regs = (regs r = v \<and> run es hdr oif regs)"
    and run_cmp_neq: "run (Cmp r 1 v # es) hdr oif regs = (regs r \<noteq> v \<and> run es hdr oif regs)"
    and run_oifname: "run (Meta r 7 # es) hdr oif regs = run es hdr oif (regs(r := oif))"
    and run_masq: "run [Masq] hdr oif regs"
begin

lemma run_masquerade:
  "run [Payload 1 1 12 4, Bitwise 1 4 m x, Cmp 1 0 net, Meta 1 7, Cmp 1 1 name, Masq] hdr oif regs
     \<longleftrightarrow> map2 byte_xor (map2 byte_and (take 4 (drop 12 hdr)) m) x = net \<and> oif \<noteq> name"
  by (simp add: run_payload run_bitwise run_cmp_eq run_cmp_neq run_oifname run_masq del: One_nat_def)

lemma run_masquerade_host:
  "run [Payload 1 1 12 4, Cmp 1 0 net, Meta 1 7, Cmp 1 1 name, Masq] hdr oif regs
     \<longleftrightarrow> take 4 (drop 12 hdr) = net \<and> oif \<noteq> name"
  by (simp add: run_payload run_cmp_eq run_cmp_neq run_oifname run_masq del: One_nat_def)

end

fun nft_run :: "nft_expr list \<Rightarrow> string \<Rightarrow> string \<Rightarrow> (nat \<Rightarrow> string) \<Rightarrow> bool" where
  "nft_run [] hdr oif regs = False"
| "nft_run (Payload r base off len # es) hdr oif regs =
     nft_run es hdr oif (regs(r := if base = 1 then take len (drop off hdr) else []))"
| "nft_run (Bitwise r len m x # es) hdr oif regs =
     nft_run es hdr oif (regs(r := map2 byte_xor (map2 byte_and (take len (regs r)) m) x))"
| "nft_run (Cmp r op v # es) hdr oif regs =
     ((if op = 0 then regs r = v else regs r \<noteq> v) \<and> nft_run es hdr oif regs)"
| "nft_run (Meta r key # es) hdr oif regs =
     nft_run es hdr oif (regs(r := if key = 7 then oif else []))"
| "nft_run (Masq # es) hdr oif regs = True"

interpretation vm: nft_vm nft_run
  by unfold_locales simp_all

lemma parse_attrs_one: "length p \<le> U16_MAX - 4 \<Longrightarrow> parse_attrs (nla t p) = Inr [(t mod 2 ^ 14, p)]"
  using parse_attrs_Cons [of p t "[]"] by (simp del: max_values)

lemma unwrap_data_value: "length raw \<le> U16_MAX - 4 \<Longrightarrow> unwrap (data_value raw) = Some raw"
  by (simp add: unwrap_def data_value_def parse_attrs_one del: max_values)

lemma length_be32 [simp]: "length (be32 v) = 4"
  by (simp add: be32_def)

lemma be_val_be32 [simp]: "be_val (be32 v) = v mod 2 ^ 32"
  by (simp add: be32_def be_val_be_bytes)

lemma parse_string_nul:
  assumes "is_ascii s" and "CHR 0x00 \<notin> set s"
  shows "parse_string (s @ [CHR 0x00]) = Some s"
proof -
  have "takeWhile (\<lambda>c. c \<noteq> CHR 0x00) (s @ [CHR 0x00]) = s"
    using assms(2) by (subst takeWhile_append2) auto
  then show ?thesis using valid_utf8_ascii [OF assms(1)] by (simp add: parse_string_def)
qed

lemma decode_rule_expr:
  assumes name: "is_ascii name" "CHR 0x00 \<notin> set name" "length name \<le> 16"
    and data: "length data \<le> 1024" "parse_attrs data = Inr attrs"
  shows "decode_rule (expr name data @ rest) =
    (case (decode_data name attrs, decode_rule rest) of (Some x, Some xs) \<Rightarrow> Some (x # xs) | _ \<Rightarrow> None)"
proof -
  define inner where "inner = nla_str 1 name @ nla_nested 2 data"
  have "aligned_len (5 + length name) \<le> 24" "aligned_len (4 + length data) \<le> 1032"
    using name(3) data(1) by (simp_all add: aligned_len_def)
  then have len: "length inner \<le> U16_MAX - 4"
    by (simp add: inner_def nla_str_def nla_nested_def length_nla)
  have elems: "parse_attrs inner = Inr [(1, name @ [CHR 0x00]), (2, data)]"
    using name(3) data(1)
    by (simp add: inner_def nla_str_def nla_nested_def parse_attrs_Cons parse_attrs_one)
  have "decode_expr (1, inner) = decode_data name attrs"
    by (simp add: decode_expr_def elems parse_string_nul [OF name(1,2)] data(2))
  moreover have "parse_attrs (expr name data @ rest) =
      and_then (parse_attrs rest) (\<lambda>as. Inr ((1, inner) # as))"
    using parse_attrs_Cons [OF len, of "or 1 0x8000" rest]
    unfolding expr_def inner_def [symmetric] nla_nested_def [of 1 inner] by simp
  ultimately show ?thesis
    by (cases "parse_attrs rest") (auto simp: decode_rule_def split: option.splits)
qed

lemmas nla_forms = nla_be32_def nla_nested_def data_value_def parse_attrs_Cons parse_attrs_one
  length_nla aligned_len_def

lemma parse_payload_data: "parse_attrs (payload_data r b ofs l) =
    Inr [(1, be32 r), (2, be32 b), (3, be32 ofs), (4, be32 l)]"
  by (simp add: payload_data_def nla_forms)

lemma parse_meta_data: "parse_attrs (meta_data r k) = Inr [(2, be32 k), (1, be32 r)]"
  by (simp add: meta_data_def nla_forms)

lemma parse_cmp_data: "length v \<le> 16 \<Longrightarrow>
    parse_attrs (cmp_data r ope v) = Inr [(1, be32 r), (2, be32 ope), (3, data_value v)]"
  by (simp add: cmp_data_def nla_forms)

lemma parse_bitwise_data: "length m = 4 \<Longrightarrow>
    parse_attrs (bitwise_data r l m) = Inr [(1, be32 r), (2, be32 r), (3, be32 l),
      (4, data_value m), (5, data_value (replicate 4 (CHR 0x00)))]"
  by (simp add: bitwise_data_def nla_forms)

lemma decode_rule_Nil [simp]: "decode_rule [] = Some []"
  by (simp add: decode_rule_def)

lemma decode_payload: "decode_rule (payload_expr r b ofs l @ rest) =
    map_option ((#) (Payload (r mod 2 ^ 32) (b mod 2 ^ 32) (ofs mod 2 ^ 32) (l mod 2 ^ 32))) (decode_rule rest)"
  unfolding payload_expr_def
  by (subst decode_rule_expr [OF _ _ _ _ parse_payload_data])
    (auto simp: is_ascii_def payload_data_def nla_forms decode_data_def field_def split: option.splits)

lemma decode_meta: "decode_rule (meta_expr r k @ rest) =
    map_option ((#) (Meta (r mod 2 ^ 32) (k mod 2 ^ 32))) (decode_rule rest)"
  unfolding meta_expr_def
  by (subst decode_rule_expr [OF _ _ _ _ parse_meta_data])
    (auto simp: is_ascii_def meta_data_def nla_forms decode_data_def field_def split: option.splits)

lemma decode_masq: "decode_rule (masq_expr @ rest) = map_option ((#) Masq) (decode_rule rest)"
  unfolding masq_expr_def
  by (subst decode_rule_expr [OF _ _ _ _ parse_attrs_Nil])
    (auto simp: is_ascii_def decode_data_def split: option.splits)

lemma decode_cmp:
  assumes "length v \<le> 16"
  shows "decode_rule (cmp_expr r ope v @ rest) =
    map_option ((#) (Cmp (r mod 2 ^ 32) (ope mod 2 ^ 32) v)) (decode_rule rest)"
  unfolding cmp_expr_def
  by (subst decode_rule_expr [OF _ _ _ _ parse_cmp_data [OF assms]])
    (use assms in \<open>auto simp: is_ascii_def cmp_data_def nla_forms decode_data_def field_def nest_def
       unwrap_data_value [unfolded data_value_def, simplified] split: option.splits\<close>)

lemma decode_bitwise:
  assumes "length m = 4"
  shows "decode_rule (bitwise_and_expr r l m @ rest) =
    map_option ((#) (Bitwise (r mod 2 ^ 32) (l mod 2 ^ 32) m (replicate 4 (CHR 0x00)))) (decode_rule rest)"
  unfolding bitwise_and_expr_def
  by (subst decode_rule_expr [OF _ _ _ _ parse_bitwise_data [OF assms]])
    (use assms in \<open>auto simp: is_ascii_def bitwise_data_def nla_forms decode_data_def field_def nest_def
       unwrap_data_value [unfolded data_value_def, simplified] split: option.splits\<close>)

definition masquerade_exprs :: "Ipv4Addr \<Rightarrow> nat \<Rightarrow> nft_expr list" where
  "masquerade_exprs net p =
     [Payload 1 1 12 4]
       @ (if p < 32 then [Bitwise 1 4 (prefix_to_mask p) (replicate 4 (CHR 0x00))] else [])
       @ [Cmp 1 0 (octet_bytes net), Meta 1 7, Cmp 1 1 (ifname_value ''zerun0''), Masq]"

lemma length_octet_bytes [simp]: "length (octet_bytes ip) = 4"
  by (cases ip) (simp add: octet_bytes_def)

lemma length_ifname_value [simp]: "length (ifname_value name) = 16"
  by (simp add: ifname_value_def Let_def)

lemma decode_masquerade_rule: "decode_rule (masquerade_rule net p) = Some (masquerade_exprs net p)"
  using decode_masq [of "[]"]
  by (simp add: masquerade_rule_def ip_saddr_match_def oifname_neq_def masquerade_exprs_def
      decode_payload decode_bitwise decode_cmp decode_meta prefix_to_mask_def)

lemma nat_byte_split: "(a :: nat) + 256 * x = or (take_bit 8 a) (push_bit 8 x)" if "a < 256"
proof -
  have "and (take_bit 8 a) (push_bit 8 x) = 0"
    by (rule bit_eqI) (auto simp: bit_simps)
  then have "take_bit 8 a + push_bit 8 x = or (take_bit 8 a) (push_bit 8 x)"
    by (rule disjunctive_add_eq_or)
  moreover have "take_bit 8 a = a" using that by (simp add: take_bit_nat_eq_self)
  ultimately show ?thesis by (simp add: push_bit_eq_mult)
qed

lemma and_byte_split:
  fixes a b x y :: nat
  assumes "a < 256" and "b < 256"
  shows "and (a + 256 * x) (b + 256 * y) = and a b + 256 * and x y"
proof -
  have "take_bit 8 a = a" "take_bit 8 b = b" using assms by (simp_all add: take_bit_nat_eq_self)
  then have "take_bit 8 (and a b) = and a b" by (simp add: take_bit_and)
  then have "and a b < 256"
    using take_bit_nat_less_exp [of 8 "and a b"] by simp
  then show ?thesis
    unfolding nat_byte_split [OF assms(1)] nat_byte_split [OF assms(2)] nat_byte_split [OF \<open>and a b < 256\<close>]
    by (intro bit_eqI) (auto simp: bit_simps)
qed

lemma le_val_map2_and:
  "length s = length t \<Longrightarrow> le_val (map2 byte_and s t) = and (le_val s) (le_val t)"
proof (induction s t rule: list_induct2)
  case (Cons a s b t)
  have "take_bit 8 (and (of_char a :: nat) (of_char b)) = and (of_char a) (of_char b)"
    by (simp add: take_bit_and take_bit_nat_eq_self)
  then have "and (of_char a :: nat) (of_char b) mod 256 = and (of_char a) (of_char b)"
    by (simp add: take_bit_eq_mod)
  with Cons show ?case by (simp add: byte_and_def and_byte_split)
qed simp

lemma be_val_map2_and:
  "length s = length t \<Longrightarrow> be_val (map2 byte_and s t) = and (be_val s) (be_val t)"
  by (simp add: be_val_def rev_map zip_rev [symmetric] le_val_map2_and)

lemma map2_xor_zero: "map2 byte_xor s (replicate (length s) (CHR 0x00)) = s"
  by (induction s) (auto simp: byte_xor_def)

lemma unat_mask_value:
  assumes "p < 32"
  shows "and v (unat (mask_value p)) = (v mod 2 ^ 32) - v mod 2 ^ (32 - p)"
proof -
  have bits: "bit (unat (mask_value p)) n \<longleftrightarrow> 32 - p \<le> n \<and> n < 32" for n
    using assms by (auto simp: mask_value_def bit_unsigned_iff bit_push_bit_iff bit_simps)
  have "and v (unat (mask_value p)) = push_bit (32 - p) (drop_bit (32 - p) (take_bit 32 v))"
    by (rule bit_eqI)
      (auto simp: bits bit_and_iff bit_push_bit_iff_nat bit_drop_bit_eq bit_take_bit_iff)
  also have "\<dots> = (v mod 2 ^ 32) div 2 ^ (32 - p) * 2 ^ (32 - p)"
    by (simp add: push_bit_eq_mult drop_bit_eq_div take_bit_eq_mod)
  also have "\<dots> = v mod 2 ^ 32 - (v mod 2 ^ 32) mod 2 ^ (32 - p)"
    by (rule minus_mod_eq_div_mult [symmetric])
  also have "(v mod 2 ^ 32) mod 2 ^ (32 - p) = v mod 2 ^ (32 - p)"
    by (rule mod_mod_cancel, rule le_imp_power_dvd) simp
  finally show ?thesis .
qed

text \<open>The address a packet comes from is in the network exactly when the top bits agree.\<close>

definition in_network :: "Ipv4Addr \<Rightarrow> nat \<Rightarrow> string \<Rightarrow> bool" where
  "in_network net p saddr \<longleftrightarrow>
     be_val saddr div 2 ^ (32 - p) = be_val (octet_bytes net) div 2 ^ (32 - p)"

lemma be_val_inj: "length s = length t \<Longrightarrow> be_val s = be_val t \<Longrightarrow> s = t"
  by (metis be_bytes_be_val)

lemma masked_match_iff:
  assumes "length saddr = 4" and "p < 32" and "be_val (octet_bytes net) mod 2 ^ (32 - p) = 0"
  shows "map2 byte_and saddr (prefix_to_mask p) = octet_bytes net \<longleftrightarrow> in_network net p saddr"
proof -
  define k v n where "k = 32 - p" and "v = be_val saddr" and "n = be_val (octet_bytes net)"
  have "v < 2 ^ 32" using be_val_bound [of saddr] assms(1) by (simp add: v_def)
  have "unat (mask_value p) < 2 ^ 32" using unsigned_less [of "mask_value p"] by simp
  then have "be_val (prefix_to_mask p) = unat (mask_value p)"
    by (simp add: prefix_to_mask_def be_val_be_bytes)
  then have "be_val (map2 byte_and saddr (prefix_to_mask p)) = v - v mod 2 ^ k"
    using assms(1,2) \<open>v < 2 ^ 32\<close>
    by (simp add: be_val_map2_and prefix_to_mask_def unat_mask_value v_def k_def del: power_numeral)
  then have "map2 byte_and saddr (prefix_to_mask p) = octet_bytes net \<longleftrightarrow> v - v mod 2 ^ k = n"
    using assms(1) be_val_inj [of "map2 byte_and saddr (prefix_to_mask p)" "octet_bytes net"]
    by (auto simp: n_def prefix_to_mask_def)
  also have "\<dots> \<longleftrightarrow> v div 2 ^ k * 2 ^ k = n div 2 ^ k * 2 ^ k"
  proof -
    have "n div 2 ^ k * 2 ^ k = n"
      using assms(3) minus_mod_eq_div_mult [of n "2 ^ k"] by (simp add: n_def k_def)
    then show ?thesis by (simp add: minus_mod_eq_div_mult)
  qed
  also have "\<dots> \<longleftrightarrow> v div 2 ^ k = n div 2 ^ k" by simp
  finally show ?thesis by (simp add: in_network_def v_def n_def k_def)
qed

section \<open>Facts on installing the table\<close>

lemma stale_rules_kept:
  "stale_rules t True rs = Inr (hs, k) \<longleftrightarrow> k \<and> map handle rs = map Some hs"
  by (induction rs arbitrary: hs) (auto simp: and_then_eq_Inr_iff split: option.splits)

lemma stale_rules_spec:
  assumes "stale_rules t False rs = Inr (hs, k)"
  shows "(k \<longleftrightarrow> list_ex marked rs) \<and>
    map Some hs = map handle (case position marked rs of None \<Rightarrow> rs | Some i \<Rightarrow> take i rs @ drop (Suc i) rs)"
  using assms
  by (induction rs arbitrary: hs)
    (auto simp: and_then_eq_Inr_iff stale_rules_kept split: option.splits if_splits)

section \<open>Properties\<close>

text \<open>C26: The rule the runtime encodes for the kernel, decoded and run by the nftables machine, masquerades
  exactly the packets whose IPv4 source lies in the container network and that do not leave through the
  bridge itself.\<close>

theorem masquerade_meaning:
  assumes "nft_vm run" and "p \<le> 32" and "be_val (octet_bytes net) mod 2 ^ (32 - p) = 0" and "20 \<le> length hdr"
  shows "\<exists>es. decode_rule (masquerade_rule net p) = Some es \<and>
    (run es hdr oif regs \<longleftrightarrow> in_network net p (take 4 (drop 12 hdr)) \<and> oif \<noteq> ifname_value ''zerun0'')"
proof -
  let ?s = "take 4 (drop 12 hdr)"
  have len: "length ?s = 4" using assms(4) by simp
  show ?thesis
  proof (cases "p < 32")
    case True
    have "map2 byte_xor (map2 byte_and ?s (prefix_to_mask p)) (replicate 4 (CHR 0x00)) =
        map2 byte_and ?s (prefix_to_mask p)"
      using map2_xor_zero [of "map2 byte_and ?s (prefix_to_mask p)"] len by (simp add: prefix_to_mask_def)
    with True masked_match_iff [OF len True assms(3)] show ?thesis
      by (simp add: decode_masquerade_rule masquerade_exprs_def nft_vm.run_masquerade [OF assms(1)] del: One_nat_def)
  next
    case False
    then have p: "p = 32" using assms(2) by simp
    have "?s = octet_bytes net \<longleftrightarrow> in_network net 32 ?s"
      using len be_val_inj [of ?s "octet_bytes net"] by (auto simp: in_network_def)
    then show ?thesis
      by (simp add: p decode_masquerade_rule masquerade_exprs_def nft_vm.run_masquerade_host [OF assms(1)] del: One_nat_def)
  qed
qed

theorem masquerade_meaning_witness:
  "\<exists>es. decode_rule (masquerade_rule (Ipv4Addr 10 88 0 0) 24) = Some es \<and>
     \<not> nft_run es (replicate 20 (CHR 0x00)) (ifname_value ''zerun0'') (\<lambda>_. [])"
proof -
  have "be_val (octet_bytes (Ipv4Addr 10 88 0 0)) mod 2 ^ (32 - 24) = 0"
    by (simp add: octet_bytes_def be_val_def)
  from masquerade_meaning [OF vm.nft_vm_axioms _ this, of "replicate 20 (CHR 0x00)" "ifname_value ''zerun0''"]
  show ?thesis by auto
qed

text \<open>Attributes survive the wire: whatever attributes are encoded one after the other, the reply parser
  returns the same types (without the two flag bits) and the same payloads, padding skipped.\<close>

lemma attributes_roundtrip:
  assumes "\<forall>(ty, payload) \<in> set as. length payload \<le> U16_MAX - 4"
  shows "parse_attrs (concat (map (\<lambda>(ty, payload). nla ty payload) as)) =
    Inr (map (\<lambda>(ty, payload). (ty mod 2 ^ 14, payload)) as)"
  using assms by (rule parse_attrs_concat)

lemma attributes_roundtrip_witness:
  "parse_attrs (nla 1 ''abc'' @ nla 0x8002 []) = Inr [(1, ''abc''), (2, [])]"
  using attributes_roundtrip [of "[(1, ''abc''), (0x8002, [])]"] by simp

text \<open>C27: Installing the shared NAT table succeeds only with the canonical rule in place: one was in the
  dump, or the kernel took (or already had) the new one. Stale rules are deleted only after that, and the
  batch deletes every rule of the dump except the one that is kept, the marked rule with the lowest handle.\<close>

theorem install_nat_trace:
  assumes "install_nat cfg ans = (Inr (), calls)"
  shows "\<exists>rules rs hs. a_dump ans = Inr rules \<and> rs = sort_key handle rules \<and>
    map Some hs = map handle (case position marked rs of None \<Rightarrow> rs | Some i \<Rightarrow> take i rs @ drop (Suc i) rs) \<and>
    (list_ex marked rules \<or> a_rule ans = None \<or> a_rule ans = Some EEXIST) \<and>
    calls = [SendBatch [msg_new_table (table cfg)], SendBatch [msg_new_chain (table cfg) ''postrouting'' 4 100],
        DumpRules (table cfg) ''postrouting'']
      @ (if list_ex marked rules then [] else
          [SendBatch [msg_new_rule (table cfg) ''postrouting''
             (masquerade_rule (source_network cfg) (prefix_len cfg)) (Some NAT_RULE_USERDATA)]])
      @ (if hs = [] then [] else
          SendBatch (map (msg_del_rule (table cfg) ''postrouting'') hs)
          # (if a_delete ans = Some ENOENT then [DumpRules (table cfg) ''postrouting''] else []))"
proof -
  from assms obtain rules hs kept where d: "a_dump ans = Inr rules"
    and st: "stale_rules (table cfg) False (sort_key handle rules) = Inr (hs, kept)"
    by (auto simp: install_nat_def Let_def split: sum.splits)
  have ex: "list_ex marked (sort_key handle rules) = list_ex marked rules" by (simp add: list_ex_iff)
  from stale_rules_spec [OF st] have k: "kept = list_ex marked rules"
    and hs: "map Some hs = map handle (case position marked (sort_key handle rules) of
       None \<Rightarrow> sort_key handle rules | Some i \<Rightarrow> take i (sort_key handle rules) @ drop (Suc i) (sort_key handle rules))"
    by (simp_all add: ex)
  obtain r cs where rs: "remove_stale cfg ans hs = (r, cs)" by fastforce
  have cs: "cs = (if hs = [] then [] else
          SendBatch (map (msg_del_rule (table cfg) ''postrouting'') hs)
          # (if a_delete ans = Some ENOENT then [DumpRules (table cfg) ''postrouting''] else []))"
    using rs by (auto simp: remove_stale_def Let_def split: option.splits if_splits)
  obtain "ensure_object ''table'' (a_table ans) = Inr ()" "ensure_object ''postrouting chain'' (a_chain ans) = Inr ()"
    using assms by (auto simp: install_nat_def Let_def split: sum.splits)
  then have run: "install_nat cfg ans =
     (let c2 = [SendBatch [msg_new_table (table cfg)], SendBatch [msg_new_chain (table cfg) ''postrouting'' 4 100],
        DumpRules (table cfg) ''postrouting''];
        c3 = c2 @ [SendBatch [msg_new_rule (table cfg) ''postrouting''
             (masquerade_rule (source_network cfg) (prefix_len cfg)) (Some NAT_RULE_USERDATA)]]
      in if kept then (r, c2 @ cs)
         else (case ensure_object ''NAT rule'' (a_rule ans) of Inl e \<Rightarrow> (Inl e, c3) | Inr _ \<Rightarrow> (r, c3 @ cs)))"
    by (simp add: install_nat_def Let_def d st rs split: sum.split)
  have "(list_ex marked rules \<or> a_rule ans = None \<or> a_rule ans = Some EEXIST) \<and>
    calls = [SendBatch [msg_new_table (table cfg)], SendBatch [msg_new_chain (table cfg) ''postrouting'' 4 100],
        DumpRules (table cfg) ''postrouting'']
      @ (if list_ex marked rules then [] else
          [SendBatch [msg_new_rule (table cfg) ''postrouting''
             (masquerade_rule (source_network cfg) (prefix_len cfg)) (Some NAT_RULE_USERDATA)]]) @ cs"
    using assms unfolding run k Let_def
    by (cases "list_ex marked rules") (auto simp: ensure_object_def split: option.splits if_splits)
  then show ?thesis unfolding cs using d hs by blast
qed

theorem install_nat_trace_witness:
  "\<exists>calls. install_nat \<lparr>table = ''zerun'', source_network = Ipv4Addr 10 88 0 0, prefix_len = 16\<rparr>
      \<lparr>a_table = None, a_chain = Some EEXIST, a_dump = Inr [], a_rule = None, a_delete = None, a_dump_again = Inr []\<rparr>
      = (Inr (), calls) \<and> length calls = 4"
proof -
  let ?cfg = "\<lparr>table = ''zerun'', source_network = Ipv4Addr 10 88 0 0, prefix_len = 16\<rparr>"
  let ?ans = "\<lparr>a_table = None, a_chain = Some EEXIST, a_dump = Inr [], a_rule = None, a_delete = None, a_dump_again = Inr []\<rparr>"
  obtain calls where c: "install_nat ?cfg ?ans = (Inr (), calls)"
    by (simp add: install_nat_def ensure_object_def remove_stale_def Let_def)
  from install_nat_trace [OF c] have "length calls = 4" by auto
  with c show ?thesis by blast
qed

end
