(* ===== verification/Civil_Time.thy ===== *)
theory Civil_Time
  imports Rust_Str "HOL-Library.Signed_Division"
begin

text \<open>
  Calendar arithmetic: \<open>civil_from_days\<close> (src/state.rs), \<open>days_from_civil\<close> and \<open>days_in_month\<close>
  (src/logs.rs, src/main.rs), the RFC 3339 printers of state records and log lines (src/state.rs) and
  the fixed-width reader of state records (src/main.rs).

  The functions are over unbounded integers; Rust's \<open>/\<close> on signed integers truncates and is
  \<open>sdiv\<close>. The intermediate \<open>u64\<close> values are never negative for a day and month that come from a date.
\<close>

section \<open>The source's functions\<close>

definition civil_from_days :: "int \<Rightarrow> int \<times> int \<times> int" where
  "civil_from_days z0 =
     (let z = z0 + 719468;
          era = (if z \<ge> 0 then z else z - 146096) sdiv 146097;
          doe = z - era * 146097;
          yoe = (doe - doe div 1460 + doe div 36524 - doe div 146096) div 365;
          y = yoe + era * 400;
          doy = doe - (365 * yoe + yoe div 4 - yoe div 100);
          mp = (5 * doy + 2) div 153;
          d = doy - (153 * mp + 2) div 5 + 1;
          m = (if mp < 10 then mp + 3 else mp - 9)
      in (if m \<le> 2 then y + 1 else y, m, d))"

definition days_from_civil :: "int \<Rightarrow> int \<Rightarrow> int \<Rightarrow> int" where
  "days_from_civil y0 m d =
     (let y = (if m \<le> 2 then y0 - 1 else y0);
          era = (if y \<ge> 0 then y else y - 399) sdiv 400;
          yoe = y - era * 400;
          mp = (m + 9) mod 12;
          doy = (153 * mp + 2) div 5 + d - 1;
          doe = yoe * 365 + yoe div 4 - yoe div 100 + doy
      in era * 146097 + doe - 719468)"

text \<open>Rust's \<open>%\<close> is zero exactly when HOL's is.\<close>

definition days_in_month :: "int \<Rightarrow> int \<Rightarrow> int" where
  "days_in_month year month =
     (if month \<in> {1, 3, 5, 7, 8, 10, 12} then 31
      else if month \<in> {4, 6, 9, 11} then 30
      else if month = 2 then
        (if year smod 4 = 0 \<and> (year smod 100 \<noteq> 0 \<or> year smod 400 = 0) then 29 else 28)
      else 0)"

section \<open>The day of the era\<close>

lemma sdiv_floor:
  fixes z b c :: int
  assumes "0 < b" and "c = b - 1"
  shows "(if z \<ge> 0 then z else z - c) sdiv b = z div b"
proof (cases "z \<ge> 0")
  case True
  then show ?thesis using assms by (simp add: signed_divide_int_def sgn_if)
next
  case False
  have "- ((b - 1 - z) div b) = z div b"
  proof -
    have "(b - 1 - z) div b = - (z div b)"
    proof (rule int_div_pos_eq [where r = "b - 1 - z mod b"])
      show "b - 1 - z = b * - (z div b) + (b - 1 - z mod b)"
        using div_mult_mod_eq [of z b] by (simp add: algebra_simps)
    qed (use assms pos_mod_bound [OF assms(1), of z] pos_mod_sign [OF assms(1), of z] in auto)
    then show ?thesis by simp
  qed
  with False assms show ?thesis by (simp add: signed_divide_int_def sgn_if)
qed

definition era_year :: "int \<Rightarrow> int" where
  "era_year doe = (doe - doe div 1460 + doe div 36524 - doe div 146096) div 365"

definition year_start :: "int \<Rightarrow> int" where
  "year_start y = 365 * y + y div 4 - y div 100 + y div 400"

lemma era_year_numerator_mono_step:
  fixes n :: int
  assumes "0 \<le> n"
  shows "n - n div 1460 + n div 36524 - n div 146096 \<le>
    (n + 1) - (n + 1) div 1460 + (n + 1) div 36524 - (n + 1) div 146096"
proof -
  define a a' where "a = n div 1460" and "a' = (n + 1) div 1460"
  define q q' where "q = n div 36524" and "q' = (n + 1) div 36524"
  define r r' where "r = q div 4" and "r' = q' div 4"
  have "a' \<le> a + 1"
    using zdiv_mono1 [of "n + 1" "n + 1460" 1460] by (simp add: a_def a'_def)
  moreover have qs: "q \<le> q'" "q' \<le> q + 1"
    using zdiv_mono1 [of n "n + 1" 36524] zdiv_mono1 [of "n + 1" "n + 36524" 36524]
    by (simp_all add: q_def q'_def)
  moreover have "r' - r \<le> q' - q" using qs unfolding r_def r'_def by presburger
  ultimately have "n - a + q - r \<le> n + 1 - a' + q' - r'" by linarith
  moreover have "n div 146096 = r" "(n + 1) div 146096 = r'"
    using zdiv_zmult2_eq [of 4 n 36524] zdiv_zmult2_eq [of 4 "n + 1" 36524]
    by (simp_all add: q_def q'_def r_def r'_def)
  ultimately show ?thesis by (simp only: a_def a'_def q_def q'_def)
qed

lemma era_year_mono:
  fixes a b :: int
  assumes "0 \<le> a" and "a \<le> b"
  shows "era_year a \<le> era_year b"
proof -
  define g where "g n = n - n div 1460 + n div 36524 - n div 146096" for n :: int
  have "g a \<le> g b" using assms(2,1)
  proof (induction b rule: int_ge_induct)
    case (step b)
    then have "0 \<le> b" by linarith
    then have "g b \<le> g (b + 1)" unfolding g_def by (rule era_year_numerator_mono_step)
    with step show ?case by linarith
  qed simp
  then have "g a div 365 \<le> g b div 365" by (rule zdiv_mono1) simp
  then show ?thesis by (simp only: era_year_def g_def)
qed

lemma era_year_ends:
  "list_all (\<lambda>y. era_year (year_start y) = y \<and> era_year (year_start (y + 1) - 1) = y) [0..399]"
  unfolding era_year_def year_start_def by code_simp

lemma era_year_unique:
  assumes "0 \<le> y" and "y \<le> 399" and "year_start y \<le> doe" and "doe < year_start (y + 1)"
  shows "era_year doe = y"
proof -
  have "era_year (year_start y) = y" "era_year (year_start (y + 1) - 1) = y"
    using era_year_ends assms(1,2) by (auto simp: list_all_iff)
  moreover have "0 \<le> year_start y" using assms(1) by (simp add: year_start_def)
  ultimately show ?thesis
    using era_year_mono [of "year_start y" doe] era_year_mono [of doe "year_start (y + 1) - 1"] assms
    by linarith
qed

lemma year_exists:
  "0 \<le> doe \<Longrightarrow> doe < year_start (int n) \<Longrightarrow>
     \<exists>y. 0 \<le> y \<and> y < int n \<and> year_start y \<le> doe \<and> doe < year_start (y + 1)"
proof (induction n)
  case 0
  then show ?case by (simp add: year_start_def)
next
  case (Suc n)
  show ?case
  proof (cases "doe < year_start (int n)")
    case True
    then obtain y where "0 \<le> y" "y < int n" "year_start y \<le> doe" "doe < year_start (y + 1)"
      using Suc by blast
    then show ?thesis by (intro exI [of _ y]) auto
  next
    case False
    then show ?thesis using Suc.prems by (intro exI [of _ "int n"]) (auto simp: add.commute)
  qed
qed

lemma era_year_bounds:
  assumes "0 \<le> doe" and "doe < 146097"
  shows "0 \<le> era_year doe \<and> era_year doe \<le> 399 \<and>
    year_start (era_year doe) \<le> doe \<and> doe < year_start (era_year doe + 1)"
proof -
  have "year_start (int 400) = 146097" by (simp add: year_start_def)
  then obtain y where "0 \<le> y" "y < 400" "year_start y \<le> doe" "doe < year_start (y + 1)"
    using year_exists [of doe 400] assms by auto
  then show ?thesis using era_year_unique [of y doe] by auto
qed

section \<open>The day of the year\<close>

lemma month_of_day_check:
  "list_all (\<lambda>doy. let mp = (5 * doy + 2) div 153; d = doy - (153 * mp + 2) div 5 + 1 in
     0 \<le> mp \<and> mp \<le> 11 \<and> 1 \<le> d \<and> d \<le> 31 \<and>
     ((if mp < 10 then mp + 3 else mp - 9) + 9) mod 12 = mp \<and>
     d \<le> (if mp \<in> {0, 2, 4, 5, 7, 9, 10} then 31 else if mp = 11 then doy - 336 else 30)) [0..365 :: int]"
  by code_simp

lemma day_of_month_check:
  "list_all (\<lambda>mp. list_all (\<lambda>d. d \<le> (if mp \<in> {0, 2, 4, 5, 7, 9, 10} then 31 else if mp = 11 then 29 else 30) \<longrightarrow>
     (let doy = (153 * mp + 2) div 5 + d - 1 in (5 * doy + 2) div 153 = mp \<and> 0 \<le> doy \<and> doy \<le> 365)) [1..31])
     [0..11 :: int]"
  by code_simp

lemma month_of_day:
  fixes doy :: int
  assumes "0 \<le> doy" and "doy \<le> 365"
  defines "mp \<equiv> (5 * doy + 2) div 153"
  defines "d \<equiv> doy - (153 * mp + 2) div 5 + 1"
  shows "0 \<le> mp" "mp \<le> 11" "1 \<le> d" "d \<le> 31"
    "((if mp < 10 then mp + 3 else mp - 9) + 9) mod 12 = mp"
    "d \<le> (if mp \<in> {0, 2, 4, 5, 7, 9, 10} then 31 else if mp = 11 then doy - 336 else 30)"
  using bspec [OF month_of_day_check [unfolded list_all_iff Let_def set_upto], of doy] assms(1,2)
  unfolding mp_def d_def by (simp_all only: atLeastAtMost_iff)

lemma day_of_month:
  fixes mp d :: int
  assumes "0 \<le> mp" "mp \<le> 11" "1 \<le> d"
    "d \<le> (if mp \<in> {0, 2, 4, 5, 7, 9, 10} then 31 else if mp = 11 then 29 else 30)"
  defines "doy \<equiv> (153 * mp + 2) div 5 + d - 1"
  shows "(5 * doy + 2) div 153 = mp" "0 \<le> doy" "doy \<le> 365"
proof -
  have "d \<le> 31" using assms(4) by (auto split: if_splits)
  then have "d \<in> {1..31}" "mp \<in> {0..11}" using assms(1-3) by auto
  then have "(5 * doy + 2) div 153 = mp \<and> 0 \<le> doy \<and> doy \<le> 365"
    using day_of_month_check assms(4) unfolding doy_def list_all_iff Let_def set_upto by blast
  then show "(5 * doy + 2) div 153 = mp" "0 \<le> doy" "doy \<le> 365" by auto
qed

lemma year_length:
  assumes "0 \<le> y" and "y \<le> 399"
  shows "year_start (y + 1) - year_start y =
    (if (y + 1) mod 4 = 0 \<and> ((y + 1) mod 100 \<noteq> 0 \<or> (y + 1) mod 400 = 0) then 366 else 365)"
proof -
  have "list_all (\<lambda>y. year_start (y + 1) - year_start y =
    (if (y + 1) mod 4 = 0 \<and> ((y + 1) mod 100 \<noteq> 0 \<or> (y + 1) mod 400 = 0) then 366 else 365)) [0..399]"
    unfolding year_start_def by code_simp
  then show ?thesis using assms by (simp add: list_all_iff)
qed

section \<open>Closed forms\<close>

lemma civil_from_days_eq:
  "civil_from_days z0 =
     (let z = z0 + 719468; era = z div 146097; doe = z mod 146097;
          yoe = era_year doe; doy = doe - (365 * yoe + yoe div 4 - yoe div 100);
          mp = (5 * doy + 2) div 153; d = doy - (153 * mp + 2) div 5 + 1;
          m = (if mp < 10 then mp + 3 else mp - 9); y = yoe + era * 400
      in (if m \<le> 2 then y + 1 else y, m, d))"
proof -
  have "(if z \<ge> 0 then z else z - 146096) sdiv 146097 = z div 146097" for z :: int
    using sdiv_floor [of 146097 146096 z] by simp
  then show ?thesis
    by (simp only: civil_from_days_def era_year_def Let_def minus_div_mult_eq_mod)
qed

lemma days_from_civil_eq:
  "days_from_civil y0 m d =
     (let y = (if m \<le> 2 then y0 - 1 else y0); yoe = y mod 400
      in y div 400 * 146097 + (yoe * 365 + yoe div 4 - yoe div 100
         + ((153 * ((m + 9) mod 12) + 2) div 5 + d - 1)) - 719468)"
proof -
  have "(if y \<ge> 0 then y else y - 399) sdiv 400 = y div 400" for y :: int
    using sdiv_floor [of 400 399 y] by simp
  then show ?thesis
    by (simp only: days_from_civil_def Let_def minus_div_mult_eq_mod)
qed

lemma year_start_below_400: "0 \<le> y \<Longrightarrow> y \<le> 399 \<Longrightarrow> year_start y = 365 * y + y div 4 - y div 100"
  by (simp add: year_start_def div_pos_pos_trivial)

lemma civil_parts:
  fixes z0 :: int
  defines "z \<equiv> z0 + 719468"
  defines "yoe \<equiv> era_year (z mod 146097)"
  defines "doy \<equiv> z mod 146097 - year_start yoe"
  shows "0 \<le> yoe" "yoe \<le> 399" "0 \<le> doy" "doy < year_start (yoe + 1) - year_start yoe" "doy \<le> 365"
proof -
  have b: "0 \<le> z mod 146097" "z mod 146097 < 146097" by simp_all
  note e = era_year_bounds [OF b]
  then show "0 \<le> yoe" "yoe \<le> 399" "0 \<le> doy" "doy < year_start (yoe + 1) - year_start yoe"
    by (simp_all add: yoe_def doy_def)
  then show "doy \<le> 365" using year_length [of yoe] by (auto split: if_splits)
qed

text \<open>The parts the algorithm computes, with what is known of them.\<close>

lemma civilE:
  obtains era yoe doy mp where "z + 719468 = era * 146097 + (year_start yoe + doy)"
    and "era = (z + 719468) div 146097"
    and "0 \<le> yoe" "yoe \<le> 399" "0 \<le> doy" "doy < year_start (yoe + 1) - year_start yoe" "doy \<le> 365"
    and "mp = (5 * doy + 2) div 153"
    and "civil_from_days z =
      (if 10 \<le> mp then yoe + era * 400 + 1 else yoe + era * 400,
       if mp < 10 then mp + 3 else mp - 9, doy - (153 * mp + 2) div 5 + 1)"
proof -
  define era where "era = (z + 719468) div 146097"
  define yoe where "yoe = era_year ((z + 719468) mod 146097)"
  define doy where "doy = (z + 719468) mod 146097 - year_start yoe"
  define mp where "mp = (5 * doy + 2) div 153"
  define m where "m = (if mp < 10 then mp + 3 else mp - 9)"
  note parts = civil_parts [of z, folded yoe_def, folded doy_def]
  note mon = month_of_day [OF parts(3) parts(5), folded mp_def]
  have ys: "year_start yoe = 365 * yoe + yoe div 4 - yoe div 100"
    using parts by (simp add: year_start_below_400)
  have "era * 146097 + (z + 719468) mod 146097 = z + 719468"
    unfolding era_def by (rule div_mult_mod_eq)
  then have "z + 719468 = era * 146097 + (year_start yoe + doy)" by (simp add: doy_def)
  moreover have "civil_from_days z =
      (if m \<le> 2 then yoe + era * 400 + 1 else yoe + era * 400, m, doy - (153 * mp + 2) div 5 + 1)"
    by (simp only: civil_from_days_eq Let_def era_def [symmetric] yoe_def [symmetric] ys [symmetric]
        doy_def [symmetric] mp_def [symmetric] m_def [symmetric])
  moreover have "m \<le> 2 \<longleftrightarrow> 10 \<le> mp" using mon(1,2) by (auto simp: m_def)
  ultimately show ?thesis
    by (intro that [of era yoe doy mp]) (use parts era_def mp_def m_def in \<open>simp_all only:\<close>)
qed

lemma days_from_civil_from_days: "(case civil_from_days z of (y, m, d) \<Rightarrow> days_from_civil y m d) = z"
proof -
  obtain era yoe doy mp where p: "z + 719468 = era * 146097 + (year_start yoe + doy)"
      "0 \<le> yoe" "yoe \<le> 399" "0 \<le> doy" "doy \<le> 365" "mp = (5 * doy + 2) div 153"
      "civil_from_days z = (if 10 \<le> mp then yoe + era * 400 + 1 else yoe + era * 400,
       if mp < 10 then mp + 3 else mp - 9, doy - (153 * mp + 2) div 5 + 1)"
    by (rule civilE)
  note mon = month_of_day [OF p(4,5), folded p(6)]
  define m where "m = (if mp < 10 then mp + 3 else mp - 9)"
  define y where "y = (if 10 \<le> mp then yoe + era * 400 + 1 else yoe + era * 400)"
  have "m \<le> 2 \<longleftrightarrow> 10 \<le> mp" using mon(1,2) by (auto simp: m_def)
  then have march: "(if m \<le> 2 then y - 1 else y) = yoe + era * 400" by (simp add: y_def)
  have era: "(yoe + era * 400) mod 400 = yoe" "(yoe + era * 400) div 400 = era"
    using p(2,3) by (simp_all add: mod_pos_pos_trivial div_pos_pos_trivial)
  have "(case civil_from_days z of (y, m, d) \<Rightarrow> days_from_civil y m d) =
      days_from_civil y m (doy - (153 * mp + 2) div 5 + 1)"
    by (simp only: p(7) prod.case m_def y_def)
  also have "\<dots> = era * 146097 + (year_start yoe + doy) - 719468"
    using year_start_below_400 [OF p(2,3)]
    unfolding days_from_civil_eq Let_def march era mon(5) [folded m_def] by simp
  also have "\<dots> = z" using p(1) by simp
  finally show ?thesis .
qed

text \<open>A date is valid when its day exists in its month.\<close>

definition valid_date :: "int \<Rightarrow> int \<Rightarrow> int \<Rightarrow> bool" where
  "valid_date y m d \<longleftrightarrow> 1 \<le> m \<and> m \<le> 12 \<and> 1 \<le> d \<and> d \<le> days_in_month y m"

lemma smod_zero_iff: "(a :: int) smod b = 0 \<longleftrightarrow> a mod b = 0"
  by (auto simp: signed_modulo_int_def sgn_0_0 dvd_eq_mod_eq_0 [symmetric])

lemma months:
  assumes "1 \<le> m" and "m \<le> (12 :: int)"
  shows "m \<in> {1, 2, 3, 4, 5, 6, 7, 8, 9, 10, 11, 12}"
proof -
  have "[1..12 :: int] = [1, 2, 3, 4, 5, 6, 7, 8, 9, 10, 11, 12]" by code_simp
  moreover have "m \<in> set [1..12]" using assms unfolding set_upto atLeastAtMost_iff by blast
  ultimately show ?thesis by (metis list.set)
qed

lemma month_shift:
  assumes "1 \<le> m" and "m \<le> (12 :: int)"
  defines "mp \<equiv> (m + 9) mod 12"
  shows "0 \<le> mp" "mp \<le> 11" "(if mp < 10 then mp + 3 else mp - 9) = m" "mp = 11 \<longleftrightarrow> m = 2"
    "m \<le> 2 \<longleftrightarrow> 10 \<le> mp"
proof -
  note months = months [OF assms(1,2)]
  show "0 \<le> mp" "mp \<le> 11" "(if mp < 10 then mp + 3 else mp - 9) = m" "mp = 11 \<longleftrightarrow> m = 2"
      "m \<le> 2 \<longleftrightarrow> 10 \<le> mp"
    using months by (auto simp: mp_def)
qed

lemma days_in_month_shift:
  assumes "1 \<le> m" and "m \<le> 12" and "d \<le> days_in_month y m"
  defines "mp \<equiv> (m + 9) mod 12"
  shows "d \<le> (if mp \<in> {0, 2, 4, 5, 7, 9, 10} then 31 else if mp = 11 then 29 else 30)"
proof -
  note months = months [OF assms(1,2)]
  then show ?thesis using assms(3) by (auto simp: mp_def days_in_month_def split: if_splits)
qed

lemma february_in_year:
  assumes "d \<le> days_in_month (y + 1) 2"
  shows "336 + d < year_start (y mod 400 + 1) - year_start (y mod 400)"
proof -
  have red: "(y mod 400 + 1) mod c = (y + 1) mod c" if "c dvd 400" for c
  proof -
    have "(y mod 400 + 1) mod c = ((y mod 400) mod c + 1) mod c" by (rule mod_add_left_eq [symmetric])
    also have "(y mod 400) mod c = y mod c" by (rule mod_mod_cancel [OF that])
    also have "(y mod c + 1) mod c = (y + 1) mod c" by (rule mod_add_left_eq)
    finally show ?thesis .
  qed
  define leap where "leap \<longleftrightarrow> (y + 1) mod 4 = 0 \<and> ((y + 1) mod 100 \<noteq> 0 \<or> (y + 1) mod 400 = 0)"
  have "0 \<le> y mod 400" "y mod 400 \<le> 399" using pos_mod_bound [of 400 y] by auto
  note year_length [OF this]
  moreover have "(y mod 400 + 1) mod 4 = (y + 1) mod 4" "(y mod 400 + 1) mod 100 = (y + 1) mod 100"
    "(y mod 400 + 1) mod 400 = (y + 1) mod 400"
    by (rule red, simp)+
  ultimately have "year_start (y mod 400 + 1) - year_start (y mod 400) = (if leap then 366 else 365)"
    unfolding leap_def by (simp only:)
  moreover have "days_in_month (y + 1) 2 = (if leap then 29 else 28)"
    unfolding days_in_month_def smod_zero_iff leap_def by simp
  ultimately show ?thesis using assms by (cases leap) simp_all
qed

lemma civil_from_days_from_civil:
  assumes "valid_date y m d"
  shows "civil_from_days (days_from_civil y m d) = (y, m, d)"
proof -
  define y' where "y' = (if m \<le> 2 then y - 1 else y)"
  define mp where "mp = (m + 9) mod 12"
  define doy where "doy = (153 * mp + 2) div 5 + d - 1"
  define yoe where "yoe = y' mod 400"
  have v: "1 \<le> m" "m \<le> 12" "1 \<le> d" "d \<le> days_in_month y m"
    using assms by (simp_all add: valid_date_def)
  note ms = month_shift [OF v(1,2), folded mp_def]
  note dm = day_of_month [OF ms(1,2) v(3) days_in_month_shift [OF v(1,2,4), folded mp_def], folded doy_def]
  have yoe: "0 \<le> yoe" "yoe \<le> 399" using pos_mod_bound [of 400 y'] by (simp_all add: yoe_def)
  have ys: "year_start yoe = yoe * 365 + yoe div 4 - yoe div 100"
    using year_start_below_400 [OF yoe] by simp
  have len: "doy < year_start (yoe + 1) - year_start yoe"
  proof (cases "mp = 11")
    case True
    then have "m = 2" using ms(4) by simp
    then show ?thesis
      using february_in_year [of d y'] v(4) True by (simp add: y'_def yoe_def doy_def)
  next
    case False
    have "doy \<le> 336"
      using days_in_month_shift [OF v(1,2,4), folded mp_def] ms(1,2) False
      by (auto simp: doy_def split: if_splits)
    then show ?thesis using year_length [OF yoe] by (auto split: if_splits)
  qed
  define doe where "doe = year_start yoe + doy"
  have doe: "era_year doe = yoe" "0 \<le> doe" "doe < 146097"
  proof -
    show "era_year doe = yoe"
      using era_year_unique [OF yoe, of doe] dm(2) len by (simp add: doe_def)
    show "0 \<le> doe" using dm(2) yoe by (simp add: doe_def year_start_def)
    have "year_start (yoe + 1) \<le> 146097"
    proof -
      have "list_all (\<lambda>k. year_start (k + 1) \<le> 146097) [0..399]"
        unfolding year_start_def by code_simp
      then show ?thesis using yoe by (simp add: list_all_iff)
    qed
    then show "doe < 146097" using len by (simp add: doe_def)
  qed
  have total: "days_from_civil y m d + 719468 = y' div 400 * 146097 + doe"
    by (simp add: days_from_civil_eq Let_def y'_def [symmetric] yoe_def [symmetric] mp_def [symmetric]
        doy_def [symmetric] ys doe_def)
  have parts: "(y' div 400 * 146097 + doe) div 146097 = y' div 400"
      "(y' div 400 * 146097 + doe) mod 146097 = doe"
    using doe(2,3) by simp_all
  have doy': "doe - (365 * yoe + yoe div 4 - yoe div 100) = doy" by (simp add: doe_def ys)
  have "civil_from_days (days_from_civil y m d) =
      (if m \<le> 2 then yoe + y' div 400 * 400 + 1 else yoe + y' div 400 * 400, m, doy - (153 * mp + 2) div 5 + 1)"
    unfolding civil_from_days_eq total Let_def parts doe(1) doy' dm(1) ms(3) ..
  also have "\<dots> = (y, m, d)"
    using div_mult_mod_eq [of y' 400] by (simp add: yoe_def y'_def doy_def add.commute)
  finally show ?thesis .
qed


lemma civil_from_days_valid:
  assumes "civil_from_days z = (y, m, d)"
  shows "valid_date y m d"
proof -
  obtain era yoe doy mp where p: "0 \<le> yoe" "yoe \<le> 399" "0 \<le> doy"
      "doy < year_start (yoe + 1) - year_start yoe" "doy \<le> 365" "mp = (5 * doy + 2) div 153"
      "civil_from_days z = (if 10 \<le> mp then yoe + era * 400 + 1 else yoe + era * 400,
       if mp < 10 then mp + 3 else mp - 9, doy - (153 * mp + 2) div 5 + 1)"
    by (rule civilE)
  note mon = month_of_day [OF p(3,5), folded p(6)]
  have eqs: "m = (if mp < 10 then mp + 3 else mp - 9)" "d = doy - (153 * mp + 2) div 5 + 1"
      "y = (if 10 \<le> mp then yoe + era * 400 + 1 else yoe + era * 400)"
    using assms p(7) by simp_all
  have m: "1 \<le> m" "m \<le> 12" using mon(1,2) by (auto simp: eqs(1))
  have "d \<le> days_in_month y m"
  proof (cases "mp = 11")
    case True
    then have "m = 2" and yr: "y = yoe + era * 400 + 1" by (simp_all add: eqs)
    define leap where "leap \<longleftrightarrow> (yoe + 1) mod 4 = 0 \<and> ((yoe + 1) mod 100 \<noteq> 0 \<or> (yoe + 1) mod 400 = 0)"
    have "(yoe + era * 400 + 1) mod c = (yoe + 1) mod c" if c: "c dvd 400" for c
    proof -
      obtain k where k: "400 = c * k" using c by (rule dvdE)
      have "(yoe + era * 400 + 1) = (yoe + 1) + c * (k * era)" unfolding k by (simp add: algebra_simps)
      then show ?thesis by (simp only: mod_mult_self2)
    qed
    from this [of 4] this [of 100] this [of 400]
    have "days_in_month y m = (if leap then 29 else 28)"
      unfolding days_in_month_def smod_zero_iff leap_def \<open>m = 2\<close> yr by simp
    moreover have "doy < (if leap then 366 else 365)"
      using p(4) year_length [OF p(1,2)] unfolding leap_def by simp
    moreover have "d \<le> doy - 336" using mon(6) True by (simp add: eqs(2))
    ultimately show ?thesis by (cases leap) simp_all
  next
    case False
    with mon(1,2) have "mp \<in> {0, 1, 2, 3, 4, 5, 6, 7, 8, 9, 10}"
      using months [of "mp + 1"] by auto
    then show ?thesis
      using mon(6) unfolding eqs(1,2) days_in_month_def by (elim insertE emptyE) simp_all
  qed
  then show ?thesis using m mon(3) by (simp add: valid_date_def eqs(2))
qed

text \<open>From 1970-01-01 to 9999-12-31.\<close>

lemma civil_from_days_year:
  assumes "civil_from_days z = (y, m, d)" and "0 \<le> z" and "z < 2932897"
  shows "1969 < y \<and> y < 10000"
proof -
  obtain era yoe doy mp where p: "z + 719468 = era * 146097 + (year_start yoe + doy)"
      "era = (z + 719468) div 146097" "0 \<le> yoe" "yoe \<le> 399" "0 \<le> doy" "doy \<le> 365"
      "mp = (5 * doy + 2) div 153"
      "civil_from_days z = (if 10 \<le> mp then yoe + era * 400 + 1 else yoe + era * 400,
       if mp < 10 then mp + 3 else mp - 9, doy - (153 * mp + 2) div 5 + 1)"
    by (rule civilE)
  have era: "4 \<le> era" "era \<le> 24" using assms(2,3) p(2) by auto
  have ys: "year_start yoe = 365 * yoe + yoe div 4 - yoe div 100"
    using p(3,4) by (simp add: year_start_below_400)
  have late: "306 \<le> doy" if "10 \<le> mp" using that p(7) by linarith
  have y: "y = (if 10 \<le> mp then yoe + era * 400 + 1 else yoe + era * 400)" using assms(1) p(8) by simp
  show ?thesis
  proof
    show "y < 10000"
    proof (rule ccontr)
      assume "\<not> y < 10000"
      then have "yoe = 399" "era = 24" "10 \<le> mp" using y era p(4) by (auto split: if_splits)
      then show False using p(1) late assms(3) ys by simp
    qed
    show "1969 < y"
    proof (rule ccontr)
      assume "\<not> 1969 < y"
      then have "era = 4" "yoe \<le> 369" "10 \<le> mp \<Longrightarrow> yoe \<le> 368" using y era p(3) by (auto split: if_splits)
      moreover have "doy < 306" if "mp < 10" using that p(7) by linarith
      moreover have "yoe div 4 - yoe div 100 \<le> 92 - 3" if "yoe \<le> 369" "300 \<le> yoe" using that by linarith
      moreover have "300 \<le> yoe"
      proof (rule ccontr)
        assume "\<not> 300 \<le> yoe"
        then have "year_start yoe \<le> 109574" using ys by linarith
        then show False using p(1,6) assms(2) \<open>era = 4\<close> by linarith
      qed
      ultimately show False using p(1,6) assms(2) ys by (cases "10 \<le> mp") auto
    qed
  qed
qed

section \<open>RFC 3339\<close>

text \<open>\<open>{n:0w}\<close>.\<close>

definition fmt0 :: "nat \<Rightarrow> nat \<Rightarrow> string" where
  "fmt0 w n = replicate (w - length (show_nat n)) (CHR ''0'') @ show_nat n"

definition rfc3339_civil :: "nat \<Rightarrow> string" where
  "rfc3339_civil secs =
     (let days = secs div 86400; rest = secs mod 86400; (y, m, d) = civil_from_days (int days) in
      fmt0 4 (nat y) @ ''-'' @ fmt0 2 (nat m) @ ''-'' @ fmt0 2 (nat d) @ ''T'' @ fmt0 2 (rest div 3600)
        @ '':'' @ fmt0 2 (rest mod 3600 div 60) @ '':'' @ fmt0 2 (rest mod 60))"

text \<open>\<open>secs\<close> and \<open>nanos\<close> are the system clock's distance from the epoch.\<close>

definition now_rfc3339 :: "nat \<Rightarrow> string" where
  "now_rfc3339 secs = rfc3339_civil secs @ ''Z''"

definition now_rfc3339_nanos :: "nat \<Rightarrow> nat \<Rightarrow> string" where
  "now_rfc3339_nanos secs nanos = rfc3339_civil secs @ ''.'' @ fmt0 9 nanos @ ''Z''"

definition slice :: "nat \<Rightarrow> nat \<Rightarrow> 'a list \<Rightarrow> 'a list" where
  "slice i j s = take (j - i) (drop i s)"

text \<open>A slice that is not UTF-8 is not a number either way. \<open>as u32\<close> wraps.\<close>

definition epoch_of_rfc3339 :: "string \<Rightarrow> int option" where
  "epoch_of_rfc3339 b =
     (if length b < 20 \<or> b ! 4 \<noteq> CHR ''-'' \<or> b ! 7 \<noteq> CHR ''-'' \<or> b ! 10 \<noteq> CHR ''T''
         \<or> b ! 13 \<noteq> CHR '':'' \<or> b ! 16 \<noteq> CHR '':'' then None
      else
        case parse_i64 (slice 0 4 b) of None \<Rightarrow> None | Some y \<Rightarrow>
        case parse_i64 (slice 5 7 b) of None \<Rightarrow> None | Some mo \<Rightarrow>
        case parse_i64 (slice 8 10 b) of None \<Rightarrow> None | Some d \<Rightarrow>
        case parse_i64 (slice 11 13 b) of None \<Rightarrow> None | Some h \<Rightarrow>
        case parse_i64 (slice 14 16 b) of None \<Rightarrow> None | Some mi \<Rightarrow>
        case parse_i64 (slice 17 19 b) of None \<Rightarrow> None | Some se \<Rightarrow>
          Some (days_from_civil y (mo mod 2 ^ 32) (d mod 2 ^ 32) * 86400 + h * 3600 + mi * 60 + se))"

definition plural :: "int \<Rightarrow> string \<Rightarrow> string" where
  "plural n unit_name = (if n = 1 then ''1 '' @ unit_name else show_int n @ '' '' @ unit_name @ ''s'')"

definition elapsed_str :: "int \<Rightarrow> string \<Rightarrow> string" where
  "elapsed_str now rfc =
     (case epoch_of_rfc3339 rfc of None \<Rightarrow> ''unknown'' | Some thn \<Rightarrow>
        (let secs = max (now - thn) 0 in
         if secs < 60 then plural secs ''second''
         else if secs < 3600 then plural (secs div 60) ''minute''
         else if secs < 86400 then plural (secs div 3600) ''hour''
         else plural (secs div 86400) ''day''))"

lemma length_show_nat_le: "n < 10 ^ k \<Longrightarrow> 0 < k \<Longrightarrow> length (show_nat n) \<le> k"
proof (induction k arbitrary: n)
  case (Suc k)
  show ?case
  proof (cases "n < 10")
    case True
    then show ?thesis by (subst show_nat.simps) simp
  next
    case False
    then have "0 < k" using Suc.prems by (cases k) auto
    moreover have "n div 10 < 10 ^ k" using Suc.prems by (simp add: less_mult_imp_div_less mult.commute)
    ultimately have "length (show_nat (n div 10)) \<le> k" by (rule Suc.IH [rotated])
    then show ?thesis using False by (subst show_nat.simps) simp
  qed
qed simp

lemma length_fmt0: "n < 10 ^ w \<Longrightarrow> 0 < w \<Longrightarrow> length (fmt0 w n) = w"
  using length_show_nat_le [of n w] by (simp add: fmt0_def)

lemma fmt0_digits: "list_all is_ascii_digit (fmt0 w n)"
  by (simp add: fmt0_def show_nat_digits list_all_iff is_ascii_digit_def del: set_replicate)
    (use show_nat_digits in \<open>auto simp: list_all_iff is_ascii_digit_def\<close>)

lemma digits_val_zeros: "digits_val 0 (replicate k (CHR ''0'') @ s) = digits_val 0 s"
  by (induction k) (auto simp: digit_val_def is_ascii_digit_def)

lemma digits_val_fmt0: "digits_val 0 (fmt0 w n) = Some n"
  by (simp add: fmt0_def digits_val_zeros)

lemma parse_int_digits:
  assumes "s \<noteq> []" and "list_all is_ascii_digit s" and "digits_val 0 s = Some n"
  shows "parse_int lo hi s = (if lo \<le> int n \<and> int n \<le> hi then Some (int n) else None)"
proof -
  from assms obtain c cs where s: "s = c # cs" "is_ascii_digit c" by (cases s) auto
  then have "c \<noteq> CHR ''+''" "c \<noteq> CHR ''-''" by (auto simp: is_ascii_digit_def)
  with s assms(3) show ?thesis by (simp add: parse_int_def Let_def)
qed

lemma fmt0_not_Nil [simp]: "fmt0 w n \<noteq> []"
  by (simp add: fmt0_def)

lemma parse_i64_fmt0: "n < 10 ^ 9 \<Longrightarrow> parse_i64 (fmt0 w n) = Some (int n)"
  by (subst parse_int_digits [OF _ fmt0_digits digits_val_fmt0]) auto

lemma list_of_length_2: "length s = 2 \<Longrightarrow> \<exists>a b. s = [a, b]"
  by (cases s; cases "tl s") auto

lemma list_of_length_4: "length s = 4 \<Longrightarrow> \<exists>a b c d. s = [a, b, c, d]"
  by (auto simp: eval_nat_numeral length_Suc_conv)

text \<open>The parts of a printed time, for a year of at most four digits.\<close>

lemma rfc3339_civil_parts:
  assumes "secs < 253402300800"
  obtains y m d where "civil_from_days (int (secs div 86400)) = (int y, int m, int d)"
    and "y < 10000" and "m < 100" and "d < 100"
proof -
  obtain y m d where c: "civil_from_days (int (secs div 86400)) = (y, m, d)"
    by (metis surj_pair)
  have v: "valid_date y m d" using c by (rule civil_from_days_valid)
  then have b: "1 \<le> m" "m \<le> 12" "1 \<le> d" "d \<le> 31"
    by (auto simp: valid_date_def days_in_month_def split: if_splits)
  have "int (secs div 86400) < 2932897" using assms by simp
  then have "0 \<le> y \<and> y < 10000" using civil_from_days_year [OF c] by simp
  then show ?thesis using that [of "nat y" "nat m" "nat d"] c b by auto
qed

lemma fmt0_2:
  assumes "n < 100"
  obtains a b where "fmt0 2 n = [a, b]" and "parse_i64 [a, b] = Some (int n)"
    and "is_ascii_digit a" and "is_ascii_digit b"
  using list_of_length_2 [of "fmt0 2 n"] length_fmt0 [of n 2] parse_i64_fmt0 [of n 2]
    fmt0_digits [of 2 n] assms by auto

lemma fmt0_4:
  assumes "n < 10000"
  obtains a b c d where "fmt0 4 n = [a, b, c, d]" and "parse_i64 [a, b, c, d] = Some (int n)"
    and "is_ascii_digit a" and "is_ascii_digit b" and "is_ascii_digit c" and "is_ascii_digit d"
  using list_of_length_4 [of "fmt0 4 n"] length_fmt0 [of n 4] parse_i64_fmt0 [of n 4]
    fmt0_digits [of 4 n] assms by auto

text \<open>The nineteen characters up to the seconds, with what their fields read as.\<close>

lemma rfc3339_shape:
  assumes "secs < 253402300800"
  obtains y0 y1 y2 y3 m0 m1 d0 d1 h0 h1 i0 i1 s0 s1 y m d where
    "rfc3339_civil secs = [y0, y1, y2, y3, CHR ''-'', m0, m1, CHR ''-'', d0, d1, CHR ''T'',
       h0, h1, CHR '':'', i0, i1, CHR '':'', s0, s1]"
    and "civil_from_days (int (secs div 86400)) = (int y, int m, int d)"
    and "m < 100" and "d < 100"
    and "parse_i64 [y0, y1, y2, y3] = Some (int y)" and "parse_i64 [m0, m1] = Some (int m)"
    and "parse_i64 [d0, d1] = Some (int d)"
    and "parse_i64 [h0, h1] = Some (int (secs mod 86400 div 3600))"
    and "parse_i64 [i0, i1] = Some (int (secs mod 3600 div 60))"
    and "parse_i64 [s0, s1] = Some (int (secs mod 60))"
    and "list_all is_ascii_digit [y0, y1, y2, y3, m0, m1, d0, d1, h0, h1, i0, i1, s0, s1]"
proof -
  obtain y m d where c: "civil_from_days (int (secs div 86400)) = (int y, int m, int d)"
      and b: "y < 10000" "m < 100" "d < 100"
    by (rule rfc3339_civil_parts [OF assms])
  have t: "secs mod 86400 div 3600 < 100" "secs mod 3600 div 60 < 100" "secs mod 60 < 100" by auto
  have r: "secs mod 86400 mod 3600 = secs mod 3600" "secs mod 86400 mod 60 = secs mod 60"
    by (simp_all add: mod_mod_cancel)
  obtain y0 y1 y2 y3 where y: "fmt0 4 y = [y0, y1, y2, y3]" "parse_i64 [y0, y1, y2, y3] = Some (int y)"
      "is_ascii_digit y0" "is_ascii_digit y1" "is_ascii_digit y2" "is_ascii_digit y3"
    by (rule fmt0_4 [OF b(1)])
  obtain m0 m1 where m: "fmt0 2 m = [m0, m1]" "parse_i64 [m0, m1] = Some (int m)"
      "is_ascii_digit m0" "is_ascii_digit m1" by (rule fmt0_2 [OF b(2)])
  obtain d0 d1 where d: "fmt0 2 d = [d0, d1]" "parse_i64 [d0, d1] = Some (int d)"
      "is_ascii_digit d0" "is_ascii_digit d1" by (rule fmt0_2 [OF b(3)])
  obtain h0 h1 where h: "fmt0 2 (secs mod 86400 div 3600) = [h0, h1]"
      "parse_i64 [h0, h1] = Some (int (secs mod 86400 div 3600))"
      "is_ascii_digit h0" "is_ascii_digit h1" by (rule fmt0_2 [OF t(1)])
  obtain i0 i1 where i: "fmt0 2 (secs mod 3600 div 60) = [i0, i1]"
      "parse_i64 [i0, i1] = Some (int (secs mod 3600 div 60))"
      "is_ascii_digit i0" "is_ascii_digit i1" by (rule fmt0_2 [OF t(2)])
  obtain s0 s1 where s: "fmt0 2 (secs mod 60) = [s0, s1]" "parse_i64 [s0, s1] = Some (int (secs mod 60))"
      "is_ascii_digit s0" "is_ascii_digit s1" by (rule fmt0_2 [OF t(3)])
  have "rfc3339_civil secs = [y0, y1, y2, y3, CHR ''-'', m0, m1, CHR ''-'', d0, d1, CHR ''T'',
       h0, h1, CHR '':'', i0, i1, CHR '':'', s0, s1]"
    unfolding rfc3339_civil_def Let_def c prod.case r nat_int y(1) m(1) d(1) h(1) i(1) s(1) by simp
  then show ?thesis
    by (rule that [OF _ c b(2,3) y(2) m(2) d(2) h(2) i(2) s(2)])
      (use y(3-6) m(3,4) d(3,4) h(3,4) i(3,4) s(3,4) in simp)
qed

lemma seconds_of_day: "secs mod 86400 div 3600 * 3600 + secs mod 3600 div 60 * 60 + secs mod 60 = secs mod (86400 :: nat)"
proof -
  define r where "r = secs mod 86400"
  have "secs mod 3600 = r mod 3600" "secs mod 60 = r mod 3600 mod 60"
    by (simp_all add: r_def mod_mod_cancel)
  then show ?thesis
    using div_mult_mod_eq [of r 3600] div_mult_mod_eq [of "r mod 3600" 60] by (simp add: r_def)
qed

lemma epoch_of_now_rfc3339:
  assumes "secs < 253402300800"
  shows "epoch_of_rfc3339 (now_rfc3339 secs) = Some (int secs)"
proof -
  obtain y0 y1 y2 y3 m0 m1 d0 d1 h0 h1 i0 i1 s0 s1 y m d where
      shape: "rfc3339_civil secs = [y0, y1, y2, y3, CHR ''-'', m0, m1, CHR ''-'', d0, d1, CHR ''T'',
        h0, h1, CHR '':'', i0, i1, CHR '':'', s0, s1]"
      and c: "civil_from_days (int (secs div 86400)) = (int y, int m, int d)" "m < 100" "d < 100"
      and f: "parse_i64 [y0, y1, y2, y3] = Some (int y)" "parse_i64 [m0, m1] = Some (int m)"
        "parse_i64 [d0, d1] = Some (int d)" "parse_i64 [h0, h1] = Some (int (secs mod 86400 div 3600))"
        "parse_i64 [i0, i1] = Some (int (secs mod 3600 div 60))" "parse_i64 [s0, s1] = Some (int (secs mod 60))"
    by (rule rfc3339_shape [OF assms])
  have "days_from_civil (int y) (int m) (int d) = int (secs div 86400)"
    using days_from_civil_from_days [of "int (secs div 86400)"] c(1) by simp
  moreover have "int m mod 2 ^ 32 = int m" "int d mod 2 ^ 32 = int d" using c(2,3) by simp_all
  ultimately have "epoch_of_rfc3339 (now_rfc3339 secs) = Some (int (secs div 86400) * 86400 +
      int (secs mod 86400 div 3600) * 3600 + int (secs mod 3600 div 60) * 60 + int (secs mod 60))"
    by (simp only: epoch_of_rfc3339_def now_rfc3339_def shape append.simps slice_def)
      (simp add: f [simplified])
  also have "\<dots> = Some (int (secs div 86400 * 86400 + (secs mod 86400 div 3600 * 3600
      + secs mod 3600 div 60 * 60 + secs mod 60)))" by (simp only: of_nat_add of_nat_mult of_nat_numeral add.assoc)
  also have "\<dots> = Some (int secs)" unfolding seconds_of_day div_mult_mod_eq ..
  finally show ?thesis .
qed

section \<open>Properties\<close>

text \<open>C37: Day counts and calendar dates are in bijection: every day number is a valid Gregorian date that converts
  back to it, and every valid date comes from its day number, before and after the epoch.\<close>

theorem civil_bijection:
  "(case civil_from_days z of (y, m, d) \<Rightarrow> valid_date y m d \<and> days_from_civil y m d = z) \<and>
   (valid_date y m d \<longrightarrow> civil_from_days (days_from_civil y m d) = (y, m, d))"
  using civil_from_days_valid [of z] days_from_civil_from_days [of z] civil_from_days_from_civil
  by (auto split: prod.splits)

theorem civil_bijection_witness: "civil_from_days (days_from_civil 2024 2 29) = (2024, 2, 29)"
  using civil_bijection [of 0 2024 2 29] by (simp add: valid_date_def days_in_month_def)

text \<open>The timestamp of a state record is read back as the second it was written in, up to the year 9999.\<close>

lemma state_time_roundtrip:
  assumes "secs < 253402300800"
  shows "epoch_of_rfc3339 (now_rfc3339 secs) = Some (int secs)"
  using assms by (rule epoch_of_now_rfc3339)

lemma state_time_roundtrip_witness: "epoch_of_rfc3339 (now_rfc3339 951827696) = Some 951827696"
  using state_time_roundtrip [of 951827696] by simp

end
