(* ===== verification/Logs.thy ===== *)
theory Logs
  imports Civil_Time
begin

text \<open>
  Console-log time stamps and time-range selection (src/logs.rs): the time bounds of
  \<open>--since\<close> and \<open>--until\<close>, the RFC 3339 reader with fractions and offsets, the selection and the
  stripping of stamped lines, and the numbered log files. The floating-point size parser
  \<open>logs::parse_size\<close> is not modelled. Integer overflow is that of the release profile, which wraps.
\<close>

definition I128_MAX :: nat where "I128_MAX = 2 ^ 127 - 1"

definition wrap_i128 :: "int \<Rightarrow> int" where
  "wrap_i128 v = (v + 2 ^ 127) mod 2 ^ 128 - 2 ^ 127"

section \<open>Retained files\<close>

definition MAX_FILES :: nat where "MAX_FILES = 1024"

datatype max_files_error = InvalidCount string | ZeroCount | TooManyFiles

definition parse_max_files :: "string \<Rightarrow> max_files_error + nat" where
  "parse_max_files v = (case parse_uint U64_MAX (trim v) of
      None \<Rightarrow> Inl (InvalidCount v)
    | Some count \<Rightarrow> if count = 0 then Inl ZeroCount
        else if count > MAX_FILES then Inl TooManyFiles else Inr count)"

definition numbered :: "string \<Rightarrow> nat \<Rightarrow> string" where
  "numbered active index = active @ ''.'' @ show_nat index"

definition log_paths :: "string \<Rightarrow> nat \<Rightarrow> string list" where
  "log_paths active max_files =
     (let n = max max_files 1 in map (numbered active) (rev [1..<n]) @ [active])"

section \<open>Times\<close>

datatype rfc_error = BadTime

definition num_field :: "string \<Rightarrow> nat \<Rightarrow> nat \<Rightarrow> rfc_error + int" where
  "num_field b i j = ok_or BadTime (parse_i64 (slice i j b))"

text \<open>\<open>b.get(i)\<close>.\<close>

definition at :: "'a list \<Rightarrow> nat \<Rightarrow> 'a option" where
  "at s i = (if i < length s then Some (s ! i) else None)"

definition pad9 :: "string \<Rightarrow> string" where
  "pad9 s = s @ replicate (9 - length s) (CHR ''0'')"

text \<open>The fraction after index 19: the nanoseconds and the index behind it.\<close>

definition fraction :: "string \<Rightarrow> rfc_error + int \<times> nat" where
  "fraction b =
     (if at b 19 = Some (CHR ''.'') then
        (let digits = takeWhile is_ascii_digit (drop 20 b) in
         if digits = [] then Inl BadTime
         else and_then (ok_or BadTime (parse_i128 (pad9 (take 9 digits)))) (\<lambda>nanos.
           Inr (nanos, 20 + length digits)))
      else Inr (0, 19))"

definition offset_at :: "string \<Rightarrow> nat \<Rightarrow> rfc_error + int" where
  "offset_at b index =
     (case at b index of None \<Rightarrow> Inl BadTime | Some c \<Rightarrow>
        if c = CHR ''Z'' \<or> c = CHR ''z'' then
          (if index + 1 \<noteq> length b then Inl BadTime else Inr 0)
        else if c = CHR ''+'' \<or> c = CHR ''-'' then
          (if index + 6 \<noteq> length b \<or> at b (index + 3) \<noteq> Some (CHR '':'') then Inl BadTime
           else and_then (num_field b (index + 1) (index + 3)) (\<lambda>offset_hour.
             and_then (num_field b (index + 4) (index + 6)) (\<lambda>offset_minute.
               if offset_hour > 23 \<or> offset_minute > 59 then Inl BadTime
               else let magnitude = offset_hour * 3600 + offset_minute * 60 in
                 Inr (if c = CHR ''-'' then - magnitude else magnitude))))
        else Inl BadTime)"

definition epoch_nanos_from_rfc3339 :: "string \<Rightarrow> rfc_error + int" where
  "epoch_nanos_from_rfc3339 b =
     (if length b < 20 \<or> b ! 4 \<noteq> CHR ''-'' \<or> b ! 7 \<noteq> CHR ''-'' \<or> b ! 10 \<noteq> CHR ''T''
         \<or> b ! 13 \<noteq> CHR '':'' \<or> b ! 16 \<noteq> CHR '':'' then Inl BadTime
      else and_then (num_field b 0 4) (\<lambda>year. and_then (num_field b 5 7) (\<lambda>month.
        and_then (num_field b 8 10) (\<lambda>day. and_then (num_field b 11 13) (\<lambda>hour.
        and_then (num_field b 14 16) (\<lambda>minute. and_then (num_field b 17 19) (\<lambda>second.
          if \<not> (1 \<le> month \<and> month \<le> 12) \<or> day < 1 \<or> day > days_in_month year month
             \<or> hour > 23 \<or> minute > 59 \<or> second > 60 then Inl BadTime
          else and_then (fraction b) (\<lambda>(nanos, index).
            and_then (offset_at b index) (\<lambda>offset_seconds.
              let seconds = days_from_civil year month day * 86400 + hour * 3600 + minute * 60 + second in
              Inr ((seconds - offset_seconds) * 1000000000 + nanos))))))))))"

section \<open>Durations and bounds\<close>

definition unit_multiplier :: "string \<Rightarrow> nat option" where
  "unit_multiplier u =
     (if u = ''ns'' then Some 1
      else if u = ''us'' \<or> u = [CHR 0xC2, CHR 0xB5, CHR ''s''] then Some 1000
      else if u = ''ms'' then Some 1000000
      else if u = ''s'' then Some 1000000000
      else if u = ''m'' then Some 60000000000
      else if u = ''h'' then Some 3600000000000
      else None)"

definition duration_amount :: "string \<Rightarrow> nat \<Rightarrow> nat option" where
  "duration_amount number multiplier =
     (let (whole, frac) = (case split_once (CHR ''.'') number of Some p \<Rightarrow> p | None \<Rightarrow> (number, [])) in
      if whole = [] \<and> frac = [] then None
      else case (if whole = [] then Some 0 else parse_uint I128_MAX whole) of None \<Rightarrow> None | Some w \<Rightarrow>
        case checked_mul I128_MAX w multiplier of None \<Rightarrow> None | Some amount \<Rightarrow>
          if frac = [] then Some amount
          else if 10 ^ length frac > I128_MAX then None
          else case parse_uint I128_MAX frac of None \<Rightarrow> None | Some f \<Rightarrow>
            case checked_mul I128_MAX f multiplier of None \<Rightarrow> None | Some p \<Rightarrow>
              checked_add I128_MAX amount (p div 10 ^ length frac))"

definition number_char :: "char \<Rightarrow> bool" where
  "number_char c \<longleftrightarrow> is_ascii_digit c \<or> c = CHR ''.''"

definition unit_char :: "char \<Rightarrow> bool" where
  "unit_char c \<longleftrightarrow> \<not> (is_ascii_digit c \<or> c = CHR ''.'' \<or> c = CHR ''-'' \<or> c = CHR ''+'')"

text \<open>The component loop: a number, a unit, and on with what follows.\<close>

function duration_loop :: "nat \<Rightarrow> string \<Rightarrow> nat option" where
  "duration_loop acc rest =
     (if rest = [] then Some acc
      else let number = takeWhile number_char rest; unit_and_rest = dropWhile number_char rest;
               unit_part = takeWhile unit_char unit_and_rest; next_part = dropWhile unit_char unit_and_rest in
        if number = [] then None
        else case unit_multiplier unit_part of None \<Rightarrow> None | Some multiplier \<Rightarrow>
          case duration_amount number multiplier of None \<Rightarrow> None | Some amount \<Rightarrow>
            case checked_add I128_MAX acc amount of None \<Rightarrow> None
            | Some acc' \<Rightarrow> duration_loop acc' next_part)"
  by pat_completeness auto
termination
proof (relation "measure (\<lambda>(acc, rest). length rest)")
  fix acc :: nat and rest number unit_and_rest unit_part next_part :: string
  assume a: "number = takeWhile number_char rest" "unit_and_rest = dropWhile number_char rest"
    "next_part = dropWhile unit_char unit_and_rest" "number \<noteq> []"
  have "length next_part \<le> length unit_and_rest" using a by (simp add: length_dropWhile_le)
  also have "length unit_and_rest < length rest"
    using a by (metis length_greater_0_conv length_append takeWhile_dropWhile_id less_add_same_cancel2)
  finally show "((x2, next_part), acc, rest) \<in> measure (\<lambda>(acc, rest). length rest)" for x2
    by simp
qed simp

declare duration_loop.simps [simp del]

definition parse_duration :: "string \<Rightarrow> int option" where
  "parse_duration v =
     (let (negative, rest) = (case v of [] \<Rightarrow> (False, [])
        | c # cs \<Rightarrow> if c = CHR ''-'' then (True, cs) else if c = CHR ''+'' then (False, cs) else (False, v)) in
      if rest = [] then None
      else map_option (\<lambda>acc. if negative then - int acc else int acc) (duration_loop 0 rest))"

definition checked_i128 :: "int \<Rightarrow> int option" where
  "checked_i128 v = (if - (2 ^ 127) \<le> v \<and> v < 2 ^ 127 then Some v else None)"

definition parse_unix_seconds :: "string \<Rightarrow> int option" where
  "parse_unix_seconds v =
     (case (case split_once (CHR ''.'') v of
         Some (whole, frac) \<Rightarrow>
           (if frac = [] \<or> \<not> list_all is_ascii_digit frac then None
            else map_option (Pair whole) (parse_i64 (pad9 (take 9 frac))))
       | None \<Rightarrow> Some (v, 0)) of
       None \<Rightarrow> None
     | Some (whole, fraction_nanos) \<Rightarrow>
         (case parse_i128 whole of None \<Rightarrow> None | Some seconds \<Rightarrow>
           (case checked_i128 (seconds * 1000000000) of None \<Rightarrow> None
            | Some p \<Rightarrow> checked_i128 (p + fraction_nanos))))"

definition parse_time :: "string \<Rightarrow> int \<Rightarrow> rfc_error + int" where
  "parse_time v now =
     (case parse_duration v of Some relative \<Rightarrow> Inr (wrap_i128 (now - relative)) | None \<Rightarrow>
       (case parse_unix_seconds v of Some epoch \<Rightarrow> Inr epoch | None \<Rightarrow> epoch_nanos_from_rfc3339 v))"

record LogTimeFilter =
  since :: "int option"
  until :: "int option"

datatype filter_error = BadSince | BadUntil | SinceAfterUntil

definition parse_bound :: "filter_error \<Rightarrow> int \<Rightarrow> string option \<Rightarrow> filter_error + int option" where
  "parse_bound e now v = (case v of None \<Rightarrow> Inr None
     | Some s \<Rightarrow> (case parse_time s now of Inl _ \<Rightarrow> Inl e | Inr t \<Rightarrow> Inr (Some t)))"

definition LogTimeFilter_parse ::
  "int \<Rightarrow> string option \<Rightarrow> string option \<Rightarrow> filter_error + LogTimeFilter" where
  "LogTimeFilter_parse now s u =
     and_then (parse_bound BadSince now s) (\<lambda>s'. and_then (parse_bound BadUntil now u) (\<lambda>u'.
       case (s', u') of (Some a, Some b) \<Rightarrow>
           if a > b then Inl SinceAfterUntil else Inr \<lparr>since = s', until = u'\<rparr>
         | _ \<Rightarrow> Inr \<lparr>since = s', until = u'\<rparr>))"

definition is_active :: "LogTimeFilter \<Rightarrow> bool" where
  "is_active f \<longleftrightarrow> since f \<noteq> None \<or> until f \<noteq> None"

definition until_reached :: "int \<Rightarrow> LogTimeFilter \<Rightarrow> bool" where
  "until_reached now f = (case until f of None \<Rightarrow> False | Some u \<Rightarrow> now \<ge> u)"

definition contains :: "LogTimeFilter \<Rightarrow> int \<Rightarrow> bool" where
  "contains f t \<longleftrightarrow> (case since f of None \<Rightarrow> True | Some s \<Rightarrow> t \<ge> s)
     \<and> (case until f of None \<Rightarrow> True | Some u \<Rightarrow> t \<le> u)"

definition contains_rfc3339 :: "LogTimeFilter \<Rightarrow> string \<Rightarrow> bool" where
  "contains_rfc3339 f v = (case epoch_nanos_from_rfc3339 v of Inl _ \<Rightarrow> False | Inr t \<Rightarrow> contains f t)"

section \<open>Stamped lines\<close>

definition newline :: char where "newline = CHR 0x0A"
definition tab :: char where "tab = CHR 0x09"

text \<open>The loop both line functions run: lines with their line feed, the last one perhaps without.\<close>

fun line_chunks :: "string \<Rightarrow> string list" where
  "line_chunks [] = []"
| "line_chunks (c # cs) =
     (if c = newline then [c] # line_chunks cs
      else (case line_chunks cs of [] \<Rightarrow> [[c]] | l # ls \<Rightarrow> (c # l) # ls))"

definition LOG_TS_LEN :: nat where "LOG_TS_LEN = 30"

definition stamp_matches :: "char \<Rightarrow> char \<Rightarrow> bool" where
  "stamp_matches got want = (if want \<in> set ''YMDHSN'' then is_ascii_digit got else got = want)"

definition is_utc_rfc3339 :: "string \<Rightarrow> bool" where
  "is_utc_rfc3339 b \<longleftrightarrow> length b = 30 \<and> list_all2 stamp_matches b ''YYYY-MM-DDTHH:MM:SS.NNNNNNNNNZ''"

definition log_timestamp_nanos :: "string \<Rightarrow> int option" where
  "log_timestamp_nanos line =
     (if length line \<le> LOG_TS_LEN + 1 \<or> line ! LOG_TS_LEN \<noteq> tab \<or> \<not> is_utc_rfc3339 (take LOG_TS_LEN line)
      then None
      else (case epoch_nanos_from_rfc3339 (take LOG_TS_LEN line) of Inl _ \<Rightarrow> None | Inr t \<Rightarrow> Some t))"

definition timestamp_prefix :: "string \<Rightarrow> string option" where
  "timestamp_prefix line = map_option (\<lambda>_. drop (LOG_TS_LEN + 1) line) (log_timestamp_nanos line)"

definition filter_log_lines :: "string \<Rightarrow> LogTimeFilter option \<Rightarrow> string" where
  "filter_log_lines data flt =
     (case flt of None \<Rightarrow> data | Some f \<Rightarrow>
        if \<not> is_active f then data
        else concat (filter (\<lambda>line. case log_timestamp_nanos line of None \<Rightarrow> False | Some t \<Rightarrow> contains f t)
          (line_chunks data)))"

definition strip_log_timestamps :: "string \<Rightarrow> string" where
  "strip_log_timestamps data =
     concat (map (\<lambda>line. case timestamp_prefix line of Some content \<Rightarrow> content | None \<Rightarrow> line)
       (line_chunks data))"

text \<open>The last \<open>n\<close> lines (\<open>zerun logs --tail\<close>, src/main.rs): the starts of the lines, then a slice.\<close>

definition line_starts :: "string \<Rightarrow> nat list" where
  "line_starts data =
     0 # map Suc (filter (\<lambda>i. data ! i = newline \<and> i + 1 < length data) [0..<length data])"

definition tail_bytes :: "string \<Rightarrow> nat \<Rightarrow> string" where
  "tail_bytes data n =
     (if n = 0 \<or> data = [] then []
      else let starts = line_starts data in
        if length starts > n then drop (starts ! (length starts - n)) data else data)"

section \<open>Reading back a printed stamp\<close>

lemma fmt0_9:
  assumes "n < 1000000000"
  shows "length (fmt0 9 n) = 9" and "parse_i128 (fmt0 9 n) = Some (int n)"
    and "list_all is_ascii_digit (fmt0 9 n)"
proof -
  show "length (fmt0 9 n) = 9" using length_fmt0 [of n 9] assms by simp
  show "parse_i128 (fmt0 9 n) = Some (int n)"
    using assms by (subst parse_int_digits [OF _ fmt0_digits digits_val_fmt0]) auto
  show "list_all is_ascii_digit (fmt0 9 n)" by (rule fmt0_digits)
qed

lemma fraction_of_stamp:
  assumes "length pre = 19" and "nanos < 1000000000"
  shows "fraction (pre @ ''.'' @ fmt0 9 nanos @ ''Z'') = Inr (int nanos, 29)"
proof -
  let ?b = "pre @ ''.'' @ fmt0 9 nanos @ ''Z''"
  note f = fmt0_9 [OF assms(2)]
  have "at ?b 19 = Some (CHR ''.'')" using assms(1) by (simp add: at_def nth_append)
  moreover have "drop 20 ?b = fmt0 9 nanos @ ''Z''" using assms(1) by simp
  moreover have "takeWhile is_ascii_digit (fmt0 9 nanos @ ''Z'') = fmt0 9 nanos"
    using f(3) by (subst takeWhile_append2) (auto simp: list_all_iff is_ascii_digit_def)
  moreover have "pad9 (take 9 (fmt0 9 nanos)) = fmt0 9 nanos" using f(1) by (simp add: pad9_def)
  ultimately show ?thesis
    using f(1,2) by (simp add: fraction_def Let_def del: power_numeral)
qed

lemma offset_of_stamp:
  assumes "length pre = 29"
  shows "offset_at (pre @ ''Z'') 29 = Inr 0"
  using assms by (simp add: offset_at_def at_def nth_append)

lemma epoch_nanos_of_stamp:
  assumes "secs < 253402300800" and "nanos < 1000000000"
  shows "epoch_nanos_from_rfc3339 (now_rfc3339_nanos secs nanos) = Inr (int (secs * 1000000000 + nanos))"
proof -
  obtain y0 y1 y2 y3 m0 m1 d0 d1 h0 h1 i0 i1 s0 s1 y m d where
      shape: "rfc3339_civil secs = [y0, y1, y2, y3, CHR ''-'', m0, m1, CHR ''-'', d0, d1, CHR ''T'',
        h0, h1, CHR '':'', i0, i1, CHR '':'', s0, s1]"
      and c: "civil_from_days (int (secs div 86400)) = (int y, int m, int d)"
      and f: "parse_i64 [y0, y1, y2, y3] = Some (int y)" "parse_i64 [m0, m1] = Some (int m)"
        "parse_i64 [d0, d1] = Some (int d)" "parse_i64 [h0, h1] = Some (int (secs mod 86400 div 3600))"
        "parse_i64 [i0, i1] = Some (int (secs mod 3600 div 60))" "parse_i64 [s0, s1] = Some (int (secs mod 60))"
    by (rule rfc3339_shape [OF assms(1)])
  define h i s where "h = int (secs mod 86400 div 3600)" and "i = int (secs mod 3600 div 60)"
    and "s = int (secs mod 60)"
  have "secs mod 86400 div 3600 < 24" "secs mod 3600 div 60 < 60" "secs mod 60 < 60" by simp_all
  then have hi: "h \<le> 23" "i \<le> 59" "s \<le> 60" unfolding h_def i_def s_def by linarith+
  define b where "b = now_rfc3339_nanos secs nanos"
  have len: "length (rfc3339_civil secs) = 19" by (simp add: shape)
  have "b = rfc3339_civil secs @ ''.'' @ fmt0 9 nanos @ ''Z''"
    "b = (rfc3339_civil secs @ ''.'' @ fmt0 9 nanos) @ ''Z''"
    by (simp_all add: b_def now_rfc3339_nanos_def)
  then have fr: "fraction b = Inr (int nanos, 29)" and off: "offset_at b 29 = Inr 0"
    using fraction_of_stamp [OF len assms(2)] offset_of_stamp [of "rfc3339_civil secs @ ''.'' @ fmt0 9 nanos"]
      len fmt0_9 [OF assms(2)] by simp_all
  have days: "days_from_civil (int y) (int m) (int d) = int (secs div 86400)"
    using days_from_civil_from_days [of "int (secs div 86400)"] c by simp
  have v: "1 \<le> int m" "int m \<le> 12" "1 \<le> int d" "int d \<le> days_in_month (int y) (int m)"
    using civil_from_days_valid [OF c] by (simp_all add: valid_date_def)
  have "num_field b 0 4 = Inr (int y)" "num_field b 5 7 = Inr (int m)" "num_field b 8 10 = Inr (int d)"
      "num_field b 11 13 = Inr h" "num_field b 14 16 = Inr i" "num_field b 17 19 = Inr s"
    by (simp_all only: b_def now_rfc3339_nanos_def shape append.simps num_field_def slice_def h_def i_def s_def)
      (simp_all add: f [simplified])
  moreover have "\<not> (length b < 20 \<or> b ! 4 \<noteq> CHR ''-'' \<or> b ! 7 \<noteq> CHR ''-'' \<or> b ! 10 \<noteq> CHR ''T''
         \<or> b ! 13 \<noteq> CHR '':'' \<or> b ! 16 \<noteq> CHR '':'')"
    by (simp add: b_def now_rfc3339_nanos_def shape)
  ultimately have "epoch_nanos_from_rfc3339 b =
      Inr (int (secs div 86400) * 86400 * 1000000000 + (h * 3600 + i * 60 + s) * 1000000000 + int nanos)"
    using v hi by (simp add: epoch_nanos_from_rfc3339_def fr off days Let_def algebra_simps)
  also have "int (secs div 86400) * 86400 * 1000000000 + (h * 3600 + i * 60 + s) * 1000000000 + int nanos =
      int ((secs div 86400 * 86400 + (secs mod 86400 div 3600 * 3600 + secs mod 3600 div 60 * 60 + secs mod 60))
        * 1000000000 + nanos)"
    unfolding h_def i_def s_def by (simp only: of_nat_add of_nat_mult of_nat_numeral distrib_right)
  finally show ?thesis unfolding seconds_of_day div_mult_mod_eq b_def .
qed

lemma stamp_is_utc:
  assumes "secs < 253402300800" and "nanos < 1000000000"
  shows "is_utc_rfc3339 (now_rfc3339_nanos secs nanos)"
proof -
  obtain y0 y1 y2 y3 m0 m1 d0 d1 h0 h1 i0 i1 s0 s1 where
      shape: "rfc3339_civil secs = [y0, y1, y2, y3, CHR ''-'', m0, m1, CHR ''-'', d0, d1, CHR ''T'',
        h0, h1, CHR '':'', i0, i1, CHR '':'', s0, s1]"
      and digits: "list_all is_ascii_digit [y0, y1, y2, y3, m0, m1, d0, d1, h0, h1, i0, i1, s0, s1]"
    by (rule rfc3339_shape [OF assms(1)])
  have "list_all2 stamp_matches (fmt0 9 nanos) (replicate 9 (CHR ''N''))"
    using fmt0_9 [OF assms(2)] by (auto simp: list_all2_conv_all_nth list_all_length stamp_matches_def)
  then have "list_all2 stamp_matches (fmt0 9 nanos @ ''Z'') (''NNNNNNNNN'' @ ''Z'')"
    by (intro list_all2_appendI) (simp_all add: stamp_matches_def eval_nat_numeral)
  moreover have "length (now_rfc3339_nanos secs nanos) = 30"
    using fmt0_9 [OF assms(2)] by (simp add: now_rfc3339_nanos_def shape)
  ultimately show ?thesis
    using digits by (simp add: is_utc_rfc3339_def now_rfc3339_nanos_def shape stamp_matches_def)
qed

section \<open>Stamped lines\<close>

text \<open>A captured line as the reaper writes it: the stamp, a tab, the bytes of the line.\<close>

definition stamped :: "nat \<times> nat \<Rightarrow> string \<Rightarrow> string" where
  "stamped t msg = now_rfc3339_nanos (fst t) (snd t) @ [tab] @ msg"

definition good_time :: "nat \<times> nat \<Rightarrow> bool" where
  "good_time t \<longleftrightarrow> fst t < 253402300800 \<and> snd t < 1000000000"

definition nanos_of :: "nat \<times> nat \<Rightarrow> int" where
  "nanos_of t = int (fst t * 1000000000 + snd t)"

lemma length_stamp: "good_time t \<Longrightarrow> length (now_rfc3339_nanos (fst t) (snd t)) = 30"
  using stamp_is_utc by (simp add: good_time_def is_utc_rfc3339_def)

lemma log_timestamp_stamped:
  "good_time t \<Longrightarrow> msg \<noteq> [] \<Longrightarrow> log_timestamp_nanos (stamped t msg) = Some (nanos_of t)"
  using stamp_is_utc [of "fst t" "snd t"] epoch_nanos_of_stamp [of "fst t" "snd t"] length_stamp [of t]
  by (simp add: log_timestamp_nanos_def stamped_def LOG_TS_LEN_def nth_append good_time_def nanos_of_def
      Suc_le_eq)

lemma timestamp_prefix_stamped:
  "good_time t \<Longrightarrow> msg \<noteq> [] \<Longrightarrow> timestamp_prefix (stamped t msg) = Some msg"
  using length_stamp [of t] log_timestamp_stamped [of t msg]
  by (simp add: timestamp_prefix_def LOG_TS_LEN_def stamped_def)

lemma concat_line_chunks: "concat (line_chunks data) = data"
  by (induction data rule: line_chunks.induct) (auto split: list.splits)

definition full_line :: "string \<Rightarrow> bool" where
  "full_line l \<longleftrightarrow> (\<exists>body. l = body @ [newline] \<and> newline \<notin> set body)"

lemma line_chunks_Cons: "full_line l \<Longrightarrow> line_chunks (l @ rest) = l # line_chunks rest"
proof -
  assume "full_line l"
  then obtain body where l: "l = body @ [newline]" and "newline \<notin> set body"
    by (auto simp: full_line_def)
  moreover have "newline \<notin> set b \<Longrightarrow> line_chunks (b @ newline # rest) = (b @ [newline]) # line_chunks rest" for b
    by (induction b) auto
  ultimately show ?thesis by simp
qed

lemma line_chunks_concat: "\<forall>l \<in> set ls. full_line l \<Longrightarrow> line_chunks (concat ls) = ls"
  by (induction ls) (auto simp: line_chunks_Cons)

lemma line_chunks_pieces: "l \<in> set (line_chunks data) \<Longrightarrow> l \<noteq> [] \<and> newline \<notin> set (butlast l)"
  by (induction data arbitrary: l rule: line_chunks.induct) (auto split: list.splits if_splits)

lemma full_line_not_Nil: "full_line l \<Longrightarrow> l \<noteq> []"
  by (auto simp: full_line_def)

lemma stamp_no_newline:
  assumes "good_time t"
  shows "newline \<notin> set (now_rfc3339_nanos (fst t) (snd t))"
proof
  assume nl: "newline \<in> set (now_rfc3339_nanos (fst t) (snd t))"
  define pat where "pat = ''YYYY-MM-DDTHH:MM:SS.NNNNNNNNNZ''"
  have m: "list_all2 stamp_matches (now_rfc3339_nanos (fst t) (snd t)) pat"
    using stamp_is_utc [of "fst t" "snd t"] assms by (simp add: good_time_def is_utc_rfc3339_def pat_def)
  obtain i where i: "i < length (now_rfc3339_nanos (fst t) (snd t))"
      "now_rfc3339_nanos (fst t) (snd t) ! i = newline"
    using nl by (auto simp: in_set_conv_nth)
  then have "stamp_matches newline (pat ! i)" using list_all2_nthD [OF m i(1)] by simp
  moreover have "\<not> is_ascii_digit newline" by (simp add: newline_def is_ascii_digit_def)
  ultimately have "pat ! i = newline" by (simp add: stamp_matches_def split: if_splits)
  moreover have "i < length pat" using i(1) list_all2_lengthD [OF m] by simp
  ultimately have "newline \<in> set pat" by (metis nth_mem)
  then show False by (simp add: newline_def pat_def)
qed

lemma full_line_stamped: "good_time t \<Longrightarrow> full_line msg \<Longrightarrow> full_line (stamped t msg)"
proof -
  assume t: "good_time t" and "full_line msg"
  then obtain body where "msg = body @ [newline]" "newline \<notin> set body"
    by (auto simp: full_line_def)
  then show ?thesis
    using stamp_no_newline [OF t]
    by (auto simp: full_line_def stamped_def tab_def newline_def
        intro!: exI [of _ "now_rfc3339_nanos (fst t) (snd t) @ [tab] @ body"])
qed

lemma line_chunks_stamped:
  assumes "\<forall>(t, msg) \<in> set rs. good_time t \<and> full_line msg"
  shows "line_chunks (concat (map (\<lambda>(t, msg). stamped t msg) rs)) = map (\<lambda>(t, msg). stamped t msg) rs"
  using assms by (intro line_chunks_concat) (auto simp: full_line_stamped)

text \<open>The lines start where the chunks start.\<close>

lemma line_starts_Cons:
  assumes "cs \<noteq> []"
  shows "line_starts (c # cs) =
    0 # map Suc (if c = newline then line_starts cs else tl (line_starts cs))"
proof -
  have "[0..<length (c # cs)] = 0 # map Suc [0..<length cs]"
    by (simp add: upt_conv_Cons map_Suc_upt del: upt_Suc)
  then show ?thesis
    using assms by (simp add: line_starts_def filter_map comp_def)
qed

lemma line_starts_chunks:
  "data \<noteq> [] \<Longrightarrow> length (line_starts data) = length (line_chunks data) \<and>
     (\<forall>i < length (line_chunks data). drop (line_starts data ! i) data = concat (drop i (line_chunks data)))"
proof (induction data)
  case (Cons c cs)
  show ?case
  proof (cases "cs = []")
    case True
    then show ?thesis by (simp add: line_starts_def)
  next
    case False
    with Cons have IH: "length (line_starts cs) = length (line_chunks cs)"
        "\<forall>i < length (line_chunks cs). drop (line_starts cs ! i) cs = concat (drop i (line_chunks cs))"
      by auto
    obtain l ls where ch: "line_chunks cs = l # ls"
      using False concat_line_chunks [of cs] by (cases "line_chunks cs") auto
    obtain st where st: "line_starts cs = 0 # st" by (simp add: line_starts_def)
    have step: "\<forall>i < length (line_chunks (c # cs)). drop (line_starts (c # cs) ! i) (c # cs) =
        concat (drop i (line_chunks (c # cs)))"
      if eqs: "line_starts (c # cs) = 0 # map Suc (drop k (line_starts cs))"
        "drop (Suc 0) (line_chunks (c # cs)) = drop k (line_chunks cs)" for k
    proof (intro allI impI)
      fix i assume i: "i < length (line_chunks (c # cs))"
      show "drop (line_starts (c # cs) ! i) (c # cs) = concat (drop i (line_chunks (c # cs)))"
      proof (cases i)
        case 0
        then show ?thesis by (simp add: eqs(1) concat_line_chunks del: line_chunks.simps)
      next
        case (Suc j)
        have "length (drop k (line_chunks cs)) = length (line_chunks (c # cs)) - 1"
          by (simp only: eqs(2) [symmetric] length_drop One_nat_def)
        then have j: "k + j < length (line_chunks cs)" using i Suc by simp
        then have "drop (line_starts (c # cs) ! i) (c # cs) = drop (line_starts cs ! (k + j)) cs"
          using Suc IH(1) by (simp add: eqs(1))
        also have "\<dots> = concat (drop j (drop k (line_chunks cs)))" using IH(2) j by (simp add: add.commute)
        also have "\<dots> = concat (drop i (line_chunks (c # cs)))"
          by (simp only: eqs(2) [symmetric] drop_drop Suc add_Suc_right add_0_right)
        finally show ?thesis .
      qed
    qed
    show ?thesis
    proof (cases "c = newline")
      case True
      then show ?thesis
        using step [of 0] IH(1) line_starts_Cons [OF False, of c] by simp
    next
      case False
      then show ?thesis
        using step [of 1] IH(1) line_starts_Cons [OF \<open>cs \<noteq> []\<close>, of c] ch st by simp
    qed
  qed
qed simp

lemma tail_bytes_chunks:
  "tail_bytes data n = concat (drop (length (line_chunks data) - n) (line_chunks data))"
proof (cases "n = 0 \<or> data = []")
  case True
  then show ?thesis by (auto simp: tail_bytes_def)
next
  case False
  then have "data \<noteq> []" and n: "0 < n" by auto
  note ls = line_starts_chunks [OF \<open>data \<noteq> []\<close>]
  show ?thesis
    using ls n \<open>data \<noteq> []\<close> by (auto simp: tail_bytes_def Let_def concat_line_chunks)
qed

section \<open>Durations\<close>

definition unit_name :: "string \<Rightarrow> bool" where
  "unit_name u \<longleftrightarrow> u \<in> set [''ns'', ''us'', ''ms'', ''s'', ''m'', ''h'']"

definition mult_of :: "string \<Rightarrow> nat" where
  "mult_of u = (case unit_multiplier u of None \<Rightarrow> 0 | Some m \<Rightarrow> m)"

lemma unit_name_facts:
  "unit_name u \<Longrightarrow> unit_multiplier u = Some (mult_of u) \<and> list_all unit_char u \<and> u \<noteq> [] \<and> \<not> number_char (hd u)"
  by (auto simp: unit_name_def unit_multiplier_def mult_of_def unit_char_def number_char_def is_ascii_digit_def)

lemma digit_number_char: "is_ascii_digit c \<Longrightarrow> number_char c \<and> \<not> unit_char c \<and> c \<noteq> CHR ''.''"
  by (auto simp: number_char_def unit_char_def is_ascii_digit_def)

lemma duration_amount_whole:
  "n * m \<le> I128_MAX \<Longrightarrow> 0 < m \<Longrightarrow> duration_amount (show_nat n) m = Some (n * m)"
proof -
  assume a: "n * m \<le> I128_MAX" "0 < m"
  then have "n \<le> I128_MAX" by (metis le_trans nat_mult_le_cancel_disj mult.commute mult_1 Suc_leI One_nat_def)
  moreover have "CHR ''.'' \<notin> set (show_nat n)"
    using digit_number_char show_nat_is_digit by blast
  then have "split_once (CHR ''.'') (show_nat n) = None" by (simp add: split_once_None_iff)
  ultimately show ?thesis using a by (simp add: duration_amount_def checked_mul_def)
qed

lemma duration_loop_Cons:
  assumes u: "unit_name u" and bound: "acc + n * mult_of u \<le> I128_MAX" and pos: "0 < mult_of u"
    and rest: "rest = [] \<or> is_ascii_digit (hd rest)"
  shows "duration_loop acc (show_nat n @ u @ rest) = duration_loop (acc + n * mult_of u) rest"
proof -
  note uf = unit_name_facts [OF u]
  have "\<forall>c \<in> set (show_nat n). number_char c" using show_nat_is_digit digit_number_char by blast
  then have num: "takeWhile number_char (show_nat n @ u @ rest) = show_nat n"
      "dropWhile number_char (show_nat n @ u @ rest) = u @ rest"
    using uf by (cases u; auto simp: takeWhile_append2 dropWhile_append2)+
  have "\<forall>c \<in> set u. unit_char c" using uf by (simp add: list_all_iff)
  then have unt: "takeWhile unit_char (u @ rest) = u" "dropWhile unit_char (u @ rest) = rest"
    using rest digit_number_char by (cases rest; auto simp: takeWhile_append2 dropWhile_append2)+
  have "duration_amount (show_nat n) (mult_of u) = Some (n * mult_of u)"
    using bound pos by (intro duration_amount_whole) auto
  then show ?thesis
    using bound uf by (subst duration_loop.simps) (simp add: num unt checked_add_def)
qed

lemma mult_of_pos: "unit_name u \<Longrightarrow> 0 < mult_of u"
  by (auto simp: unit_name_def mult_of_def unit_multiplier_def)

lemma duration_loop_components:
  assumes "\<forall>(n, u) \<in> set cs. unit_name u" and "acc + sum_list (map (\<lambda>(n, u). n * mult_of u) cs) \<le> I128_MAX"
  shows "duration_loop acc (concat (map (\<lambda>(n, u). show_nat n @ u) cs)) =
    Some (acc + sum_list (map (\<lambda>(n, u). n * mult_of u) cs))"
  using assms
proof (induction cs arbitrary: acc)
  case Nil
  then show ?case by (simp add: duration_loop.simps)
next
  case (Cons p cs)
  obtain n u where p: "p = (n, u)" by (cases p)
  let ?rest = "concat (map (\<lambda>(n, u). show_nat n @ u) cs)"
  have "?rest = [] \<or> is_ascii_digit (hd ?rest)"
  proof (cases cs)
    case (Cons q qs)
    then show ?thesis using show_nat_is_digit [of "hd (show_nat (fst q))" "fst q"] by (auto split: prod.splits)
  qed simp
  then show ?case
    using Cons.prems Cons.IH [of "acc + n * mult_of u"] duration_loop_Cons [of u acc n ?rest] mult_of_pos [of u]
    by (simp add: p add.assoc)
qed

section \<open>Properties\<close>

text \<open>\<open>--tail n\<close> prints exactly the last \<open>n\<close> lines, the unterminated last one included, and everything when
  there are fewer.\<close>

lemma tail_last_lines:
  "tail_bytes data n = concat (drop (length (line_chunks data) - n) (line_chunks data)) \<and>
   concat (line_chunks data) = data"
  by (simp add: tail_bytes_chunks concat_line_chunks)

text \<open>A duration written as a sequence of counted units denotes the sum of its parts in nanoseconds.\<close>

lemma duration_sum:
  assumes "\<forall>(n, u) \<in> set cs. unit_name u" and "cs \<noteq> []"
    and "sum_list (map (\<lambda>(n, u). n * mult_of u) cs) \<le> I128_MAX"
  shows "parse_duration (concat (map (\<lambda>(n, u). show_nat n @ u) cs)) =
    Some (int (sum_list (map (\<lambda>(n, u). n * mult_of u) cs)))"
proof -
  let ?s = "concat (map (\<lambda>(n, u). show_nat n @ u) cs)"
  from assms(2) obtain n u cs' where "cs = (n, u) # cs'" by (cases cs) auto
  then obtain c rest where s: "?s = c # rest" "is_ascii_digit c"
    using show_nat_is_digit [of "hd (show_nat n)" n] by (cases "show_nat n") auto
  then have "c \<noteq> CHR ''-''" "c \<noteq> CHR ''+''" by (auto simp: ascii_class_defs)
  then have "parse_duration ?s = map_option int (duration_loop 0 ?s)"
    by (simp add: parse_duration_def s(1))
  with duration_loop_components [OF assms(1), of 0] assms(3) show ?thesis by simp
qed

lemma duration_sum_witness: "parse_duration ''1h30m'' = Some 5400000000000"
  using duration_sum [of "[(1, ''h''), (30, ''m'')]"]
  by (simp add: unit_name_def mult_of_def unit_multiplier_def I128_MAX_def show_nat.simps digit_char_def)

text \<open>A timestamp the log writer prints is read back by the filter as the same instant, to the nanosecond, for
  every instant up to the end of the year 9999.\<close>

lemma log_stamp_roundtrip:
  assumes "secs < 253402300800" and "nanos < 1000000000"
  shows "epoch_nanos_from_rfc3339 (now_rfc3339_nanos secs nanos) = Inr (int (secs * 1000000000 + nanos))"
  using assms by (rule epoch_nanos_of_stamp)

lemma log_stamp_roundtrip_witness:
  "epoch_nanos_from_rfc3339 (now_rfc3339_nanos 1700000000 5) = Inr 1700000000000000005"
  using log_stamp_roundtrip [of 1700000000 5] by simp

end
