(* ===== verification/Container_State.thy ===== *)
theory Container_State
  imports Network Security "HOL-Library.AList"
begin

text \<open>
  Per-container state records (src/state.rs): the record, its directory of files, loading, saving,
  listing and resolving, the liveness test, and the cgroup metrics readers.

  The directory \<open><run>/containers\<close> is the list of its entries in the order \<open>read_dir\<close> gives them,
  each with its kind and its \<open>state.json\<close>: absent, not a record, or the record its JSON denotes.
  Record fields carry the prefix \<open>cs_\<close>. The store interface clients rely on is the locale
  \<open>record_store\<close>.
\<close>

section \<open>The record\<close>

datatype Status = Created | Running | Exited

record ContainerMetrics =
  memory_bytes :: "nat option"
  memory_peak_bytes :: "nat option"
  cpu_usage_usec :: "nat option"
  pids_now :: "nat option"
  io_read_bytes :: "nat option"
  io_write_bytes :: "nat option"

record ContainerState =
  cs_version :: nat
  cs_id :: string
  cs_name :: "string option"
  cs_image :: string
  cs_pid :: "int option"
  cs_pid_start_time :: "nat option"
  cs_status :: Status
  cs_paused :: bool
  cs_exit_code :: "int option"
  cs_created :: string
  cs_started :: "string option"
  cs_finished :: "string option"
  cs_rootless :: bool
  cs_net :: string
  cs_ports :: "(nat \<times> nat) list"
  cs_port_protocols :: "string list option"
  cs_port_ips :: "string list option"
  cs_ip :: "Ipv4Addr option"
  cs_cmd :: "string list"
  cs_env :: "string list"
  cs_cwd :: "string option"
  cs_user :: "string option"
  cs_capabilities :: "string list option"
  cs_seccomp :: "SeccompMode option"
  cs_log :: string
  cs_log_max_size :: "nat option"
  cs_log_max_file :: "nat option"
  cs_lower :: "string option"
  cs_rootfs :: string
  cs_overlay :: "string option"
  cs_tmpfs_upper :: bool
  cs_labels :: "(string \<times> string) list"
  cs_launch_args :: "string list option"
  cs_table :: "string option"
  cs_veth :: "string option"
  cs_cgroup :: "string option"
  cs_metrics :: "ContainerMetrics option"

section \<open>Identifiers\<close>

definition valid_name :: "string \<Rightarrow> bool" where
  "valid_name name \<longleftrightarrow> 1 \<le> length name \<and> length name \<le> 128 \<and> is_ascii_alphanumeric (hd name) \<and>
     list_all (\<lambda>b. is_ascii_alphanumeric b \<or> b \<in> set ''_.-'') (tl name)"

definition valid_id :: "string \<Rightarrow> bool" where
  "valid_id cid \<longleftrightarrow> 1 \<le> length cid \<and> length cid \<le> 64 \<and> list_all is_ascii_hexdigit cid"

section \<open>The directory of records\<close>

datatype entry_kind = Directory | LinkToDirectory | OtherEntry

datatype state_file = NoState | BadJson | Saved ContainerState

type_synonym containers = "(string \<times> entry_kind \<times> state_file) list"

definition state_dir :: "string \<Rightarrow> string \<Rightarrow> string" where
  "state_dir run_root cid = run_root @ ''/containers/'' @ cid"

definition log_path :: "string \<Rightarrow> string \<Rightarrow> string" where
  "log_path run_root cid = state_dir run_root cid @ ''/console.log''"

definition load :: "string \<Rightarrow> containers \<Rightarrow> string \<Rightarrow> ContainerState option" where
  "load run_root dir cid =
     (if \<not> valid_id cid then None
      else case map_of dir cid of
        Some (kind, Saved s) \<Rightarrow>
          if kind = OtherEntry \<or> cs_id s \<noteq> cid \<or> \<not> valid_id (cs_id s) then None
          else Some (s\<lparr>cs_log := log_path run_root cid\<rparr>)
      | _ \<Rightarrow> None)"

datatype state_error = InvalidId string | WriteFailed string

text \<open>\<open>w_ok\<close>: whether the directory and the file can be written.\<close>

definition save ::
  "bool \<Rightarrow> string \<Rightarrow> ContainerState \<Rightarrow> containers \<Rightarrow> (state_error + unit) \<times> containers" where
  "save w_ok run_root s dir =
     (if \<not> valid_id (cs_id s) then (Inl (InvalidId (cs_id s)), dir)
      else if \<not> w_ok then (Inl (WriteFailed (cs_id s)), dir)
      else
        let persisted = s\<lparr>cs_log := log_path run_root (cs_id s)\<rparr>;
            kind = (case map_of dir (cs_id s) of None \<Rightarrow> Directory | Some (k, _) \<Rightarrow> k)
        in (Inr (), AList.update (cs_id s) (kind, Saved persisted) dir))"

definition remove_record :: "string \<Rightarrow> containers \<Rightarrow> containers" where
  "remove_record cid dir = AList.delete cid dir"

text \<open>A stable sort by decreasing key.\<close>

definition sort_desc :: "('a \<Rightarrow> 'k :: linorder) \<Rightarrow> 'a list \<Rightarrow> 'a list" where
  "sort_desc f xs = rev (sort_key f (rev xs))"

definition list_states :: "string \<Rightarrow> containers \<Rightarrow> ContainerState list" where
  "list_states run_root dir =
     sort_desc cs_created
       (List.map_filter (\<lambda>(name, kind, _). if kind \<noteq> Directory then None else load run_root dir name) dir)"

datatype resolve_error = NoSuchContainer string | Ambiguous string nat

definition resolve :: "string \<Rightarrow> containers \<Rightarrow> string \<Rightarrow> resolve_error + ContainerState" where
  "resolve run_root dir arg =
     (case load run_root dir arg of Some s \<Rightarrow> Inr s | None \<Rightarrow>
       let all = list_states run_root dir in
       (case find (\<lambda>s. cs_name s = Some arg) all of Some s \<Rightarrow> Inr s | None \<Rightarrow>
         let prefixed = filter (\<lambda>s. starts_with (cs_id s) arg) all in
         (case prefixed of [s] \<Rightarrow> Inr s
          | [] \<Rightarrow> Inl (NoSuchContainer arg)
          | _ \<Rightarrow> Inl (Ambiguous arg (length prefixed)))))"

section \<open>Labels and liveness\<close>

definition status_label :: "ContainerState \<Rightarrow> string" where
  "status_label s = (case cs_status s of
      Running \<Rightarrow> if cs_paused s then ''Up (Paused)'' else ''Up''
    | Exited \<Rightarrow> ''Exited ('' @ show_int (case cs_exit_code s of None \<Rightarrow> -1 | Some c \<Rightarrow> c) @ '')''
    | Created \<Rightarrow> ''Created'')"

definition pid_alive :: "(int \<Rightarrow> bool) \<Rightarrow> (int \<Rightarrow> nat option) \<Rightarrow> ContainerState \<Rightarrow> bool" where
  "pid_alive pid_exists process_start_time s =
     (case cs_pid s of None \<Rightarrow> False | Some pid \<Rightarrow>
        if \<not> pid > 0 then False
        else if \<not> pid_exists pid then False
        else (case cs_pid_start_time s of None \<Rightarrow> True
          | Some expected \<Rightarrow> process_start_time pid = Some expected))"

section \<open>Metrics\<close>

definition read_u64 :: "(string \<Rightarrow> string option) \<Rightarrow> string \<Rightarrow> nat option" where
  "read_u64 rd path = Option.bind (rd path) (\<lambda>text. parse_uint U64_MAX (trim text))"

fun stat_fields :: "string \<Rightarrow> string list \<Rightarrow> nat option" where
  "stat_fields key (k # v # rest) = (if k = key then parse_uint U64_MAX v else stat_fields key rest)"
| "stat_fields key _ = None"

definition stat_value :: "string \<Rightarrow> string \<Rightarrow> nat option" where
  "stat_value text key = stat_fields key (split_whitespace text)"

record io_sums =
  read_sum :: nat
  write_sum :: nat
  saw_read :: bool
  saw_write :: bool

definition count_io :: "string \<Rightarrow> nat \<Rightarrow> io_sums \<Rightarrow> io_sums" where
  "count_io key v a =
     (if key = ''rbps'' then a\<lparr>read_sum := saturating_add U64_MAX (read_sum a) v, saw_read := True\<rparr>
      else if key = ''wbps'' then a\<lparr>write_sum := saturating_add U64_MAX (write_sum a) v, saw_write := True\<rparr>
      else a)"

definition count_text :: "string \<Rightarrow> string \<Rightarrow> io_sums \<Rightarrow> io_sums" where
  "count_text key v a = (case parse_uint U64_MAX v of None \<Rightarrow> a | Some n \<Rightarrow> count_io key n a)"

fun io_tokens :: "string list \<Rightarrow> io_sums \<Rightarrow> io_sums" where
  "io_tokens [] a = a"
| "io_tokens [token] a =
     (case split_once (CHR ''='') token of Some (key, v) \<Rightarrow> count_text key v a | None \<Rightarrow> a)"
| "io_tokens (token # t2 # rest) a =
     (case split_once (CHR ''='') token of
        Some (key, v) \<Rightarrow> io_tokens (t2 # rest) (count_text key v a)
      | None \<Rightarrow> io_tokens rest (count_text token t2 a))"

definition io_line :: "string \<Rightarrow> io_sums \<Rightarrow> io_sums" where
  "io_line line a = (case split_whitespace line of [] \<Rightarrow> a | dev # tokens \<Rightarrow> io_tokens tokens a)"

definition io_bytes :: "string \<Rightarrow> nat option \<times> nat option" where
  "io_bytes text =
     (let a = fold io_line (lines text) \<lparr>read_sum = 0, write_sum = 0, saw_read = False, saw_write = False\<rparr>
      in (if saw_read a then Some (read_sum a) else None, if saw_write a then Some (write_sum a) else None))"

text \<open>\<open>rd\<close> reads a file of the cgroup directory.\<close>

definition metrics_from_cgroup_path :: "(string \<Rightarrow> string option) \<Rightarrow> ContainerMetrics" where
  "metrics_from_cgroup_path rd =
     (let io = (case rd ''io.stat'' of None \<Rightarrow> (None, None) | Some t \<Rightarrow> io_bytes t) in
      \<lparr>memory_bytes = read_u64 rd ''memory.current'', memory_peak_bytes = read_u64 rd ''memory.peak'',
       cpu_usage_usec = Option.bind (rd ''cpu.stat'') (\<lambda>t. stat_value t ''usage_usec''),
       pids_now = read_u64 rd ''pids.current'', io_read_bytes = fst io, io_write_bytes = snd io\<rparr>)"

section \<open>The store interface\<close>

text \<open>Saving a record and loading it back, and nothing else changes: what every lifecycle command
  relies on. \<open>norm\<close> is what a record looks like after a round trip.\<close>

locale record_store =
  fixes ld :: "'s \<Rightarrow> string \<Rightarrow> 'r option"
    and sv :: "'r \<Rightarrow> 's \<Rightarrow> 's option"
    and rm :: "string \<Rightarrow> 's \<Rightarrow> 's"
    and key :: "'r \<Rightarrow> string"
    and norm :: "'r \<Rightarrow> 'r"
    and invar :: "'s \<Rightarrow> bool"
  assumes ld_sv: "invar s \<Longrightarrow> sv r s = Some s' \<Longrightarrow> ld s' k = (if k = key r then Some (norm r) else ld s k)"
    and ld_rm: "invar s \<Longrightarrow> ld (rm k s) k' = (if k' = k then None else ld s k')"
    and invar_sv: "invar s \<Longrightarrow> sv r s = Some s' \<Longrightarrow> invar s'"
    and invar_rm: "invar s \<Longrightarrow> invar (rm k s)"
    and ld_key: "invar s \<Longrightarrow> ld s k = Some r \<Longrightarrow> key r = k"
    and key_norm: "key (norm r) = key r"
begin

text \<open>A read-modify-write of the record under one key touches no other record.\<close>

lemma modify_frame:
  assumes "invar s" and "ld s k = Some r" and "key (f r) = k" and "sv (f r) s = Some s'"
  shows "ld s' = (ld s)(k \<mapsto> norm (f r))"
  using assms by (auto simp: ld_sv)

lemma sv_then_rm:
  assumes "invar s" and "sv r s = Some s'"
  shows "ld (rm (key r) s') = (ld s)(key r := None)"
  using assms by (auto simp: ld_sv ld_rm invar_sv)

end

text \<open>The directory's names are distinct and none is a plain file.\<close>

definition dir_ok :: "containers \<Rightarrow> bool" where
  "dir_ok dir \<longleftrightarrow> distinct (map fst dir) \<and> (\<forall>k kind f. map_of dir k = Some (kind, f) \<longrightarrow> kind \<noteq> OtherEntry)"

definition save_ok :: "string \<Rightarrow> ContainerState \<Rightarrow> containers \<Rightarrow> containers option" where
  "save_ok run_root s dir = (case save True run_root s dir of (Inr _, dir') \<Rightarrow> Some dir' | _ \<Rightarrow> None)"

definition canonical_log :: "string \<Rightarrow> ContainerState \<Rightarrow> ContainerState" where
  "canonical_log run_root s = s\<lparr>cs_log := log_path run_root (cs_id s)\<rparr>"

definition entry_kind_of :: "containers \<Rightarrow> string \<Rightarrow> entry_kind" where
  "entry_kind_of dir k = (case map_of dir k of None \<Rightarrow> Directory | Some (kd, _) \<Rightarrow> kd)"

lemma save_ok_eq:
  "save_ok run_root s dir =
     (if valid_id (cs_id s)
      then Some (AList.update (cs_id s) (entry_kind_of dir (cs_id s), Saved (canonical_log run_root s)) dir)
      else None)"
  by (simp add: save_ok_def save_def Let_def canonical_log_def entry_kind_of_def)

lemma entry_kind_ok: "dir_ok dir \<Longrightarrow> entry_kind_of dir k \<noteq> OtherEntry"
  by (auto simp: dir_ok_def entry_kind_of_def split: option.splits prod.splits)

lemma load_save:
  assumes "dir_ok dir" and "save_ok run_root s dir = Some dir'"
  shows "load run_root dir' k = (if k = cs_id s then Some (canonical_log run_root s) else load run_root dir k)"
  using assms entry_kind_ok [OF assms(1), of "cs_id s"]
  by (auto simp: save_ok_eq load_def AList.update_conv' canonical_log_def split: if_splits)

lemma dir_ok_save: "dir_ok dir \<Longrightarrow> save_ok run_root s dir = Some dir' \<Longrightarrow> dir_ok dir'"
  using entry_kind_ok [of dir "cs_id s"]
  by (fastforce simp: save_ok_eq dir_ok_def AList.distinct_update AList.update_conv' split: if_splits)

lemma load_remove:
  "load run_root (remove_record k dir) k' = (if k' = k then None else load run_root dir k')"
  by (simp add: load_def remove_record_def AList.delete_conv')

lemma dir_ok_remove: "dir_ok dir \<Longrightarrow> dir_ok (remove_record k dir)"
  by (auto simp: dir_ok_def remove_record_def AList.distinct_delete AList.delete_conv' split: if_splits)

lemma load_id: "load run_root dir k = Some s \<Longrightarrow> cs_id s = k \<and> valid_id k"
  by (auto simp: load_def split: if_splits option.splits prod.splits state_file.splits)

interpretation records: record_store "load rr" "save_ok rr" remove_record cs_id "canonical_log rr" dir_ok
  for rr
  by unfold_locales
    (auto simp: load_save load_remove dir_ok_save dir_ok_remove canonical_log_def dest: load_id)

section \<open>Listing and resolving\<close>

lemma set_sort_desc [simp]: "set (sort_desc f xs) = set xs"
  by (simp add: sort_desc_def)

lemma sorted_sort_desc: "sorted_wrt (\<lambda>a b. f b \<le> f a) (sort_desc f xs)"
proof -
  have "sorted (map f (sort_key f (rev xs)))" by simp
  then have "sorted_wrt (\<lambda>a b. f a \<le> f b) (sort_key f (rev xs))" by (simp add: sorted_wrt_map)
  then show ?thesis by (simp add: sort_desc_def sorted_wrt_rev)
qed

lemma set_list_states:
  "s \<in> set (list_states run_root dir) \<longleftrightarrow>
     load run_root dir (cs_id s) = Some s \<and> (\<exists>f. (cs_id s, Directory, f) \<in> set dir)"
  by (auto simp: list_states_def List.map_filter_def image_iff split: if_splits prod.splits
      dest: load_id) (use load_id in fastforce)+

lemma resolve_Inr:
  assumes "resolve run_root dir arg = Inr s"
  shows "load run_root dir (cs_id s) = Some s \<and>
    (cs_id s = arg \<or> cs_name s = Some arg \<or> starts_with (cs_id s) arg)"
proof (cases "load run_root dir arg")
  case None
  have mem: "s \<in> set (list_states run_root dir) \<and> (cs_name s = Some arg \<or> starts_with (cs_id s) arg)"
  proof (cases "find (\<lambda>s. cs_name s = Some arg) (list_states run_root dir)")
    case None': None
    then have "filter (\<lambda>s. starts_with (cs_id s) arg) (list_states run_root dir) = [s]"
      using assms None by (auto simp: resolve_def Let_def split: list.splits)
    then have "s \<in> set (filter (\<lambda>s. starts_with (cs_id s) arg) (list_states run_root dir))" by simp
    then show ?thesis by simp
  next
    case (Some t)
    then have "s = t" using assms None by (simp add: resolve_def Let_def)
    then show ?thesis using Some by (auto simp: find_Some_iff)
  qed
  then show ?thesis by (auto simp: set_list_states)
next
  case (Some t)
  then show ?thesis using assms load_id [OF Some] by (simp add: resolve_def)
qed

lemma save_Inr: "save w rr s dir = (Inr u, dir') \<Longrightarrow> save_ok rr s dir = Some dir'"
  by (auto simp: save_def save_ok_def Let_def split: if_splits)

lemma save_Inl: "save w rr s dir = (Inl e, dir') \<Longrightarrow> dir' = dir"
  by (auto simp: save_def Let_def split: if_splits)

text \<open>A record with nothing optional set.\<close>

definition blank_record :: "string \<Rightarrow> string \<Rightarrow> ContainerState" where
  "blank_record cid created = \<lparr>cs_version = 1, cs_id = cid, cs_name = None, cs_image = ''alpine'', cs_pid = None,
     cs_pid_start_time = None, cs_status = Created, cs_paused = False, cs_exit_code = None, cs_created = created,
     cs_started = None, cs_finished = None, cs_rootless = False, cs_net = ''bridge'', cs_ports = [],
     cs_port_protocols = None, cs_port_ips = None, cs_ip = None, cs_cmd = [], cs_env = [], cs_cwd = None,
     cs_user = None, cs_capabilities = None, cs_seccomp = None, cs_log = [], cs_log_max_size = None,
     cs_log_max_file = None, cs_lower = None, cs_rootfs = [], cs_overlay = None, cs_tmpfs_upper = False,
     cs_labels = [], cs_launch_args = None, cs_table = None, cs_veth = None, cs_cgroup = None, cs_metrics = None\<rparr>"

lemma blank_record_simps [simp]:
  "cs_id (blank_record cid created) = cid" "cs_name (blank_record cid created) = None"
  "cs_created (blank_record cid created) = created" "cs_status (blank_record cid created) = Created"
  "cs_started (blank_record cid created) = None" "cs_finished (blank_record cid created) = None"
  "cs_paused (blank_record cid created) = False" "cs_labels (blank_record cid created) = []"
  "cs_image (blank_record cid created) = ''alpine''"
  by (simp_all add: blank_record_def)

lemma valid_id_ab: "valid_id ''ab''"
  by (simp add: valid_id_def ascii_class_defs)

section \<open>Properties\<close>

text \<open>Saving a record makes it, with its canonical log path, the one that is loaded for its id and leaves every
  other container's record alone; a save that fails leaves the whole directory alone; removing a record removes
  that record and no other.\<close>

lemma record_store_frame:
  assumes "dir_ok dir"
  shows "(case save w rr s dir of
      (Inr _, dir') \<Rightarrow> dir_ok dir' \<and> load rr dir' = (load rr dir)(cs_id s \<mapsto> canonical_log rr s)
    | (Inl _, dir') \<Rightarrow> dir' = dir) \<and>
    load rr (remove_record k dir) = (load rr dir)(k := None)"
proof (cases "save w rr s dir")
  case (Pair r dir')
  show ?thesis
  proof (cases r)
    case (Inl e)
    then show ?thesis using Pair save_Inl [of w rr s dir e dir'] by (auto simp: load_remove)
  next
    case (Inr u)
    then have "save_ok rr s dir = Some dir'" using Pair by (auto intro: save_Inr)
    from records.ld_sv [OF assms this] records.invar_sv [OF assms this] show ?thesis
      using Pair Inr by (auto simp: load_remove)
  qed
qed

lemma record_store_frame_witness:
  "\<exists>dir'. save True ''/run'' (blank_record ''ab'' ''t'') [] = (Inr (), dir') \<and>
     load ''/run'' dir' ''ab'' = Some (canonical_log ''/run'' (blank_record ''ab'' ''t''))"
  using record_store_frame [where dir = "[]" and w = True and rr = "''/run''" and s = "blank_record ''ab'' ''t''"]
  by (auto simp: dir_ok_def save_def valid_id_ab Let_def)

text \<open>A container argument resolves only to a container that exists and that it names: by its exact id, or
  by its name, or, when no name matches, as the prefix of its id, and then no other listed container has that
  prefix.\<close>

lemma resolve_unambiguous:
  assumes "resolve rr dir arg = Inr s"
  shows "load rr dir (cs_id s) = Some s \<and>
    (cs_id s = arg \<or> cs_name s = Some arg \<or>
     starts_with (cs_id s) arg \<and> (\<forall>t \<in> set (list_states rr dir).
       cs_name t \<noteq> Some arg \<and> (starts_with (cs_id t) arg \<longrightarrow> t = s)))"
proof (cases "load rr dir arg")
  case None
  show ?thesis
  proof (cases "find (\<lambda>s. cs_name s = Some arg) (list_states rr dir)")
    case None': None
    then have f: "filter (\<lambda>s. starts_with (cs_id s) arg) (list_states rr dir) = [s]"
      using assms None by (auto simp: resolve_def Let_def split: list.splits)
    then have "{t \<in> set (list_states rr dir). starts_with (cs_id t) arg} = {s}"
      by (metis set_filter list.set(1) list.simps(15))
    then show ?thesis using resolve_Inr [OF assms] None' by (auto simp: find_None_iff)
  next
    case (Some t)
    then have "s = t" using assms None by (simp add: resolve_def Let_def)
    then show ?thesis using Some resolve_Inr [OF assms] by (auto simp: find_Some_iff)
  qed
next
  case (Some t)
  then show ?thesis using assms load_id [OF Some] resolve_Inr [OF assms] by (simp add: resolve_def)
qed

lemma resolve_unambiguous_witness:
  "\<exists>s. resolve ''/run'' [(''ab'', Directory, Saved (blank_record ''ab'' ''t''))] ''ab'' = Inr s \<and> cs_id s = ''ab''"
proof -
  let ?dir = "[(''ab'', Directory, Saved (blank_record ''ab'' ''t''))]"
  obtain s where r: "resolve ''/run'' ?dir ''ab'' = Inr s" and i: "cs_id s = ''ab''"
    by (auto simp: resolve_def load_def valid_id_ab)
  from resolve_unambiguous [OF r] r i show ?thesis by blast
qed

end
