(* ===== verification/Psfilter.thy ===== *)
theory Psfilter
  imports Container_State
begin

text \<open>Selectors of \<open>zerun ps --filter\<close> (src/psfilter.rs).\<close>

record PsFilter =
  pf_status :: "Status option"
  pf_paused :: "bool option"
  pf_name :: "string option"
  pf_id :: "string option"
  pf_image :: "string option"
  pf_exit_code :: "int option"
  pf_net :: "string option"
  pf_labels :: "(string \<times> string option) list"

definition PsFilter_default :: PsFilter where
  "PsFilter_default = \<lparr>pf_status = None, pf_paused = None, pf_name = None, pf_id = None, pf_image = None,
     pf_exit_code = None, pf_net = None, pf_labels = []\<rparr>"

datatype ps_error = InvalidValue string string | UnknownFilter string

definition ps_status :: "string \<Rightarrow> (Status \<times> bool option) option" where
  "ps_status v =
     (if v = ''created'' then Some (Created, None)
      else if v = ''running'' then Some (Running, Some False)
      else if v = ''paused'' then Some (Running, Some True)
      else if v = ''exited'' then Some (Exited, None) else None)"

definition PsFilter_set :: "string \<Rightarrow> string \<Rightarrow> PsFilter \<Rightarrow> ps_error + PsFilter" where
  "PsFilter_set key v f =
     (if key = ''status'' then
        (case ps_status v of None \<Rightarrow> Inl (InvalidValue ''status'' v)
         | Some (st, pa) \<Rightarrow> Inr (f\<lparr>pf_status := Some st, pf_paused := pa\<rparr>))
      else if key \<in> set [''name'', ''id'', ''image'', ''net''] then
        (if v = [] then Inl (InvalidValue key v)
         else if key = ''name'' then Inr (f\<lparr>pf_name := Some v\<rparr>)
         else if key = ''id'' then Inr (f\<lparr>pf_id := Some v\<rparr>)
         else if key = ''image'' then Inr (f\<lparr>pf_image := Some v\<rparr>)
         else Inr (f\<lparr>pf_net := Some v\<rparr>))
      else if key = ''exitCode'' then
        (case parse_i32 v of None \<Rightarrow> Inl (InvalidValue ''exit code'' v)
         | Some c \<Rightarrow> Inr (f\<lparr>pf_exit_code := Some c\<rparr>))
      else if key = ''label'' then
        (let (name, wanted) = (case split_once (CHR ''='') v of Some (n, w) \<Rightarrow> (n, Some w) | None \<Rightarrow> (v, None)) in
         if name = [] then Inl (InvalidValue ''label'' v)
         else Inr (f\<lparr>pf_labels := pf_labels f @ [(name, wanted)]\<rparr>))
      else Inl (UnknownFilter key))"

definition widens_status :: "PsFilter \<Rightarrow> bool" where
  "widens_status f \<longleftrightarrow> (case pf_status f of None \<Rightarrow> False | Some st \<Rightarrow> st \<noteq> Running) \<or> pf_exit_code f \<noteq> None"

definition none_or :: "'a option \<Rightarrow> ('a \<Rightarrow> bool) \<Rightarrow> bool" where
  "none_or x p = (case x of None \<Rightarrow> True | Some v \<Rightarrow> p v)"

definition PsFilter_matches :: "PsFilter \<Rightarrow> ContainerState \<Rightarrow> bool" where
  "PsFilter_matches f s \<longleftrightarrow>
     none_or (pf_status f) (\<lambda>w. cs_status s = w) \<and>
     none_or (pf_paused f) (\<lambda>w. cs_paused s = w) \<and>
     none_or (pf_id f) (\<lambda>w. starts_with (cs_id s) w) \<and>
     none_or (pf_name f) (\<lambda>w. cs_name s = Some w) \<and>
     none_or (pf_image f) (\<lambda>w. cs_image s = w) \<and>
     none_or (pf_net f) (\<lambda>w. cs_net s = w) \<and>
     none_or (pf_exit_code f) (\<lambda>w. cs_exit_code s = Some w) \<and>
     list_all (\<lambda>(name, wanted). case map_of (cs_labels s) name of None \<Rightarrow> False
        | Some found \<Rightarrow> none_or wanted (\<lambda>v. found = v)) (pf_labels f)"

text \<open>What one selector asks of a record.\<close>

definition selects :: "string \<Rightarrow> string \<Rightarrow> ContainerState \<Rightarrow> bool" where
  "selects key v s \<longleftrightarrow> (case PsFilter_set key v PsFilter_default of Inl _ \<Rightarrow> False | Inr f \<Rightarrow> PsFilter_matches f s)"

definition selectors :: "(string \<times> string) list \<Rightarrow> PsFilter \<Rightarrow> ps_error + PsFilter" where
  "selectors kvs f = fold (\<lambda>(k, v) r. and_then r (PsFilter_set k v)) kvs (Inr f)"

lemma fold_selectors_Inl: "fold (\<lambda>(k, v) r. and_then r (PsFilter_set k v)) kvs (Inl e) = Inl e"
  by (induction kvs) auto

lemma selectors_Cons: "selectors ((k, v) # kvs) f = and_then (PsFilter_set k v f) (selectors kvs)"
  by (cases "PsFilter_set k v f") (simp_all add: selectors_def fold_selectors_Inl)

text \<open>The slot a key writes; only labels accumulate.\<close>

definition slot_free :: "string \<Rightarrow> PsFilter \<Rightarrow> bool" where
  "slot_free key f \<longleftrightarrow>
     (key = ''status'' \<longrightarrow> pf_status f = None \<and> pf_paused f = None) \<and> (key = ''name'' \<longrightarrow> pf_name f = None) \<and>
     (key = ''id'' \<longrightarrow> pf_id f = None) \<and> (key = ''image'' \<longrightarrow> pf_image f = None) \<and>
     (key = ''net'' \<longrightarrow> pf_net f = None) \<and> (key = ''exitCode'' \<longrightarrow> pf_exit_code f = None)"

lemma PsFilter_setE:
  assumes "PsFilter_set key v f = Inr f'"
  obtains (status) st pa where "key = ''status''" "ps_status v = Some (st, pa)"
      "f' = f\<lparr>pf_status := Some st, pf_paused := pa\<rparr>"
  | (name) "key = ''name''" "v \<noteq> []" "f' = f\<lparr>pf_name := Some v\<rparr>"
  | (cid) "key = ''id''" "v \<noteq> []" "f' = f\<lparr>pf_id := Some v\<rparr>"
  | (image) "key = ''image''" "v \<noteq> []" "f' = f\<lparr>pf_image := Some v\<rparr>"
  | (net) "key = ''net''" "v \<noteq> []" "f' = f\<lparr>pf_net := Some v\<rparr>"
  | (exit) c where "key = ''exitCode''" "parse_i32 v = Some c" "f' = f\<lparr>pf_exit_code := Some c\<rparr>"
  | (label) n w where "key = ''label''" "n \<noteq> []"
      "(case split_once (CHR ''='') v of Some (n, w) \<Rightarrow> (n, Some w) | None \<Rightarrow> (v, None)) = (n, w)"
      "f' = f\<lparr>pf_labels := pf_labels f @ [(n, w)]\<rparr>"
proof -
  consider "key = ''status''" | "key = ''name''" | "key = ''id''" | "key = ''image''" | "key = ''net''"
    | "key = ''exitCode''" | "key = ''label''"
    using assms by (auto simp: PsFilter_set_def split: if_splits)
  then show ?thesis
  proof cases
    case 1
    then show ?thesis using assms status by (auto simp: PsFilter_set_def split: option.splits)
  next
    case 2
    then show ?thesis using assms name by (simp add: PsFilter_set_def split: if_splits)
  next
    case 3
    then show ?thesis using assms cid by (simp add: PsFilter_set_def split: if_splits)
  next
    case 4
    then show ?thesis using assms image by (simp add: PsFilter_set_def split: if_splits)
  next
    case 5
    then show ?thesis using assms net by (simp add: PsFilter_set_def split: if_splits)
  next
    case 6
    then show ?thesis using assms exit by (auto simp: PsFilter_set_def split: option.splits)
  next
    case 7
    then show ?thesis using assms label by (auto simp: PsFilter_set_def Let_def split: prod.splits if_splits)
  qed
qed

lemma set_matches:
  assumes "PsFilter_set key v f = Inr f'" and "slot_free key f"
  shows "PsFilter_matches f' s \<longleftrightarrow> PsFilter_matches f s \<and> selects key v s"
  using assms(1)
proof (cases rule: PsFilter_setE)
  case (label n w)
  then show ?thesis
    by (auto simp: PsFilter_set_def selects_def PsFilter_matches_def PsFilter_default_def none_or_def Let_def)
qed (use assms(2) in \<open>simp add: PsFilter_set_def selects_def PsFilter_matches_def PsFilter_default_def
      slot_free_def none_or_def, blast?\<close>)+

lemma set_keeps_slot:
  assumes "PsFilter_set key v f = Inr f'" and "key' \<noteq> key" and "slot_free key' f"
  shows "slot_free key' f'"
  using assms(1)
  by (cases rule: PsFilter_setE) (use assms(2,3) in \<open>simp_all add: slot_free_def\<close>)

lemma label_slot: "slot_free ''label'' f"
  by (simp add: slot_free_def)

definition slot_keys :: "(string \<times> string) list \<Rightarrow> string list" where
  "slot_keys kvs = filter (\<lambda>k. k \<noteq> ''label'') (map fst kvs)"

lemma selectors_matches_from:
  assumes "selectors kvs f = Inr f'" and "distinct (slot_keys kvs)"
    and "\<forall>k \<in> set (slot_keys kvs). slot_free k f"
  shows "PsFilter_matches f' s \<longleftrightarrow> PsFilter_matches f s \<and> (\<forall>(k, v) \<in> set kvs. selects k v s)"
  using assms
proof (induction kvs arbitrary: f)
  case Nil
  then show ?case by (simp add: selectors_def)
next
  case (Cons kv kvs)
  obtain k v where kv: "kv = (k, v)" by (cases kv)
  then obtain g where g: "PsFilter_set k v f = Inr g" "selectors kvs g = Inr f'"
    using Cons.prems(1) by (auto simp: selectors_Cons and_then_eq_Inr_iff)
  have "slot_free k f"
    using Cons.prems(3) label_slot by (cases "k = ''label''") (simp_all add: kv slot_keys_def)
  note here = set_matches [OF g(1) this]
  have "slot_free k' g" if "k' \<in> set (slot_keys kvs)" for k'
  proof (rule set_keeps_slot [OF g(1)])
    have "k' \<in> set (map fst kvs)" "k' \<noteq> ''label''" using that by (auto simp: slot_keys_def)
    then show "k' \<noteq> k" using Cons.prems(2) by (auto simp: kv slot_keys_def split: if_splits)
    show "slot_free k' f" using Cons.prems(3) that by (auto simp: kv slot_keys_def)
  qed
  moreover have "distinct (slot_keys kvs)" using Cons.prems(2) by (auto simp: kv slot_keys_def split: if_splits)
  ultimately show ?case using Cons.IH [OF g(2)] here by (auto simp: kv)
qed

lemma matches_default: "PsFilter_matches PsFilter_default s"
  by (simp add: PsFilter_matches_def PsFilter_default_def none_or_def)

lemma slot_free_default: "slot_free k PsFilter_default"
  by (simp add: slot_free_def PsFilter_default_def)

section \<open>Properties\<close>

text \<open>The filters of \<open>ps\<close> are a conjunction: with every selector given once (labels as often as wanted), a
  container is listed exactly when it satisfies each of them.\<close>

lemma ps_filter_conjunction:
  assumes "selectors kvs PsFilter_default = Inr f" and "distinct (slot_keys kvs)"
  shows "PsFilter_matches f s \<longleftrightarrow> (\<forall>(k, v) \<in> set kvs. selects k v s)"
  using selectors_matches_from [OF assms] by (simp add: slot_free_default matches_default)

lemma ps_filter_conjunction_witness:
  "\<exists>f. selectors [(''image'', ''alpine''), (''id'', ''ab'')] PsFilter_default = Inr f \<and>
     PsFilter_matches f (blank_record ''abc'' ''t'')"
proof -
  obtain f where f: "selectors [(''image'', ''alpine''), (''id'', ''ab'')] PsFilter_default = Inr f"
    by (simp add: selectors_def PsFilter_set_def)
  have "distinct (slot_keys [(''image'', ''alpine''), (''id'', ''ab'')])" by (simp add: slot_keys_def)
  from ps_filter_conjunction [OF f this, of "blank_record ''abc'' ''t''"] f show ?thesis
    by (simp add: selects_def PsFilter_set_def PsFilter_matches_def PsFilter_default_def none_or_def starts_with_def)
qed

end
