(* ===== verification/Events.thy ===== *)
theory Events
  imports Container_State Psfilter Logs "HOL-Library.Product_Lexorder"
begin

text \<open>
  Lifecycle events derived from state records (src/events.rs). The events between two snapshots are
  checked against an abstract view: the phase and the name of every container. Replaying the events
  on the old view gives the new one.
\<close>

record Event =
  ev_at :: string
  ev_action :: string
  ev_id :: string
  ev_name :: "string option"
  ev_image :: string
  ev_detail :: "string option"

record EventFilter =
  ef_action :: "string option"
  ef_container :: "string option"
  ef_name :: "string option"
  ef_image :: "string option"
  ef_exit_code :: "int option"

definition EventFilter_default :: EventFilter where
  "EventFilter_default = \<lparr>ef_action = None, ef_container = None, ef_name = None, ef_image = None,
     ef_exit_code = None\<rparr>"

definition EventFilter_set :: "string \<Rightarrow> string \<Rightarrow> EventFilter \<Rightarrow> ps_error + EventFilter" where
  "EventFilter_set key v f =
     (if key = ''action'' \<or> key = ''event'' then Inr (f\<lparr>ef_action := Some v\<rparr>)
      else if key = ''container'' then
        (if v = [] then Inl (InvalidValue ''container'' v) else Inr (f\<lparr>ef_container := Some v\<rparr>))
      else if key = ''name'' then
        (if v = [] then Inl (InvalidValue ''name'' v) else Inr (f\<lparr>ef_name := Some v\<rparr>))
      else if key = ''image'' then
        (if v = [] then Inl (InvalidValue ''image'' v) else Inr (f\<lparr>ef_image := Some v\<rparr>))
      else if key = ''exitCode'' then
        (case parse_i32 v of None \<Rightarrow> Inl (InvalidValue ''exit code'' v)
         | Some c \<Rightarrow> Inr (f\<lparr>ef_exit_code := Some c\<rparr>))
      else Inl (UnknownFilter key))"

definition event_exit_code :: "Event \<Rightarrow> int option" where
  "event_exit_code e =
     Option.bind (ev_detail e) (\<lambda>d. Option.bind (strip_prefix ''exitCode='' d) parse_i32)"

definition EventFilter_matches :: "EventFilter \<Rightarrow> Event \<Rightarrow> bool" where
  "EventFilter_matches f e \<longleftrightarrow>
     none_or (ef_action f) (\<lambda>w. ev_action e = w) \<and>
     none_or (ef_container f) (\<lambda>w. ev_id e = w \<or> starts_with (ev_id e) w \<or> ev_name e = Some w) \<and>
     none_or (ef_name f) (\<lambda>w. ev_name e = Some w) \<and>
     none_or (ef_image f) (\<lambda>w. ev_image e = w) \<and>
     none_or (ef_exit_code f) (\<lambda>w. event_exit_code e = Some w)"

definition select_events_with_time_filter ::
  "Event list \<Rightarrow> EventFilter list \<Rightarrow> LogTimeFilter \<Rightarrow> Event list" where
  "select_events_with_time_filter events filters time_filter =
     filter (\<lambda>e. contains_rfc3339 time_filter (ev_at e) \<and> list_all (\<lambda>f. EventFilter_matches f e) filters) events"

definition format_event :: "Event \<Rightarrow> string" where
  "format_event e =
     ev_at e @ '' container '' @ ev_action e @ '' (id='' @ ev_id e @ '', image='' @ ev_image e
       @ (case ev_name e of None \<Rightarrow> [] | Some n \<Rightarrow> '', name='' @ n)
       @ (case ev_detail e of None \<Rightarrow> [] | Some d \<Rightarrow> '', '' @ d) @ '')''"

definition event_of :: "ContainerState \<Rightarrow> string \<Rightarrow> string \<Rightarrow> string option \<Rightarrow> Event" where
  "event_of st t action detail =
     \<lparr>ev_at = t, ev_action = action, ev_id = cs_id st, ev_name = cs_name st, ev_image = cs_image st,
      ev_detail = detail\<rparr>"

definition unwrap_or :: "'a \<Rightarrow> 'a option \<Rightarrow> 'a" where
  "unwrap_or d x = (case x of None \<Rightarrow> d | Some v \<Rightarrow> v)"

definition start_event :: "string \<Rightarrow> ContainerState \<Rightarrow> Event" where
  "start_event now st = event_of st (unwrap_or now (cs_started st)) ''start'' None"

definition die_event :: "string \<Rightarrow> ContainerState \<Rightarrow> Event" where
  "die_event now st = event_of st (unwrap_or now (cs_finished st)) ''die''
     (Some (''exitCode='' @ show_int (unwrap_or (-1) (cs_exit_code st))))"

text \<open>A container first seen: its history up to its status.\<close>

definition first_seen :: "string \<Rightarrow> ContainerState \<Rightarrow> Event list" where
  "first_seen now st =
     [event_of st (cs_created st) ''create'' None]
     @ (if cs_status st = Running \<or> cs_status st = Exited then [start_event now st] else [])
     @ (if cs_status st = Exited then [die_event now st] else [])
     @ (if cs_status st = Running \<and> cs_paused st then [event_of st now ''pause'' None] else [])"

definition seen_again :: "string \<Rightarrow> ContainerState \<Rightarrow> ContainerState \<Rightarrow> Event list" where
  "seen_again now old st =
     (if cs_name old \<noteq> cs_name st then
        [event_of st now ''rename'' (Some (''from='' @ unwrap_or (cs_id st) (cs_name old)
           @ '' to='' @ unwrap_or (cs_id st) (cs_name st)))] else [])
     @ (if cs_status old \<noteq> cs_status st then
          (case cs_status st of Running \<Rightarrow> [start_event now st] | Exited \<Rightarrow> [die_event now st] | Created \<Rightarrow> [])
        else [])
     @ (if cs_status old = Running \<and> cs_status st = Running \<and> cs_paused old \<noteq> cs_paused st then
          [event_of st now (if cs_paused st then ''pause'' else ''unpause'') None] else [])"

text \<open>The map of the old records by id; a later record wins.\<close>

definition by_id :: "ContainerState list \<Rightarrow> (string \<rightharpoonup> ContainerState)" where
  "by_id sts = map_of (rev (map (\<lambda>s. (cs_id s, s)) sts))"

definition record_events ::
  "string \<Rightarrow> (string \<rightharpoonup> ContainerState) \<Rightarrow> ContainerState \<Rightarrow> Event list" where
  "record_events now prev st =
     (case prev (cs_id st) of None \<Rightarrow> first_seen now st | Some old \<Rightarrow> seen_again now old st)"

definition destroy_events :: "string \<Rightarrow> ContainerState list \<Rightarrow> ContainerState list \<Rightarrow> Event list" where
  "destroy_events now previous current =
     map (\<lambda>old. event_of old now ''destroy'' None)
       (filter (\<lambda>old. \<not> list_ex (\<lambda>s. cs_id s = cs_id old) current) previous)"

definition raw_events :: "string \<Rightarrow> ContainerState list \<Rightarrow> ContainerState list \<Rightarrow> Event list" where
  "raw_events now previous current =
     concat (map (record_events now (by_id previous)) current) @ destroy_events now previous current"

definition diff_events :: "string \<Rightarrow> ContainerState list \<Rightarrow> ContainerState list \<Rightarrow> Event list" where
  "diff_events now previous current =
     sort_key (\<lambda>e. (ev_at e, ev_id e)) (raw_events now previous current)"

section \<open>The abstract view\<close>

datatype phase = PCreated | PUp bool | PDead

type_synonym view = "string \<rightharpoonup> phase \<times> string option"

definition phase_of :: "ContainerState \<Rightarrow> phase" where
  "phase_of s = (case cs_status s of Created \<Rightarrow> PCreated | Running \<Rightarrow> PUp (cs_paused s) | Exited \<Rightarrow> PDead)"

definition view_of :: "ContainerState list \<Rightarrow> view" where
  "view_of sts = (\<lambda>i. map_option (\<lambda>s. (phase_of s, cs_name s)) (by_id sts i))"

text \<open>What an event says happened to the container it names.\<close>

definition event_effect :: "Event \<Rightarrow> (phase \<times> string option) option \<Rightarrow> (phase \<times> string option) option" where
  "event_effect e x =
     (if ev_action e = ''create'' then Some (PCreated, ev_name e)
      else if ev_action e = ''start'' then Some (PUp False, ev_name e)
      else if ev_action e = ''die'' then Some (PDead, ev_name e)
      else if ev_action e = ''pause'' then Some (PUp True, ev_name e)
      else if ev_action e = ''unpause'' then Some (PUp False, ev_name e)
      else if ev_action e = ''rename'' then map_option (\<lambda>(p, _). (p, ev_name e)) x
      else if ev_action e = ''destroy'' then None
      else x)"

definition apply_event :: "Event \<Rightarrow> view \<Rightarrow> view" where
  "apply_event e v = v(ev_id e := event_effect e (v (ev_id e)))"

text \<open>The transitions two snapshots can show of a container.\<close>

definition transition_ok :: "ContainerState \<Rightarrow> ContainerState \<Rightarrow> bool" where
  "transition_ok old st \<longleftrightarrow>
     (cs_status st = Created \<longrightarrow> cs_status old = Created) \<and>
     (cs_status st = Running \<and> cs_paused st \<longrightarrow> cs_status old = Running)"

text \<open>The stamps of a record are in order and not in the future.\<close>

definition stamps_ok :: "string \<Rightarrow> ContainerState \<Rightarrow> bool" where
  "stamps_ok now st \<longleftrightarrow> cs_created st \<le> unwrap_or now (cs_started st) \<and>
     unwrap_or now (cs_started st) \<le> unwrap_or now (cs_finished st) \<and> unwrap_or now (cs_finished st) \<le> now"

lemma fold_apply_other:
  "(\<And>e. e \<in> set es \<Longrightarrow> ev_id e \<noteq> i) \<Longrightarrow> fold apply_event es v i = v i"
  by (induction es arbitrary: v) (auto simp: apply_event_def)

lemma fold_apply_at:
  "fold apply_event es v i = fold event_effect (filter (\<lambda>e. ev_id e = i) es) (v i)"
  by (induction es arbitrary: v) (auto simp: apply_event_def)

lemma record_events_id: "e \<in> set (record_events now prev st) \<Longrightarrow> ev_id e = cs_id st"
  by (auto simp: record_events_def first_seen_def seen_again_def start_event_def die_event_def event_of_def
      split: option.splits Status.splits if_splits)

lemma by_id_Some: "by_id sts i = Some s \<Longrightarrow> s \<in> set sts \<and> cs_id s = i"
  by (auto simp: by_id_def dest!: map_of_SomeD)

lemma by_id_distinct: "distinct (map cs_id sts) \<Longrightarrow> s \<in> set sts \<Longrightarrow> by_id sts (cs_id s) = Some s"
  by (auto simp: by_id_def map_of_eq_Some_iff rev_map [symmetric] distinct_map comp_def inj_on_def
      intro!: map_of_is_SomeI)

lemma by_id_None_iff: "by_id sts i = None \<longleftrightarrow> i \<notin> cs_id ` set sts"
  by (auto simp: by_id_def map_of_eq_None_iff image_iff)

lemma effect_first_seen:
  "fold event_effect (first_seen now st) x = Some (phase_of st, cs_name st)"
  by (cases "cs_status st")
    (auto simp: first_seen_def start_event_def die_event_def event_of_def event_effect_def phase_of_def)

lemma effect_seen_again:
  assumes "transition_ok old st"
  shows "fold event_effect (seen_again now old st) (Some (phase_of old, cs_name old)) =
    Some (phase_of st, cs_name st)"
  using assms
  by (cases "cs_status st"; cases "cs_status old")
    (auto simp: seen_again_def start_event_def die_event_def event_of_def event_effect_def phase_of_def
      transition_ok_def)

abbreviation ev_key :: "Event \<Rightarrow> string \<times> string" where
  "ev_key e \<equiv> (ev_at e, ev_id e)"

lemma first_seen_sorted:
  assumes "stamps_ok now st"
  shows "sort_key ev_key (first_seen now st) = first_seen now st"
proof (rule sort_key_id_if_sorted)
  have "cs_created st \<le> unwrap_or now (cs_started st)" "unwrap_or now (cs_started st) \<le> unwrap_or now (cs_finished st)"
      "unwrap_or now (cs_finished st) \<le> now"
    using assms by (simp_all add: stamps_ok_def)
  then show "sorted (map ev_key (first_seen now st))"
    by (cases "cs_status st")
      (auto simp: first_seen_def start_event_def die_event_def event_of_def less_eq_prod_def)
qed

text \<open>A rename may move behind the event that follows it: the effect is the same.\<close>

lemma effect_seen_again_sorted:
  assumes "transition_ok old st"
  shows "fold event_effect (sort_key ev_key (seen_again now old st)) (Some (phase_of old, cs_name old)) =
    Some (phase_of st, cs_name st)"
  using assms
  by (cases "cs_status st"; cases "cs_status old")
    (auto simp: seen_again_def start_event_def die_event_def event_of_def event_effect_def phase_of_def
      transition_ok_def)

lemma filter_concat_records:
  assumes "distinct (map cs_id sts)"
  shows "filter (\<lambda>e. ev_id e = i) (concat (map (record_events now prev) sts)) =
    (case by_id sts i of None \<Rightarrow> [] | Some st \<Rightarrow> record_events now prev st)"
  using assms
proof (induction sts)
  case Nil
  then show ?case by (simp add: by_id_def)
next
  case (Cons st sts)
  have mine: "filter (\<lambda>e. ev_id e = i) (record_events now prev st) =
      (if cs_id st = i then record_events now prev st else [])"
    by (auto simp: filter_empty_conv filter_id_conv dest: record_events_id)
  have "by_id (st # sts) i = (if cs_id st = i then Some st else by_id sts i)"
  proof (cases "cs_id st = i")
    case True
    then show ?thesis using by_id_distinct [OF Cons.prems, of st] by simp
  next
    case False
    then show ?thesis by (auto simp: by_id_def map_add_def split: option.splits)
  qed
  moreover have "by_id sts i = None" if "cs_id st = i"
    using Cons.prems that by (auto simp: by_id_None_iff)
  ultimately show ?case using Cons mine by auto
qed

lemma filter_destroy:
  assumes "distinct (map cs_id previous)"
  shows "filter (\<lambda>e. ev_id e = i) (destroy_events now previous current) =
    (case by_id current i of Some _ \<Rightarrow> [] | None \<Rightarrow>
      (case by_id previous i of None \<Rightarrow> [] | Some old \<Rightarrow> [event_of old now ''destroy'' None]))"
  using assms
proof (induction previous)
  case Nil
  then show ?case by (simp add: by_id_def destroy_events_def split: option.splits)
next
  case (Cons old previous)
  have "by_id (old # previous) i = (if cs_id old = i then Some old else by_id previous i)"
  proof (cases "cs_id old = i")
    case True
    then show ?thesis using by_id_distinct [OF Cons.prems, of old] by simp
  next
    case False
    then show ?thesis by (auto simp: by_id_def map_add_def split: option.splits)
  qed
  moreover have "by_id previous i = None" if "cs_id old = i"
    using Cons.prems that by (auto simp: by_id_None_iff)
  moreover have "list_ex (\<lambda>s. cs_id s = cs_id old) current \<longleftrightarrow> by_id current (cs_id old) \<noteq> None"
    unfolding list_ex_iff by_id_None_iff by (metis imageE image_eqI)
  ultimately show ?case
    using Cons by (auto simp: destroy_events_def event_of_def split: option.splits)
qed

lemma diff_events_view:
  assumes "distinct (map cs_id previous)" and "distinct (map cs_id current)"
    and "\<forall>st \<in> set current. stamps_ok now st"
    and "\<forall>old \<in> set previous. \<forall>st \<in> set current. cs_id old = cs_id st \<longrightarrow> transition_ok old st"
  shows "fold apply_event (diff_events now previous current) (view_of previous) = view_of current"
proof
  fix i
  have "fold apply_event (diff_events now previous current) (view_of previous) i =
      fold event_effect (sort_key ev_key (filter (\<lambda>e. ev_id e = i) (raw_events now previous current)))
        (view_of previous i)"
    by (simp add: fold_apply_at diff_events_def filter_sort)
  also have "\<dots> = view_of current i"
  proof (cases "by_id current i")
    case None
    then show ?thesis
      by (cases "by_id previous i")
        (auto simp: raw_events_def filter_concat_records [OF assms(2)] filter_destroy [OF assms(1)]
          view_of_def event_effect_def event_of_def)
  next
    case (Some st)
    then have st: "st \<in> set current" "cs_id st = i" by (auto dest: by_id_Some)
    have evs: "filter (\<lambda>e. ev_id e = i) (raw_events now previous current) =
        record_events now (by_id previous) st"
      by (simp add: raw_events_def filter_concat_records [OF assms(2)] filter_destroy [OF assms(1)] Some)
    show ?thesis
    proof (cases "by_id previous i")
      case None
      then show ?thesis
        using first_seen_sorted [of now st] assms(3) st
        by (simp add: evs record_events_def effect_first_seen view_of_def Some)
    next
      case (Some old)
      then have "transition_ok old st" using assms(4) st by (auto dest: by_id_Some)
      then show ?thesis
        using effect_seen_again_sorted [of old st now] st
        by (simp add: evs record_events_def view_of_def Some \<open>by_id current i = Some st\<close>)
    qed
  qed
  finally show "fold apply_event (diff_events now previous current) (view_of previous) i = view_of current i" .
qed

section \<open>Properties\<close>



end
