(* ===== verification/Console.thy ===== *)
theory Console
  imports Byte_Codec Logs
begin

text \<open>
  The reaper's console side (src/lifecycle.rs): the attach stream and its frames, the rotating
  console log, and the collector that turns the container's output into stamped lines.

  A file is its contents. The log set is indexed: 0 is the active file, \<open>i\<close> the archive
  \<open>console.log.i\<close>. Whether a rename, a write or a socket write succeeds is given by the environment.
\<close>

section \<open>Attach frames\<close>

datatype AttachFrame = Data string | Exit int | Eof

datatype attach_error = UnexpectedEof | FrameTooLarge

definition data_frame :: "string \<Rightarrow> string" where
  "data_frame chunk = be_bytes 4 (length chunk) @ chunk"

definition exit_frame :: "int \<Rightarrow> string" where
  "exit_frame exit_code = be_bytes 4 0 @ be_bytes 4 (nat (exit_code mod 2 ^ 32))"

definition MAX_FRAME :: nat where "MAX_FRAME = 1024 * 1024"

text \<open>\<open>read_exact\<close> of \<open>n\<close> bytes.\<close>

definition read_exact :: "nat \<Rightarrow> string \<Rightarrow> attach_error + string \<times> string" where
  "read_exact n s = (if length s < n then Inl UnexpectedEof else Inr (take n s, drop n s))"

definition read_attach_frame :: "string \<Rightarrow> attach_error + AttachFrame \<times> string" where
  "read_attach_frame stream =
     (if stream = [] then Inr (Eof, [])
      else and_then (read_exact 3 (tl stream)) (\<lambda>(rest3, s1).
        let len = be_val (hd stream # rest3) in
        if len = 0 then
          and_then (read_exact 4 s1) (\<lambda>(c, s2). Inr (Exit (to_signed 32 (be_val c)), s2))
        else if len > MAX_FRAME then Inl FrameTooLarge
        else and_then (read_exact len s1) (\<lambda>(chunk, s2). Inr (Data chunk, s2))))"

record attach_client =
  cl_id :: nat
  cl_got :: string

text \<open>\<open>write_all\<close> to a client either delivers the whole frame or fails, and then the client goes.\<close>

definition broadcast :: "(nat \<Rightarrow> bool) \<Rightarrow> string \<Rightarrow> attach_client list \<Rightarrow> attach_client list" where
  "broadcast delivered chunk clients =
     (if chunk = [] then clients
      else map (\<lambda>c. c\<lparr>cl_got := cl_got c @ data_frame chunk\<rparr>) (filter (\<lambda>c. delivered (cl_id c)) clients))"

text \<open>What every client has got when the reaper lets it go.\<close>

definition close_all :: "(nat \<Rightarrow> bool) \<Rightarrow> int \<Rightarrow> attach_client list \<Rightarrow> attach_client list" where
  "close_all delivered exit_code clients =
     map (\<lambda>c. if delivered (cl_id c) then c\<lparr>cl_got := cl_got c @ exit_frame exit_code\<rparr> else c) clients"

fun frame_bytes :: "AttachFrame \<Rightarrow> string" where
  "frame_bytes (Data c) = data_frame c"
| "frame_bytes (Exit i) = exit_frame i"
| "frame_bytes Eof = []"

fun frame_fits :: "AttachFrame \<Rightarrow> bool" where
  "frame_fits (Data c) \<longleftrightarrow> c \<noteq> [] \<and> length c \<le> MAX_FRAME"
| "frame_fits (Exit i) \<longleftrightarrow> - (2 ^ 31) \<le> i \<and> i < 2 ^ 31"
| "frame_fits Eof \<longleftrightarrow> False"

lemma be_bytes_4_not_Nil [simp]: "be_bytes 4 n \<noteq> []"
  by (metis length_be_bytes list.size(3) zero_neq_numeral)

lemma be_bytes_4_Cons: "\<exists>a b. be_bytes 4 n = a # b \<and> length b = 3"
  using length_be_bytes [of 4 n] by (cases "be_bytes 4 n") auto

lemma read_prefix:
  "read_attach_frame (be_bytes 4 n @ s) =
     (let len = n mod 2 ^ 32 in
      if len = 0 then and_then (read_exact 4 s) (\<lambda>(c, s2). Inr (Exit (to_signed 32 (be_val c)), s2))
      else if len > MAX_FRAME then Inl FrameTooLarge
      else and_then (read_exact len s) (\<lambda>(chunk, s2). Inr (Data chunk, s2)))"
proof -
  obtain a b where ab: "be_bytes 4 n = a # b" "length b = 3" using be_bytes_4_Cons by blast
  have "be_val (a # b) = n mod 2 ^ 32" using be_val_be_bytes [of 4 n] ab by simp
  then show ?thesis
    using ab by (simp add: read_attach_frame_def read_exact_def Let_def)
qed

lemma to_signed_mod: "- (2 ^ 31) \<le> i \<Longrightarrow> i < 2 ^ 31 \<Longrightarrow> to_signed 32 (nat (i mod 2 ^ 32)) = i"
proof (cases "i < 0")
  case True
  assume "- (2 ^ 31) \<le> i" "i < 2 ^ 31"
  have "i mod 2 ^ 32 = (i + 2 ^ 32) mod 2 ^ 32" by simp
  also have "\<dots> = i + 2 ^ 32" using True \<open>- (2 ^ 31) \<le> i\<close> by (intro mod_pos_pos_trivial) auto
  finally show ?thesis using True \<open>- (2 ^ 31) \<le> i\<close> by (simp add: to_signed_def)
next
  case False
  assume "- (2 ^ 31) \<le> i" "i < 2 ^ 31"
  then show ?thesis using False by (simp add: to_signed_def mod_pos_pos_trivial)
qed

lemma read_frame_bytes:
  "frame_fits f \<Longrightarrow> read_attach_frame (frame_bytes f @ rest) = Inr (f, rest)"
proof (cases f)
  case (Data c)
  assume "frame_fits f"
  then show ?thesis
    by (simp add: Data data_frame_def read_prefix read_exact_def Let_def MAX_FRAME_def)
next
  case (Exit i)
  assume "frame_fits f"
  moreover have "nat (i mod 2 ^ 32) mod 256 ^ 4 = nat (i mod 2 ^ 32)"
    by (simp add: nat_less_iff)
  ultimately show ?thesis
    using to_signed_mod [of i]
    by (simp add: Exit exit_frame_def read_prefix read_exact_def Let_def be_val_be_bytes)
qed simp

interpretation attach: frame_codec frame_bytes read_attach_frame frame_fits "\<lambda>f. f"
proof
  fix f :: AttachFrame and rest
  assume fits: "frame_fits f"
  then show "read_attach_frame (frame_bytes f @ rest) = Inr (f, rest)" by (rule read_frame_bytes)
  show "frame_bytes f \<noteq> []"
    using fits by (cases f) (auto simp: data_frame_def exit_frame_def)
qed

section \<open>The rotating log\<close>

record RotatingLog =
  files :: "nat \<Rightarrow> string option"
  written :: nat
  max_size :: nat
  max_files :: nat

text \<open>Opening for append fails when the file is not there; a file already there counts as written.\<close>

definition RotatingLog_open :: "nat \<Rightarrow> nat \<Rightarrow> (nat \<Rightarrow> string option) \<Rightarrow> RotatingLog option" where
  "RotatingLog_open sz n fs = (case fs 0 of None \<Rightarrow> None
     | Some c \<Rightarrow> Some \<lparr>files = fs, written = min U64_MAX (length c), max_size = sz, max_files = n\<rparr>)"

text \<open>The renames, in their order: \<open>.i\<close> to \<open>.(i+1)\<close> from the oldest kept down, then the active
  file to \<open>.1\<close>; a source that does not exist is skipped.\<close>

definition rename_file :: "nat \<Rightarrow> nat \<Rightarrow> (nat \<Rightarrow> string option) \<Rightarrow> nat \<Rightarrow> string option" where
  "rename_file src dst fs = (case fs src of None \<Rightarrow> fs | Some c \<Rightarrow> fs(dst := Some c, src := None))"

definition shift_archives :: "nat \<Rightarrow> (nat \<Rightarrow> string option) \<Rightarrow> nat \<Rightarrow> string option" where
  "shift_archives m fs = fold (\<lambda>i. rename_file i (i + 1)) (rev [1..<m]) fs"

definition rotate :: "RotatingLog \<Rightarrow> RotatingLog" where
  "rotate l =
     (let n = max (max_files l) 1;
          fs = (if n > 1
                then rename_file 0 1 (shift_archives (n - 1) (files l))
                else (files l)(0 := None))
      in l\<lparr>files := fs(0 := Some []), written := 0\<rparr>)"

text \<open>\<open>None\<close> is an I/O error: of the rotation or of the write.\<close>

definition write_record :: "bool \<Rightarrow> bool \<Rightarrow> string \<Rightarrow> string \<Rightarrow> RotatingLog \<Rightarrow> RotatingLog option" where
  "write_record rotated appended timestamp line l =
     (let record_bytes = timestamp @ [tab] @ line; record_len = length record_bytes;
          full = (max_size l > 0 \<and> written l > 0 \<and> saturating_add U64_MAX (written l) record_len > max_size l) in
      if full \<and> \<not> rotated then None
      else let l' = (if full then rotate l else l) in
        if \<not> appended then None
        else Some (l'\<lparr>files := (files l')(0 := Some ((case files l' 0 of None \<Rightarrow> [] | Some c \<Rightarrow> c) @ record_bytes)),
                      written := saturating_add U64_MAX (written l') record_len\<rparr>))"

text \<open>What \<open>zerun logs\<close> shows: the retained files, oldest first.\<close>

definition retained :: "RotatingLog \<Rightarrow> string" where
  "retained l = concat (map (\<lambda>i. case files l i of None \<Rightarrow> [] | Some c \<Rightarrow> c) (rev [0..<max (max_files l) 1]))"

text \<open>The active file is there and \<open>written\<close> is its size, and no archive is beyond the last index.\<close>

definition log_ok :: "RotatingLog \<Rightarrow> bool" where
  "log_ok l \<longleftrightarrow> (\<exists>c. files l 0 = Some c \<and> written l = min U64_MAX (length c)) \<and>
     (\<forall>i \<ge> max (max_files l) 1. files l i = None)"

section \<open>The collector\<close>

text \<open>The inner loop: the complete lines of the pending bytes, and what is left.\<close>

definition complete_lines :: "string \<Rightarrow> string list" where
  "complete_lines pending = filter (\<lambda>l. newline \<in> set l) (line_chunks pending)"

definition left_over :: "string \<Rightarrow> string" where
  "left_over pending = concat (filter (\<lambda>l. newline \<notin> set l) (line_chunks pending))"

record collector =
  col_output :: RotatingLog
  col_clients :: "attach_client list"
  col_pending :: string
  col_records :: "((nat \<times> nat) \<times> string) list"

text \<open>What happens at one line: the clock reading, whether rotation and write succeed, which col_clients
  take the frame.\<close>

record line_env =
  le_time :: "nat \<times> nat"
  le_rotated :: bool
  le_appended :: bool
  le_delivered :: "nat \<Rightarrow> bool"

definition put_line :: "line_env \<Rightarrow> string \<Rightarrow> collector \<Rightarrow> collector option" where
  "put_line e line st =
     (case write_record (le_rotated e) (le_appended e) (now_rfc3339_nanos (fst (le_time e)) (snd (le_time e))) line
        (col_output st) of
        None \<Rightarrow> None
      | Some l \<Rightarrow> Some (st\<lparr>col_output := l, col_clients := broadcast (le_delivered e) line (col_clients st),
          col_records := col_records st @ [(le_time e, line)]\<rparr>))"

text \<open>The lines of one read, each with its environment; the collector gives up on an error.\<close>

fun put_lines :: "(nat \<Rightarrow> line_env) \<Rightarrow> nat \<Rightarrow> string list \<Rightarrow> collector \<Rightarrow> collector option" where
  "put_lines env k [] st = Some st"
| "put_lines env k (l # ls) st =
     (case put_line (env k) l st of None \<Rightarrow> None | Some st' \<Rightarrow> put_lines env (Suc k) ls st')"

text \<open>The reads until end of file (or a read error, which ends the loop the same way). \<open>env\<close> is
  indexed by the number of lines written so far. The result of a collector that gave up is \<open>None\<close>.
  The write of a last, unterminated line is best effort, and its frame goes out either way.\<close>

fun collect_timestamped :: "(nat \<Rightarrow> line_env) \<Rightarrow> string list \<Rightarrow> collector \<Rightarrow> collector option" where
  "collect_timestamped env [] st =
     Some (if col_pending st = [] then st
       else let e = env (length (col_records st)) in
         (case put_line e (col_pending st) st of
            None \<Rightarrow> st\<lparr>col_clients := broadcast (le_delivered e) (col_pending st) (col_clients st), col_pending := []\<rparr>
          | Some st' \<Rightarrow> st'\<lparr>col_pending := []\<rparr>))"
| "collect_timestamped env (buf # bufs) st =
     (let p = col_pending st @ buf in
      case put_lines env (length (col_records st)) (complete_lines p) st of
        None \<Rightarrow> None
      | Some st' \<Rightarrow> collect_timestamped env bufs (st'\<lparr>col_pending := left_over p\<rparr>))"

section \<open>Rotation keeps a suffix\<close>

lemma shift_archives_Suc: "1 \<le> m \<Longrightarrow> shift_archives (Suc m) fs = shift_archives m (rename_file m (m + 1) fs)"
  by (simp add: shift_archives_def)

lemma shift_archives_at:
  "1 \<le> m \<Longrightarrow> shift_archives m fs j =
     (if j = 0 \<or> m < j \<or> m = 1 then fs j
      else if j = 1 then None
      else if j < m then fs (j - 1)
      else (case fs (m - 1) of None \<Rightarrow> fs m | Some c \<Rightarrow> Some c))"
proof (induction m arbitrary: fs rule: nat_induct_at_least)
  case base
  then show ?case by (simp add: shift_archives_def)
next
  case (Suc m)
  define gs where "gs = rename_file m (m + 1) fs"
  have gs: "gs k = (if k = m then None else if k = m + 1 then (case fs m of None \<Rightarrow> fs k | Some c \<Rightarrow> Some c) else fs k)" for k
    by (simp add: gs_def rename_file_def split: option.splits)
  have "shift_archives (Suc m) fs j = shift_archives m gs j"
    using Suc.hyps by (simp add: shift_archives_Suc gs_def)
  also have "\<dots> = (if j = 0 \<or> m < j \<or> m = 1 then gs j
      else if j = 1 then None
      else if j < m then gs (j - 1)
      else (case gs (m - 1) of None \<Rightarrow> gs m | Some c \<Rightarrow> Some c))"
    by (rule Suc.IH)
  also have "\<dots> = (if j = 0 \<or> Suc m < j \<or> Suc m = 1 then fs j
      else if j = 1 then None
      else if j < Suc m then fs (j - 1)
      else (case fs (Suc m - 1) of None \<Rightarrow> fs (Suc m) | Some c \<Rightarrow> Some c))"
  proof -
    consider "j = 0" | "j = 1" | "1 < j" "j < m" | "1 < j" "j = m" | "1 < j" "j = Suc m" | "Suc m < j"
      by linarith
    then show ?thesis
    proof cases
      case 4
      then have "m - 1 \<noteq> m" "m - 1 \<noteq> m + 1" by auto
      with 4 show ?thesis by (simp add: gs split: option.splits)
    next
      case 3
      then have "j - 1 \<noteq> m" "j - 1 \<noteq> m + 1" by auto
      with 3 show ?thesis by (simp add: gs)
    next
      case 5
      then show ?thesis by (simp add: gs split: option.splits)
    qed (use Suc.hyps in \<open>simp_all add: gs\<close>)
  qed
  finally show ?case .
qed

definition content :: "RotatingLog \<Rightarrow> nat \<Rightarrow> string" where
  "content l i = (case files l i of None \<Rightarrow> [] | Some c \<Rightarrow> c)"

definition slots :: "RotatingLog \<Rightarrow> nat" where
  "slots l = max (max_files l) 1"

lemma retained_eq: "retained l = concat (map (content l) (rev [0..<slots l]))"
  unfolding retained_def content_def slots_def ..

lemma slots_rotate [simp]: "slots (rotate l) = slots l"
  by (simp add: rotate_def slots_def Let_def)

lemma files_rotate:
  assumes "1 < slots l"
  shows "files (rotate l) j =
    (if j = 0 then Some []
     else if slots l - 1 < j then files l j
     else if j < slots l - 1 then files l (j - 1)
     else (case files l (slots l - 2) of None \<Rightarrow> files l j | Some c \<Rightarrow> Some c))"
proof -
  define n where "n = slots l"
  define fs where "fs = shift_archives (n - 1) (files l)"
  have n: "1 < n" "1 \<le> n - 1" using assms by (simp_all add: n_def)
  have "files (rotate l) = (rename_file 0 1 fs)(0 := Some [])"
    unfolding rotate_def Let_def fs_def n_def slots_def [symmetric] using assms by simp
  then have "files (rotate l) j = (if j = 0 then Some [] else if j = 1 then
      (case fs 0 of None \<Rightarrow> fs 1 | Some c \<Rightarrow> Some c) else fs j)"
    by (simp add: rename_file_def split: option.splits)
  moreover have "fs k = (if k = 0 \<or> n - 1 < k \<or> n - 1 = 1 then files l k
      else if k = 1 then None else if k < n - 1 then files l (k - 1)
      else (case files l (n - 1 - 1) of None \<Rightarrow> files l (n - 1) | Some c \<Rightarrow> Some c))" for k
    unfolding fs_def by (rule shift_archives_at [OF n(2)])
  moreover have "n - 1 - 1 = n - 2" by simp
  moreover have "j = 0 \<or> j = 1 \<or> 1 < j" by auto
  ultimately show ?thesis
    unfolding n_def [symmetric] using n by (cases "n = 2") (auto split: option.splits)
qed

lemma retained_rotate: "\<exists>dropped. retained l = dropped @ retained (rotate l)"
proof (cases "1 < slots l")
  case False
  then have "slots l = 1" "slots (rotate l) = 1" by (simp_all add: slots_def rotate_def Let_def)
  moreover have "content (rotate l) 0 = []" by (simp add: content_def rotate_def Let_def)
  ultimately show ?thesis by (simp add: retained_eq)
next
  case True
  then obtain k where k: "slots l = Suc (Suc k)" by (cases "slots l"; cases "slots l - 1") auto
  note fr = files_rotate [OF True]
  have "map (content (rotate l)) (rev [0..<Suc k]) = map (content l) (rev [0..<k]) @ [[]]"
  proof -
    have "map (content (rotate l)) [0..<Suc k] = [] # map (content l) [0..<k]"
      by (rule nth_equalityI) (auto simp: nth_Cons content_def fr k nth_append split: nat.splits simp del: upt_Suc)
    then have "rev (map (content (rotate l)) [0..<Suc k]) = rev ([] # map (content l) [0..<k])" by (rule arg_cong)
    then show ?thesis by (simp add: rev_map del: upt_Suc)
  qed
  then have new: "retained (rotate l) = content (rotate l) (Suc k) @ concat (map (content l) (rev [0..<k]))"
    by (simp add: retained_eq k)
  have old: "retained l = content l (Suc k) @ content l k @ concat (map (content l) (rev [0..<k]))"
    by (simp add: retained_eq k)
  show ?thesis
  proof (cases "files l k")
    case None
    then have "content (rotate l) (Suc k) = content l (Suc k)" "content l k = []"
      by (simp_all add: content_def fr k)
    then show ?thesis using old new by simp
  next
    case (Some c)
    then have "content (rotate l) (Suc k) = content l k" by (simp add: content_def fr k)
    then show ?thesis using old new by simp
  qed
qed

lemma retained_append:
  assumes "files l 0 = Some c"
  shows "retained (l\<lparr>files := (files l)(0 := Some (c @ r)), written := w\<rparr>) = retained l @ r"
proof -
  obtain k where k: "slots l = Suc k" by (cases "slots l") (auto simp: slots_def)
  define l' where "l' = l\<lparr>files := (files l)(0 := Some (c @ r)), written := w\<rparr>"
  have k': "slots l' = Suc k" using k by (simp add: l'_def slots_def)
  have split: "rev [0..<Suc k] = rev [1..<Suc k] @ [0]" by (simp add: upt_conv_Cons del: upt_Suc)
  have "map (content l') (rev [1..<Suc k]) = map (content l) (rev [1..<Suc k])"
    by (auto simp: l'_def content_def)
  moreover have "content l' 0 = content l 0 @ r" using assms by (simp add: content_def l'_def)
  ultimately show ?thesis
    unfolding l'_def [symmetric] retained_eq k k' split map_append concat_append by (simp only:) simp
qed

lemma log_ok_active: "log_ok l \<Longrightarrow> \<exists>c. files l 0 = Some c \<and> written l = min U64_MAX (length c)"
  by (simp add: log_ok_def)

lemma log_ok_rotate: "log_ok l \<Longrightarrow> log_ok (rotate l) \<and> files (rotate l) 0 = Some [] \<and> written (rotate l) = 0"
proof -
  assume ok: "log_ok l"
  have z: "files (rotate l) 0 = Some []" "written (rotate l) = 0" by (simp_all add: rotate_def Let_def)
  have "files (rotate l) i = None" if "slots l \<le> i" for i
  proof (cases "1 < slots l")
    case True
    then show ?thesis
      using that ok by (auto simp: files_rotate [OF True] log_ok_def slots_def)
  next
    case False
    then show ?thesis using that ok by (auto simp: rotate_def Let_def log_ok_def slots_def)
  qed
  then show ?thesis using z slots_rotate [of l] by (auto simp: log_ok_def slots_def)
qed

lemma write_record_spec:
  assumes "log_ok l" and "write_record rot app ts line l = Some l'"
  shows "log_ok l'" and "\<exists>dropped. retained l @ ts @ [tab] @ line = dropped @ retained l'"
    and "max_size l = 0 \<Longrightarrow> retained l' = retained l @ ts @ [tab] @ line"
    and "max_size l' = max_size l" "max_files l' = max_files l"
proof -
  define r where "r = ts @ [tab] @ line"
  define full where "full \<longleftrightarrow> max_size l > 0 \<and> written l > 0 \<and> saturating_add U64_MAX (written l) (length r) > max_size l"
  define m where "m = (if full then rotate l else l)"
  have m_ok: "log_ok m" using assms(1) log_ok_rotate by (simp add: m_def)
  then obtain c where c: "files m 0 = Some c" "written m = min U64_MAX (length c)" using log_ok_active by blast
  have l': "l' = m\<lparr>files := (files m)(0 := Some (c @ r)), written := saturating_add U64_MAX (written m) (length r)\<rparr>"
    using assms(2) [unfolded write_record_def Let_def, folded r_def, folded full_def, folded m_def] c(1)
    by (simp split: if_splits)
  show "log_ok l'" using m_ok c by (auto simp: l' log_ok_def saturating_add_def)
  have "\<exists>dropped. retained l = dropped @ retained m"
    using retained_rotate [of l] by (simp add: m_def)
  moreover have app: "retained l' = retained m @ r" unfolding l' by (rule retained_append [OF c(1)])
  ultimately show "\<exists>dropped. retained l @ ts @ [tab] @ line = dropped @ retained l'" by (auto simp: r_def)
  show "retained l' = retained l @ ts @ [tab] @ line" if "max_size l = 0"
    using app that by (simp add: m_def full_def r_def)
  show "max_size l' = max_size l" "max_files l' = max_files l"
    by (simp_all add: l' m_def rotate_def Let_def)
qed

text \<open>No file outgrows the threshold, unless one record does.\<close>

definition files_bounded :: "nat \<Rightarrow> RotatingLog \<Rightarrow> bool" where
  "files_bounded b l \<longleftrightarrow> (\<forall>i c. files l i = Some c \<longrightarrow> length c \<le> b)"

lemma files_bounded_rotate: "files_bounded b l \<Longrightarrow> files_bounded b (rotate l)"
proof (cases "1 < slots l")
  case True
  assume b: "files_bounded b l"
  have "files (rotate l) i = Some [] \<or> (\<exists>k. files (rotate l) i = files l k)" for i
  proof (cases "files l (slots l - 2)")
    case (Some a)
    then show ?thesis
      unfolding files_rotate [OF True] by (metis option.simps(5))
  qed (auto simp: files_rotate [OF True])
  then show ?thesis using b unfolding files_bounded_def by (metis le0 list.size(3) option.inject)
next
  case False
  assume "files_bounded b l"
  then show ?thesis using False by (auto simp: files_bounded_def rotate_def Let_def slots_def)
qed

lemma write_record_bounded:
  assumes "log_ok l" and "write_record rot app ts line l = Some l'" and "0 < max_size l"
    and "files_bounded b l" and "max_size l \<le> b" and "length (ts @ [tab] @ line) \<le> b" and "b < U64_MAX"
  shows "files_bounded b l'"
proof -
  define r where "r = ts @ [tab] @ line"
  define full where "full \<longleftrightarrow> max_size l > 0 \<and> written l > 0 \<and> saturating_add U64_MAX (written l) (length r) > max_size l"
  define m where "m = (if full then rotate l else l)"
  have m_ok: "log_ok m" "files_bounded b m"
    using assms(1,4) log_ok_rotate files_bounded_rotate by (simp_all add: m_def)
  then obtain c where c: "files m 0 = Some c" "written m = min U64_MAX (length c)" using log_ok_active by blast
  have "length c \<le> b" using m_ok(2) c(1) by (simp add: files_bounded_def)
  then have w: "written m = length c" using c(2) assms(7) by linarith
  have "files l' = (files m)(0 := Some (c @ r))"
    using assms(2) [unfolded write_record_def Let_def, folded r_def, folded full_def, folded m_def] c(1)
    by (auto split: if_splits)
  moreover have "length (c @ r) \<le> b"
  proof (cases "written m = 0")
    case True
    then show ?thesis using w assms(6) by (simp add: r_def)
  next
    case False
    then have "\<not> full" using log_ok_rotate [OF assms(1)] by (auto simp: m_def)
    then have "saturating_add U64_MAX (written m) (length r) \<le> max_size l"
      using False assms(3) by (auto simp: full_def m_def)
    then show ?thesis using w assms(5,7) by (auto simp: saturating_add_def min_def split: if_splits)
  qed
  ultimately show ?thesis using m_ok(2) by (auto simp: files_bounded_def)
qed

section \<open>The collector loses nothing\<close>

lemma line_chunks_split:
  "line_chunks p = complete_lines p @ (if left_over p = [] then [] else [left_over p]) \<and>
     list_all full_line (complete_lines p) \<and> newline \<notin> set (left_over p)"
proof (induction p)
  case Nil
  then show ?case by (simp add: complete_lines_def left_over_def)
next
  case (Cons c p)
  show ?case
  proof (cases "c = newline")
    case True
    then have "complete_lines (c # p) = [c] # complete_lines p" "left_over (c # p) = left_over p"
        "line_chunks (c # p) = [c] # line_chunks p" "full_line [c]"
      by (simp_all add: complete_lines_def left_over_def full_line_def)
    then show ?thesis using Cons by simp
  next
    case False
    show ?thesis
    proof (cases "line_chunks p")
      case Nil
      then show ?thesis using False by (simp add: complete_lines_def left_over_def)
    next
      case ls: (Cons l ls)
      have cl: "complete_lines p = (if newline \<in> set l then [l] else []) @ filter (\<lambda>l. newline \<in> set l) ls"
        and lo: "left_over p = (if newline \<in> set l then [] else l) @ concat (filter (\<lambda>l. newline \<notin> set l) ls)"
        by (simp_all add: complete_lines_def left_over_def ls)
      show ?thesis
      proof (cases "newline \<in> set l")
        case True
        then have "full_line (c # l)"
          using Cons False cl by (auto simp: full_line_def intro: exI [of _ "c # _"])
        moreover have "line_chunks (c # p) = (c # l) # ls" using False ls by simp
        moreover have "complete_lines (c # p) = (c # l) # tl (complete_lines p)" "left_over (c # p) = left_over p"
            "complete_lines p = l # tl (complete_lines p)"
          using True False ls by (simp_all add: complete_lines_def left_over_def)
        ultimately show ?thesis using Cons ls by (metis append_Cons list.inject list.pred_inject(2))
      next
        case nl: False
        have "l \<noteq> []" using line_chunks_pieces [of l p] ls by simp
        have "complete_lines p = []"
        proof (rule ccontr)
          assume "complete_lines p \<noteq> []"
          then have "hd (line_chunks p) = hd (complete_lines p)" using Cons by (metis hd_append2)
          then have "l \<in> set (complete_lines p)"
            using ls \<open>complete_lines p \<noteq> []\<close> hd_in_set [of "complete_lines p"] by simp
          moreover have "\<forall>x \<in> set (complete_lines p). newline \<in> set x" by (simp add: complete_lines_def)
          ultimately show False using nl by blast
        qed
        moreover then have "ls = []" using Cons ls by (auto split: if_splits)
        ultimately show ?thesis using nl False ls by (simp add: complete_lines_def left_over_def)
      qed
    qed
  qed
qed

lemma concat_complete_left: "concat (complete_lines p) @ left_over p = p"
proof -
  have "p = concat (line_chunks p)" by (simp add: concat_line_chunks)
  also have "\<dots> = concat (complete_lines p) @ left_over p"
    by (cases "left_over p = []") (simp_all add: conjunct1 [OF line_chunks_split])
  finally show ?thesis ..
qed

definition env_ok :: "(nat \<Rightarrow> line_env) \<Rightarrow> bool" where
  "env_ok env \<longleftrightarrow> (\<forall>k. le_rotated (env k) \<and> le_appended (env k))"

lemma put_line_ok:
  "le_rotated e \<Longrightarrow> le_appended e \<Longrightarrow>
     \<exists>st'. put_line e line st = Some st' \<and> col_records st' = col_records st @ [(le_time e, line)] \<and>
       col_pending st' = col_pending st \<and>
       write_record True True (now_rfc3339_nanos (fst (le_time e)) (snd (le_time e))) line (col_output st) =
         Some (col_output st')"
  by (auto simp: put_line_def write_record_def Let_def)

lemma put_lines_ok:
  assumes "env_ok env"
  shows "\<exists>st'. put_lines env k ls st = Some st' \<and>
    col_records st' = col_records st @ zip (map (\<lambda>j. le_time (env j)) [k..<k + length ls]) ls \<and>
    col_pending st' = col_pending st"
proof (induction ls arbitrary: k st)
  case (Cons l ls)
  obtain st1 where 1: "put_line (env k) l st = Some st1" "col_records st1 = col_records st @ [(le_time (env k), l)]"
      "col_pending st1 = col_pending st"
    using put_line_ok [of "env k" l st] assms by (auto simp: env_ok_def)
  obtain st2 where 2: "put_lines env (Suc k) ls st1 = Some st2"
      "col_records st2 = col_records st1 @ zip (map (\<lambda>j. le_time (env j)) [Suc k..<Suc k + length ls]) ls"
      "col_pending st2 = col_pending st1"
    using Cons.IH [of "Suc k" st1] by blast
  have "[k..<k + length (l # ls)] = k # [Suc k..<Suc k + length ls]" by (simp add: upt_conv_Cons del: upt_Suc)
  then show ?case using 1 2 by (auto simp del: upt_Suc)
qed simp

text \<open>The lines of a record list: all ended by a line feed, but perhaps the last.\<close>

definition lines_of :: "string list \<Rightarrow> bool" where
  "lines_of ls \<longleftrightarrow> (\<exists>init rest. ls = init @ rest \<and> list_all full_line init \<and>
     (rest = [] \<or> (\<exists>l. rest = [l] \<and> l \<noteq> [] \<and> newline \<notin> set l)))"

lemma lines_of_append: "list_all full_line init \<Longrightarrow> lines_of ls \<Longrightarrow> lines_of (init @ ls)"
proof -
  assume i: "list_all full_line init" and "lines_of ls"
  then obtain init' rest where "ls = init' @ rest" "list_all full_line init'"
      "rest = [] \<or> (\<exists>l. rest = [l] \<and> l \<noteq> [] \<and> newline \<notin> set l)"
    by (auto simp: lines_of_def)
  then show ?thesis
    unfolding lines_of_def using i by (intro exI [of _ "init @ init'"] exI [of _ rest]) simp
qed

lemma lines_of_one: "l \<noteq> [] \<Longrightarrow> newline \<notin> set l \<Longrightarrow> lines_of [l]"
  unfolding lines_of_def by (intro exI [of _ "[]"] exI [of _ "[l]"]) simp

lemma lines_of_Nil: "lines_of []"
  by (simp add: lines_of_def)

lemma collect_ok:
  assumes "env_ok env"
  shows "\<exists>st' rs. collect_timestamped env bufs st = Some st' \<and> col_records st' = col_records st @ rs \<and>
    concat (map snd rs) = col_pending st @ concat bufs \<and>
    (newline \<notin> set (col_pending st) \<longrightarrow> lines_of (map snd rs)) \<and>
    (\<forall>(t, l) \<in> set rs. \<exists>k. t = le_time (env k))"
proof (induction bufs arbitrary: st)
  case Nil
  define e where "e = env (length (col_records st))"
  obtain st1 where "put_line e (col_pending st) st = Some st1"
      "col_records st1 = col_records st @ [(le_time e, col_pending st)]"
    using put_line_ok [of e "col_pending st" st] assms by (auto simp: env_ok_def e_def)
  then show ?case
    by (cases "col_pending st = []")
      (auto simp: Let_def e_def lines_of_one lines_of_Nil intro!: exI [of _ "[(le_time e, col_pending st)]"])
next
  case (Cons buf bufs)
  define p where "p = col_pending st @ buf"
  define ls where "ls = complete_lines p"
  define k where "k = length (col_records st)"
  obtain st1 where 1: "put_lines env k ls st = Some st1"
      "col_records st1 = col_records st @ zip (map (\<lambda>j. le_time (env j)) [k..<k + length ls]) ls"
    using put_lines_ok [OF assms, of k ls st] by blast
  have sp: "list_all full_line ls" "newline \<notin> set (left_over p)" "concat ls @ left_over p = p"
    using line_chunks_split [of p] concat_complete_left [of p] by (simp_all add: ls_def)
  obtain st2 rs where 2: "collect_timestamped env bufs (st1\<lparr>col_pending := left_over p\<rparr>) = Some st2"
      "col_records st2 = col_records st1 @ rs" "concat (map snd rs) = left_over p @ concat bufs"
      "lines_of (map snd rs)" "\<forall>(t, l) \<in> set rs. \<exists>k. t = le_time (env k)"
    using Cons.IH [of "st1\<lparr>col_pending := left_over p\<rparr>"] sp(2) by auto
  define zs where "zs = zip (map (\<lambda>j. le_time (env j)) [k..<k + length ls]) ls"
  have zs: "map snd zs = ls" by (simp add: zs_def)
  have "\<exists>k. t = le_time (env k)" if "(t, l) \<in> set zs" for t l
    using set_zip_leftD [OF that [unfolded zs_def]] by auto
  then have ztimes: "\<forall>(t, l) \<in> set zs. \<exists>k. t = le_time (env k)" by blast
  have "collect_timestamped env (buf # bufs) st = Some st2"
    using 1(1) 2(1) by (simp add: Let_def p_def [symmetric] ls_def [symmetric] k_def [symmetric])
  moreover have "concat (map snd (zs @ rs)) = col_pending st @ concat (buf # bufs)"
    using 2(3) sp(3) zs by (simp add: p_def)
  ultimately show ?case
    using 1(2) 2(2,4,5) zs ztimes lines_of_append [OF sp(1) 2(4)]
    by (intro exI [of _ st2] exI [of _ "zs @ rs"]) (auto simp: zs_def [symmetric])
qed

text \<open>Stripping the stamps of what was written gives the container's output back.\<close>

lemma line_chunks_one: "l \<noteq> [] \<Longrightarrow> newline \<notin> set l \<Longrightarrow> line_chunks l = [l]"
proof (induction l)
  case (Cons c l)
  then show ?case by (cases "l = []") auto
qed simp

lemma line_chunks_lines: "lines_of ls \<Longrightarrow> line_chunks (concat ls) = ls"
proof -
  have app: "list_all full_line init \<Longrightarrow> line_chunks (concat init @ s) = init @ line_chunks s" for init s
    by (induction init) (auto simp: line_chunks_Cons)
  assume "lines_of ls"
  then obtain init rest where "ls = init @ rest" "list_all full_line init"
      "rest = [] \<or> (\<exists>l. rest = [l] \<and> l \<noteq> [] \<and> newline \<notin> set l)"
    by (auto simp: lines_of_def)
  then show ?thesis by (auto simp: app line_chunks_one)
qed

lemma lines_of_stamped:
  assumes "lines_of (map snd rs)" and "\<forall>(t, l) \<in> set rs. good_time t"
  shows "lines_of (map (\<lambda>(t, l). stamped t l) rs)"
proof -
  obtain init rest where ir: "map snd rs = init @ rest" "list_all full_line init"
      "rest = [] \<or> (\<exists>l. rest = [l] \<and> l \<noteq> [] \<and> newline \<notin> set l)"
    using assms(1) by (auto simp: lines_of_def)
  then obtain rs1 rs2 where rs: "rs = rs1 @ rs2" "map snd rs1 = init" "map snd rs2 = rest"
    by (auto simp: map_eq_append_conv)
  have "list_all full_line (map (\<lambda>(t, l). stamped t l) rs1)"
    using ir(2) rs assms(2) by (fastforce simp: list_all_iff intro: full_line_stamped)
  moreover have "lines_of (map (\<lambda>(t, l). stamped t l) rs2)"
  proof (cases rs2)
    case (Cons r rs3)
    then have "rs3 = []" "snd r \<noteq> []" "newline \<notin> set (snd r)" using ir(3) rs(3) by auto
    moreover have "good_time (fst r)" using assms(2) rs(1) Cons by (cases r) auto
    ultimately show ?thesis
      using stamp_no_newline [of "fst r"]
      by (cases r) (auto simp: Cons stamped_def tab_def newline_def intro!: lines_of_one)
  qed (simp add: lines_of_Nil)
  ultimately show ?thesis by (simp add: rs(1) lines_of_append)
qed

lemma lines_of_not_Nil: "lines_of ls \<Longrightarrow> l \<in> set ls \<Longrightarrow> l \<noteq> []"
  by (auto simp: lines_of_def list_all_iff dest: full_line_not_Nil)

lemma strip_stamped:
  assumes "lines_of (map snd rs)" and "\<forall>(t, l) \<in> set rs. good_time t"
  shows "strip_log_timestamps (concat (map (\<lambda>(t, l). stamped t l) rs)) = concat (map snd rs)"
proof -
  have "timestamp_prefix (stamped t l) = Some l" if "(t, l) \<in> set rs" for t l
  proof (rule timestamp_prefix_stamped)
    show "good_time t" using assms(2) that by auto
    have "l \<in> set (map snd rs)" using that by force
    then show "l \<noteq> []" by (rule lines_of_not_Nil [OF assms(1)])
  qed
  then have "map (\<lambda>line. case timestamp_prefix line of Some c \<Rightarrow> c | None \<Rightarrow> line)
      (map (\<lambda>(t, l). stamped t l) rs) = map snd rs"
    by (auto simp: comp_def)
  then show ?thesis
    by (simp only: strip_log_timestamps_def line_chunks_lines [OF lines_of_stamped [OF assms]])
qed

lemma filter_stamped:
  assumes "lines_of (map snd rs)" and "\<forall>(t, l) \<in> set rs. good_time t" and "is_active f"
  shows "filter_log_lines (concat (map (\<lambda>(t, l). stamped t l) rs)) (Some f) =
    concat (map (\<lambda>(t, l). stamped t l) (filter (\<lambda>(t, l). contains f (nanos_of t)) rs))"
proof -
  have "log_timestamp_nanos (stamped t l) = Some (nanos_of t)" if "(t, l) \<in> set rs" for t l
  proof (rule log_timestamp_stamped)
    show "good_time t" using assms(2) that by auto
    have "l \<in> set (map snd rs)" using that by force
    then show "l \<noteq> []" by (rule lines_of_not_Nil [OF assms(1)])
  qed
  then have "filter (\<lambda>line. case log_timestamp_nanos line of None \<Rightarrow> False | Some t \<Rightarrow> contains f t)
      (map (\<lambda>(t, l). stamped t l) rs) = map (\<lambda>(t, l). stamped t l) (filter (\<lambda>(t, l). contains f (nanos_of t)) rs)"
    by (auto simp: filter_map comp_def intro!: arg_cong [of _ _ "map _"] filter_cong)
  then show ?thesis
    using assms(3) line_chunks_lines [OF lines_of_stamped [OF assms(1,2)]] by (simp add: filter_log_lines_def)
qed

section \<open>The client of \<open>zerun attach\<close>\<close>

text \<open>The loop of \<open>cmd_attach\<close>: \<open>ok k\<close> says whether the write of the \<open>k\<close>-th chunk to standard output
  succeeds. Its result is what was printed and how the loop ended; without an exit frame the command falls
  back to the state record.\<close>

lemma read_exact_rest: "read_exact n s = Inr (a, s') \<Longrightarrow> length s' = length s - n"
  by (auto simp: read_exact_def split: if_splits)

lemma read_data_shorter: "read_attach_frame s = Inr (Data c, s') \<Longrightarrow> length s' < length s"
  by (cases s) (auto simp: read_attach_frame_def and_then_eq_Inr_iff Let_def dest!: read_exact_rest split: if_splits)

datatype attach_end = WriteFailedAttach | ReadFailedAttach attach_error | AttachExit int | AttachEof

function attach_loop :: "(nat \<Rightarrow> bool) \<Rightarrow> nat \<Rightarrow> string \<Rightarrow> string \<Rightarrow> string \<times> attach_end" where
  "attach_loop ok k out s = (case read_attach_frame s of
      Inl e \<Rightarrow> (out, ReadFailedAttach e)
    | Inr (Data chunk, s') \<Rightarrow> if ok k then attach_loop ok (Suc k) (out @ chunk) s' else (out, WriteFailedAttach)
    | Inr (Exit c, s') \<Rightarrow> (out, AttachExit c)
    | Inr (Eof, s') \<Rightarrow> (out, AttachEof))"
  by pat_completeness auto

termination
  by (relation "measure (\<lambda>(ok, k, out, s). length s)") (auto dest: read_data_shorter)

declare attach_loop.simps [simp del]

lemma attach_loop_data:
  "c \<noteq> [] \<Longrightarrow> length c \<le> MAX_FRAME \<Longrightarrow>
     attach_loop (\<lambda>_. True) k out (data_frame c @ s) = attach_loop (\<lambda>_. True) (Suc k) (out @ c) s"
  using read_frame_bytes [of "Data c" s] by (subst attach_loop.simps) simp

lemma attach_loop_exit:
  "- (2 ^ 31) \<le> i \<Longrightarrow> i < 2 ^ 31 \<Longrightarrow> attach_loop ok k out (exit_frame i) = (out, AttachExit i)"
  using read_frame_bytes [of "Exit i" "[]"] by (subst attach_loop.simps) simp

definition frames :: "string list \<Rightarrow> string" where
  "frames chunks = concat (map data_frame (filter (\<lambda>c. c \<noteq> []) chunks))"

lemma fold_broadcast:
  "fold (broadcast (\<lambda>_. True)) chunks [\<lparr>cl_id = i, cl_got = got\<rparr>] = [\<lparr>cl_id = i, cl_got = got @ frames chunks\<rparr>]"
  by (induction chunks arbitrary: got) (auto simp: broadcast_def frames_def)

lemma attach_loop_frames:
  assumes "\<forall>c \<in> set chunks. length c \<le> MAX_FRAME" and "- (2 ^ 31) \<le> i" and "i < 2 ^ 31"
  shows "attach_loop (\<lambda>_. True) k out (frames chunks @ exit_frame i) = (out @ concat chunks, AttachExit i)"
  using assms(1)
proof (induction chunks arbitrary: k out)
  case Nil
  then show ?case using attach_loop_exit [OF assms(2,3)] by (simp add: frames_def)
next
  case (Cons c chunks)
  then show ?case
    by (cases "c = []") (auto simp: frames_def attach_loop_data)
qed

section \<open>What the log holds after a run of the collector\<close>

definition log_grows :: "RotatingLog \<Rightarrow> ((nat \<times> nat) \<times> string) list \<Rightarrow> RotatingLog \<Rightarrow> bool" where
  "log_grows l rs l' \<longleftrightarrow> log_ok l' \<and> max_size l' = max_size l \<and>
     (\<exists>dropped. retained l @ concat (map (\<lambda>(t, line). stamped t line) rs) = dropped @ retained l' \<and>
        (max_size l = 0 \<longrightarrow> dropped = []))"

lemma log_grows_refl: "log_ok l \<Longrightarrow> log_grows l [] l"
  by (simp add: log_grows_def)

lemma log_grows_trans:
  assumes "log_grows l rs l'" and "log_grows l' rs' l''"
  shows "log_grows l (rs @ rs') l''"
proof -
  from assms obtain d d' where d: "retained l @ concat (map (\<lambda>(t, line). stamped t line) rs) = d @ retained l'"
      "max_size l = 0 \<longrightarrow> d = []"
    and d': "retained l' @ concat (map (\<lambda>(t, line). stamped t line) rs') = d' @ retained l''"
      "max_size l' = 0 \<longrightarrow> d' = []"
    by (auto simp: log_grows_def)
  have "retained l @ concat (map (\<lambda>(t, line). stamped t line) (rs @ rs')) =
      (retained l @ concat (map (\<lambda>(t, line). stamped t line) rs)) @ concat (map (\<lambda>(t, line). stamped t line) rs')"
    by simp
  also have "\<dots> = (d @ d') @ retained l''" by (simp add: d(1) d'(1))
  finally show ?thesis using assms d(2) d'(2) by (auto simp: log_grows_def)
qed

lemma put_line_log:
  assumes "put_line e line st = Some st'" and "log_ok (col_output st)"
  shows "col_records st' = col_records st @ [(le_time e, line)] \<and>
    log_grows (col_output st) [(le_time e, line)] (col_output st')"
proof -
  let ?ts = "now_rfc3339_nanos (fst (le_time e)) (snd (le_time e))"
  from assms(1) obtain l where w: "write_record (le_rotated e) (le_appended e) ?ts line (col_output st) = Some l"
    and st': "col_output st' = l" "col_records st' = col_records st @ [(le_time e, line)]"
    by (auto simp: put_line_def split: option.splits)
  note spec = write_record_spec [OF assms(2) w]
  show ?thesis
  proof (cases "max_size (col_output st) = 0")
    case True
    with spec st' show ?thesis by (auto simp: log_grows_def stamped_def)
  next
    case False
    with spec st' show ?thesis by (auto simp: log_grows_def stamped_def)
  qed
qed

lemma put_lines_log:
  assumes "put_lines env k ls st = Some st'" and "log_ok (col_output st)"
  shows "\<exists>rs. col_records st' = col_records st @ rs \<and> log_grows (col_output st) rs (col_output st')"
  using assms
proof (induction ls arbitrary: k st)
  case Nil
  then show ?case by (auto intro: log_grows_refl)
next
  case (Cons l ls)
  then obtain st1 where 1: "put_line (env k) l st = Some st1" and 2: "put_lines env (Suc k) ls st1 = Some st'"
    by (auto split: option.splits)
  note a = put_line_log [OF 1 Cons.prems(2)]
  then have "log_ok (col_output st1)" by (simp add: log_grows_def)
  from Cons.IH [OF 2 this] obtain rs where "col_records st' = col_records st1 @ rs"
      "log_grows (col_output st1) rs (col_output st')" by auto
  with a log_grows_trans show ?case by fastforce
qed

lemma collect_log:
  assumes "collect_timestamped env bufs st = Some st'" and "log_ok (col_output st)"
  shows "\<exists>rs. col_records st' = col_records st @ rs \<and> log_grows (col_output st) rs (col_output st')"
  using assms
proof (induction bufs arbitrary: st)
  case Nil
  then show ?case
    using put_line_log [of "env (length (col_records st))" "col_pending st" st] log_grows_refl
    by (fastforce simp: Let_def split: if_splits option.splits)
next
  case (Cons buf bufs)
  define p where "p = col_pending st @ buf"
  from Cons.prems(1) obtain st1 where 1: "put_lines env (length (col_records st)) (complete_lines p) st = Some st1"
    and 2: "collect_timestamped env bufs (st1\<lparr>col_pending := left_over p\<rparr>) = Some st'"
    by (auto simp: p_def Let_def split: option.splits)
  obtain rs1 where a: "col_records st1 = col_records st @ rs1" "log_grows (col_output st) rs1 (col_output st1)"
    using put_lines_log [OF 1 Cons.prems(2)] by auto
  then have "log_ok (col_output (st1\<lparr>col_pending := left_over p\<rparr>))" by (simp add: log_grows_def)
  from Cons.IH [OF 2 this] obtain rs where "col_records st' = col_records st1 @ rs"
      "log_grows (col_output st1) rs (col_output st')" by auto
  with a log_grows_trans show ?case by fastforce
qed

text \<open>A log just created, and a collector that starts on it.\<close>

definition new_log :: "nat \<Rightarrow> nat \<Rightarrow> RotatingLog" where
  "new_log sz n = the (RotatingLog_open sz n (Map.empty(0 \<mapsto> [])))"

definition new_collector :: "nat \<Rightarrow> nat \<Rightarrow> collector" where
  "new_collector sz n =
     \<lparr>col_output = new_log sz n, col_clients = [], col_pending = [], col_records = []\<rparr>"

definition steady :: "nat \<Rightarrow> line_env" where
  "steady k = \<lparr>le_time = (1700000000 + k, 0), le_rotated = True, le_appended = True, le_delivered = (\<lambda>_. True)\<rparr>"

lemma new_log_ok [simp]:
  "log_ok (new_log sz n)" "max_size (new_log sz n) = sz" "retained (new_log sz n) = []"
  by (auto simp: new_log_def RotatingLog_open_def log_ok_def retained_def)

lemma new_collector_simps [simp]:
  "col_output (new_collector sz n) = new_log sz n" "col_pending (new_collector sz n) = []"
  "col_records (new_collector sz n) = []"
  by (simp_all add: new_collector_def)

section \<open>Properties\<close>

text \<open>C33: Live output reaches an attached client exactly: when every frame is delivered, the client prints the
  bytes of all chunks in order and ends with the container's exit code (chunks up to the 1 MiB the client
  accepts).\<close>

theorem attach_delivers:
  assumes "\<forall>c \<in> set chunks. length c \<le> MAX_FRAME" and "- (2 ^ 31) \<le> status" and "status < 2 ^ 31"
  shows "\<exists>got. close_all (\<lambda>_. True) status (fold (broadcast (\<lambda>_. True)) chunks [\<lparr>cl_id = i, cl_got = []\<rparr>]) =
      [\<lparr>cl_id = i, cl_got = got\<rparr>] \<and>
    attach_loop (\<lambda>_. True) 0 [] got = (concat chunks, AttachExit status)"
  using attach_loop_frames [OF assms, of 0 "[]"] by (simp add: fold_broadcast close_all_def)

theorem attach_delivers_witness:
  "\<exists>got. close_all (\<lambda>_. True) (-1) (fold (broadcast (\<lambda>_. True)) [''ab'', [], ''c''] [\<lparr>cl_id = 0, cl_got = []\<rparr>]) =
      [\<lparr>cl_id = 0, cl_got = got\<rparr>] \<and> attach_loop (\<lambda>_. True) 0 [] got = (''abc'', AttachExit (-1))"
  using attach_delivers [of "[''ab'', [], ''c'']" "-1" 0] by (simp add: MAX_FRAME_def)

text \<open>C21: No workload output is lost or altered on its way through the log: with an unlimited log and working
  writes, stripping the timestamps of what the collector wrote gives back the bytes of the workload, however the
  reads cut them.\<close>

theorem collector_lossless:
  assumes "env_ok env" and "\<forall>k. good_time (le_time (env k))" and "log_ok (col_output st)"
    and "max_size (col_output st) = 0" and "retained (col_output st) = []" and "col_pending st = []"
  shows "\<exists>st'. collect_timestamped env bufs st = Some st' \<and>
    strip_log_timestamps (retained (col_output st')) = concat bufs"
proof -
  from collect_ok [OF assms(1), of bufs st] assms(6) obtain st' rs
    where c: "collect_timestamped env bufs st = Some st'" and r: "col_records st' = col_records st @ rs"
      and bytes: "concat (map snd rs) = concat bufs" and ls: "lines_of (map snd rs)"
      and times: "\<forall>(t, l) \<in> set rs. \<exists>k. t = le_time (env k)" by auto
  from collect_log [OF c assms(3)] r have "log_grows (col_output st) rs (col_output st')" by auto
  then have "retained (col_output st') = concat (map (\<lambda>(t, l). stamped t l) rs)"
    using assms(4,5) by (auto simp: log_grows_def)
  moreover have "\<forall>(t, l) \<in> set rs. good_time t" using times assms(2) by fastforce
  ultimately show ?thesis using c strip_stamped [OF ls] bytes by auto
qed

theorem collector_lossless_witness:
  "\<exists>st'. collect_timestamped (\<lambda>_. steady 0) [''one'' @ [newline] @ ''tw'', ''o''] (new_collector 0 1) = Some st' \<and>
     strip_log_timestamps (retained (col_output st')) = ''one'' @ [newline] @ ''two''"
  using collector_lossless [of "\<lambda>_. steady 0" "new_collector 0 1" "[''one'' @ [newline] @ ''tw'', ''o'']"]
  by (simp add: env_ok_def steady_def good_time_def)



text \<open>With a size limit no file of a log, active or archived, grows beyond the limit, unless a single record
  is longer than the limit: then its length bounds it.\<close>

lemma log_files_bounded:
  assumes "log_ok l" and "write_record rot app ts line l = Some l'" and "0 < max_size l"
    and "files_bounded b l" and "max_size l \<le> b" and "length (ts @ [tab] @ line) \<le> b" and "b < U64_MAX"
  shows "files_bounded b l'"
  using assms by (rule write_record_bounded)

lemma log_files_bounded_witness:
  "\<exists>l'. write_record True True ''t'' ''line'' (new_log 40 2) = Some l' \<and> files_bounded 40 l'"
proof -
  obtain l' where w: "write_record True True ''t'' ''line'' (new_log 40 2) = Some l'"
    by (auto simp: write_record_def Let_def)
  have "files_bounded 40 (new_log 40 2)"
    by (simp add: files_bounded_def new_log_def RotatingLog_open_def)
  from log_files_bounded [OF _ w _ this] w show ?thesis by (auto simp: U64_MAX_def)
qed

text \<open>\<open>--since\<close> and \<open>--until\<close> select exactly the records whose stamp lies in the window, stamps and bytes
  unchanged and in order.\<close>

lemma log_window_exact:
  assumes "lines_of (map snd rs)" and "\<forall>(t, l) \<in> set rs. good_time t" and "is_active f"
  shows "filter_log_lines (concat (map (\<lambda>(t, l). stamped t l) rs)) (Some f) =
    concat (map (\<lambda>(t, l). stamped t l) (filter (\<lambda>(t, l). contains f (nanos_of t)) rs))"
  using assms by (rule filter_stamped)

lemma log_window_exact_witness:
  "filter_log_lines (stamped (5, 0) (''a'' @ [newline]) @ stamped (9, 0) ''b'') (Some \<lparr>since = Some 7000000000, until = None\<rparr>)
     = stamped (9, 0) ''b''"
proof -
  let ?rs = "[((5, 0), ''a'' @ [newline]), ((9, 0), ''b'')]"
  have "full_line (''a'' @ [newline])" by (simp add: full_line_def newline_def)
  moreover have "lines_of [''b'']" by (rule lines_of_one) (simp_all add: newline_def)
  ultimately have "lines_of ([''a'' @ [newline]] @ [''b''])" by (intro lines_of_append) simp_all
  then have "lines_of (map snd ?rs)" by simp
  from log_window_exact [OF this, of "\<lparr>since = Some 7000000000, until = None\<rparr>"] show ?thesis
    by (simp add: good_time_def is_active_def contains_def nanos_of_def)
qed

end
