(* ===== verification/Cgroup.thy ===== *)
theory Cgroup
  imports Units Network Complex_Main "HOL-Library.Sublist"
begin

text \<open>
  Resource limits on cgroups v2 (src/cgroup.rs): the parsers of the limit options, the plan of control
  file writes, and the life of a container's cgroup directory. Control files and directories are touched through
  actions, recorded in the order they are tried; what the kernel answers is a record of parameters.

  A float is its exact value: the product \<open>cpus * 100_000.0\<close> is rounded to a float by the parameter
  \<open>rnd\<close>, and \<open>parse_f64\<close> stands for the float parser of the standard library.
\<close>

section \<open>Limits\<close>

datatype F64 = NaN | Infinity bool | Finite rat

record IoLimit =
  device :: string
  read_bps :: "nat option"
  write_bps :: "nat option"
  read_iops :: "nat option"
  write_iops :: "nat option"

record ResourceLimits =
  rl_memory :: "string option"
  rl_memory_reservation :: "string option"
  rl_memory_swap :: "int option"
  rl_cpus :: "F64 option"
  rl_cpuset_cpus :: "string option"
  rl_cpuset_mems :: "string option"
  rl_pids :: "int option"
  rl_io :: "IoLimit list"
  rl_oom_group :: bool

datatype cg_error =
    CgBadId string
  | CgNoHierarchy
  | CgForeignPath string string
  | CgRemove string
  | CgSwapNeedsMemory
  | CgMkdirParent
  | CgMkdirLeaf
  | CgReadMemory
  | CgMemoryNotFinite
  | CgSize size_error
  | CgSwapBelowMemory nat nat
  | CgSwapSize string
  | CgSwapZero
  | CgSwapTooLarge
  | CgCpus string
  | CgCpusNotPositive
  | CgCpusRange
  | CgCpusetEmpty
  | CgCpuset string
  | CgPids
  | CgDevice string
  | CgStat string
  | CgNotBlock string
  | CgIoSyntax string
  | CgIoFlag string
  | CgNumber string
  | CgNumberZero string
  | CgByteSize string
  | CgByteSizeZero
  | CgControllers
  | CgController string
  | CgEnable
  | CgWrite string
  | CgFreezeTimeout
  | CgNotDirectory string

definition parse_bytes :: "string \<Rightarrow> cg_error + nat" where
  "parse_bytes s = (case Units.parse_size s of Inl e \<Rightarrow> Inl (CgSize e) | Inr n \<Rightarrow> Inr n)"

definition swap_limit_for_total :: "nat \<Rightarrow> int \<Rightarrow> cg_error + string" where
  "swap_limit_for_total memory tot =
     (if tot < 0 then Inr ''max''
      else let t = nat tot in
        if t < memory then Inl (CgSwapBelowMemory t memory) else Inr (show_nat (t - memory)))"

definition parse_memory_swap :: "string \<Rightarrow> cg_error + int" where
  "parse_memory_swap value0 =
     (let v = trim value0 in
      if v = ''-1'' \<or> to_ascii_lowercase v = ''unlimited'' then Inr (- 1)
      else (case Units.parse_size v of
          Inl _ \<Rightarrow> Inl (CgSwapSize v)
        | Inr bytes \<Rightarrow>
            if bytes = 0 then Inl CgSwapZero
            else if bytes < 2 ^ 63 then Inr (int bytes) else Inl CgSwapTooLarge))"

text \<open>\<open>f64::round\<close> goes to the nearest integer, halves away from zero; \<open>i64::MAX as f64\<close> is \<open>2 ^ 63\<close>, and
  the cast to \<open>i64\<close> saturates.\<close>

definition cpu_quota :: "(rat \<Rightarrow> F64) \<Rightarrow> F64 \<Rightarrow> cg_error + int" where
  "cpu_quota rnd cpus = (case cpus of
      Finite c \<Rightarrow>
        if c \<le> 0 then Inl CgCpusNotPositive
        else (case rnd (c * 100000) of
            Finite p \<Rightarrow>
              (let quota = \<lfloor>p + 1 / 2\<rfloor> in
               if quota < 1 \<or> quota > 2 ^ 63 then Inl CgCpusRange else Inr (min quota (2 ^ 63 - 1)))
          | _ \<Rightarrow> Inl CgCpusRange)
    | _ \<Rightarrow> Inl CgCpusNotPositive)"

definition parse_cpus :: "(string \<Rightarrow> F64 option) \<Rightarrow> (rat \<Rightarrow> F64) \<Rightarrow> string \<Rightarrow> cg_error + F64" where
  "parse_cpus parse_f64 rnd v = (case parse_f64 (trim v) of
      None \<Rightarrow> Inl (CgCpus v)
    | Some cpus \<Rightarrow> and_then (cpu_quota rnd cpus) (\<lambda>_. Inr cpus))"

definition cpuset_number :: "string \<Rightarrow> nat option" where
  "cpuset_number s =
     (if s = [] \<or> 20 < length s \<or> \<not> list_all is_ascii_digit s then None else parse_uint U64_MAX s)"

definition cpuset_group :: "string \<Rightarrow> bool" where
  "cpuset_group grp =
     (let (lo, hi) = (case split_once (CHR ''-'') grp of Some (a, b) \<Rightarrow> (a, b) | None \<Rightarrow> (grp, grp)) in
      case (cpuset_number lo, cpuset_number hi) of (Some a, Some b) \<Rightarrow> a \<le> b | _ \<Rightarrow> False)"

definition parse_cpuset :: "string \<Rightarrow> cg_error + string" where
  "parse_cpuset value0 =
     (let v = trim value0 in
      if v = [] then Inl CgCpusetEmpty
      else if \<not> list_all cpuset_group (split_on (CHR '','') v) then Inl (CgCpuset v)
      else Inr v)"

section \<open>Block devices\<close>

text \<open>\<open>stat\<close>: what the file system says of a path: nothing, or whether it is a block device and its
  device number.\<close>

definition dev_major :: "64 word \<Rightarrow> 64 word" where
  "dev_major dev = or (and (drop_bit 8 dev) 0xfff) (and (drop_bit 32 dev) (not 0xfff))"

definition dev_minor :: "64 word \<Rightarrow> 64 word" where
  "dev_minor dev = or (and dev 0xff) (and (drop_bit 12 dev) (not 0xff00))"

definition device_label :: "nat \<Rightarrow> nat \<Rightarrow> string" where
  "device_label major minor = show_nat major @ '':'' @ show_nat minor"

definition parse_device :: "(string \<Rightarrow> (bool \<times> 64 word) option) \<Rightarrow> string \<Rightarrow> cg_error + string" where
  "parse_device stat spec0 =
     (let spec = trim spec0 in
      case split_once (CHR '':'') spec of
        Some (major, minor) \<Rightarrow>
          (let parsed = (if major \<noteq> [] \<and> minor \<noteq> [] \<and> CHR ''/'' \<notin> set major \<and> CHR ''/'' \<notin> set minor
             then (case (parse_uint U64_MAX major, parse_uint U64_MAX minor) of
                 (Some a, Some b) \<Rightarrow> if a \<le> U32_MAX \<and> b \<le> U32_MAX then Some (a, b) else None
               | _ \<Rightarrow> None)
             else None)
           in case parsed of Some (a, b) \<Rightarrow> Inr (device_label a b) | None \<Rightarrow> Inl (CgDevice spec))
      | None \<Rightarrow> (case stat spec of
          None \<Rightarrow> Inl (CgStat spec)
        | Some (block, dev) \<Rightarrow>
            if \<not> block then Inl (CgNotBlock spec)
            else Inr (device_label (unat (dev_major dev)) (unat (dev_minor dev)))))"

definition parse_positive_number :: "string \<Rightarrow> string \<Rightarrow> cg_error + nat" where
  "parse_positive_number v what = (case parse_uint U64_MAX (trim v) of
      None \<Rightarrow> Inl (CgNumber v)
    | Some n \<Rightarrow> if n = 0 then Inl (CgNumberZero what) else Inr n)"

definition parse_positive_byte_size :: "string \<Rightarrow> cg_error + nat" where
  "parse_positive_byte_size value0 =
     (let v = trim value0;
          without_b = (if v \<noteq> [] \<and> last v \<in> set ''bB'' \<and> butlast v \<noteq> [] then butlast v else v)
      in case Units.parse_size without_b of
          Inl _ \<Rightarrow> Inl (CgByteSize v)
        | Inr bytes \<Rightarrow> if bytes = 0 then Inl CgByteSizeZero else Inr bytes)"

definition no_io_limit :: "string \<Rightarrow> IoLimit" where
  "no_io_limit d = \<lparr>device = d, read_bps = None, write_bps = None, read_iops = None, write_iops = None\<rparr>"

definition parse_io_limit :: "(string \<Rightarrow> (bool \<times> 64 word) option) \<Rightarrow> string \<Rightarrow> string \<Rightarrow> cg_error + IoLimit" where
  "parse_io_limit stat flag v =
     and_then (ok_or (CgIoSyntax flag) (rsplit_once (CHR '':'') v)) (\<lambda>parts. case parts of (dev, limit) \<Rightarrow>
     and_then (parse_device stat dev) (\<lambda>d.
       if flag = ''device-read-bps'' then
         and_then (parse_positive_byte_size limit) (\<lambda>n. Inr ((no_io_limit d)\<lparr>read_bps := Some n\<rparr>))
       else if flag = ''device-write-bps'' then
         and_then (parse_positive_byte_size limit) (\<lambda>n. Inr ((no_io_limit d)\<lparr>write_bps := Some n\<rparr>))
       else if flag = ''device-read-iops'' then
         and_then (parse_positive_number limit flag) (\<lambda>n. Inr ((no_io_limit d)\<lparr>read_iops := Some n\<rparr>))
       else if flag = ''device-write-iops'' then
         and_then (parse_positive_number limit flag) (\<lambda>n. Inr ((no_io_limit d)\<lparr>write_iops := Some n\<rparr>))
       else Inl (CgIoFlag flag)))"

definition value_or_max :: "nat option \<Rightarrow> string" where
  "value_or_max v = (case v of None \<Rightarrow> ''max'' | Some n \<Rightarrow> show_nat n)"

definition or_else :: "'a option \<Rightarrow> 'a option \<Rightarrow> 'a option" where
  "or_else a b = (case a of None \<Rightarrow> b | Some x \<Rightarrow> Some x)"

definition merge_io :: "IoLimit \<Rightarrow> (string \<times> IoLimit) list \<Rightarrow> (string \<times> IoLimit) list" where
  "merge_io l m =
     (let entry = (case map_of m (device l) of None \<Rightarrow> no_io_limit [] | Some e \<Rightarrow> e) in
      btree_insert (device l) (entry\<lparr>read_bps := or_else (read_bps l) (read_bps entry),
        write_bps := or_else (write_bps l) (write_bps entry),
        read_iops := or_else (read_iops l) (read_iops entry),
        write_iops := or_else (write_iops l) (write_iops entry)\<rparr>) m)"

definition io_line_value :: "string \<times> IoLimit \<Rightarrow> string" where
  "io_line_value p = (case p of (d, l) \<Rightarrow>
     d @ '' rbps='' @ value_or_max (read_bps l) @ '' wbps='' @ value_or_max (write_bps l) @
     '' riops='' @ value_or_max (read_iops l) @ '' wiops='' @ value_or_max (write_iops l))"

definition io_max_value :: "IoLimit list \<Rightarrow> string" where
  "io_max_value limits = join [CHR 0x0A] (map io_line_value (fold merge_io limits []))"

section \<open>The plan of writes\<close>

definition plan_memory :: "ResourceLimits \<Rightarrow> nat option \<Rightarrow> cg_error + (string \<times> string) list" where
  "plan_memory limits current = (case rl_memory limits of
      Some mem \<Rightarrow>
        and_then (parse_bytes mem) (\<lambda>bytes.
        and_then (case rl_memory_swap limits of
            Some swap \<Rightarrow> swap_limit_for_total bytes swap | None \<Rightarrow> Inr (show_nat bytes)) (\<lambda>swap_limit.
        Inr [(''memory.max'', show_nat bytes), (''memory.swap.max'', swap_limit)]))
    | None \<Rightarrow> (case rl_memory_swap limits of
        None \<Rightarrow> Inr []
      | Some swap \<Rightarrow>
          and_then (if swap < 0 then Inr ''max''
              else and_then (ok_or CgMemoryNotFinite current) (\<lambda>memory. swap_limit_for_total memory swap))
            (\<lambda>swap_limit. Inr [(''memory.swap.max'', swap_limit)])))"

definition plan_opt :: "string \<Rightarrow> ('a \<Rightarrow> cg_error + string) \<Rightarrow> 'a option \<Rightarrow> cg_error + (string \<times> string) list" where
  "plan_opt file f v = (case v of None \<Rightarrow> Inr [] | Some x \<Rightarrow> and_then (f x) (\<lambda>s. Inr [(file, s)]))"

definition plan_limit_writes ::
  "(rat \<Rightarrow> F64) \<Rightarrow> ResourceLimits \<Rightarrow> nat option \<Rightarrow> cg_error + (string \<times> string) list" where
  "plan_limit_writes rnd limits current =
     and_then (plan_memory limits current) (\<lambda>w1.
     and_then (plan_opt ''memory.high'' (\<lambda>s. and_then (parse_bytes s) (\<lambda>n. Inr (show_nat n)))
       (rl_memory_reservation limits)) (\<lambda>w2.
     and_then (plan_opt ''cpu.max'' (\<lambda>c. and_then (cpu_quota rnd c) (\<lambda>q. Inr (show_int q @ '' 100000'')))
       (rl_cpus limits)) (\<lambda>w3.
     and_then (plan_opt ''cpuset.cpus'' parse_cpuset (rl_cpuset_cpus limits)) (\<lambda>w4.
     and_then (plan_opt ''cpuset.mems'' parse_cpuset (rl_cpuset_mems limits)) (\<lambda>w5.
     and_then (plan_opt ''pids.max'' (\<lambda>n. if n \<le> 0 then Inl CgPids else Inr (show_int n)) (rl_pids limits)) (\<lambda>w6.
     Inr (w1 @ w2 @ w3 @ w4 @ w5 @ w6
       @ (if rl_io limits \<noteq> [] then [(''io.max'', io_max_value (rl_io limits))] else [])
       @ (if rl_oom_group limits then [(''memory.oom.group'', ''1'')] else []))))))))"

section \<open>The cgroup directory of a container\<close>

text \<open>\<open>str::replace\<close> for a pattern that is not empty.\<close>

function replace_all :: "string \<Rightarrow> string \<Rightarrow> string \<Rightarrow> string" where
  "replace_all pat rep s =
     (if pat = [] \<or> s = [] then s
      else if starts_with s pat then rep @ replace_all pat rep (drop (length pat) s)
      else hd s # replace_all pat rep (tl s))"
  by pat_completeness auto

termination
proof (relation "measure (\<lambda>(pat, rep, s). length s)", goal_cases)
  case (2 pat rep s)
  then have "0 < length pat" "0 < length s" by auto
  then show ?case by auto
qed auto

declare replace_all.simps [simp del]

text \<open>The mount point on a line of \<open>mountinfo\<close> whose file system is \<open>cgroup2\<close>.\<close>

definition mount_of_line :: "string \<Rightarrow> string option" where
  "mount_of_line line =
     (let fs = split_whitespace line in
      case position (\<lambda>f. f = ''-'') fs of
        None \<Rightarrow> None
      | Some pos \<Rightarrow>
          if pos + 1 < length fs \<and> fs ! (pos + 1) = ''cgroup2'' \<and> 4 \<le> pos
          then Some (replace_all (CHR 0x5C # ''040'') '' '' (fs ! 4)) else None)"

fun first_some :: "('a \<Rightarrow> 'b option) \<Rightarrow> 'a list \<Rightarrow> 'b option" where
  "first_some f [] = None"
| "first_some f (x # xs) = (case f x of Some y \<Rightarrow> Some y | None \<Rightarrow> first_some f xs)"

text \<open>\<open>mountinfo\<close> is the text of \<open>/proc/self/mountinfo\<close>, \<open>fallback\<close> whether
  \<open>/sys/fs/cgroup/cgroup.controllers\<close> exists.\<close>

definition detect_cgroup2_root :: "string option \<Rightarrow> bool \<Rightarrow> cg_error + string" where
  "detect_cgroup2_root mountinfo fallback =
     (case (case mountinfo of None \<Rightarrow> None | Some info \<Rightarrow> first_some mount_of_line (lines info)) of
        Some p \<Rightarrow> Inr p
      | None \<Rightarrow> if fallback then Inr ''/sys/fs/cgroup'' else Inl CgNoHierarchy)"

definition validate_container_id :: "string \<Rightarrow> cg_error + unit" where
  "validate_container_id cid =
     (if \<not> (1 \<le> length cid \<and> length cid \<le> 64) \<or> \<not> list_all is_ascii_hexdigit cid
      then Inl (CgBadId cid) else Inr ())"

text \<open>\<open>Path\<close> equality compares components: repeated and trailing slashes and dots in the middle do not
  count.\<close>

definition path_components :: "string \<Rightarrow> bool \<times> string list" where
  "path_components p =
     (let cs = filter (\<lambda>c. c \<noteq> []) (split_on (CHR ''/'') p); absolute = starts_with p ''/'' in
      (absolute, if cs = [] then [] else
         (if absolute then filter (\<lambda>c. c \<noteq> ''.'') cs else hd cs # filter (\<lambda>c. c \<noteq> ''.'') (tl cs))))"

definition path_eq :: "string \<Rightarrow> string \<Rightarrow> bool" where
  "path_eq p q \<longleftrightarrow> path_components p = path_components q"

definition parent_path :: "string \<Rightarrow> string" where
  "parent_path rt = rt @ ''/zerun''"

definition leaf_path :: "string \<Rightarrow> string \<Rightarrow> string" where
  "leaf_path rt cid = parent_path rt @ ''/'' @ cid"

definition container_path :: "cg_error + string \<Rightarrow> string \<Rightarrow> cg_error + string" where
  "container_path rt cid = and_then (validate_container_id cid) (\<lambda>_.
     and_then rt (\<lambda>r. Inr (leaf_path r cid)))"

definition is_container_path :: "cg_error + string \<Rightarrow> string \<Rightarrow> string \<Rightarrow> bool" where
  "is_container_path rt cid persisted =
     (case container_path rt cid of Inl _ \<Rightarrow> False | Inr e \<Rightarrow> path_eq e persisted)"

datatype cg_action =
    MkdirAll string
  | Mkdir string
  | Rmdir string
  | WriteControl string string

datatype rmdir_answer = Removed | Missing | Refused

text \<open>The parent is removed only when the kernel finds it empty; its answer does not matter.\<close>

definition remove_for_container ::
  "(string \<Rightarrow> rmdir_answer) \<Rightarrow> cg_error + string \<Rightarrow> string \<Rightarrow> string \<Rightarrow> (cg_error + unit) \<times> cg_action list" where
  "remove_for_container rmdir rt cid persisted = (case rt of
      Inl e \<Rightarrow> (and_then (validate_container_id cid) (\<lambda>_. Inl e), [])
    | Inr r \<Rightarrow>
       (case validate_container_id cid of Inl e \<Rightarrow> (Inl e, []) | Inr _ \<Rightarrow>
         (let expected = leaf_path r cid in
          if \<not> path_eq persisted expected then (Inl (CgForeignPath persisted expected), [])
          else if rmdir expected = Refused then (Inl (CgRemove expected), [Rmdir expected])
          else (Inr (), [Rmdir expected, Rmdir (parent_path r)]))))"

definition open_for_container ::
  "(string \<Rightarrow> bool) \<Rightarrow> cg_error + string \<Rightarrow> string \<Rightarrow> string \<Rightarrow> cg_error + string" where
  "open_for_container is_dir rt cid persisted =
     and_then (container_path rt cid) (\<lambda>expected.
       if \<not> path_eq persisted expected then Inl (CgForeignPath persisted expected)
       else if \<not> is_dir expected then Inl (CgNotDirectory expected) else Inr expected)"

section \<open>Applying limits\<close>

text \<open>\<open>controllers\<close> and \<open>subtree\<close> are the parent's \<open>cgroup.controllers\<close> and \<open>cgroup.subtree_control\<close>,
  \<open>memory_max\<close> the leaf's \<open>memory.max\<close>; the other fields say which calls succeed.\<close>

record cg_env =
  controllers :: "string option"
  subtree :: "string option"
  memory_max :: "string option"
  parent_made :: bool
  leaf_made :: bool
  subtree_written :: bool
  control_written :: "string \<Rightarrow> bool"

definition require_controller :: "cg_env \<Rightarrow> string \<Rightarrow> cg_error + unit" where
  "require_controller env c = (case controllers env of
      None \<Rightarrow> Inl CgControllers
    | Some available \<Rightarrow> if c \<notin> set (split_whitespace available) then Inl (CgController c) else Inr ())"

definition required_controllers :: "ResourceLimits \<Rightarrow> string list" where
  "required_controllers l =
     (if rl_memory l \<noteq> None \<or> rl_memory_reservation l \<noteq> None \<or> rl_memory_swap l \<noteq> None \<or> rl_oom_group l
      then [''memory''] else [])
     @ (if rl_cpus l \<noteq> None then [''cpu''] else [])
     @ (if rl_pids l \<noteq> None then [''pids''] else [])
     @ (if rl_cpuset_cpus l \<noteq> None \<or> rl_cpuset_mems l \<noteq> None then [''cpuset''] else [])
     @ (if rl_io l \<noteq> [] then [''io''] else [])"

definition current_memory :: "cg_env \<Rightarrow> ResourceLimits \<Rightarrow> cg_error + nat option" where
  "current_memory env l =
     (if rl_memory l = None \<and> (case rl_memory_swap l of None \<Rightarrow> False | Some s \<Rightarrow> 0 \<le> s)
      then (case memory_max env of
          None \<Rightarrow> Inl CgReadMemory
        | Some v \<Rightarrow> and_then (ok_or CgMemoryNotFinite (parse_uint U64_MAX (trim v))) (\<lambda>n. Inr (Some n)))
      else Inr None)"

text \<open>The writes in their order; the first one that fails ends them.\<close>

fun write_controls :: "(string \<Rightarrow> bool) \<Rightarrow> string \<Rightarrow> (string \<times> string) list \<Rightarrow> (cg_error + unit) \<times> cg_action list" where
  "write_controls ok path [] = (Inr (), [])"
| "write_controls ok path ((file, v) # ws) =
     (let a = WriteControl (path @ ''/'' @ file) v in
      if \<not> ok file then (Inl (CgWrite file), [a])
      else (case write_controls ok path ws of (r, as) \<Rightarrow> (r, a # as)))"

definition apply_limits ::
  "(rat \<Rightarrow> F64) \<Rightarrow> cg_env \<Rightarrow> string \<Rightarrow> ResourceLimits \<Rightarrow> (cg_error + unit) \<times> cg_action list" where
  "apply_limits rnd env path l =
     (case and_then (current_memory env l) (\<lambda>current.
        and_then (plan_limit_writes rnd l current) (\<lambda>writes.
        and_then (map_result (require_controller env) (required_controllers l)) (\<lambda>_. Inr writes))) of
        Inl e \<Rightarrow> (Inl e, [])
      | Inr writes \<Rightarrow> write_controls (control_written env) path writes)"

text \<open>\<open>trim_start_matches('+')\<close> drops every leading plus.\<close>

definition to_enable :: "string \<Rightarrow> string \<Rightarrow> string list \<Rightarrow> string list" where
  "to_enable available enabled want =
     filter (\<lambda>c. c \<in> set (split_whitespace available) \<and>
       c \<notin> set (map (dropWhile (\<lambda>b. b = CHR ''+'')) (split_whitespace enabled))) want"

definition enable_controllers :: "cg_env \<Rightarrow> string \<Rightarrow> string list \<Rightarrow> (cg_error + unit) \<times> cg_action list" where
  "enable_controllers env parent want = (case controllers env of
      None \<Rightarrow> (Inl CgControllers, [])
    | Some available \<Rightarrow>
       (let cs = to_enable available (case subtree env of None \<Rightarrow> [] | Some t \<Rightarrow> t) want in
        if cs = [] then (Inr (), [])
        else (if subtree_written env then Inr () else Inl CgEnable,
          [WriteControl (parent @ ''/cgroup.subtree_control'') (join '' '' (map (\<lambda>c. CHR ''+'' # c) cs))])))"

text \<open>Once the leaf exists its handle owns it: an error drops the handle, and the leaf goes.\<close>

definition create ::
  "(rat \<Rightarrow> F64) \<Rightarrow> cg_env \<Rightarrow> cg_error + string \<Rightarrow> string \<Rightarrow> ResourceLimits \<Rightarrow> (cg_error + unit) \<times> cg_action list" where
  "create rnd env rt cid l =
     (case validate_container_id cid of Inl e \<Rightarrow> (Inl e, []) | Inr _ \<Rightarrow>
      if rl_memory l = None \<and> (case rl_memory_swap l of None \<Rightarrow> False | Some s \<Rightarrow> 0 \<le> s)
      then (Inl CgSwapNeedsMemory, [])
      else (case rt of Inl e \<Rightarrow> (Inl e, []) | Inr r \<Rightarrow>
        (let parent = parent_path r; path = leaf_path r cid in
         if \<not> parent_made env then (Inl CgMkdirParent, [MkdirAll parent])
         else if \<not> leaf_made env then (Inl CgMkdirLeaf, [MkdirAll parent, Mkdir path])
         else (let (r1, as1) = enable_controllers env parent [''memory'', ''cpu'', ''pids'', ''io'', ''cpuset''];
                   (r2, as2) = (case r1 of Inl e \<Rightarrow> (Inl e, []) | Inr _ \<Rightarrow> apply_limits rnd env path l)
               in (r2, [MkdirAll parent, Mkdir path] @ as1 @ as2
                     @ (case r2 of Inl _ \<Rightarrow> [Rmdir path, Rmdir parent] | Inr _ \<Rightarrow> []))))))"

section \<open>The freezer\<close>

definition frozen_of_line :: "string \<Rightarrow> bool option" where
  "frozen_of_line line = (case split_once (CHR '' '') line of
      None \<Rightarrow> None | Some (k, v) \<Rightarrow> if k = ''frozen'' then Some (trim v = ''1'') else None)"

definition read_frozen :: "string option \<Rightarrow> bool option" where
  "read_frozen events = (case events of None \<Rightarrow> None | Some t \<Rightarrow> first_some frozen_of_line (lines t))"

text \<open>The polls: what \<open>cgroup.events\<close> holds, and whether the deadline has passed. \<open>None\<close>: the polls given
  do not reach the end of the loop.\<close>

fun await_frozen :: "bool \<Rightarrow> (string option \<times> bool) list \<Rightarrow> (cg_error + unit) option" where
  "await_frozen frozen [] = None"
| "await_frozen frozen ((events, late) # polls) =
     (if read_frozen events = Some frozen then Some (Inr ())
      else if late then Some (Inl CgFreezeTimeout)
      else await_frozen frozen polls)"

definition freeze :: "bool \<Rightarrow> bool \<Rightarrow> (string option \<times> bool) list \<Rightarrow> (cg_error + unit) option" where
  "freeze written frozen polls =
     (if \<not> written then Some (Inl (CgWrite ''cgroup.freeze'')) else await_frozen frozen polls)"

section \<open>Lemmas\<close>

abbreviation control_action :: "string \<Rightarrow> string \<times> string \<Rightarrow> cg_action" where
  "control_action path w \<equiv> WriteControl (path @ ''/'' @ fst w) (snd w)"

lemma write_controls_spec:
  assumes "write_controls ok path ws = (r, as)"
  shows "prefix as (map (control_action path) ws) \<and> (r = Inr () \<longleftrightarrow> list_all (ok \<circ> fst) ws) \<and>
    (r = Inr () \<longrightarrow> as = map (control_action path) ws)"
  using assms
  by (induction ok path ws arbitrary: r as rule: write_controls.induct)
    (auto simp: Let_def split: if_splits prod.splits)

lemma map_result_unit_iff:
  "(\<exists>us. map_result f xs = Inr (us :: unit list)) \<longleftrightarrow> (\<forall>x \<in> set xs. f x = Inr ())"
  by (induction xs) (auto simp: and_then_eq_Inr_iff)

lemma plan_opt_file: "plan_opt file f v = Inr ws \<Longrightarrow> k \<in> fst ` set ws \<Longrightarrow> k = file"
  by (auto simp: plan_opt_def and_then_eq_Inr_iff split: option.splits)

lemma plan_limit_writesE:
  assumes "plan_limit_writes rnd l current = Inr ws"
  obtains w1 rest where "plan_memory l current = Inr w1" "ws = w1 @ rest"
    "''memory.max'' \<notin> fst ` set rest" "''memory.swap.max'' \<notin> fst ` set rest"
proof -
  from assms obtain w1 w2 w3 w4 w5 w6 where m: "plan_memory l current = Inr w1"
    and o: "plan_opt ''memory.high'' (\<lambda>s. and_then (parse_bytes s) (\<lambda>n. Inr (show_nat n))) (rl_memory_reservation l) = Inr w2"
      "plan_opt ''cpu.max'' (\<lambda>c. and_then (cpu_quota rnd c) (\<lambda>q. Inr (show_int q @ '' 100000''))) (rl_cpus l) = Inr w3"
      "plan_opt ''cpuset.cpus'' parse_cpuset (rl_cpuset_cpus l) = Inr w4"
      "plan_opt ''cpuset.mems'' parse_cpuset (rl_cpuset_mems l) = Inr w5"
      "plan_opt ''pids.max'' (\<lambda>n. if n \<le> 0 then Inl CgPids else Inr (show_int n)) (rl_pids l) = Inr w6"
    and ws: "ws = w1 @ w2 @ w3 @ w4 @ w5 @ w6 @ (if rl_io l \<noteq> [] then [(''io.max'', io_max_value (rl_io l))] else [])
       @ (if rl_oom_group l then [(''memory.oom.group'', ''1'')] else [])"
    unfolding plan_limit_writes_def and_then_eq_Inr_iff by blast
  show thesis
    by (rule that [OF m ws]) (auto dest!: o [THEN plan_opt_file, OF imageI])
qed

lemma map_of_append_fresh: "k \<notin> fst ` set ys \<Longrightarrow> map_of (xs @ ys) k = map_of xs k"
  by (induction xs) (auto simp: map_of_eq_None_iff)

lemma apply_limitsE:
  assumes "apply_limits rnd env path l = (r, as)" and "as \<noteq> []"
  obtains current writes us where "current_memory env l = Inr current" "plan_limit_writes rnd l current = Inr writes"
    "map_result (require_controller env) (required_controllers l) = Inr us"
    "write_controls (control_written env) path writes = (r, as)"
proof -
  let ?plan = "and_then (current_memory env l) (\<lambda>current.
        and_then (plan_limit_writes rnd l current) (\<lambda>writes.
        and_then (map_result (require_controller env) (required_controllers l)) (\<lambda>_. Inr writes)))"
  from assms obtain writes where pl: "?plan = Inr writes"
    and w: "write_controls (control_written env) path writes = (r, as)"
    unfolding apply_limits_def by (cases ?plan) simp_all
  from pl w show thesis unfolding and_then_eq_Inr_iff by (auto intro: that)
qed

lemma apply_limits_action:
  assumes "a \<in> set (snd (apply_limits rnd env path l))"
  obtains f v where "a = WriteControl f v"
proof -
  obtain r as where "apply_limits rnd env path l = (r, as)" by fastforce
  with assms have "apply_limits rnd env path l = (r, as)" "a \<in> set as" "as \<noteq> []" by auto
  from apply_limitsE [OF this(1,3)] obtain ws where "write_controls (control_written env) path ws = (r, as)" .
  from write_controls_spec [OF this] have "set as \<subseteq> control_action path ` set ws"
    using set_mono_prefix by fastforce
  with \<open>a \<in> set as\<close> show thesis by (auto intro: that)
qed

lemma enable_controllers_action:
  assumes "a \<in> set (snd (enable_controllers env parent want))"
  obtains f v where "a = WriteControl f v"
  using assms by (auto simp: enable_controllers_def Let_def split: option.splits if_splits)

text \<open>What the last limit given for a device says of one of its values.\<close>

definition last_limit :: "(IoLimit \<Rightarrow> nat option) \<Rightarrow> string \<Rightarrow> IoLimit list \<Rightarrow> nat option" where
  "last_limit f d ls = fold (\<lambda>l acc. if device l = d then or_else (f l) acc else acc) ls None"

lemma last_limit_snoc:
  "last_limit f d (ls @ [l]) = (if device l = d then or_else (f l) (last_limit f d ls) else last_limit f d ls)"
  by (simp add: last_limit_def)

lemma fold_merge_io:
  "is_btree_map (fold merge_io ls []) \<and>
   (case map_of (fold merge_io ls []) d of
      None \<Rightarrow> d \<notin> device ` set ls
    | Some e \<Rightarrow> d \<in> device ` set ls \<and> read_bps e = last_limit read_bps d ls \<and> write_bps e = last_limit write_bps d ls \<and>
        read_iops e = last_limit read_iops d ls \<and> write_iops e = last_limit write_iops d ls) \<and>
   (d \<notin> device ` set ls \<longrightarrow> last_limit read_bps d ls = None \<and> last_limit write_bps d ls = None \<and>
      last_limit read_iops d ls = None \<and> last_limit write_iops d ls = None)"
proof (induction ls rule: rev_induct)
  case Nil
  then show ?case by (simp add: last_limit_def is_btree_map_def)
next
  case (snoc l ls)
  define m where "m = fold merge_io ls []"
  note IH = snoc [folded m_def]
  have step: "fold merge_io (ls @ [l]) [] = merge_io l m" by (simp add: m_def)
  show ?case
  proof (cases "device l = d")
    case True
    with IH show ?thesis unfolding step
      by (cases "map_of m d")
        (auto simp: merge_io_def Let_def last_limit_snoc is_btree_map_insert no_io_limit_def)
  next
    case False
    with IH show ?thesis unfolding step
      by (auto simp: merge_io_def Let_def last_limit_snoc is_btree_map_insert split: option.splits)
  qed
qed

text \<open>No limits, and a host on which everything succeeds.\<close>

definition no_limits :: ResourceLimits where
  "no_limits = \<lparr>rl_memory = None, rl_memory_reservation = None, rl_memory_swap = None, rl_cpus = None,
     rl_cpuset_cpus = None, rl_cpuset_mems = None, rl_pids = None, rl_io = [], rl_oom_group = False\<rparr>"

definition ready_env :: cg_env where
  "ready_env = \<lparr>controllers = Some ''pids'', subtree = Some ''pids'', memory_max = None, parent_made = True,
     leaf_made = True, subtree_written = True, control_written = (\<lambda>_. True)\<rparr>"

lemma split_whitespace_pids: "split_whitespace ''pids'' = [''pids'']"
  by (simp add: str_eval)

lemmas cg_eval = no_limits_def ready_env_def split_whitespace_pids apply_limits_def current_memory_def
  plan_limit_writes_def plan_memory_def plan_opt_def required_controllers_def require_controller_def

section \<open>Properties\<close>

text \<open>The device number of the first NVMe disk, 259:0, is decoded to minor 16.\<close>

lemma nvme_minor_wrong: "dev_major 0x10300 = 259 \<and> dev_minor 0x10300 = 16"
  by (simp add: dev_major_def dev_minor_def)



text \<open>With \<open>--memory\<close> and a finite \<open>--memory-swap\<close>, the memory and swap ceilings handed to the kernel add up
  to exactly the total the user gave; a total below the memory limit is an error and never wraps around.\<close>

lemma memory_swap_total:
  assumes "parse_memory_swap s = Inr tot" and "0 \<le> tot" and "rl_memory l = Some mem"
    and "rl_memory_swap l = Some tot" and "plan_limit_writes rnd l current = Inr writes"
  shows "\<exists>m sw. Units.parse_size mem = Inr m \<and> Units.parse_size (trim s) = Inr (m + sw) \<and>
    map_of writes ''memory.max'' = Some (show_nat m) \<and> map_of writes ''memory.swap.max'' = Some (show_nat sw)"
proof -
  from assms(1,2) have s: "Units.parse_size (trim s) = Inr (nat tot)"
    by (auto simp: parse_memory_swap_def Let_def split: if_splits sum.splits)
  from assms(5) obtain w1 rest where w: "plan_memory l current = Inr w1" "writes = w1 @ rest"
    "''memory.max'' \<notin> fst ` set rest" "''memory.swap.max'' \<notin> fst ` set rest" by (rule plan_limit_writesE)
  then obtain m where "Units.parse_size mem = Inr m" "\<not> nat tot < m"
    "w1 = [(''memory.max'', show_nat m), (''memory.swap.max'', show_nat (nat tot - m))]"
    using assms(2-4)
    by (auto simp: plan_memory_def parse_bytes_def swap_limit_for_total_def Let_def and_then_eq_Inr_iff
        split: sum.splits if_splits)
  with s w show ?thesis
    by (intro exI [of _ m] exI [of _ "nat tot - m"]) (simp add: map_of_append_fresh)
qed

lemma memory_swap_total_witness:
  "\<exists>m sw. Units.parse_size ''1000'' = Inr m \<and> Units.parse_size (trim ''3000'') = Inr (m + sw) \<and> sw = 2000"
proof -
  have n: "Units.parse_size ''1000'' = Inr 1000" "Units.parse_size ''3000'' = Inr 3000" "trim ''3000'' = ''3000''"
    using parse_size_show_nat [of 1000] parse_size_show_nat [of 3000] trim_show_nat [of 3000]
    by (simp_all add: show_nat.simps digit_char_def U64_MAX_def)
  let ?l = "no_limits\<lparr>rl_memory := Some ''1000'', rl_memory_swap := Some 3000\<rparr>"
  have s: "parse_memory_swap ''3000'' = Inr 3000"
    by (simp add: parse_memory_swap_def n to_ascii_lowercase_def to_ascii_lowercase_char_def ascii_class_defs)
  obtain ws where w: "plan_limit_writes Finite ?l None = Inr ws"
    by (simp add: cg_eval parse_bytes_def n swap_limit_for_total_def)
  from memory_swap_total [OF s _ _ _ w] n show ?thesis by (auto simp: no_limits_def)
qed

text \<open>A cgroup that could not be set up does not stay behind, and a cgroup that was already there is never
  touched: the leaf is removed again exactly when this call made it and then failed.\<close>

lemma create_cleans_up:
  assumes "create rnd env (Inr r) cid l = (res, as)"
  shows "Rmdir (leaf_path r cid) \<in> set as \<longleftrightarrow> Mkdir (leaf_path r cid) \<in> set as \<and> leaf_made env \<and> is_ok res = False"
proof -
  obtain r1 as1 where e: "enable_controllers env (parent_path r) [''memory'', ''cpu'', ''pids'', ''io'', ''cpuset''] = (r1, as1)"
    by fastforce
  obtain r2 as2 where a: "apply_limits rnd env (leaf_path r cid) l = (r2, as2)" by fastforce
  have "Rmdir (leaf_path r cid) \<notin> set as1 \<and> Rmdir (leaf_path r cid) \<notin> set as2"
    using enable_controllers_action [of "Rmdir (leaf_path r cid)" env "parent_path r"]
      apply_limits_action [of "Rmdir (leaf_path r cid)" rnd env "leaf_path r cid" l] e a
    by (metis cg_action.distinct(11) snd_conv)
  then show ?thesis
    using assms by (auto simp: create_def Let_def is_ok_def e a split: if_splits sum.splits)
qed

lemma create_cleans_up_witness:
  "\<exists>as. create Finite ready_env (Inr ''/cg'') ''ab'' (no_limits\<lparr>rl_pids := Some 0\<rparr>) = (Inl CgPids, as) \<and>
     Rmdir (leaf_path ''/cg'' ''ab'') \<in> set as"
proof -
  let ?l = "no_limits\<lparr>rl_pids := Some 0\<rparr>"
  obtain as where c: "create Finite ready_env (Inr ''/cg'') ''ab'' ?l = (Inl CgPids, as)"
    and "Mkdir (leaf_path ''/cg'' ''ab'') \<in> set as"
    by (simp add: create_def validate_container_id_def ascii_class_defs enable_controllers_def to_enable_def cg_eval Let_def)
  with create_cleans_up [OF c] show ?thesis by (auto simp: ready_env_def is_ok_def)
qed

text \<open>Of several \<open>--device-*\<close> limits for one device the last one of each kind is written, limits of
  different kinds combine, and each device has one line, in order of its number text.\<close>

lemma io_limits_merged:
  "sorted (map fst (fold merge_io ls [])) \<and> distinct (map fst (fold merge_io ls [])) \<and>
   fst ` set (fold merge_io ls []) = device ` set ls \<and>
   io_max_value ls = join [CHR 0x0A] (map (\<lambda>d. io_line_value (d, \<lparr>device = [],
      read_bps = last_limit read_bps d ls, write_bps = last_limit write_bps d ls,
      read_iops = last_limit read_iops d ls, write_iops = last_limit write_iops d ls\<rparr>))
     (map fst (fold merge_io ls [])))"
proof -
  define m where "m = fold merge_io ls []"
  have b: "is_btree_map m" using fold_merge_io [of ls] by (simp add: m_def)
  have line: "io_line_value p = io_line_value (fst p, \<lparr>device = [],
      read_bps = last_limit read_bps (fst p) ls, write_bps = last_limit write_bps (fst p) ls,
      read_iops = last_limit read_iops (fst p) ls, write_iops = last_limit write_iops (fst p) ls\<rparr>)"
    if "p \<in> set m" for p
  proof -
    have "map_of m (fst p) = Some (snd p)" using that is_btree_map_distinct [OF b] by simp
    with fold_merge_io [of ls "fst p"] show ?thesis
      by (cases p) (simp add: m_def [symmetric] io_line_value_def)
  qed
  have "d \<in> fst ` set m \<longleftrightarrow> d \<in> device ` set ls" for d
    using fold_merge_io [of ls d] map_of_eq_None_iff [of m d] by (cases "map_of m d") (auto simp: m_def [symmetric])
  then show ?thesis
    using b line by (auto simp: io_max_value_def m_def [symmetric] is_btree_map_def strict_sorted_iff comp_def
        intro!: arg_cong [where f = "join [CHR 0x0A]"])
qed

end
