(* ===== verification/Mounts.thy ===== *)
theory Mounts
  imports Units
begin

text \<open>
  Volume and tmpfs specifications (src/mounts.rs): \<open>-v HOST:CONTAINER[:ro|rw]\<close>, named volumes and
  \<open>--tmpfs PATH[:opts]\<close>. What the host file system says of a bind source is a parameter; the mount calls themselves
  are not modelled.
\<close>

section \<open>Paths\<close>

definition normal_path :: "string \<Rightarrow> bool" where
  "normal_path p \<longleftrightarrow> list_all (\<lambda>c. c \<noteq> ''..'') (path_parts p)"

section \<open>Volumes\<close>

datatype mount_error =
    VolumeIncomplete string
  | VolumeColons string
  | VolumeMode string
  | VolumeRelative string
  | VolumeRoot
  | VolumeDots string
  | VolumeNoHost string
  | VolumeNoAccess string
  | VolumeKind string
  | VolumeName string
  | VolumeCreate string
  | TmpfsRelative string
  | TmpfsDots string
  | TmpfsRoot
  | TmpfsOption string
  | TmpfsSize string
  | TmpfsMode string

record BindMount =
  bm_source :: string
  bm_target :: string
  bm_readonly :: bool
  bm_named :: "string option"
  bm_raw :: string

datatype host_path = HostMissing | HostUnreadable | HostOther | HostEntry string

definition volume_byte :: "char \<Rightarrow> bool" where
  "volume_byte b \<longleftrightarrow> is_ascii_alphanumeric b \<or> b \<in> set ''_.-''"

definition validate_volume_name :: "string \<Rightarrow> mount_error + unit" where
  "validate_volume_name name =
     (if 1 \<le> length name \<and> length name \<le> 128 \<and> list_all volume_byte name \<and> name \<noteq> ''.'' \<and> name \<noteq> ''..''
      then Inr () else Inl (VolumeName name))"

text \<open>\<open>fs\<close> answers for a host path: its canonical form when it is a file or a directory.\<close>

definition parse_bind :: "(string \<Rightarrow> host_path) \<Rightarrow> string \<Rightarrow> mount_error + BindMount" where
  "parse_bind fs value =
     (case split_on (CHR '':'') value of
        host # container # rest \<Rightarrow>
          (if 1 < length rest then Inl (VolumeColons value)
           else let mode = (case rest of [] \<Rightarrow> ''rw'' | m # _ \<Rightarrow> m) in
             if mode \<noteq> [] \<and> mode \<noteq> ''rw'' \<and> mode \<noteq> ''ro'' then Inl (VolumeMode mode)
             else if \<not> starts_with container ''/'' then Inl (VolumeRelative container)
             else if container = ''/'' then Inl VolumeRoot
             else if \<not> normal_path container then Inl (VolumeDots container)
             else and_then
               (if starts_with host ''/'' then
                  (case fs host of
                     HostMissing \<Rightarrow> Inl (VolumeNoHost host)
                   | HostUnreadable \<Rightarrow> Inl (VolumeNoAccess host)
                   | HostOther \<Rightarrow> Inl (VolumeKind host)
                   | HostEntry src \<Rightarrow> Inr (src, None))
                else and_then (validate_volume_name host) (\<lambda>_. Inr ([], Some host)))
               (\<lambda>p. Inr \<lparr>bm_source = fst p, bm_target = container, bm_readonly = (mode = ''ro''),
                   bm_named = snd p, bm_raw = value\<rparr>))
      | _ \<Rightarrow> Inl (VolumeIncomplete value))"

section \<open>Tmpfs mounts\<close>

record TmpfsMount =
  tm_target :: string
  tm_data :: string
  tm_readonly :: bool
  tm_raw :: string

fun octal_val :: "nat \<Rightarrow> string \<Rightarrow> nat option" where
  "octal_val acc [] = Some acc"
| "octal_val acc (c # cs) = (if CHR ''0'' = c \<or> c \<in> set ''1234567'' then octal_val (8 * acc + (code c - 48)) cs else None)"

text \<open>\<open>u32::from_str_radix(_, 8)\<close>: an optional plus and at least one digit.\<close>

definition from_octal :: "string \<Rightarrow> nat option" where
  "from_octal s =
     (let ds = (case s of c # cs \<Rightarrow> if c = CHR ''+'' then cs else s | [] \<Rightarrow> []) in
      if ds = [] then None
      else (case octal_val 0 ds of None \<Rightarrow> None | Some n \<Rightarrow> if n \<le> U32_MAX then Some n else None))"

fun show_octal :: "nat \<Rightarrow> string" where
  "show_octal n = (if n < 8 then [digit_char n] else show_octal (n div 8) @ [digit_char (n mod 8)])"

declare show_octal.simps [simp del]

text \<open>\<open>trim_start_matches("0o")\<close> drops every leading \<open>0o\<close>.\<close>

fun trim_0o :: "string \<Rightarrow> string" where
  "trim_0o (a # b # cs) = (if a = CHR ''0'' \<and> b = CHR ''o'' then trim_0o cs else a # b # cs)"
| "trim_0o s = s"

definition push_opt :: "string \<Rightarrow> string \<Rightarrow> string \<Rightarrow> string" where
  "push_opt data key value = (if data = [] then [] else data @ '','') @ key @ ''='' @ value"

text \<open>One option after the others: the mount data and the read-only flag so far.\<close>

definition tmpfs_option :: "string \<Rightarrow> string \<times> bool \<Rightarrow> mount_error + string \<times> bool" where
  "tmpfs_option opt st =
     (if opt = [] then Inr st
      else if opt = ''ro'' then Inr (fst st, True)
      else if opt = ''rw'' then Inr (fst st, False)
      else (case split_once (CHR ''='') opt of
          None \<Rightarrow> Inl (TmpfsOption opt)
        | Some (key, val) \<Rightarrow>
            if key = ''size'' then
              (case parse_size val of
                 Inl _ \<Rightarrow> Inl (TmpfsSize val)
               | Inr bytes \<Rightarrow> Inr (push_opt (fst st) ''size'' (show_nat bytes), snd st))
            else if key = ''mode'' then
              (case from_octal (trim_0o val) of
                 None \<Rightarrow> Inl (TmpfsMode val)
               | Some parsed \<Rightarrow>
                   if 0xFFF < parsed then Inl (TmpfsMode val)
                   else Inr (push_opt (fst st) ''mode'' (show_octal parsed), snd st))
            else Inl (TmpfsOption key)))"

fun tmpfs_options :: "string list \<Rightarrow> string \<times> bool \<Rightarrow> mount_error + string \<times> bool" where
  "tmpfs_options [] st = Inr st"
| "tmpfs_options (opt # opts) st = and_then (tmpfs_option opt st) (tmpfs_options opts)"

definition split_tmpfs :: "string \<Rightarrow> string \<times> string option" where
  "split_tmpfs value = (case split_once (CHR '':'') value of
      Some (p, opts) \<Rightarrow> if opts \<noteq> [] then (p, Some opts) else (value, None)
    | None \<Rightarrow> (value, None))"

definition parse_tmpfs :: "string \<Rightarrow> mount_error + TmpfsMount" where
  "parse_tmpfs value = (case split_tmpfs value of (path, opts) \<Rightarrow>
     if \<not> starts_with path ''/'' then Inl (TmpfsRelative path)
     else if \<not> normal_path path then Inl (TmpfsDots path)
     else if path = ''/'' then Inl TmpfsRoot
     else and_then (case opts of None \<Rightarrow> Inr ([], False)
         | Some o' \<Rightarrow> tmpfs_options (split_on (CHR '','') o') ([], False))
       (\<lambda>st. Inr \<lparr>tm_target = path, tm_data = fst st, tm_readonly = snd st, tm_raw = value\<rparr>))"

section \<open>Lemmas\<close>

definition octal_byte :: "char \<Rightarrow> bool" where
  "octal_byte c \<longleftrightarrow> c \<in> set ''01234567''"

lemma octal_byte_digit: "m < 8 \<Longrightarrow> octal_byte (digit_char m)"
proof -
  assume "m < 8"
  then have "m \<in> {0, 1, 2, 3, 4, 5, 6, 7}" by auto
  then show ?thesis by (auto simp: octal_byte_def digit_char_def char_of_def bit_Suc_0_iff)
qed

lemma show_octal_digits: "c \<in> set (show_octal n) \<Longrightarrow> octal_byte c"
proof (induction n rule: show_octal.induct)
  case (1 n)
  then show ?case
    by (subst (asm) (2) show_octal.simps) (auto simp: octal_byte_digit split: if_splits)
qed

lemma octal_val_append:
  "octal_val acc (s @ [c]) = (case octal_val acc s of None \<Rightarrow> None | Some n \<Rightarrow> octal_val n [c])"
  by (induction s arbitrary: acc) auto

lemma octal_digit: "m < 8 \<Longrightarrow> octal_val acc [digit_char m] = Some (8 * acc + m)"
proof -
  assume "m < 8"
  then have "m \<in> {0, 1, 2, 3, 4, 5, 6, 7}" by auto
  then show ?thesis by (auto simp: digit_char_def char_of_def bit_Suc_0_iff)
qed

lemma octal_val_show_octal: "octal_val 0 (show_octal n) = Some n"
proof (induction n rule: show_octal.induct)
  case (1 n)
  show ?case
  proof (cases "n < 8")
    case True
    then show ?thesis by (subst show_octal.simps) (simp only: True if_True octal_digit mult_0_right add_0)
  next
    case False
    have "octal_val 0 (show_octal n) = octal_val (n div 8) [digit_char (n mod 8)]"
      by (subst show_octal.simps) (simp only: False if_False octal_val_append 1 [OF False] option.case)
    then show ?thesis by (simp add: octal_digit del: octal_val.simps)
  qed
qed

lemma show_octal_not_Nil [simp]: "show_octal n \<noteq> []"
  by (subst show_octal.simps) simp

lemma trim_0o_id: "CHR ''o'' \<notin> set s \<Longrightarrow> trim_0o s = s"
  by (cases s rule: trim_0o.cases) auto

lemma from_octal_show_octal: "n \<le> 0xFFF \<Longrightarrow> from_octal (trim_0o (show_octal n)) = Some n"
proof -
  assume n: "n \<le> 0xFFF"
  have "CHR ''o'' \<notin> set (show_octal n)"
    using show_octal_digits [of "CHR ''o''" n] by (auto simp: octal_byte_def)
  then have t: "trim_0o (show_octal n) = show_octal n" by (rule trim_0o_id)
  obtain c cs where c: "show_octal n = c # cs" by (cases "show_octal n") auto
  then have "octal_byte c" using show_octal_digits [of c n] by simp
  then have "c \<noteq> CHR ''+''" by (auto simp: octal_byte_def)
  then have "from_octal (show_octal n) = (if n \<le> U32_MAX then Some n else None)"
    unfolding from_octal_def c using octal_val_show_octal [of n] by (simp add: c)
  with n t show ?thesis by (simp add: U32_MAX_def)
qed

text \<open>The options \<open>parse_tmpfs\<close> keeps as mount data.\<close>

definition canonical_opt :: "string \<Rightarrow> bool" where
  "canonical_opt opt \<longleftrightarrow>
     (\<exists>n. n \<le> U64_MAX \<and> opt = ''size='' @ show_nat n) \<or> (\<exists>n. n \<le> 0xFFF \<and> opt = ''mode='' @ show_octal n)"

lemma canonical_optE:
  assumes "canonical_opt opt"
  obtains (size) n where "n \<le> U64_MAX" "opt = ''size='' @ show_nat n"
  | (mode) n where "n \<le> 0xFFF" "opt = ''mode='' @ show_octal n"
  using assms by (auto simp: canonical_opt_def simp del: max_values)

lemma canonical_opt_bytes: "canonical_opt opt \<Longrightarrow> CHR '','' \<notin> set opt \<and> CHR '':'' \<notin> set opt \<and> opt \<noteq> []"
proof (erule canonical_optE)
  fix n
  assume "opt = ''size='' @ show_nat n"
  then show ?thesis
    using not_digit_not_in_show_nat [of "CHR '',''"] not_digit_not_in_show_nat [of "CHR '':''"]
    by (auto simp: ascii_class_defs)
next
  fix n
  assume "opt = ''mode='' @ show_octal n"
  then show ?thesis
    using show_octal_digits [of "CHR '',''" n] show_octal_digits [of "CHR '':''" n]
    by (auto simp: octal_byte_def)
qed

definition add_opt :: "string \<Rightarrow> string \<Rightarrow> string" where
  "add_opt data opt = (if data = [] then opt else data @ '','' @ opt)"

lemma tmpfs_option_canonical:
  assumes "canonical_opt opt"
  shows "tmpfs_option opt (data, ro) = Inr (add_opt data opt, ro)"
  using assms
proof (cases rule: canonical_optE)
  case (size n)
  have "split_once (CHR ''='') opt = Some (''size'', show_nat n)"
    using split_once_append [of "CHR ''=''" "''size''"] size by simp
  then show ?thesis using size by (simp add: tmpfs_option_def push_opt_def add_opt_def)
next
  case (mode n)
  have "split_once (CHR ''='') opt = Some (''mode'', show_octal n)"
    using split_once_append [of "CHR ''=''" "''mode''"] mode by simp
  then show ?thesis using mode by (simp add: tmpfs_option_def push_opt_def add_opt_def from_octal_show_octal)
qed

lemma canonical_optI:
  "n \<le> U64_MAX \<Longrightarrow> canonical_opt (''size='' @ show_nat n)"
  "n \<le> 0xFFF \<Longrightarrow> canonical_opt (''mode='' @ show_octal n)"
  unfolding canonical_opt_def by blast+

lemma push_opt_add: "push_opt data key v = add_opt data (key @ ''='' @ v)"
  by (simp add: push_opt_def add_opt_def)

lemma tmpfs_option_result:
  assumes "tmpfs_option opt (data, ro) = Inr (data', ro')"
  shows "data' = data \<or> (\<exists>c. canonical_opt c \<and> data' = add_opt data c)"
proof (cases "opt = [] \<or> opt = ''ro'' \<or> opt = ''rw''")
  case True
  then show ?thesis using assms by (auto simp: tmpfs_option_def)
next
  case False
  with assms obtain key val where sp: "split_once (CHR ''='') opt = Some (key, val)"
    by (auto simp: tmpfs_option_def split: option.splits)
  show ?thesis
  proof (cases "key = ''size''")
    case True
    with False assms sp obtain n where "parse_size val = Inr n" "data' = add_opt data (''size='' @ show_nat n)"
      by (auto simp: tmpfs_option_def push_opt_add split: sum.splits)
    then show ?thesis using canonical_optI(1) [OF parse_size_bound] by blast
  next
    case ns: False
    with False assms sp obtain n where "n \<le> 0xFFF" "data' = add_opt data (''mode='' @ show_octal n)"
      by (auto simp: tmpfs_option_def push_opt_add not_less split: option.splits if_splits)
    then show ?thesis using canonical_optI(2) by blast
  qed
qed

lemma tmpfs_options_append:
  "tmpfs_options (as @ bs) st = and_then (tmpfs_options as st) (tmpfs_options bs)"
proof (induction as arbitrary: st)
  case (Cons a as)
  then show ?case by (cases "tmpfs_option a st") auto
qed simp

text \<open>Mount data that comes out of the parser.\<close>

definition canonical_data :: "string \<Rightarrow> bool" where
  "canonical_data data \<longleftrightarrow> (\<exists>cs. list_all canonical_opt cs \<and> data = fold (\<lambda>c d. add_opt d c) cs [])"

lemma canonical_data_result:
  "tmpfs_options opts (data, ro) = Inr (data', ro') \<Longrightarrow> canonical_data data \<Longrightarrow> canonical_data data'"
proof (induction opts arbitrary: data ro)
  case (Cons opt opts)
  then obtain d r where 1: "tmpfs_option opt (data, ro) = Inr (d, r)" and 2: "tmpfs_options opts (d, r) = Inr (data', ro')"
    by (auto simp: and_then_eq_Inr_iff)
  have "canonical_data d"
    using tmpfs_option_result [OF 1]
  proof
    assume "d = data"
    then show ?thesis using Cons.prems(2) by simp
  next
    assume "\<exists>c. canonical_opt c \<and> d = add_opt data c"
    then obtain c where "canonical_opt c" "d = add_opt data c" by blast
    moreover obtain cs where "list_all canonical_opt cs" "data = fold (\<lambda>c d. add_opt d c) cs []"
      using Cons.prems(2) by (auto simp: canonical_data_def)
    ultimately show ?thesis unfolding canonical_data_def by (intro exI [of _ "cs @ [c]"]) simp
  qed
  with Cons.IH [OF 2] show ?case by simp
qed simp

lemma fold_add_opt: "list_all canonical_opt cs \<Longrightarrow> fold (\<lambda>c d. add_opt d c) cs [] = join '','' cs"
proof (induction cs rule: rev_induct)
  case (snoc c cs)
  have "join '','' (cs @ [c]) = add_opt (join '','' cs) c" if "\<forall>x \<in> set cs. x \<noteq> []" for cs
    using that
  proof (induction cs rule: induct_list012)
    case (3 x y zs)
    then show ?case by (cases zs) (auto simp: add_opt_def)
  qed (simp_all add: add_opt_def)
  moreover have "\<forall>x \<in> set cs. x \<noteq> []" using snoc.prems canonical_opt_bytes by (auto simp: list_all_iff)
  ultimately show ?case using snoc by simp
qed simp

lemma tmpfs_options_canonical:
  "list_all canonical_opt cs \<Longrightarrow> tmpfs_options cs (data, ro) = Inr (fold (\<lambda>c d. add_opt d c) cs data, ro)"
  by (induction cs arbitrary: data) (auto simp: tmpfs_option_canonical)

section \<open>Properties\<close>

text \<open>A volume that is accepted is mounted at an absolute path without a \<open>..\<close> component, never at \<open>/\<close>; its source
  is what the host says the given path is, or the name of a managed volume, which is a single directory name that
  can not leave the volume directory; it is read-only exactly when the mode says so; its original text is kept.\<close>

lemma volume_spec_safe:
  assumes "parse_bind fs value = Inr m"
  shows "starts_with (bm_target m) ''/'' \<and> bm_target m \<noteq> ''/'' \<and> ''..'' \<notin> set (split_on (CHR ''/'') (bm_target m)) \<and>
    bm_raw m = value \<and>
    (\<exists>host rest. split_on (CHR '':'') value = host # bm_target m # rest \<and> (bm_readonly m \<longleftrightarrow> rest = [''ro'']) \<and>
      (case bm_named m of
         None \<Rightarrow> starts_with host ''/'' \<and> fs host = HostEntry (bm_source m)
       | Some n \<Rightarrow> n = host \<and> CHR ''/'' \<notin> set n \<and> n \<notin> {[], ''.'', ''..''}))"
proof -
  from assms obtain host container rest where sp: "split_on (CHR '':'') value = host # container # rest"
    by (auto simp: parse_bind_def split: list.splits)
  have len: "\<not> 1 < length rest" using assms sp by (auto simp: parse_bind_def split: if_splits)
  then have rest: "rest = [] \<or> (\<exists>m. rest = [m])" by (cases rest) auto
  have safe: "''..'' \<notin> set (split_on (CHR ''/'') p)" if "normal_path p" for p
    using that by (auto simp: normal_path_def path_parts_def list_all_iff)
  have name: "CHR ''/'' \<notin> set n \<and> n \<notin> {[], ''.'', ''..''}" if "validate_volume_name n = Inr u" for n u
    using that by (auto simp: validate_volume_name_def volume_byte_def list_all_iff ascii_class_defs split: if_splits)
  from assms sp len rest show ?thesis
    by (auto simp: parse_bind_def Let_def and_then_eq_Inr_iff safe dest!: name split: if_splits host_path.splits)
qed

lemma volume_spec_safe_witness:
  "\<exists>m. parse_bind (\<lambda>_. HostMissing) ''data:/srv:ro'' = Inr m \<and> bm_named m = Some ''data'' \<and> bm_readonly m"
proof -
  obtain m where m: "parse_bind (\<lambda>_. HostMissing) ''data:/srv:ro'' = Inr m" "bm_named m = Some ''data''"
    by (simp add: parse_bind_def starts_with_def normal_path_def path_parts_def validate_volume_name_def
        volume_byte_def ascii_class_defs)
  from volume_spec_safe [OF m(1)] m show ?thesis by auto
qed

text \<open>The mount data of a tmpfs is normal: given back as options (with \<open>ro\<close> for a read-only one) for the same path it
  yields the same data and flag, so sizes are in bytes and modes in octal once and for all.\<close>

lemma tmpfs_data_normal:
  assumes "parse_tmpfs value = Inr m" and "CHR '':'' \<notin> set (tm_target m)"
  shows "\<exists>m'. parse_tmpfs (tm_target m @ '':'' @ (if tm_readonly m then ''ro,'' else ''rw,'') @ tm_data m) = Inr m' \<and>
    tm_target m' = tm_target m \<and> tm_data m' = tm_data m \<and> tm_readonly m' = tm_readonly m"
proof -
  from assms(1) obtain opts where tg: "starts_with (tm_target m) ''/''" "normal_path (tm_target m)" "tm_target m \<noteq> ''/''"
    and o: "(case opts of None \<Rightarrow> Inr ([], False) | Some o' \<Rightarrow> tmpfs_options (split_on (CHR '','') o') ([], False))
        = Inr (tm_data m, tm_readonly m)"
    by (auto simp: parse_tmpfs_def and_then_eq_Inr_iff split: if_splits prod.splits)
  have "canonical_data []" by (auto simp: canonical_data_def intro!: exI [of _ "[]"])
  then have "canonical_data (tm_data m)"
    using o canonical_data_result by (auto split: option.splits)
  then obtain cs where cs: "list_all canonical_opt cs" "tm_data m = join '','' cs"
    and fold: "fold (\<lambda>c d. add_opt d c) cs [] = tm_data m"
    by (auto simp: canonical_data_def fold_add_opt)
  have no: "\<forall>c \<in> set cs. CHR '','' \<notin> set c" using cs(1) canonical_opt_bytes by (auto simp: list_all_iff)
  have again: "tmpfs_options (split_on (CHR '','') (w @ '','' @ tm_data m)) ([], False) = Inr (tm_data m, w = ''ro'')"
    if "w = ''ro'' \<or> w = ''rw''" for w
  proof -
    have w: "CHR '','' \<notin> set w" using that by auto
    have "split_on (CHR '','') (w @ '','' @ tm_data m) = w # (if cs = [] then [[]] else cs)"
      using split_on_append [OF w, of "tm_data m"] split_on_join [of cs "CHR '',''"] no cs(2)
      by (cases "cs = []") simp_all
    then show ?thesis using that tmpfs_options_canonical [OF cs(1), of "[]"] fold
      by (cases "cs = []") (auto simp: tmpfs_option_def cs(2))
  qed
  have split: "split_tmpfs (tm_target m @ '':'' @ w @ '','' @ tm_data m) = (tm_target m, Some (w @ '','' @ tm_data m))"
    for w using split_once_append [OF assms(2)] by (simp add: split_tmpfs_def)
  show ?thesis
    using tg again [of "''ro''"] again [of "''rw''"] split [of "''ro''"] split [of "''rw''"]
    by (cases "tm_readonly m") (simp_all add: parse_tmpfs_def)
qed

lemma tmpfs_data_normal_witness:
  "\<exists>m. parse_tmpfs ''/t:mode=17'' = Inr m \<and> (\<exists>m'. parse_tmpfs (tm_target m @ '':rw,'' @ tm_data m) = Inr m' \<and> tm_data m' = tm_data m)"
proof -
  obtain m where m: "parse_tmpfs ''/t:mode=17'' = Inr m" "CHR '':'' \<notin> set (tm_target m)" "\<not> tm_readonly m"
    by (simp add: parse_tmpfs_def split_tmpfs_def split_once_def starts_with_def normal_path_def path_parts_def
        tmpfs_option_def from_octal_def U32_MAX_def)
  from tmpfs_data_normal [OF m(1,2)] m show ?thesis by auto
qed

end
