(* ===== verification/Workload.thy ===== *)
theory Workload
  imports Rust_Str
begin

text \<open>
  The workload's environment and command line: src/workload.rs and the functions of src/main.rs that merge the
  image configuration with the options of \<open>run\<close>. Environments are ordered lists of pairs, as in the source.
\<close>

section \<open>Environment entries\<close>

datatype env_error =
    EnvNoName
  | EnvEquals
  | EnvNulName
  | EnvNulValue string
  | EnvMalformed string
  | EnvState string

definition NUL :: char where "NUL = CHR 0x00"

definition DEFAULT_PATH :: string where
  "DEFAULT_PATH = ''/usr/local/sbin:/usr/local/bin:/usr/sbin:/usr/bin:/sbin:/bin''"

definition validate_env_key :: "string \<Rightarrow> env_error + unit" where
  "validate_env_key key =
     (if key = [] then Inl EnvNoName
      else if CHR ''='' \<in> set key then Inl EnvEquals
      else if NUL \<in> set key then Inl EnvNulName else Inr ())"

definition validate_env_pair :: "string \<Rightarrow> string \<Rightarrow> env_error + unit" where
  "validate_env_pair key v =
     and_then (validate_env_key key) (\<lambda>_. if NUL \<in> set v then Inl (EnvNulValue key) else Inr ())"

definition validate_env_spec :: "string \<Rightarrow> env_error + unit" where
  "validate_env_spec spec = (case split_once (CHR ''='') spec of
      Some (key, v) \<Rightarrow> validate_env_pair key v | None \<Rightarrow> validate_env_key spec)"

definition env_value :: "(string \<times> string) list \<Rightarrow> string \<Rightarrow> string option" where
  "env_value env key = map_of (rev env) key"

fun upsert_env :: "(string \<times> string) list \<Rightarrow> string \<Rightarrow> string \<Rightarrow> (string \<times> string) list" where
  "upsert_env [] key v = [(key, v)]"
| "upsert_env ((k, w) # env) key v = (if k = key then (k, v) # env else (k, w) # upsert_env env key v)"

section \<open>The environment of an image run\<close>

fun image_entries :: "string list \<Rightarrow> (string \<times> string) list \<Rightarrow> env_error + (string \<times> string) list" where
  "image_entries [] env = Inr env"
| "image_entries (entry # es) env = (case split_once (CHR ''='') entry of
      None \<Rightarrow> Inl (EnvMalformed entry)
    | Some (k, v) \<Rightarrow> and_then (validate_env_pair k v) (\<lambda>_. image_entries es (upsert_env env k v)))"

text \<open>\<open>host_env\<close> is the environment of the calling process.\<close>

fun override_entries ::
  "(string \<Rightarrow> string option) \<Rightarrow> string list \<Rightarrow> (string \<times> string) list \<Rightarrow> env_error + (string \<times> string) list" where
  "override_entries host_env [] env = Inr env"
| "override_entries host_env (x # os) env =
     and_then (validate_env_spec x) (\<lambda>_. override_entries host_env os
       (case split_once (CHR ''='') x of
          Some (k, v) \<Rightarrow> upsert_env env k v
        | None \<Rightarrow> (case host_env x of Some v \<Rightarrow> upsert_env env x v | None \<Rightarrow> env)))"

definition push_default :: "string \<Rightarrow> string \<Rightarrow> (string \<times> string) list \<Rightarrow> (string \<times> string) list" where
  "push_default key v env = (if env_value env key = None then env @ [(key, v)] else env)"

definition build_image_env ::
  "(string \<Rightarrow> string option) \<Rightarrow> string list \<Rightarrow> string list \<Rightarrow> string option \<Rightarrow> string \<Rightarrow> bool
    \<Rightarrow> env_error + (string \<times> string) list" where
  "build_image_env host_env cfg_env overrides hostname cid tty =
     and_then (image_entries cfg_env []) (\<lambda>env.
     and_then (override_entries host_env overrides
         (push_default ''HOME'' ''/root'' (push_default ''PATH'' DEFAULT_PATH env))) (\<lambda>env.
     let env = push_default ''HOSTNAME'' (case hostname of None \<Rightarrow> cid | Some h \<Rightarrow> h) env in
     Inr (if tty then push_default ''TERM'' ''xterm'' env else env)))"

text \<open>How a state record keeps the environment, and how \<open>exec\<close> recovers it.\<close>

definition env_entry :: "string \<times> string \<Rightarrow> string" where
  "env_entry p = fst p @ ''='' @ snd p"

definition state_entry :: "string \<Rightarrow> env_error + string \<times> string" where
  "state_entry entry = (case split_once (CHR ''='') entry of
      None \<Rightarrow> Inl (EnvState entry)
    | Some (k, v) \<Rightarrow> and_then (validate_env_pair k v) (\<lambda>_. Inr (k, v)))"

definition state_env :: "string list \<Rightarrow> env_error + (string \<times> string) list" where
  "state_env entries = map_result state_entry entries"

section \<open>The command\<close>

definition resolve_image_argv :: "string list \<Rightarrow> string list \<Rightarrow> string option \<Rightarrow> string list \<Rightarrow> string list" where
  "resolve_image_argv cfg_entrypoint cfg_cmd entrypoint cli =
     (let entry = (case entrypoint of
            Some v \<Rightarrow> if v = [] then [] else [v]
          | None \<Rightarrow> cfg_entrypoint);
          argv = (if cli \<noteq> [] then entry @ cli else if entry \<noteq> [] then entry @ cfg_cmd else cfg_cmd)
      in if argv = [] then [''/bin/sh''] else argv)"

text \<open>\<open>Path::join\<close> with a name that has no slash.\<close>

definition path_join :: "string \<Rightarrow> string \<Rightarrow> string" where
  "path_join dir name = (if dir = [] \<or> last dir = CHR ''/'' then dir @ name else dir @ ''/'' @ name)"

definition resolve_argv0 :: "(string \<Rightarrow> bool) \<Rightarrow> string \<Rightarrow> (string \<times> string) list \<Rightarrow> string" where
  "resolve_argv0 is_file argv0 env =
     (if CHR ''/'' \<in> set argv0 then argv0
      else let path = (case env_value env ''PATH'' of None \<Rightarrow> DEFAULT_PATH | Some p \<Rightarrow> p) in
        (case find is_file (map (\<lambda>dir. path_join dir argv0) (filter (\<lambda>d. d \<noteq> []) (split_on (CHR '':'') path))) of
           Some cand \<Rightarrow> cand | None \<Rightarrow> argv0))"

definition resolve_argv ::
  "(string \<Rightarrow> bool) \<Rightarrow> (string \<times> string) list option \<Rightarrow> string list \<Rightarrow> string list" where
  "resolve_argv is_file env argv = (case env of None \<Rightarrow> argv
     | Some e \<Rightarrow> (case argv of [] \<Rightarrow> [] | a # rest \<Rightarrow> resolve_argv0 is_file a e # rest))"

definition user_is_mappable_rootless :: "string \<Rightarrow> bool" where
  "user_is_mappable_rootless spec =
     (let (user, grp) = (case split_once (CHR '':'') spec of Some (u, g) \<Rightarrow> (u, Some g) | None \<Rightarrow> (spec, None)) in
      (user = ''0'' \<or> user = ''root'') \<and> (case grp of None \<Rightarrow> True | Some g \<Rightarrow> g = ''0'' \<or> g = ''root''))"

text \<open>The user and whether the operator is warned.\<close>

definition resolve_image_user :: "string option \<Rightarrow> string option \<Rightarrow> bool \<Rightarrow> string option \<times> bool" where
  "resolve_image_user explicit img rootless =
     (case (case explicit of Some u \<Rightarrow> Some u | None \<Rightarrow> img) of
        None \<Rightarrow> (None, False)
      | Some user \<Rightarrow>
          if rootless \<and> explicit = None \<and> \<not> user_is_mappable_rootless user then (None, True) else (Some user, False))"

section \<open>Lemmas\<close>

definition env_ok :: "(string \<times> string) list \<Rightarrow> bool" where
  "env_ok env \<longleftrightarrow> distinct (map fst env) \<and> (\<forall>(k, v) \<in> set env. k \<noteq> [] \<and> CHR ''='' \<notin> set k \<and> NUL \<notin> set k \<and> NUL \<notin> set v)"

lemma validate_env_pair_iff:
  "validate_env_pair k v = Inr u \<longleftrightarrow> k \<noteq> [] \<and> CHR ''='' \<notin> set k \<and> NUL \<notin> set k \<and> NUL \<notin> set v"
  by (auto simp: validate_env_pair_def validate_env_key_def and_then_eq_Inr_iff)

lemma validate_env_key_iff: "validate_env_key k = Inr u \<longleftrightarrow> k \<noteq> [] \<and> CHR ''='' \<notin> set k \<and> NUL \<notin> set k"
  by (auto simp: validate_env_key_def)

lemma upsert_env_keys: "fst ` set (upsert_env env k v) = insert k (fst ` set env)"
  by (induction env k v rule: upsert_env.induct) auto

lemma set_upsert_env: "set (upsert_env env k v) \<subseteq> insert (k, v) (set env)"
  by (induction env k v rule: upsert_env.induct) auto

lemma distinct_upsert_env: "distinct (map fst env) \<Longrightarrow> distinct (map fst (upsert_env env k v))"
proof (induction env k v rule: upsert_env.induct)
  case (2 k w env key v)
  have "fst ` set (upsert_env env key v) = insert key (fst ` set env)" by (rule upsert_env_keys)
  with 2 show ?case by auto
qed simp

lemma map_of_upsert_env: "map_of (upsert_env env k v) = (map_of env)(k \<mapsto> v)"
  by (induction env k v rule: upsert_env.induct) (auto simp: fun_eq_iff)

lemma env_value_map_of: "distinct (map fst env) \<Longrightarrow> env_value env k = map_of env k"
  using map_of_inject_set [of "rev env" env] by (simp add: env_value_def rev_map [symmetric])

lemma env_ok_upsert: "env_ok env \<Longrightarrow> validate_env_pair k v = Inr u \<Longrightarrow> env_ok (upsert_env env k v)"
  using set_upsert_env [of env k v]
  by (auto simp: env_ok_def distinct_upsert_env validate_env_pair_iff)

lemma env_ok_push:
  assumes "env_ok env" and "validate_env_pair k v = Inr u"
  shows "env_ok (push_default k v env)"
proof -
  have "env_value env k = map_of env k" using assms(1) by (simp add: env_ok_def env_value_map_of)
  then show ?thesis using assms
    by (auto simp: env_ok_def push_default_def validate_env_pair_iff map_of_eq_None_iff)
qed

lemma image_entries_ok: "image_entries es env = Inr env' \<Longrightarrow> env_ok env \<Longrightarrow> env_ok env'"
  by (induction es env rule: image_entries.induct)
    (auto simp: and_then_eq_Inr_iff env_ok_upsert split: option.splits prod.splits)

lemma validate_env_spec_value:
  "validate_env_spec x = Inr u \<Longrightarrow> split_once (CHR ''='') x = Some (k, v) \<Longrightarrow> validate_env_pair k v = Inr ()"
  by (simp add: validate_env_spec_def)

lemma validate_env_spec_name:
  "validate_env_spec x = Inr u \<Longrightarrow> split_once (CHR ''='') x = None \<Longrightarrow> NUL \<notin> set v \<Longrightarrow> validate_env_pair x v = Inr ()"
  by (auto simp: validate_env_spec_def validate_env_key_iff validate_env_pair_iff)

text \<open>The values of the host environment cannot hold a NUL byte.\<close>

definition host_ok :: "(string \<Rightarrow> string option) \<Rightarrow> bool" where
  "host_ok host_env \<longleftrightarrow> (\<forall>k v. host_env k = Some v \<longrightarrow> NUL \<notin> set v)"

definition override_step ::
  "(string \<Rightarrow> string option) \<Rightarrow> string \<Rightarrow> (string \<times> string) list \<Rightarrow> (string \<times> string) list" where
  "override_step host_env x env = (case split_once (CHR ''='') x of
      Some (k, v) \<Rightarrow> upsert_env env k v
    | None \<Rightarrow> (case host_env x of Some v \<Rightarrow> upsert_env env x v | None \<Rightarrow> env))"

lemma override_entries_Cons:
  "override_entries host_env (x # os) env =
     and_then (validate_env_spec x) (\<lambda>_. override_entries host_env os (override_step host_env x env))"
  by (simp add: override_step_def)

lemma override_step_ok:
  assumes "validate_env_spec x = Inr u" and "env_ok env" and "host_ok host_env"
  shows "env_ok (override_step host_env x env)"
  using assms validate_env_spec_value [OF assms(1)] validate_env_spec_name [OF assms(1)]
  by (auto simp: override_step_def host_ok_def intro: env_ok_upsert split: option.splits)

lemma override_step_keys: "fst ` set env \<subseteq> fst ` set (override_step host_env x env)"
  by (auto simp: override_step_def upsert_env_keys split: option.splits)

lemma override_entries_ok:
  assumes "override_entries host_env os env = Inr env'" and "env_ok env" and "host_ok host_env"
  shows "env_ok env' \<and> fst ` set env \<subseteq> fst ` set env'"
  using assms
proof (induction os arbitrary: env)
  case (Cons x os)
  then obtain u where v: "validate_env_spec x = Inr u"
    and rest: "override_entries host_env os (override_step host_env x env) = Inr env'"
    unfolding override_entries_Cons and_then_eq_Inr_iff by blast
  from Cons.IH [OF rest override_step_ok [OF v Cons.prems(2,3)] Cons.prems(3)] override_step_keys [of env host_env x]
  show ?case by blast
qed simp

lemma override_last:
  assumes "override_entries host_env (os @ [k @ ''='' @ v]) env = Inr env'" and "CHR ''='' \<notin> set k"
  shows "map_of env' k = Some v"
  using assms
proof (induction os arbitrary: env)
  case Nil
  then show ?case
    using split_once_append [of "CHR ''=''" k v] by (auto simp: and_then_eq_Inr_iff map_of_upsert_env)
next
  case (Cons x os)
  then show ?case unfolding append_Cons override_entries_Cons and_then_eq_Inr_iff by blast
qed

lemma push_default_keys: "fst ` set env \<subseteq> fst ` set (push_default k v env)"
  by (auto simp: push_default_def)

lemma push_default_has: "k \<in> fst ` set (push_default k v env)"
  by (auto simp: push_default_def env_value_def map_of_eq_None_iff dest: map_of_SomeD)

lemma map_of_push_default: "env_ok env \<Longrightarrow> map_of env k = Some w \<Longrightarrow> map_of (push_default j v env) k = Some w"
  by (auto simp: push_default_def map_of_append map_add_def)

lemma state_entry_env_entry:
  "validate_env_pair k v = Inr u \<Longrightarrow> state_entry (env_entry (k, v)) = Inr (k, v)"
  using split_once_append [of "CHR ''=''" k v] validate_env_pair_iff [of k v]
  by (auto simp: state_entry_def env_entry_def)

lemma map_result_map: "map_result f (map g xs) = map_result (f \<circ> g) xs"
  by (induction xs) simp_all

section \<open>Properties\<close>

text \<open>The environment of an image run has every name once, always has \<open>PATH\<close>, \<open>HOME\<close> and \<open>HOSTNAME\<close>, gives
  the last \<open>-e NAME=VALUE\<close> its say, and is recovered unchanged from the entries stored in the container's record.\<close>

lemma image_env_complete:
  assumes "build_image_env host_env cfg_env (os @ [k @ ''='' @ v]) hostname cid tty = Inr env"
    and "host_ok host_env" and "CHR ''='' \<notin> set k"
    and "NUL \<notin> set cid" and "\<forall>h. hostname = Some h \<longrightarrow> NUL \<notin> set h"
  shows "distinct (map fst env) \<and> {''PATH'', ''HOME'', ''HOSTNAME''} \<subseteq> fst ` set env \<and> map_of env k = Some v \<and>
    state_env (map env_entry env) = Inr env"
proof -
  let ?host = "case hostname of None \<Rightarrow> cid | Some h \<Rightarrow> h"
  from assms(1) obtain e1 e2 where 1: "image_entries cfg_env [] = Inr e1"
    and 2: "override_entries host_env (os @ [k @ ''='' @ v])
         (push_default ''HOME'' ''/root'' (push_default ''PATH'' DEFAULT_PATH e1)) = Inr e2"
    and 3: "env = (if tty then push_default ''TERM'' ''xterm'' (push_default ''HOSTNAME'' ?host e2)
          else push_default ''HOSTNAME'' ?host e2)"
    unfolding build_image_env_def and_then_eq_Inr_iff Let_def by auto
  have "env_ok e1" by (rule image_entries_ok [OF 1]) (simp add: env_ok_def)
  then have base: "env_ok (push_default ''HOME'' ''/root'' (push_default ''PATH'' DEFAULT_PATH e1))"
    by (intro env_ok_push) (auto simp: validate_env_pair_iff NUL_def DEFAULT_PATH_def)
  note o = override_entries_ok [OF 2 base assms(2)]
  have host: "validate_env_pair ''HOSTNAME'' ?host = Inr ()"
    using assms(4,5) by (auto simp: validate_env_pair_iff NUL_def split: option.splits)
  have tm: "validate_env_pair ''TERM'' ''xterm'' = Inr ()" by (simp add: validate_env_pair_iff NUL_def)
  have e2: "env_ok e2" using o by simp
  then have e3: "env_ok (push_default ''HOSTNAME'' ?host e2)" using host by (rule env_ok_push)
  then have ok: "env_ok env" using 3 env_ok_push [OF e3 tm] by simp
  have keys: "fst ` set (push_default ''HOSTNAME'' ?host e2) \<subseteq> fst ` set env"
    using 3 push_default_keys [of "push_default ''HOSTNAME'' ?host e2"] by simp
  have sub: "fst ` set e2 \<subseteq> fst ` set env" by (rule subset_trans [OF push_default_keys keys])
  have h: "''HOSTNAME'' \<in> fst ` set env" by (rule subsetD [OF keys push_default_has])
  have path: "''PATH'' \<in> fst ` set e2"
    by (rule subsetD [OF conjunct2 [OF o] subsetD [OF push_default_keys push_default_has]])
  have home: "''HOME'' \<in> fst ` set e2"
    by (rule subsetD [OF conjunct2 [OF o] push_default_has])
  have std: "{''PATH'', ''HOME'', ''HOSTNAME''} \<subseteq> fst ` set env"
    by (simp only: insert_subset empty_subsetI subsetD [OF sub path] subsetD [OF sub home] h simp_thms)
  have "map_of env k = Some v"
    using override_last [OF 2 assms(3)] map_of_push_default [OF e2, of k v] map_of_push_default [OF e3, of k v] 3
    by auto
  moreover have "state_env (map env_entry env) = Inr env"
  proof -
    have "state_entry (env_entry p) = Inr p" if "p \<in> set env" for p
      using that ok state_entry_env_entry [of "fst p" "snd p"] by (auto simp: env_ok_def validate_env_pair_iff)
    then have "map_result (state_entry \<circ> env_entry) env = Inr (map (\<lambda>p. p) env)"
      by (intro map_result_Inr_map) simp
    then show ?thesis by (simp add: state_env_def map_result_map)
  qed
  ultimately show ?thesis using ok std by (simp add: env_ok_def)
qed

lemma image_env_complete_witness:
  "\<exists>env. build_image_env (\<lambda>_. None) [] [''A=b''] None ''ab'' False = Inr env \<and> map_of env ''A'' = Some ''b''"
proof -
  obtain env where e: "build_image_env (\<lambda>_. None) [] ([] @ [''A'' @ ''='' @ ''b'']) None ''ab'' False = Inr env"
    by (simp add: build_image_env_def validate_env_spec_def split_once_def validate_env_pair_def validate_env_key_def
        NUL_def Let_def)
  from image_env_complete [OF e] e show ?thesis by (auto simp: host_ok_def NUL_def)
qed

end
