(* ===== verification/Run_Args.thy ===== *)
theory Run_Args
  imports Cgroup Mounts Workload Security Logs Container_State
begin

text \<open>
  The command line of \<open>run\<close> (src/main.rs): the parser, published ports, the canonical launch arguments a detached
  container stores for \<open>start\<close> and \<open>restart\<close>, and their update by a rename.

  The arms of the parser's \<open>match\<close> are grouped by kind: options with a value, flags, the terminator, the
  \<open>--option=value\<close> forms, unknown options and positionals; the literals are pairwise different, so the
  grouping keeps the order of the arms. IPv6 text, float text and what the host says of devices and paths are
  parameters, collected in \<open>run_ctx\<close>; IPv4 text is modelled.
\<close>

section \<open>Addresses\<close>

datatype IpAddr = V4 Ipv4Addr | V6 "128 word"

text \<open>\<open>Ipv4Addr::from_str\<close>: four decimal octets of at most three digits, without leading zeros.\<close>

definition parse_octet :: "string \<Rightarrow> 8 word option" where
  "parse_octet s =
     (if s = [] \<or> 3 < length s \<or> \<not> list_all is_ascii_digit s \<or> (1 < length s \<and> hd s = CHR ''0'') then None
      else (case parse_uint 255 s of None \<Rightarrow> None | Some n \<Rightarrow> Some (word_of_nat n)))"

definition parse_v4 :: "string \<Rightarrow> Ipv4Addr option" where
  "parse_v4 s = (case map parse_octet (split_on (CHR ''.'') s) of
      [Some a, Some b, Some c, Some d] \<Rightarrow> Some (Ipv4Addr a b c d) | _ \<Rightarrow> None)"

fun show_v4 :: "Ipv4Addr \<Rightarrow> string" where
  "show_v4 (Ipv4Addr a b c d) =
     show_nat (unat a) @ ''.'' @ show_nat (unat b) @ ''.'' @ show_nat (unat c) @ ''.'' @ show_nat (unat d)"

record run_ctx =
  c_parse_f64 :: "string \<Rightarrow> F64 option"
  c_show_f64 :: "F64 \<Rightarrow> string"
  c_round :: "rat \<Rightarrow> F64"
  c_stat :: "string \<Rightarrow> (bool \<times> 64 word) option"
  c_fs :: "string \<Rightarrow> host_path"
  c_parse_v6 :: "string \<Rightarrow> 128 word option"
  c_show_v6 :: "128 word \<Rightarrow> string"

definition parse_ip :: "run_ctx \<Rightarrow> string \<Rightarrow> IpAddr option" where
  "parse_ip ctx s = (case parse_v4 s of Some a \<Rightarrow> Some (V4 a)
     | None \<Rightarrow> (case c_parse_v6 ctx s of Some a \<Rightarrow> Some (V6 a) | None \<Rightarrow> None))"

definition host_ip_label :: "run_ctx \<Rightarrow> IpAddr \<Rightarrow> string" where
  "host_ip_label ctx ip = (case ip of V6 a \<Rightarrow> ''['' @ c_show_v6 ctx a @ '']'' | V4 a \<Rightarrow> show_v4 a)"

section \<open>Published ports\<close>

datatype PortProtocol = Tcp | Udp

fun protocol_label :: "PortProtocol \<Rightarrow> string" where
  "protocol_label Tcp = ''tcp''"
| "protocol_label Udp = ''udp''"

record PublishedPort =
  host_ip :: IpAddr
  host_port :: nat
  container_port :: nat
  protocol :: PortProtocol

datatype publish_error =
    PublishEmpty
  | PublishBracket string
  | PublishAddress string
  | PublishSyntax string
  | PublishV6
  | PublishPort string

definition parse_port :: "string \<Rightarrow> publish_error + nat" where
  "parse_port s = (case parse_uint U16_MAX s of
      None \<Rightarrow> Inl (PublishPort s) | Some p \<Rightarrow> if p = 0 then Inl (PublishPort s) else Inr p)"

definition UNSPECIFIED :: IpAddr where "UNSPECIFIED = V4 (Ipv4Addr 0 0 0 0)"

definition split_protocol :: "string \<Rightarrow> string \<times> PortProtocol" where
  "split_protocol v = (case strip_suffix ''/udp'' v of Some w \<Rightarrow> (w, Udp)
     | None \<Rightarrow> (case strip_suffix ''/tcp'' v of Some w \<Rightarrow> (w, Tcp) | None \<Rightarrow> (v, Tcp)))"

definition split_address :: "run_ctx \<Rightarrow> string \<Rightarrow> publish_error + IpAddr \<times> string" where
  "split_address ctx v = (case strip_prefix ''['' v of
      Some rest \<Rightarrow>
        (case split_once (CHR '']'') rest of
           None \<Rightarrow> Inl (PublishBracket v)
         | Some (addr, rest) \<Rightarrow>
             and_then (ok_or (PublishAddress v) (parse_ip ctx addr)) (\<lambda>ip.
             and_then (ok_or (PublishSyntax v) (strip_prefix '':'' rest)) (\<lambda>rest. Inr (ip, rest))))
    | None \<Rightarrow>
        (let colons = length (filter (\<lambda>c. c = CHR '':'') v) in
         if colons = 0 then Inr (UNSPECIFIED, v)
         else if colons = 1 then
           (case split_once (CHR '':'') v of
              None \<Rightarrow> Inr (UNSPECIFIED, v)
            | Some (first, second) \<Rightarrow>
                (case parse_ip ctx first of Some ip \<Rightarrow> Inr (ip, second) | None \<Rightarrow> Inr (UNSPECIFIED, v)))
         else if colons = 2 then
           (case split_once (CHR '':'') v of
              None \<Rightarrow> Inl (PublishAddress v)
            | Some (first, second) \<Rightarrow>
                and_then (ok_or (PublishAddress v) (parse_ip ctx first)) (\<lambda>ip. Inr (ip, second)))
         else Inl PublishV6))"

definition parse_publish :: "run_ctx \<Rightarrow> string \<Rightarrow> publish_error + PublishedPort" where
  "parse_publish ctx v0 = (case split_protocol v0 of (v, prot) \<Rightarrow>
     if v = [] then Inl PublishEmpty
     else and_then (split_address ctx v) (\<lambda>p. case p of (ip, rest) \<Rightarrow>
       and_then (case split_once (CHR '':'') rest of
           Some (h, c) \<Rightarrow> and_then (parse_port h) (\<lambda>h. and_then (parse_port c) (\<lambda>c. Inr (h, c)))
         | None \<Rightarrow> and_then (parse_port rest) (\<lambda>h. Inr (h, h)))
       (\<lambda>q. Inr \<lparr>host_ip = ip, host_port = fst q, container_port = snd q, protocol = prot\<rparr>)))"

definition publish_text :: "run_ctx \<Rightarrow> PublishedPort \<Rightarrow> string" where
  "publish_text ctx p =
     host_ip_label ctx (host_ip p) @ '':'' @ show_nat (host_port p) @ '':'' @ show_nat (container_port p)
       @ (case protocol p of Tcp \<Rightarrow> [] | Udp \<Rightarrow> ''/udp'')"

section \<open>Options\<close>

datatype NetMode = NetNone | NetBridge | NetHost

fun net_label :: "NetMode \<Rightarrow> string" where
  "net_label NetNone = ''none''"
| "net_label NetHost = ''host''"
| "net_label NetBridge = ''bridge''"

datatype PullPolicy = Missing | Always | Never

fun PullPolicy_label :: "PullPolicy \<Rightarrow> string" where
  "PullPolicy_label Missing = ''missing''"
| "PullPolicy_label Always = ''always''"
| "PullPolicy_label Never = ''never''"

datatype run_error =
    NeedsValue string
  | UnknownOption string
  | CgroupOption cg_error
  | CapOption string
  | MountOption mount_error
  | PublishOption publish_error
  | EnvOption env_error
  | LogFilesOption max_files_error
  | LogSizeOption string
  | BadPids string
  | BadNet string
  | BadSeccomp string
  | BadPull string
  | BadDns string
  | BadLabel string
  | BadName string

definition PullPolicy_parse :: "string \<Rightarrow> run_error + PullPolicy" where
  "PullPolicy_parse v =
     (if v = ''missing'' then Inr Missing else if v = ''always'' then Inr Always
      else if v = ''never'' then Inr Never else Inl (BadPull v))"

record RunArgs =
  ra_rootfs :: "string option"
  ra_image :: "string option"
  ra_memory :: "string option"
  ra_memory_reservation :: "string option"
  ra_memory_swap :: "int option"
  ra_cpus :: "F64 option"
  ra_cpuset_cpus :: "string option"
  ra_cpuset_mems :: "string option"
  ra_pids :: "int option"
  ra_oom_group :: bool
  ra_device_read_bps :: "IoLimit list"
  ra_device_write_bps :: "IoLimit list"
  ra_device_read_iops :: "IoLimit list"
  ra_device_write_iops :: "IoLimit list"
  ra_hostname :: "string option"
  ra_user :: "string option"
  ra_net :: NetMode
  ra_net_specified :: bool
  ra_use_init :: bool
  ra_seccomp :: SeccompMode
  ra_cap_add :: "string list"
  ra_cap_drop :: "string list"
  ra_no_overlay :: bool
  ra_tmpfs_upper :: bool
  ra_readonly :: bool
  ra_tmpfs :: "TmpfsMount list"
  ra_platform :: "string option"
  ra_entrypoint :: "string option"
  ra_workdir :: "string option"
  ra_pull :: PullPolicy
  ra_log_max_size :: nat
  ra_log_max_files :: nat
  ra_log_options_set :: bool
  ra_env :: "string list"
  ra_ports :: "PublishedPort list"
  ra_volumes :: "BindMount list"
  ra_dns :: "string list"
  ra_labels :: "(string \<times> string) list"
  ra_argv :: "string list"
  ra_interactive :: bool
  ra_tty :: bool
  ra_detach :: bool
  ra_name :: "string option"
  ra_rm :: bool

definition RunArgs_default :: RunArgs where
  "RunArgs_default = \<lparr>ra_rootfs = None, ra_image = None, ra_memory = None, ra_memory_reservation = None,
     ra_memory_swap = None, ra_cpus = None, ra_cpuset_cpus = None, ra_cpuset_mems = None, ra_pids = None,
     ra_oom_group = False, ra_device_read_bps = [], ra_device_write_bps = [], ra_device_read_iops = [],
     ra_device_write_iops = [], ra_hostname = None, ra_user = None, ra_net = NetNone, ra_net_specified = False,
     ra_use_init = False, ra_seccomp = Default, ra_cap_add = [], ra_cap_drop = [], ra_no_overlay = False,
     ra_tmpfs_upper = False, ra_readonly = False, ra_tmpfs = [], ra_platform = None, ra_entrypoint = None,
     ra_workdir = None, ra_pull = Missing, ra_log_max_size = 10 * 1024 * 1024, ra_log_max_files = 3,
     ra_log_options_set = False, ra_env = [], ra_ports = [], ra_volumes = [], ra_dns = [], ra_labels = [],
     ra_argv = [], ra_interactive = False, ra_tty = False, ra_detach = False, ra_name = None, ra_rm = False\<rparr>"

text \<open>\<open>logs::parse_size\<close>: a float times a unit, cut to an integer; \<open>u64::MAX as f64\<close> is \<open>2 ^ 64\<close>.\<close>

definition log_size_unit :: "string \<Rightarrow> string \<times> nat" where
  "log_size_unit v =
     (if v = [] then (v, 1)
      else if last v \<in> set ''kK'' then (butlast v, 2 ^ 10)
      else if last v \<in> set ''mM'' then (butlast v, 2 ^ 20)
      else if last v \<in> set ''gG'' then (butlast v, 2 ^ 30)
      else (v, 1))"

definition parse_log_size :: "run_ctx \<Rightarrow> string \<Rightarrow> run_error + nat" where
  "parse_log_size ctx value0 =
     (let v = trim value0 in
      if v = [] then Inl (LogSizeOption value0)
      else let v = (if last v \<in> set ''bB'' \<and> butlast v \<noteq> [] then butlast v else v);
               (number, multiplier) = log_size_unit v;
               number = trim number in
        if number = [] then Inl (LogSizeOption value0)
        else (case c_parse_f64 ctx number of
            Some (Finite x) \<Rightarrow>
              if x < 0 then Inl (LogSizeOption value0)
              else (case c_round ctx (x * of_nat multiplier) of
                  Finite b \<Rightarrow> if b > 2 ^ 64 then Inl (LogSizeOption value0) else Inr (nat (min \<lfloor>b\<rfloor> (2 ^ 64 - 1)))
                | _ \<Rightarrow> Inl (LogSizeOption value0))
          | _ \<Rightarrow> Inl (LogSizeOption value0)))"

definition parse_label :: "string \<Rightarrow> run_error + string \<times> string" where
  "parse_label raw = (case split_once (CHR ''='') raw of
      None \<Rightarrow> Inl (BadLabel raw) | Some (k, v) \<Rightarrow> if k = [] then Inl (BadLabel raw) else Inr (k, v))"

section \<open>The parser\<close>

definition value_options :: "string list" where
  "value_options = [''--rootfs'', ''--memory'', ''-m'', ''--memory-reservation'', ''--memory-swap'', ''--cpus'',
     ''--cpuset-cpus'', ''--cpuset-mems'', ''--pids'', ''--hostname'', ''-h'', ''--user'', ''-u'', ''--net'',
     ''--seccomp'', ''--cap-add'', ''--cap-drop'', ''--tmpfs'', ''--platform'', ''--entrypoint'', ''--workdir'', ''-w'',
     ''--pull'', ''--log-max-size'', ''--log-max-file'', ''--env'', ''-e'', ''--volume'', ''-v'', ''--publish'', ''-p'',
     ''--device-read-bps'', ''--device-write-bps'', ''--device-read-iops'', ''--device-write-iops'', ''--dns'',
     ''--label'', ''--name'']"

definition cap_list :: "string \<Rightarrow> run_error + string list" where
  "cap_list v = map_err (\<lambda>_. CapOption v) (parse_capability_list v)"

definition set_option :: "run_ctx \<Rightarrow> string \<Rightarrow> string \<Rightarrow> RunArgs \<Rightarrow> run_error + RunArgs" where
  "set_option ctx s v a =
     (if s = ''--rootfs'' then Inr (a\<lparr>ra_rootfs := Some v\<rparr>)
      else if s = ''--memory'' \<or> s = ''-m'' then Inr (a\<lparr>ra_memory := Some v\<rparr>)
      else if s = ''--memory-reservation'' then Inr (a\<lparr>ra_memory_reservation := Some v\<rparr>)
      else if s = ''--memory-swap'' then
        and_then (map_err CgroupOption (parse_memory_swap v)) (\<lambda>x. Inr (a\<lparr>ra_memory_swap := Some x\<rparr>))
      else if s = ''--cpus'' then
        and_then (map_err CgroupOption (parse_cpus (c_parse_f64 ctx) (c_round ctx) v)) (\<lambda>x. Inr (a\<lparr>ra_cpus := Some x\<rparr>))
      else if s = ''--cpuset-cpus'' then
        and_then (map_err CgroupOption (parse_cpuset v)) (\<lambda>x. Inr (a\<lparr>ra_cpuset_cpus := Some x\<rparr>))
      else if s = ''--cpuset-mems'' then
        and_then (map_err CgroupOption (parse_cpuset v)) (\<lambda>x. Inr (a\<lparr>ra_cpuset_mems := Some x\<rparr>))
      else if s = ''--pids'' then
        and_then (ok_or (BadPids v) (parse_i64 v)) (\<lambda>x. Inr (a\<lparr>ra_pids := Some x\<rparr>))
      else if s = ''--hostname'' \<or> s = ''-h'' then Inr (a\<lparr>ra_hostname := Some v\<rparr>)
      else if s = ''--user'' \<or> s = ''-u'' then Inr (a\<lparr>ra_user := Some v\<rparr>)
      else if s = ''--net'' then
        (if v = ''bridge'' then Inr (a\<lparr>ra_net_specified := True, ra_net := NetBridge\<rparr>)
         else if v = ''host'' then Inr (a\<lparr>ra_net_specified := True, ra_net := NetHost\<rparr>)
         else if v = ''none'' then Inr (a\<lparr>ra_net_specified := True, ra_net := NetNone\<rparr>)
         else Inl (BadNet v))
      else if s = ''--seccomp'' then
        (if v = ''unconfined'' then Inr (a\<lparr>ra_seccomp := Unconfined\<rparr>)
         else if v = ''default'' then Inr (a\<lparr>ra_seccomp := Default\<rparr>) else Inl (BadSeccomp v))
      else if s = ''--cap-add'' then
        and_then (cap_list v) (\<lambda>cs. Inr (a\<lparr>ra_cap_add := btree_extend (ra_cap_add a) cs\<rparr>))
      else if s = ''--cap-drop'' then
        and_then (cap_list v) (\<lambda>cs. Inr (a\<lparr>ra_cap_drop := btree_extend (ra_cap_drop a) cs\<rparr>))
      else if s = ''--tmpfs'' then
        and_then (map_err MountOption (parse_tmpfs v)) (\<lambda>t. Inr (a\<lparr>ra_tmpfs := ra_tmpfs a @ [t]\<rparr>))
      else if s = ''--platform'' then Inr (a\<lparr>ra_platform := Some v\<rparr>)
      else if s = ''--entrypoint'' then Inr (a\<lparr>ra_entrypoint := Some v\<rparr>)
      else if s = ''--workdir'' \<or> s = ''-w'' then Inr (a\<lparr>ra_workdir := Some v\<rparr>)
      else if s = ''--pull'' then and_then (PullPolicy_parse v) (\<lambda>p. Inr (a\<lparr>ra_pull := p\<rparr>))
      else if s = ''--log-max-size'' then
        and_then (parse_log_size ctx v) (\<lambda>n. Inr (a\<lparr>ra_log_max_size := n, ra_log_options_set := True\<rparr>))
      else if s = ''--log-max-file'' then
        and_then (map_err LogFilesOption (parse_max_files v)) (\<lambda>n.
          Inr (a\<lparr>ra_log_max_files := n, ra_log_options_set := True\<rparr>))
      else if s = ''--env'' \<or> s = ''-e'' then
        and_then (map_err EnvOption (validate_env_spec v)) (\<lambda>_. Inr (a\<lparr>ra_env := ra_env a @ [v]\<rparr>))
      else if s = ''--volume'' \<or> s = ''-v'' then
        and_then (map_err MountOption (parse_bind (c_fs ctx) v)) (\<lambda>m. Inr (a\<lparr>ra_volumes := ra_volumes a @ [m]\<rparr>))
      else if s = ''--publish'' \<or> s = ''-p'' then
        and_then (map_err PublishOption (parse_publish ctx v)) (\<lambda>p. Inr (a\<lparr>ra_ports := ra_ports a @ [p]\<rparr>))
      else if s = ''--device-read-bps'' then
        and_then (map_err CgroupOption (parse_io_limit (c_stat ctx) ''device-read-bps'' v)) (\<lambda>l.
          Inr (a\<lparr>ra_device_read_bps := ra_device_read_bps a @ [l]\<rparr>))
      else if s = ''--device-write-bps'' then
        and_then (map_err CgroupOption (parse_io_limit (c_stat ctx) ''device-write-bps'' v)) (\<lambda>l.
          Inr (a\<lparr>ra_device_write_bps := ra_device_write_bps a @ [l]\<rparr>))
      else if s = ''--device-read-iops'' then
        and_then (map_err CgroupOption (parse_io_limit (c_stat ctx) ''device-read-iops'' v)) (\<lambda>l.
          Inr (a\<lparr>ra_device_read_iops := ra_device_read_iops a @ [l]\<rparr>))
      else if s = ''--device-write-iops'' then
        and_then (map_err CgroupOption (parse_io_limit (c_stat ctx) ''device-write-iops'' v)) (\<lambda>l.
          Inr (a\<lparr>ra_device_write_iops := ra_device_write_iops a @ [l]\<rparr>))
      else if s = ''--dns'' then
        (if parse_ip ctx v = None then Inl (BadDns v) else Inr (a\<lparr>ra_dns := ra_dns a @ [v]\<rparr>))
      else if s = ''--label'' then
        and_then (parse_label v) (\<lambda>p. Inr (a\<lparr>ra_labels := btree_insert (fst p) (snd p) (ra_labels a)\<rparr>))
      else if s = ''--name'' then
        (if \<not> valid_name v then Inl (BadName v) else Inr (a\<lparr>ra_name := Some v\<rparr>))
      else Inl (UnknownOption s))"

definition set_flag :: "string \<Rightarrow> RunArgs \<Rightarrow> RunArgs option" where
  "set_flag s a =
     (if s = ''--oom-group'' then Some (a\<lparr>ra_oom_group := True\<rparr>)
      else if s = ''-i'' \<or> s = ''--interactive'' then Some (a\<lparr>ra_interactive := True\<rparr>)
      else if s = ''-t'' \<or> s = ''--tty'' then Some (a\<lparr>ra_tty := True\<rparr>)
      else if s = ''-it'' \<or> s = ''-ti'' then Some (a\<lparr>ra_interactive := True, ra_tty := True\<rparr>)
      else if s = ''--init'' then Some (a\<lparr>ra_use_init := True\<rparr>)
      else if s = ''--no-overlay'' then Some (a\<lparr>ra_no_overlay := True\<rparr>)
      else if s = ''--tmpfs-upper'' then Some (a\<lparr>ra_tmpfs_upper := True\<rparr>)
      else if s = ''--read-only'' then Some (a\<lparr>ra_readonly := True\<rparr>)
      else if s = ''--detach'' \<or> s = ''-d'' then Some (a\<lparr>ra_detach := True\<rparr>)
      else if s = ''--rm'' then Some (a\<lparr>ra_rm := True\<rparr>)
      else None)"

text \<open>The arms after the exact names: \<open>--pull=\<close>, \<open>--cap-add=\<close>, \<open>--cap-drop=\<close>. \<open>None\<close>: not such an option.\<close>

definition set_inline :: "string \<Rightarrow> RunArgs \<Rightarrow> (run_error + RunArgs) option" where
  "set_inline s a =
     (case strip_prefix ''--pull='' s of
        Some v \<Rightarrow> Some (and_then (PullPolicy_parse v) (\<lambda>p. Inr (a\<lparr>ra_pull := p\<rparr>)))
      | None \<Rightarrow> (case strip_prefix ''--cap-add='' s of
          Some v \<Rightarrow> Some (and_then (cap_list v) (\<lambda>cs. Inr (a\<lparr>ra_cap_add := btree_extend (ra_cap_add a) cs\<rparr>)))
        | None \<Rightarrow> (case strip_prefix ''--cap-drop='' s of
            Some v \<Rightarrow> Some (and_then (cap_list v) (\<lambda>cs. Inr (a\<lparr>ra_cap_drop := btree_extend (ra_cap_drop a) cs\<rparr>)))
          | None \<Rightarrow> None)))"

text \<open>The rest of the line after the terminator, and after the first positional.\<close>

definition after_terminator :: "string list \<Rightarrow> RunArgs \<Rightarrow> RunArgs" where
  "after_terminator rest a =
     (if ra_rootfs a \<noteq> None \<or> ra_image a \<noteq> None then a\<lparr>ra_argv := rest\<rparr>
      else (case rest of [] \<Rightarrow> a | first # argv \<Rightarrow> a\<lparr>ra_image := Some first, ra_argv := argv\<rparr>))"

definition positional :: "string \<Rightarrow> string list \<Rightarrow> RunArgs \<Rightarrow> RunArgs" where
  "positional s rest a =
     (if ra_rootfs a \<noteq> None then a\<lparr>ra_argv := s # rest\<rparr>
      else if ra_image a = None then
        a\<lparr>ra_image := Some s,
          ra_argv := (case rest of [] \<Rightarrow> [] | r # rs \<Rightarrow> if r = ''--'' then rs else r # rs)\<rparr>
      else a\<lparr>ra_argv := s # rest\<rparr>)"

fun run_loop :: "run_ctx \<Rightarrow> RunArgs \<Rightarrow> string list \<Rightarrow> run_error + RunArgs" where
  "run_loop ctx a [] = Inr a"
| "run_loop ctx a [s] =
     (if s \<in> set value_options then Inl (NeedsValue s)
      else (case set_flag s a of Some a' \<Rightarrow> Inr a'
        | None \<Rightarrow> if s = ''--'' then Inr (after_terminator [] a)
            else (case set_inline s a of Some r \<Rightarrow> r
              | None \<Rightarrow> if starts_with s ''-'' \<and> 1 < length s then Inl (UnknownOption s)
                  else Inr (positional s [] a))))"
| "run_loop ctx a (s # t # rest) =
     (if s \<in> set value_options then and_then (set_option ctx s t a) (\<lambda>a'. run_loop ctx a' rest)
      else (case set_flag s a of Some a' \<Rightarrow> run_loop ctx a' (t # rest)
        | None \<Rightarrow> if s = ''--'' then Inr (after_terminator (t # rest) a)
            else (case set_inline s a of Some r \<Rightarrow> and_then r (\<lambda>a'. run_loop ctx a' (t # rest))
              | None \<Rightarrow> if starts_with s ''-'' \<and> 1 < length s then Inl (UnknownOption s)
                  else Inr (positional s (t # rest) a))))"

definition parse_run_args :: "run_ctx \<Rightarrow> string list \<Rightarrow> run_error + RunArgs" where
  "parse_run_args ctx args = run_loop ctx RunArgs_default args"

section \<open>The launch arguments of a detached container\<close>

definition opt_args :: "string \<Rightarrow> ('a \<Rightarrow> string) \<Rightarrow> 'a option \<Rightarrow> string list" where
  "opt_args flag f v = (case v of None \<Rightarrow> [] | Some x \<Rightarrow> [flag, f x])"

definition list_args :: "string \<Rightarrow> ('a \<Rightarrow> string) \<Rightarrow> 'a list \<Rightarrow> string list" where
  "list_args flag f xs = concat (map (\<lambda>x. [flag, f x]) xs)"

definition flag_args :: "string \<Rightarrow> bool \<Rightarrow> string list" where
  "flag_args flag b = (if b then [flag] else [])"

definition io_args :: "string \<Rightarrow> (IoLimit \<Rightarrow> nat option) \<Rightarrow> IoLimit list \<Rightarrow> string list" where
  "io_args flag f ls = concat (map (\<lambda>l. case f l of None \<Rightarrow> [] | Some n \<Rightarrow> [flag, device l @ '':'' @ show_nat n]) ls)"

definition detached_launch_args :: "run_ctx \<Rightarrow> RunArgs \<Rightarrow> string \<Rightarrow> string list" where
  "detached_launch_args ctx a rootfs =
     [''-d'']
     @ opt_args ''--name'' (\<lambda>v. v) (ra_name a)
     @ opt_args ''--memory'' (\<lambda>v. v) (ra_memory a)
     @ opt_args ''--memory-reservation'' (\<lambda>v. v) (ra_memory_reservation a)
     @ opt_args ''--memory-swap'' (\<lambda>v. if v < 0 then ''-1'' else show_int v) (ra_memory_swap a)
     @ opt_args ''--cpus'' (c_show_f64 ctx) (ra_cpus a)
     @ opt_args ''--cpuset-cpus'' (\<lambda>v. v) (ra_cpuset_cpus a)
     @ opt_args ''--cpuset-mems'' (\<lambda>v. v) (ra_cpuset_mems a)
     @ opt_args ''--pids'' show_int (ra_pids a)
     @ flag_args ''--oom-group'' (ra_oom_group a)
     @ io_args ''--device-read-bps'' read_bps (ra_device_read_bps a)
     @ io_args ''--device-write-bps'' write_bps (ra_device_write_bps a)
     @ io_args ''--device-read-iops'' read_iops (ra_device_read_iops a)
     @ io_args ''--device-write-iops'' write_iops (ra_device_write_iops a)
     @ opt_args ''--hostname'' (\<lambda>v. v) (ra_hostname a)
     @ opt_args ''--user'' (\<lambda>v. v) (ra_user a)
     @ [''--net'', net_label (ra_net a)]
     @ flag_args ''--init'' (ra_use_init a)
     @ (if ra_seccomp a = Unconfined then [''--seccomp'', ''unconfined''] else [])
     @ list_args ''--cap-add'' (\<lambda>v. v) (ra_cap_add a)
     @ list_args ''--cap-drop'' (\<lambda>v. v) (ra_cap_drop a)
     @ flag_args ''--no-overlay'' (ra_no_overlay a)
     @ flag_args ''--tmpfs-upper'' (ra_tmpfs_upper a)
     @ flag_args ''--read-only'' (ra_readonly a)
     @ list_args ''--tmpfs'' tm_raw (ra_tmpfs a)
     @ opt_args ''--platform'' (\<lambda>v. v) (ra_platform a)
     @ opt_args ''--entrypoint'' (\<lambda>v. v) (ra_entrypoint a)
     @ opt_args ''--workdir'' (\<lambda>v. v) (ra_workdir a)
     @ (if ra_pull a \<noteq> Missing then [''--pull'', PullPolicy_label (ra_pull a)] else [])
     @ (if ra_log_options_set a
        then [''--log-max-size'', show_nat (ra_log_max_size a), ''--log-max-file'', show_nat (ra_log_max_files a)]
        else [])
     @ list_args ''--env'' (\<lambda>v. v) (ra_env a)
     @ list_args ''--publish'' (publish_text ctx) (ra_ports a)
     @ list_args ''--volume'' bm_raw (ra_volumes a)
     @ list_args ''--dns'' (\<lambda>v. v) (ra_dns a)
     @ list_args ''--label'' (\<lambda>(k, v). k @ ''='' @ v) (ra_labels a)
     @ flag_args ''--rm'' (ra_rm a)
     @ (if ra_rootfs a \<noteq> None then [''--rootfs'', rootfs]
        else (case ra_image a of None \<Rightarrow> [] | Some img \<Rightarrow> [img]))
     @ (if ra_argv a \<noteq> [] then ''--'' # ra_argv a else [])"

text \<open>Renaming edits the stored arguments in place; \<open>drain\<close> and \<open>insert\<close> are the list operations of the
  source.\<close>

definition option_end :: "string list \<Rightarrow> nat" where
  "option_end args = (case position (\<lambda>x. x = ''--'') args of None \<Rightarrow> length args | Some i \<Rightarrow> i)"

definition set_launch_name :: "string option \<Rightarrow> string list \<Rightarrow> string list" where
  "set_launch_name name args =
     (case (position (\<lambda>x. x = ''--name'') (take (option_end args) args), name) of
        (Some pos, Some n) \<Rightarrow>
          if pos + 1 < length args then args[pos + 1 := n]
          else take pos args @ [''--name'', n] @ drop (pos + 2) args
      | (Some pos, None) \<Rightarrow> take pos args @ drop (pos + 2) args
      | (None, Some n) \<Rightarrow>
          (let k = (if args \<noteq> [] \<and> hd args = ''-d'' then 1 else 0) in
           take k args @ [''--name'', n] @ drop k args)
      | (None, None) \<Rightarrow> args)"

definition launch_has_flag :: "string list \<Rightarrow> string \<Rightarrow> bool" where
  "launch_has_flag args flag \<longleftrightarrow> flag \<in> set (take (option_end args) args)"

end
