(* ===== verification/Launch_Args.thy ===== *)
theory Launch_Args
  imports Run_Args
begin

text \<open>
  The stored launch arguments parse back (src/main.rs): what every option parser returns is accepted again in its printed
  form, the parser keeps the fields of a command line well formed, and reading the canonical arguments group by group
  rebuilds the command line they were printed from.
\<close>

section \<open>What the parsers return parses again\<close>

lemma parse_memory_swap_range: "parse_memory_swap v = Inr x \<Longrightarrow> x = - 1 \<or> 0 < x \<and> x < 2 ^ 63"
  by (auto simp: parse_memory_swap_def Let_def split: if_splits sum.splits)

lemma show_nat_not_unlimited: "to_ascii_lowercase (show_nat n) \<noteq> ''unlimited'' \<and> show_nat n \<noteq> ''-1''"
proof -
  obtain c cs where c: "show_nat n = c # cs" by (cases "show_nat n") auto
  then have d: "is_ascii_digit c" using show_nat_is_digit [of c n] by simp
  then have "to_ascii_lowercase_char c = c" by (auto simp: to_ascii_lowercase_char_def ascii_class_defs)
  with c d show ?thesis by (auto simp: to_ascii_lowercase_def ascii_class_defs)
qed

lemma parse_memory_swap_show:
  assumes "x = - 1 \<or> 0 < x \<and> x < 2 ^ 63"
  shows "parse_memory_swap (if x < 0 then ''-1'' else show_int x) = Inr x"
proof (cases "x < 0")
  case True
  have "trim ''-1'' = ''-1''" by (rule trim_plain) (auto simp: ws_byte_def)
  with True assms show ?thesis by (simp add: parse_memory_swap_def)
next
  case False
  then have "nat x \<le> U64_MAX" "show_int x = show_nat (nat x)" "0 < nat x" "nat x < 2 ^ 63"
    using assms by (auto simp: U64_MAX_def show_int_def nat_less_iff)
  with False show_nat_not_unlimited [of "nat x"] show ?thesis
    by (simp add: parse_memory_swap_def Let_def)
qed

lemma cpuset_chars:
  assumes "parse_cpuset v = Inr x" and "c \<in> set x"
  shows "is_ascii_digit c \<or> c = CHR ''-'' \<or> c = CHR '',''"
proof -
  from assms(1) have g: "list_all cpuset_group (split_on (CHR '','') x)"
    by (auto simp: parse_cpuset_def Let_def split: if_splits)
  have num: "is_ascii_digit c" if "cpuset_number n = Some k" "c \<in> set n" for n k c
    using that by (auto simp: cpuset_number_def list_all_iff split: if_splits)
  have grp: "is_ascii_digit c \<or> c = CHR ''-''" if "cpuset_group p" "c \<in> set p" for p c
    using that num by (fastforce simp: cpuset_group_def Let_def split: option.splits prod.splits dest: split_once_SomeD)
  from assms(2) have "c = CHR '','' \<or> (\<exists>p \<in> set (split_on (CHR '','') x). c \<in> set p)"
  proof (induction x)
    case (Cons a x)
    then show ?case by (cases "split_on (CHR '','') x") auto
  qed simp
  with g grp show ?thesis by (auto simp: list_all_iff)
qed

lemma parse_cpuset_again: "parse_cpuset v = Inr x \<Longrightarrow> parse_cpuset x = Inr x"
proof -
  assume a: "parse_cpuset v = Inr x"
  have "\<not> ws_byte (CHR ''-'')" "\<not> ws_byte (CHR '','')" by (simp_all add: ws_byte_def)
  then have "trim x = x"
    using cpuset_chars [OF a] digit_not_ws by (intro trim_plain) blast
  with a show ?thesis by (auto simp: parse_cpuset_def Let_def split: if_splits)
qed

lemma device_label_again: "a \<le> U32_MAX \<Longrightarrow> b \<le> U32_MAX \<Longrightarrow> parse_device stat (device_label a b) = Inr (device_label a b)"
proof -
  assume a: "a \<le> U32_MAX" "b \<le> U32_MAX"
  have colon: "CHR '':'' \<notin> set (show_nat n)" "CHR ''/'' \<notin> set (show_nat n)" for n
    by (rule not_digit_not_in_show_nat; simp add: ascii_class_defs)+
  have "\<not> ws_byte (CHR '':'')" by (simp add: ws_byte_def)
  then have t: "trim (device_label a b) = device_label a b"
    using show_nat_is_digit digit_not_ws by (intro trim_plain) (auto simp: device_label_def)
  have "split_once (CHR '':'') (device_label a b) = Some (show_nat a, show_nat b)"
    using split_once_append [OF colon(1), of a "show_nat b"] by (simp add: device_label_def)
  with t a colon show ?thesis by (simp add: parse_device_def U32_MAX_def U64_MAX_def)
qed

lemma device_label_colon: "CHR '':'' \<in> set (device_label a b)"
  by (simp add: device_label_def)

text \<open>A stored limit: printed with its value, it is read back.\<close>

definition stored_limit :: "run_ctx \<Rightarrow> string \<Rightarrow> (IoLimit \<Rightarrow> nat option) \<Rightarrow> IoLimit \<Rightarrow> bool" where
  "stored_limit ctx opt f l \<longleftrightarrow>
     (\<exists>n. f l = Some n \<and> parse_io_limit (c_stat ctx) opt (device l @ '':'' @ show_nat n) = Inr l)"

lemma parse_positive_byte_size_show:
  assumes "0 < n" and "n \<le> U64_MAX"
  shows "parse_positive_byte_size (show_nat n) = Inr n"
proof -
  have "is_ascii_digit (last (show_nat n))" by (rule show_nat_is_digit [of _ n]) simp
  then have "last (show_nat n) \<notin> set ''bB''" by (auto simp: ascii_class_defs)
  then show ?thesis using assms by (simp add: parse_positive_byte_size_def Let_def del: max_values)
qed

lemma parse_positive_number_show: "0 < n \<Longrightarrow> n \<le> U64_MAX \<Longrightarrow> parse_positive_number (show_nat n) f = Inr n"
  by (simp add: parse_positive_number_def del: max_values)

lemma rsplit_limit: "rsplit_once (CHR '':'') (d @ '':'' @ show_nat n) = Some (d, show_nat n)"
  using rsplit_once_append [of "CHR '':''" "show_nat n" d] not_digit_not_in_show_nat [of "CHR '':''" n]
  by (simp add: ascii_class_defs)

lemma parse_io_limit_again:
  assumes "parse_device stat d = Inr d" and "0 < n" and "n \<le> U64_MAX"
  shows "parse_io_limit stat ''device-read-bps'' (d @ '':'' @ show_nat n) = Inr ((no_io_limit d)\<lparr>read_bps := Some n\<rparr>)"
    and "parse_io_limit stat ''device-write-bps'' (d @ '':'' @ show_nat n) = Inr ((no_io_limit d)\<lparr>write_bps := Some n\<rparr>)"
    and "parse_io_limit stat ''device-read-iops'' (d @ '':'' @ show_nat n) = Inr ((no_io_limit d)\<lparr>read_iops := Some n\<rparr>)"
    and "parse_io_limit stat ''device-write-iops'' (d @ '':'' @ show_nat n) = Inr ((no_io_limit d)\<lparr>write_iops := Some n\<rparr>)"
  unfolding parse_io_limit_def rsplit_limit
  by (simp_all add: assms parse_positive_byte_size_show parse_positive_number_show del: max_values)

text \<open>Device numbers fit into 32 bits: the kernel's major and minor numbers do.\<close>

definition stat_ok :: "run_ctx \<Rightarrow> bool" where
  "stat_ok ctx \<longleftrightarrow> (\<forall>p b dev. c_stat ctx p = Some (b, dev) \<longrightarrow>
     unat (dev_major dev) \<le> U32_MAX \<and> unat (dev_minor dev) \<le> U32_MAX)"

lemma parse_device_again:
  assumes "parse_device (c_stat ctx) spec = Inr d" and "stat_ok ctx"
  shows "parse_device (c_stat ctx) d = Inr d"
proof -
  have "\<exists>a b. a \<le> U32_MAX \<and> b \<le> U32_MAX \<and> d = device_label a b"
    using assms
    by (fastforce simp: parse_device_def stat_ok_def Let_def simp del: max_values
        split: option.splits prod.splits if_splits)
  then show ?thesis using device_label_again by blast
qed

lemma parse_positive_bounds:
  "parse_positive_byte_size v = Inr n \<Longrightarrow> 0 < n \<and> n \<le> U64_MAX"
  "parse_positive_number v f = Inr n \<Longrightarrow> 0 < n \<and> n \<le> U64_MAX"
  by (auto simp: parse_positive_byte_size_def parse_positive_number_def Let_def simp del: max_values
      dest: parse_size_bound parse_uint_bound split: option.splits sum.splits if_splits)

lemma parse_io_limit_value:
  assumes "stat_ok ctx"
  shows "parse_io_limit (c_stat ctx) ''device-read-bps'' v = Inr l \<Longrightarrow> \<exists>d n. parse_device (c_stat ctx) d = Inr d \<and> 0 < n \<and> n \<le> U64_MAX \<and>
      l = (no_io_limit d)\<lparr>read_bps := Some n\<rparr>"
    and "parse_io_limit (c_stat ctx) ''device-write-bps'' v = Inr l \<Longrightarrow> \<exists>d n. parse_device (c_stat ctx) d = Inr d \<and> 0 < n \<and> n \<le> U64_MAX \<and>
      l = (no_io_limit d)\<lparr>write_bps := Some n\<rparr>"
    and "parse_io_limit (c_stat ctx) ''device-read-iops'' v = Inr l \<Longrightarrow> \<exists>d n. parse_device (c_stat ctx) d = Inr d \<and> 0 < n \<and> n \<le> U64_MAX \<and>
      l = (no_io_limit d)\<lparr>read_iops := Some n\<rparr>"
    and "parse_io_limit (c_stat ctx) ''device-write-iops'' v = Inr l \<Longrightarrow> \<exists>d n. parse_device (c_stat ctx) d = Inr d \<and> 0 < n \<and> n \<le> U64_MAX \<and>
      l = (no_io_limit d)\<lparr>write_iops := Some n\<rparr>"
  using parse_device_again [OF _ assms]
  by (fastforce simp: parse_io_limit_def and_then_eq_Inr_iff simp del: max_values dest!: parse_positive_bounds split: prod.splits)+

lemma parse_io_limit_stored:
  assumes "stat_ok ctx"
  shows "parse_io_limit (c_stat ctx) ''device-read-bps'' v = Inr l \<Longrightarrow> stored_limit ctx ''device-read-bps'' read_bps l"
    and "parse_io_limit (c_stat ctx) ''device-write-bps'' v = Inr l \<Longrightarrow> stored_limit ctx ''device-write-bps'' write_bps l"
    and "parse_io_limit (c_stat ctx) ''device-read-iops'' v = Inr l \<Longrightarrow> stored_limit ctx ''device-read-iops'' read_iops l"
    and "parse_io_limit (c_stat ctx) ''device-write-iops'' v = Inr l \<Longrightarrow> stored_limit ctx ''device-write-iops'' write_iops l"
  by (drule parse_io_limit_value [OF assms]; elim exE conjE; simp only: stored_limit_def;
      (rule exI, rule conjI, simp add: no_io_limit_def, simp add: no_io_limit_def parse_io_limit_again [simplified append.simps] del: max_values))+

lemma cap_list_again:
  assumes "cap_list v = Inr cs" and "c \<in> set cs"
  shows "cap_list c = Inr [c]"
proof -
  from assms(1) obtain rs where rs: "parse_requests v = Inr rs"
    and cs: "cs = map (\<lambda>r. case r of AllCaps \<Rightarrow> ''ALL'' | Named cap \<Rightarrow> capability_name cap) rs"
    by (auto simp: cap_list_def parse_capability_list_def and_then_eq_Inr_iff)
  have range: "0 \<le> n \<and> n \<le> 63" if "parse_request x = Inr (Named n)" for x n
  proof -
    have "position (\<lambda>c. c = y) CAPABILITY_NAMES = Some i \<Longrightarrow> i < 41" for y i
      using position_SomeD [of _ CAPABILITY_NAMES i] by auto
    with that show ?thesis
      by (fastforce simp: parse_request_def Let_def split: if_splits option.splits)
  qed
  from rs obtain ys where "map_result parse_request (split_on (CHR '','') v) = Inr ys" "rs = btree_set ys"
    by (auto simp: parse_requests_def Let_def and_then_eq_Inr_iff split: if_splits)
  then have named: "0 \<le> n \<and> n \<le> 63" if "Named n \<in> set rs" for n
    using that range by (auto simp: map_result_eq_Inr_iff list_all2_conv_all_nth in_set_conv_nth)
  have all: "parse_requests ''ALL'' = Inr [AllCaps]"
  proof -
    have "trim ''ALL'' = ''ALL''" "parse_request ''ALL'' = Inr AllCaps"
      by (simp_all add: parse_request_def str_eval)
    then show ?thesis by (simp add: parse_requests_def btree_set_def)
  qed
  from assms(2) cs obtain r where r: "r \<in> set rs" "c = (case r of AllCaps \<Rightarrow> ''ALL'' | Named cap \<Rightarrow> capability_name cap)"
    by auto
  show ?thesis
  proof (cases r)
    case AllCaps
    with r all show ?thesis by (simp add: cap_list_def parse_capability_list_def)
  next
    case (Named n)
    with r named parse_requests_name [of n] show ?thesis by (simp add: cap_list_def parse_capability_list_def)
  qed
qed

lemma parse_octet_show: "parse_octet (show_nat (unat w)) = Some (w :: 8 word)"
  if "length (show_nat (unat w)) \<le> 3 \<and> (1 < length (show_nat (unat w)) \<longrightarrow> hd (show_nat (unat w)) \<noteq> CHR ''0'')"
proof -
  have "unat w < 2 ^ LENGTH(8)" by (rule unsigned_less)
  then have "unat w \<le> 255" by simp
  with that show ?thesis by (simp add: parse_octet_def show_nat_digits)
qed

lemma show_nat_hd: "0 < n \<Longrightarrow> hd (show_nat n) \<noteq> CHR ''0''"
proof (induction n rule: show_nat.induct)
  case (1 n)
  show ?case
  proof (cases "n < 10")
    case True
    then have "show_nat n = [digit_char n]" by (subst show_nat.simps) simp
    moreover have "digit_char n \<noteq> CHR ''0''"
      using code_digit_char [OF True] 1(2) by (auto dest!: arg_cong [where f = code])
    ultimately show ?thesis by simp
  next
    case False
    then have "0 < n div 10" by auto
    with 1 False show ?thesis by (subst show_nat.simps) (simp add: hd_append)
  qed
qed

lemma parse_octet_word [simp]: "parse_octet (show_nat (unat w)) = Some (w :: 8 word)"
proof (rule parse_octet_show)
  have "unat w < 2 ^ LENGTH(8)" by (rule unsigned_less)
  then have "unat w < 10 ^ 3" by simp
  then have "length (show_nat (unat w)) \<le> 3" by (rule length_show_nat_le) simp
  moreover have "hd (show_nat (unat w)) \<noteq> CHR ''0''" if "1 < length (show_nat (unat w))"
  proof (cases "unat w = 0")
    case True
    with that show ?thesis by (simp add: show_nat.simps)
  qed (use show_nat_hd in auto)
  ultimately show "length (show_nat (unat w)) \<le> 3 \<and> (1 < length (show_nat (unat w)) \<longrightarrow> hd (show_nat (unat w)) \<noteq> CHR ''0'')"
    by blast
qed

lemma parse_v4_show [simp]: "parse_v4 (show_v4 a) = Some a"
proof (cases a)
  case (Ipv4Addr x y z w)
  have dot: "CHR ''.'' \<notin> set (show_nat n)" for n
    by (rule not_digit_not_in_show_nat) (simp add: ascii_class_defs)
  show ?thesis
    unfolding Ipv4Addr show_v4.simps parse_v4_def
    using split_on_append [OF dot] split_on_plain [OF dot] by simp
qed

text \<open>What the standard library documents of IPv6 text: it is read back, has no bracket and is no IPv4 text.\<close>

definition v6_text_ok :: "run_ctx \<Rightarrow> bool" where
  "v6_text_ok ctx \<longleftrightarrow> (\<forall>a. c_parse_v6 ctx (c_show_v6 ctx a) = Some a \<and> CHR '']'' \<notin> set (c_show_v6 ctx a) \<and>
     parse_v4 (c_show_v6 ctx a) = None)"

definition port_ok :: "PublishedPort \<Rightarrow> bool" where
  "port_ok p \<longleftrightarrow> 1 \<le> host_port p \<and> host_port p \<le> U16_MAX \<and> 1 \<le> container_port p \<and> container_port p \<le> U16_MAX"

lemma parse_port_range: "parse_port s = Inr n \<Longrightarrow> 1 \<le> n \<and> n \<le> U16_MAX"
  by (auto simp: parse_port_def simp del: max_values dest: parse_uint_bound split: option.splits if_splits)

lemma parse_publish_ok:
  assumes "parse_publish ctx v = Inr p"
  shows "port_ok p"
proof -
  obtain w prot where sp: "split_protocol v = (w, prot)" by fastforce
  from assms obtain ip rest q where
    q: "(case split_once (CHR '':'') rest of
           Some (h, c) \<Rightarrow> and_then (parse_port h) (\<lambda>h. and_then (parse_port c) (\<lambda>c. Inr (h, c)))
         | None \<Rightarrow> and_then (parse_port rest) (\<lambda>h. Inr (h, h))) = Inr q"
    and p: "p = \<lparr>host_ip = ip, host_port = fst q, container_port = snd q, protocol = prot\<rparr>"
    unfolding parse_publish_def sp by (auto simp: and_then_eq_Inr_iff split: if_splits)
  then show ?thesis
    by (cases "split_once (CHR '':'') rest")
      (auto simp: port_ok_def and_then_eq_Inr_iff simp del: max_values One_nat_def dest!: parse_port_range)
qed

lemma split_protocol_text:
  assumes "last v \<noteq> CHR ''p''" and "v \<noteq> []"
  shows "split_protocol (v @ (case prot of Tcp \<Rightarrow> [] | Udp \<Rightarrow> ''/udp'')) = (v, prot)"
proof (cases prot)
  case Tcp
  have "strip_suffix suf v = None" if "last suf = CHR ''p''" "suf \<noteq> []" for suf
    using strip_suffix_SomeD [of suf v] assms that by (cases "strip_suffix suf v") auto
  then show ?thesis by (simp add: Tcp split_protocol_def)
next
  case Udp
  then show ?thesis using strip_suffix_append [of "''/udp''" v] by (simp add: split_protocol_def)
qed

lemma show_v4_chars: "c \<in> set (show_v4 a) \<Longrightarrow> is_ascii_digit c \<or> c = CHR ''.''"
  by (cases a) (auto dest: show_nat_is_digit)

lemma count_colons_digits: "filter (\<lambda>c. c = CHR '':'') (show_nat n) = []"
  using not_digit_not_in_show_nat [of "CHR '':''" n] by (auto simp: filter_empty_conv ascii_class_defs)

lemma split_address_text:
  assumes "v6_text_ok ctx"
  shows "split_address ctx (host_ip_label ctx ip @ '':'' @ show_nat h @ '':'' @ show_nat c) =
    Inr (ip, show_nat h @ '':'' @ show_nat c)"
proof (cases ip)
  case (V4 a)
  let ?t = "show_nat h @ '':'' @ show_nat c"
  have no: "CHR '':'' \<notin> set (show_v4 a)" using show_v4_chars [of "CHR '':''" a] by (auto simp: ascii_class_defs)
  then have "filter (\<lambda>c. c = CHR '':'') (show_v4 a) = []" by (auto simp: filter_empty_conv)
  then have two: "length (filter (\<lambda>c. c = CHR '':'') (show_v4 a @ '':'' @ ?t)) = 2"
    by (simp add: count_colons_digits)
  have "show_v4 a \<noteq> []" by (cases a) simp
  then have "hd (show_v4 a @ '':'' @ ?t) \<noteq> CHR ''[''"
    using show_v4_chars [of "hd (show_v4 a)" a] by (auto simp: ascii_class_defs)
  then have "strip_prefix ''['' (show_v4 a @ '':'' @ ?t) = None"
    by (cases "strip_prefix ''['' (show_v4 a @ '':'' @ ?t)") (auto dest: strip_prefix_SomeD)
  moreover have "split_once (CHR '':'') (show_v4 a @ '':'' @ ?t) = Some (show_v4 a, ?t)"
    using split_once_append [OF no, of ?t] by simp
  ultimately show ?thesis using two by (simp add: V4 host_ip_label_def split_address_def parse_ip_def)
next
  case (V6 a)
  let ?t = "show_nat h @ '':'' @ show_nat c"
  from assms have a: "c_parse_v6 ctx (c_show_v6 ctx a) = Some a" "CHR '']'' \<notin> set (c_show_v6 ctx a)"
    "parse_v4 (c_show_v6 ctx a) = None" by (auto simp: v6_text_ok_def)
  have "strip_prefix ''['' (''['' @ c_show_v6 ctx a @ '']'' @ '':'' @ ?t) = Some (c_show_v6 ctx a @ '']'' @ '':'' @ ?t)"
    by (rule strip_prefix_append)
  moreover have "split_once (CHR '']'') (c_show_v6 ctx a @ '']'' @ '':'' @ ?t) = Some (c_show_v6 ctx a, '':'' @ ?t)"
    using split_once_append [OF a(2), of "'':'' @ ?t"] by simp
  moreover have "strip_prefix '':'' ('':'' @ ?t) = Some ?t" by (rule strip_prefix_append)
  ultimately show ?thesis
    unfolding V6 host_ip_label_def split_address_def by (simp add: parse_ip_def a)
qed

lemma publish_again:
  assumes "v6_text_ok ctx" and "port_ok p"
  shows "parse_publish ctx (publish_text ctx p) = Inr p"
proof -
  let ?v = "host_ip_label ctx (host_ip p) @ '':'' @ show_nat (host_port p) @ '':'' @ show_nat (container_port p)"
  have "last ?v = last (show_nat (container_port p))" by simp
  then have "last ?v \<noteq> CHR ''p''"
    using show_nat_is_digit [of "last (show_nat (container_port p))" "container_port p"]
    by (auto simp: ascii_class_defs)
  then have sp: "split_protocol (publish_text ctx p) = (?v, protocol p)"
    using split_protocol_text [of ?v "protocol p"] by (simp add: publish_text_def)
  have colon: "CHR '':'' \<notin> set (show_nat (host_port p))"
    by (rule not_digit_not_in_show_nat) (simp add: ascii_class_defs)
  have port: "parse_port (show_nat n) = Inr n" if "1 \<le> n" "n \<le> U16_MAX" for n
    using that by (simp add: parse_port_def del: max_values)
  have "split_once (CHR '':'') (show_nat (host_port p) @ '':'' @ show_nat (container_port p)) =
      Some (show_nat (host_port p), show_nat (container_port p))"
    using split_once_append [OF colon] by simp
  with assms(2) show ?thesis
    unfolding parse_publish_def sp split_address_text [OF assms(1), of "host_ip p" "host_port p" "container_port p"] prod.case
    by (simp add: split_address_text [OF assms(1), simplified] port port_ok_def del: max_values)
qed

text \<open>
  What the language documents of \<open>f64\<close>: decimal integers are rounded, small integers and the integer part of a
  representable number are representable, \<open>u64::MAX\<close> rounds up, and a printed number is read back.
\<close>

definition f64_text_ok :: "run_ctx \<Rightarrow> bool" where
  "f64_text_ok ctx \<longleftrightarrow>
     (\<forall>n. c_parse_f64 ctx (show_nat n) = Some (c_round ctx (of_nat n))) \<and>
     (\<forall>n < 2 ^ 53. c_round ctx (of_nat n) = Finite (of_nat n)) \<and>
     c_round ctx (2 ^ 64 - 1) = Finite (2 ^ 64) \<and>
     (\<forall>x b. c_round ctx x = Finite b \<longrightarrow> c_round ctx (of_int \<lfloor>b\<rfloor>) = Finite (of_int \<lfloor>b\<rfloor>)) \<and>
     (\<forall>s x. c_parse_f64 ctx s = Some x \<longrightarrow> c_parse_f64 ctx (trim (c_show_f64 ctx x)) = Some x)"

definition log_size_ok :: "run_ctx \<Rightarrow> nat \<Rightarrow> bool" where
  "log_size_ok ctx n \<longleftrightarrow> n = 2 ^ 64 - 1 \<or> n < 2 ^ 64 \<and> c_round ctx (of_nat n) = Finite (of_nat n)"

lemma parse_log_size_ok:
  assumes "parse_log_size ctx v = Inr n" and "f64_text_ok ctx"
  shows "log_size_ok ctx n"
proof -
  from assms(1) obtain x b where b: "c_round ctx x = Finite b" "n = nat (min \<lfloor>b\<rfloor> (2 ^ 64 - 1))"
    by (auto simp: parse_log_size_def Let_def split: if_splits prod.splits option.splits F64.splits)
  show ?thesis
  proof (cases "2 ^ 64 - 1 \<le> \<lfloor>b\<rfloor>")
    case True
    then have "min \<lfloor>b\<rfloor> (2 ^ 64 - 1) = 2 ^ 64 - 1" by (rule min_absorb2)
    then have "n = nat (2 ^ 64 - 1)" using b(2) by (simp only:)
    then show ?thesis by (simp add: log_size_ok_def)
  next
    case False
    then have m: "min \<lfloor>b\<rfloor> (2 ^ 64 - 1) = \<lfloor>b\<rfloor>" "\<lfloor>b\<rfloor> < 2 ^ 64" by linarith+
    then have n: "n = nat \<lfloor>b\<rfloor>" using b(2) by (simp only:)
    have n64: "n < 2 ^ 64" using zless_nat_conj [of "\<lfloor>b\<rfloor>" "2 ^ 64"] m(2) by (simp add: n nat_power_eq)
    have "c_round ctx (of_nat n) = Finite (of_nat n)"
    proof (cases "0 \<le> \<lfloor>b\<rfloor>")
      case True
      then have "(of_nat n :: rat) = of_int \<lfloor>b\<rfloor>" unfolding n by (simp add: of_nat_nat)
      with assms(2) b(1) show ?thesis unfolding f64_text_ok_def by metis
    next
      case False
      then have "n = 0" by (simp add: n)
      have "\<forall>n < 2 ^ 53. c_round ctx (of_nat n) = Finite (of_nat n)" using assms(2) by (simp add: f64_text_ok_def)
      then have "c_round ctx (of_nat 0) = Finite (of_nat 0)" by (rule allE [of _ 0]) simp
      with \<open>n = 0\<close> show ?thesis by simp
    qed
    with n64 show ?thesis by (simp add: log_size_ok_def)
  qed
qed

lemma log_size_again:
  assumes "log_size_ok ctx n" and "f64_text_ok ctx"
  shows "parse_log_size ctx (show_nat n) = Inr n"
proof -
  have d: "is_ascii_digit (last (show_nat n))" by (rule show_nat_is_digit [of _ n]) simp
  have no: "last (show_nat n) \<notin> set ''bB''" "last (show_nat n) \<notin> set ''kK''" "last (show_nat n) \<notin> set ''mM''" "last (show_nat n) \<notin> set ''gG''"
    using d by (auto simp: ascii_class_defs)
  have p: "c_parse_f64 ctx (show_nat n) = Some (c_round ctx (of_nat n))"
    and top: "c_round ctx (2 ^ 64 - 1) = Finite (2 ^ 64)" using assms(2) by (auto simp: f64_text_ok_def)
  have re: "c_round ctx x = Finite b \<Longrightarrow> c_round ctx (of_int \<lfloor>b\<rfloor>) = Finite (of_int \<lfloor>b\<rfloor>)" for x b
    using assms(2) unfolding f64_text_ok_def by blast
  have eq: "parse_log_size ctx (show_nat n) = Inr n" if r: "c_round ctx (of_nat n) = Finite x" "c_round ctx x = Finite x" "0 \<le> x" "x \<le> 2 ^ 64" "n = nat (min \<lfloor>x\<rfloor> (2 ^ 64 - 1))" for x
    using that no p by (simp add: parse_log_size_def log_size_unit_def)
  show ?thesis
  proof (cases "n = 2 ^ 64 - 1")
    case True
    have "c_round ctx (2 ^ 64) = Finite (2 ^ 64)" using re [OF top] by simp
    moreover have "c_round ctx (of_nat n) = Finite (2 ^ 64)" using top True by simp
    ultimately show ?thesis using True by (intro eq [of "2 ^ 64"]) simp_all
  next
    case False
    then have n: "n < 2 ^ 64 - 1" "c_round ctx (of_nat n) = Finite (of_nat n)" using assms(1) by (auto simp: log_size_ok_def)
    then have le: "(of_nat n :: rat) \<le> 2 ^ 64"
      using of_nat_le_iff [of n "2 ^ 64", where 'a = rat] by simp
    from n show ?thesis
      by (intro eq [of "of_nat n"]) (use le in \<open>simp_all add: min_def\<close>)
  qed
qed

section \<open>Reading launch arguments back\<close>

lemma or_else_simps [simp]: "or_else x None = x" "or_else (Some v) y = Some v" "or_else None y = y"
  by (cases x; simp add: or_else_def)+

lemma run_loop_value:
  "s \<in> set value_options \<Longrightarrow> run_loop ctx b (s # v # rest) = and_then (set_option ctx s v b) (\<lambda>b'. run_loop ctx b' rest)"
  by simp

lemma run_loop_flag:
  "s \<notin> set value_options \<Longrightarrow> set_flag s b = Some b' \<Longrightarrow> run_loop ctx b (s # rest) = run_loop ctx b' rest"
  by (cases rest) simp_all

text \<open>What a parsed command line satisfies; the float text of \<open>--cpus\<close> and of a log size is the library's.\<close>

definition wf_run :: "run_ctx \<Rightarrow> RunArgs \<Rightarrow> bool" where
  "wf_run ctx a \<longleftrightarrow>
     (\<forall>n. ra_name a = Some n \<longrightarrow> valid_name n) \<and>
     (\<forall>x. ra_memory_swap a = Some x \<longrightarrow> x = - 1 \<or> 0 < x \<and> x < 2 ^ 63) \<and>
     (\<forall>x. ra_cpus a = Some x \<longrightarrow> (\<exists>s. c_parse_f64 ctx s = Some x) \<and> (\<exists>q. cpu_quota (c_round ctx) x = Inr q)) \<and>
     (\<forall>x. ra_cpuset_cpus a = Some x \<longrightarrow> parse_cpuset x = Inr x) \<and>
     (\<forall>x. ra_cpuset_mems a = Some x \<longrightarrow> parse_cpuset x = Inr x) \<and>
     (\<forall>x. ra_pids a = Some x \<longrightarrow> - (2 ^ 63) \<le> x \<and> x \<le> 2 ^ 63 - 1) \<and>
     (\<forall>l \<in> set (ra_device_read_bps a). stored_limit ctx ''device-read-bps'' read_bps l) \<and>
     (\<forall>l \<in> set (ra_device_write_bps a). stored_limit ctx ''device-write-bps'' write_bps l) \<and>
     (\<forall>l \<in> set (ra_device_read_iops a). stored_limit ctx ''device-read-iops'' read_iops l) \<and>
     (\<forall>l \<in> set (ra_device_write_iops a). stored_limit ctx ''device-write-iops'' write_iops l)"

definition wf_lists :: "run_ctx \<Rightarrow> RunArgs \<Rightarrow> bool" where
  "wf_lists ctx a \<longleftrightarrow>
     (is_btree_set (ra_cap_add a) \<and> (\<forall>c \<in> set (ra_cap_add a). cap_list c = Inr [c])) \<and>
     (is_btree_set (ra_cap_drop a) \<and> (\<forall>c \<in> set (ra_cap_drop a). cap_list c = Inr [c])) \<and>
     (\<forall>t \<in> set (ra_tmpfs a). parse_tmpfs (tm_raw t) = Inr t) \<and>
     (\<forall>m \<in> set (ra_volumes a). parse_bind (c_fs ctx) (bm_raw m) = Inr m) \<and>
     (\<forall>e \<in> set (ra_env a). validate_env_spec e = Inr ()) \<and>
     (\<forall>p \<in> set (ra_ports a). port_ok p) \<and>
     (\<forall>d \<in> set (ra_dns a). parse_ip ctx d \<noteq> None) \<and>
     is_btree_map (ra_labels a) \<and> (\<forall>kv \<in> set (ra_labels a). fst kv \<noteq> [] \<and> CHR ''='' \<notin> set (fst kv))"

definition wf_log :: "run_ctx \<Rightarrow> RunArgs \<Rightarrow> bool" where
  "wf_log ctx a \<longleftrightarrow> log_size_ok ctx (ra_log_max_size a) \<and>
     (if ra_log_options_set a then 1 \<le> ra_log_max_files a \<and> ra_log_max_files a \<le> MAX_FILES
      else ra_log_max_size a = 10 * 1024 * 1024 \<and> ra_log_max_files a = 3)"

definition wf_target :: "RunArgs \<Rightarrow> bool" where
  "wf_target a \<longleftrightarrow> (ra_rootfs a \<noteq> None \<longrightarrow> ra_image a = None) \<and>
     (ra_rootfs a = None \<and> ra_image a = None \<longrightarrow> ra_argv a = [])"

lemma in_options:
  "\<forall>s \<in> {''--name'', ''--memory'', ''--memory-reservation'', ''--memory-swap'', ''--cpus'', ''--cpuset-cpus'', ''--cpuset-mems'',
     ''--pids'', ''--device-read-bps'', ''--device-write-bps'', ''--device-read-iops'', ''--device-write-iops'', ''--hostname'',
     ''--user'', ''--net'', ''--seccomp'', ''--cap-add'', ''--cap-drop'', ''--tmpfs'', ''--platform'', ''--entrypoint'', ''--workdir'',
     ''--pull'', ''--log-max-size'', ''--log-max-file'', ''--env'', ''--publish'', ''--volume'', ''--dns'', ''--label'', ''--rootfs''}.
     s \<in> set value_options"
  by (simp add: value_options_def)

lemma not_in_options:
  "\<forall>s \<in> {''-d'', ''--oom-group'', ''--init'', ''--no-overlay'', ''--tmpfs-upper'', ''--read-only'', ''--rm'', ''--''}. s \<notin> set value_options"
  by (simp add: value_options_def)

lemmas value_optionI = in_options [rule_format]
lemmas flag_optionI = not_in_options [rule_format]

section \<open>The parser keeps its fields well formed\<close>

lemma if_InlE: "(if c then Inl e else r) = Inr b \<Longrightarrow> (\<not> c \<Longrightarrow> r = Inr b \<Longrightarrow> P) \<Longrightarrow> P" by (auto split: if_splits)
lemma if_InrE: "(if c then x else r) = Inr b \<Longrightarrow> (x = Inr b \<Longrightarrow> P) \<Longrightarrow> (r = Inr b \<Longrightarrow> P) \<Longrightarrow> P"
  by (auto split: if_splits)
lemma and_thenE: "and_then r f = Inr b \<Longrightarrow> (\<And>x. r = Inr x \<Longrightarrow> f x = Inr b \<Longrightarrow> P) \<Longrightarrow> P"
  by (auto simp: and_then_eq_Inr_iff)

lemma parse_cpus_quota: "parse_cpus pf rnd v = Inr x \<Longrightarrow> (\<exists>s. pf s = Some x) \<and> (\<exists>q. cpu_quota rnd x = Inr q)"
  by (auto simp: parse_cpus_def and_then_eq_Inr_iff split: option.splits)

lemma wf_run_frame [simp]:
  "wf_run ctx (a\<lparr>ra_rootfs := x_rootfs\<rparr>) = wf_run ctx a"
  "wf_run ctx (a\<lparr>ra_image := x_image\<rparr>) = wf_run ctx a"
  "wf_run ctx (a\<lparr>ra_memory := x_memory\<rparr>) = wf_run ctx a"
  "wf_run ctx (a\<lparr>ra_memory_reservation := x_memory_reservation\<rparr>) = wf_run ctx a"
  "wf_run ctx (a\<lparr>ra_oom_group := x_oom_group\<rparr>) = wf_run ctx a"
  "wf_run ctx (a\<lparr>ra_hostname := x_hostname\<rparr>) = wf_run ctx a"
  "wf_run ctx (a\<lparr>ra_user := x_user\<rparr>) = wf_run ctx a"
  "wf_run ctx (a\<lparr>ra_net := x_net\<rparr>) = wf_run ctx a"
  "wf_run ctx (a\<lparr>ra_net_specified := x_net_specified\<rparr>) = wf_run ctx a"
  "wf_run ctx (a\<lparr>ra_use_init := x_use_init\<rparr>) = wf_run ctx a"
  "wf_run ctx (a\<lparr>ra_seccomp := x_seccomp\<rparr>) = wf_run ctx a"
  "wf_run ctx (a\<lparr>ra_cap_add := x_cap_add\<rparr>) = wf_run ctx a"
  "wf_run ctx (a\<lparr>ra_cap_drop := x_cap_drop\<rparr>) = wf_run ctx a"
  "wf_run ctx (a\<lparr>ra_no_overlay := x_no_overlay\<rparr>) = wf_run ctx a"
  "wf_run ctx (a\<lparr>ra_tmpfs_upper := x_tmpfs_upper\<rparr>) = wf_run ctx a"
  "wf_run ctx (a\<lparr>ra_readonly := x_readonly\<rparr>) = wf_run ctx a"
  "wf_run ctx (a\<lparr>ra_tmpfs := x_tmpfs\<rparr>) = wf_run ctx a"
  "wf_run ctx (a\<lparr>ra_platform := x_platform\<rparr>) = wf_run ctx a"
  "wf_run ctx (a\<lparr>ra_entrypoint := x_entrypoint\<rparr>) = wf_run ctx a"
  "wf_run ctx (a\<lparr>ra_workdir := x_workdir\<rparr>) = wf_run ctx a"
  "wf_run ctx (a\<lparr>ra_pull := x_pull\<rparr>) = wf_run ctx a"
  "wf_run ctx (a\<lparr>ra_log_max_size := x_log_max_size\<rparr>) = wf_run ctx a"
  "wf_run ctx (a\<lparr>ra_log_max_files := x_log_max_files\<rparr>) = wf_run ctx a"
  "wf_run ctx (a\<lparr>ra_log_options_set := x_log_options_set\<rparr>) = wf_run ctx a"
  "wf_run ctx (a\<lparr>ra_env := x_env\<rparr>) = wf_run ctx a"
  "wf_run ctx (a\<lparr>ra_ports := x_ports\<rparr>) = wf_run ctx a"
  "wf_run ctx (a\<lparr>ra_volumes := x_volumes\<rparr>) = wf_run ctx a"
  "wf_run ctx (a\<lparr>ra_dns := x_dns\<rparr>) = wf_run ctx a"
  "wf_run ctx (a\<lparr>ra_labels := x_labels\<rparr>) = wf_run ctx a"
  "wf_run ctx (a\<lparr>ra_argv := x_argv\<rparr>) = wf_run ctx a"
  "wf_run ctx (a\<lparr>ra_interactive := x_interactive\<rparr>) = wf_run ctx a"
  "wf_run ctx (a\<lparr>ra_tty := x_tty\<rparr>) = wf_run ctx a"
  "wf_run ctx (a\<lparr>ra_detach := x_detach\<rparr>) = wf_run ctx a"
  "wf_run ctx (a\<lparr>ra_rm := x_rm\<rparr>) = wf_run ctx a"
  by (simp_all add: wf_run_def)


lemma wf_run_upd:
  assumes "wf_run ctx a"
  shows "valid_name v \<Longrightarrow> wf_run ctx (a\<lparr>ra_name := Some v\<rparr>)"
    and "parse_memory_swap v = Inr x \<Longrightarrow> wf_run ctx (a\<lparr>ra_memory_swap := Some x\<rparr>)"
    and "parse_cpus (c_parse_f64 ctx) (c_round ctx) v = Inr c \<Longrightarrow> wf_run ctx (a\<lparr>ra_cpus := Some c\<rparr>)"
    and "parse_cpuset v = Inr y \<Longrightarrow> wf_run ctx (a\<lparr>ra_cpuset_cpus := Some y\<rparr>)"
    and "parse_cpuset v = Inr y \<Longrightarrow> wf_run ctx (a\<lparr>ra_cpuset_mems := Some y\<rparr>)"
    and "parse_i64 v = Some x \<Longrightarrow> wf_run ctx (a\<lparr>ra_pids := Some x\<rparr>)"
  using assms by (auto simp: wf_run_def dest: parse_memory_swap_range parse_cpuset_again parse_int_bounds parse_cpus_quota)

lemma wf_run_io:
  assumes "wf_run ctx a" and "stat_ok ctx"
  shows "parse_io_limit (c_stat ctx) ''device-read-bps'' v = Inr l \<Longrightarrow>
      wf_run ctx (a\<lparr>ra_device_read_bps := ra_device_read_bps a @ [l]\<rparr>)"
    and "parse_io_limit (c_stat ctx) ''device-write-bps'' v = Inr l \<Longrightarrow>
      wf_run ctx (a\<lparr>ra_device_write_bps := ra_device_write_bps a @ [l]\<rparr>)"
    and "parse_io_limit (c_stat ctx) ''device-read-iops'' v = Inr l \<Longrightarrow>
      wf_run ctx (a\<lparr>ra_device_read_iops := ra_device_read_iops a @ [l]\<rparr>)"
    and "parse_io_limit (c_stat ctx) ''device-write-iops'' v = Inr l \<Longrightarrow>
      wf_run ctx (a\<lparr>ra_device_write_iops := ra_device_write_iops a @ [l]\<rparr>)"
  using assms(1) by (auto simp: wf_run_def dest: parse_io_limit_stored [OF assms(2)])

lemma set_option_wf_run:
  assumes "set_option ctx s v a = Inr b" and "wf_run ctx a" and "stat_ok ctx"
  shows "wf_run ctx b"
  using assms(1) unfolding set_option_def
  apply (elim if_InlE if_InrE and_thenE)
  apply (simp_all only: sum.inject sum.distinct map_err_Inr_iff ok_or_eq_Inr_iff)
  apply (use assms(2,3) in \<open>auto intro: wf_run_upd wf_run_io\<close>)
  done

lemma wf_lists_frame [simp]:
  "wf_lists ctx (a\<lparr>ra_rootfs := x_rootfs\<rparr>) = wf_lists ctx a"
  "wf_lists ctx (a\<lparr>ra_image := x_image\<rparr>) = wf_lists ctx a"
  "wf_lists ctx (a\<lparr>ra_argv := x_argv\<rparr>) = wf_lists ctx a"
  "wf_lists ctx (a\<lparr>ra_log_max_size := x_log_max_size\<rparr>) = wf_lists ctx a"
  "wf_lists ctx (a\<lparr>ra_log_max_files := x_log_max_files\<rparr>) = wf_lists ctx a"
  "wf_lists ctx (a\<lparr>ra_log_options_set := x_log_options_set\<rparr>) = wf_lists ctx a"
  "wf_lists ctx (a\<lparr>ra_memory := x_memory\<rparr>) = wf_lists ctx a"
  "wf_lists ctx (a\<lparr>ra_memory_reservation := x_memory_reservation\<rparr>) = wf_lists ctx a"
  "wf_lists ctx (a\<lparr>ra_memory_swap := x_memory_swap\<rparr>) = wf_lists ctx a"
  "wf_lists ctx (a\<lparr>ra_cpus := x_cpus\<rparr>) = wf_lists ctx a"
  "wf_lists ctx (a\<lparr>ra_cpuset_cpus := x_cpuset_cpus\<rparr>) = wf_lists ctx a"
  "wf_lists ctx (a\<lparr>ra_cpuset_mems := x_cpuset_mems\<rparr>) = wf_lists ctx a"
  "wf_lists ctx (a\<lparr>ra_pids := x_pids\<rparr>) = wf_lists ctx a"
  "wf_lists ctx (a\<lparr>ra_oom_group := x_oom_group\<rparr>) = wf_lists ctx a"
  "wf_lists ctx (a\<lparr>ra_device_read_bps := x_device_read_bps\<rparr>) = wf_lists ctx a"
  "wf_lists ctx (a\<lparr>ra_device_write_bps := x_device_write_bps\<rparr>) = wf_lists ctx a"
  "wf_lists ctx (a\<lparr>ra_device_read_iops := x_device_read_iops\<rparr>) = wf_lists ctx a"
  "wf_lists ctx (a\<lparr>ra_device_write_iops := x_device_write_iops\<rparr>) = wf_lists ctx a"
  "wf_lists ctx (a\<lparr>ra_hostname := x_hostname\<rparr>) = wf_lists ctx a"
  "wf_lists ctx (a\<lparr>ra_user := x_user\<rparr>) = wf_lists ctx a"
  "wf_lists ctx (a\<lparr>ra_net := x_net\<rparr>) = wf_lists ctx a"
  "wf_lists ctx (a\<lparr>ra_net_specified := x_net_specified\<rparr>) = wf_lists ctx a"
  "wf_lists ctx (a\<lparr>ra_use_init := x_use_init\<rparr>) = wf_lists ctx a"
  "wf_lists ctx (a\<lparr>ra_seccomp := x_seccomp\<rparr>) = wf_lists ctx a"
  "wf_lists ctx (a\<lparr>ra_no_overlay := x_no_overlay\<rparr>) = wf_lists ctx a"
  "wf_lists ctx (a\<lparr>ra_tmpfs_upper := x_tmpfs_upper\<rparr>) = wf_lists ctx a"
  "wf_lists ctx (a\<lparr>ra_readonly := x_readonly\<rparr>) = wf_lists ctx a"
  "wf_lists ctx (a\<lparr>ra_platform := x_platform\<rparr>) = wf_lists ctx a"
  "wf_lists ctx (a\<lparr>ra_entrypoint := x_entrypoint\<rparr>) = wf_lists ctx a"
  "wf_lists ctx (a\<lparr>ra_workdir := x_workdir\<rparr>) = wf_lists ctx a"
  "wf_lists ctx (a\<lparr>ra_pull := x_pull\<rparr>) = wf_lists ctx a"
  "wf_lists ctx (a\<lparr>ra_interactive := x_interactive\<rparr>) = wf_lists ctx a"
  "wf_lists ctx (a\<lparr>ra_tty := x_tty\<rparr>) = wf_lists ctx a"
  "wf_lists ctx (a\<lparr>ra_detach := x_detach\<rparr>) = wf_lists ctx a"
  "wf_lists ctx (a\<lparr>ra_name := x_name\<rparr>) = wf_lists ctx a"
  "wf_lists ctx (a\<lparr>ra_rm := x_rm\<rparr>) = wf_lists ctx a"
  by (simp_all add: wf_lists_def)



lemma parse_tmpfs_raw: "parse_tmpfs v = Inr t \<Longrightarrow> tm_raw t = v"
  by (auto simp: parse_tmpfs_def and_then_eq_Inr_iff Let_def split: if_splits prod.splits)

lemma parse_bind_raw: "parse_bind fs v = Inr m \<Longrightarrow> bm_raw m = v"
  by (auto simp: parse_bind_def and_then_eq_Inr_iff Let_def split: if_splits prod.splits option.splits list.splits)

lemma wf_lists_upd:
  assumes "wf_lists ctx a"
  shows "cap_list v = Inr cs \<Longrightarrow> wf_lists ctx (a\<lparr>ra_cap_add := btree_extend (ra_cap_add a) cs\<rparr>)"
    and "cap_list v = Inr cs \<Longrightarrow> wf_lists ctx (a\<lparr>ra_cap_drop := btree_extend (ra_cap_drop a) cs\<rparr>)"
    and "parse_tmpfs v = Inr t \<Longrightarrow> wf_lists ctx (a\<lparr>ra_tmpfs := ra_tmpfs a @ [t]\<rparr>)"
    and "parse_bind (c_fs ctx) v = Inr m \<Longrightarrow> wf_lists ctx (a\<lparr>ra_volumes := ra_volumes a @ [m]\<rparr>)"
    and "validate_env_spec v = Inr u \<Longrightarrow> wf_lists ctx (a\<lparr>ra_env := ra_env a @ [v]\<rparr>)"
    and "parse_publish ctx v = Inr p \<Longrightarrow> wf_lists ctx (a\<lparr>ra_ports := ra_ports a @ [p]\<rparr>)"
    and "parse_ip ctx v = Some ip \<Longrightarrow> wf_lists ctx (a\<lparr>ra_dns := ra_dns a @ [v]\<rparr>)"
    and "parse_label v = Inr kv \<Longrightarrow> wf_lists ctx (a\<lparr>ra_labels := btree_insert (fst kv) (snd kv) (ra_labels a)\<rparr>)"
proof -
  note w = assms [unfolded wf_lists_def]
  show "cap_list v = Inr cs \<Longrightarrow> wf_lists ctx (a\<lparr>ra_cap_add := btree_extend (ra_cap_add a) cs\<rparr>)"
    and "cap_list v = Inr cs \<Longrightarrow> wf_lists ctx (a\<lparr>ra_cap_drop := btree_extend (ra_cap_drop a) cs\<rparr>)"
    using w by (auto simp: wf_lists_def dest: cap_list_again)
  show "parse_tmpfs v = Inr t \<Longrightarrow> wf_lists ctx (a\<lparr>ra_tmpfs := ra_tmpfs a @ [t]\<rparr>)"
    and "parse_bind (c_fs ctx) v = Inr m \<Longrightarrow> wf_lists ctx (a\<lparr>ra_volumes := ra_volumes a @ [m]\<rparr>)"
    and "validate_env_spec v = Inr u \<Longrightarrow> wf_lists ctx (a\<lparr>ra_env := ra_env a @ [v]\<rparr>)"
    and "parse_publish ctx v = Inr p \<Longrightarrow> wf_lists ctx (a\<lparr>ra_ports := ra_ports a @ [p]\<rparr>)"
    and "parse_ip ctx v = Some ip \<Longrightarrow> wf_lists ctx (a\<lparr>ra_dns := ra_dns a @ [v]\<rparr>)"
    using w by (simp_all add: wf_lists_def parse_publish_ok parse_tmpfs_raw parse_bind_raw)
  assume l: "parse_label v = Inr kv"
  have k: "fst kv \<noteq> [] \<and> CHR ''='' \<notin> set (fst kv)"
    using l split_once_SomeD [of "CHR ''=''" v "fst kv" "snd kv"] by (auto simp: parse_label_def split: option.splits if_splits)
  have "fst p = fst kv \<or> fst p \<in> fst ` set (ra_labels a)" if "p \<in> set (btree_insert (fst kv) (snd kv) (ra_labels a))" for p
    using set_btree_insert_keys [of "fst kv" "snd kv" "ra_labels a"] that by blast
  with k w show "wf_lists ctx (a\<lparr>ra_labels := btree_insert (fst kv) (snd kv) (ra_labels a)\<rparr>)"
    by (simp add: wf_lists_def) (metis imageE)
qed

lemma set_option_wf_lists:
  assumes "set_option ctx s v a = Inr b" and "wf_lists ctx a"
  shows "wf_lists ctx b"
  using assms(1) unfolding set_option_def
  apply (elim if_InlE if_InrE and_thenE)
  apply (simp_all only: sum.inject sum.distinct map_err_Inr_iff ok_or_eq_Inr_iff)
  apply (use assms(2) in \<open>auto intro: wf_lists_upd\<close>)
  done

lemma wf_log_frame [simp]:
  "wf_log ctx (a\<lparr>ra_argv := x_argv\<rparr>) = wf_log ctx a"
  "wf_log ctx (a\<lparr>ra_cap_add := x_cap_add\<rparr>) = wf_log ctx a"
  "wf_log ctx (a\<lparr>ra_cap_drop := x_cap_drop\<rparr>) = wf_log ctx a"
  "wf_log ctx (a\<lparr>ra_cpus := x_cpus\<rparr>) = wf_log ctx a"
  "wf_log ctx (a\<lparr>ra_cpuset_cpus := x_cpuset_cpus\<rparr>) = wf_log ctx a"
  "wf_log ctx (a\<lparr>ra_cpuset_mems := x_cpuset_mems\<rparr>) = wf_log ctx a"
  "wf_log ctx (a\<lparr>ra_detach := x_detach\<rparr>) = wf_log ctx a"
  "wf_log ctx (a\<lparr>ra_device_read_bps := x_device_read_bps\<rparr>) = wf_log ctx a"
  "wf_log ctx (a\<lparr>ra_device_read_iops := x_device_read_iops\<rparr>) = wf_log ctx a"
  "wf_log ctx (a\<lparr>ra_device_write_bps := x_device_write_bps\<rparr>) = wf_log ctx a"
  "wf_log ctx (a\<lparr>ra_device_write_iops := x_device_write_iops\<rparr>) = wf_log ctx a"
  "wf_log ctx (a\<lparr>ra_dns := x_dns\<rparr>) = wf_log ctx a"
  "wf_log ctx (a\<lparr>ra_entrypoint := x_entrypoint\<rparr>) = wf_log ctx a"
  "wf_log ctx (a\<lparr>ra_env := x_env\<rparr>) = wf_log ctx a"
  "wf_log ctx (a\<lparr>ra_hostname := x_hostname\<rparr>) = wf_log ctx a"
  "wf_log ctx (a\<lparr>ra_image := x_image\<rparr>) = wf_log ctx a"
  "wf_log ctx (a\<lparr>ra_interactive := x_interactive\<rparr>) = wf_log ctx a"
  "wf_log ctx (a\<lparr>ra_labels := x_labels\<rparr>) = wf_log ctx a"
  "wf_log ctx (a\<lparr>ra_memory := x_memory\<rparr>) = wf_log ctx a"
  "wf_log ctx (a\<lparr>ra_memory_reservation := x_memory_reservation\<rparr>) = wf_log ctx a"
  "wf_log ctx (a\<lparr>ra_memory_swap := x_memory_swap\<rparr>) = wf_log ctx a"
  "wf_log ctx (a\<lparr>ra_name := x_name\<rparr>) = wf_log ctx a"
  "wf_log ctx (a\<lparr>ra_net := x_net\<rparr>) = wf_log ctx a"
  "wf_log ctx (a\<lparr>ra_net_specified := x_net_specified\<rparr>) = wf_log ctx a"
  "wf_log ctx (a\<lparr>ra_no_overlay := x_no_overlay\<rparr>) = wf_log ctx a"
  "wf_log ctx (a\<lparr>ra_oom_group := x_oom_group\<rparr>) = wf_log ctx a"
  "wf_log ctx (a\<lparr>ra_pids := x_pids\<rparr>) = wf_log ctx a"
  "wf_log ctx (a\<lparr>ra_platform := x_platform\<rparr>) = wf_log ctx a"
  "wf_log ctx (a\<lparr>ra_ports := x_ports\<rparr>) = wf_log ctx a"
  "wf_log ctx (a\<lparr>ra_pull := x_pull\<rparr>) = wf_log ctx a"
  "wf_log ctx (a\<lparr>ra_readonly := x_readonly\<rparr>) = wf_log ctx a"
  "wf_log ctx (a\<lparr>ra_rm := x_rm\<rparr>) = wf_log ctx a"
  "wf_log ctx (a\<lparr>ra_rootfs := x_rootfs\<rparr>) = wf_log ctx a"
  "wf_log ctx (a\<lparr>ra_seccomp := x_seccomp\<rparr>) = wf_log ctx a"
  "wf_log ctx (a\<lparr>ra_tmpfs := x_tmpfs\<rparr>) = wf_log ctx a"
  "wf_log ctx (a\<lparr>ra_tmpfs_upper := x_tmpfs_upper\<rparr>) = wf_log ctx a"
  "wf_log ctx (a\<lparr>ra_tty := x_tty\<rparr>) = wf_log ctx a"
  "wf_log ctx (a\<lparr>ra_use_init := x_use_init\<rparr>) = wf_log ctx a"
  "wf_log ctx (a\<lparr>ra_user := x_user\<rparr>) = wf_log ctx a"
  "wf_log ctx (a\<lparr>ra_volumes := x_volumes\<rparr>) = wf_log ctx a"
  "wf_log ctx (a\<lparr>ra_workdir := x_workdir\<rparr>) = wf_log ctx a"
  by (simp_all add: wf_log_def)

lemma wf_log_upd:
  assumes "wf_log ctx a" and "f64_text_ok ctx"
  shows "parse_log_size ctx v = Inr n \<Longrightarrow> wf_log ctx (a\<lparr>ra_log_max_size := n, ra_log_options_set := True\<rparr>)"
    and "parse_max_files v = Inr n \<Longrightarrow> wf_log ctx (a\<lparr>ra_log_max_files := n, ra_log_options_set := True\<rparr>)"
  using assms by (auto simp: wf_log_def MAX_FILES_def parse_max_files_def parse_log_size_ok split: option.splits if_splits)

lemma set_option_wf_log:
  assumes "set_option ctx s v a = Inr b" and "wf_log ctx a" and "f64_text_ok ctx"
  shows "wf_log ctx b \<and> ra_image b = ra_image a \<and> ra_argv b = ra_argv a"
  using assms(1) unfolding set_option_def
  apply (elim if_InlE if_InrE and_thenE)
  apply (simp_all only: sum.inject sum.distinct map_err_Inr_iff ok_or_eq_Inr_iff)
  apply (use assms(2,3) in \<open>auto intro: wf_log_upd\<close>)
  done

definition loop_inv :: "run_ctx \<Rightarrow> RunArgs \<Rightarrow> bool" where
  "loop_inv ctx a \<longleftrightarrow> wf_run ctx a \<and> wf_lists ctx a \<and> wf_log ctx a \<and> ra_image a = None \<and> ra_argv a = []"

definition wf_args :: "run_ctx \<Rightarrow> RunArgs \<Rightarrow> bool" where
  "wf_args ctx a \<longleftrightarrow> wf_run ctx a \<and> wf_lists ctx a \<and> wf_log ctx a \<and> wf_target a"

lemma set_option_inv: "set_option ctx s v a = Inr b \<Longrightarrow> stat_ok ctx \<Longrightarrow> f64_text_ok ctx \<Longrightarrow> loop_inv ctx a \<Longrightarrow> loop_inv ctx b"
  using set_option_wf_run set_option_wf_lists set_option_wf_log unfolding loop_inv_def by metis

lemma if_SomeE: "(if c then x else r) = Some b \<Longrightarrow> (x = Some b \<Longrightarrow> P) \<Longrightarrow> (r = Some b \<Longrightarrow> P) \<Longrightarrow> P"
  by (auto split: if_splits)

lemma set_flag_inv: "set_flag s a = Some b \<Longrightarrow> loop_inv ctx a \<Longrightarrow> loop_inv ctx b"
  unfolding set_flag_def by (elim if_SomeE) (auto simp: loop_inv_def)

lemma case_option_SomeE:
  "(case x of Some v \<Rightarrow> Some (f v) | None \<Rightarrow> r) = Some b \<Longrightarrow> (\<And>v. f v = b \<Longrightarrow> P) \<Longrightarrow> (r = Some b \<Longrightarrow> P) \<Longrightarrow> P"
  by (cases x) auto

lemma set_inline_inv: "set_inline s a = Some (Inr b) \<Longrightarrow> loop_inv ctx a \<Longrightarrow> loop_inv ctx b"
  unfolding set_inline_def
  by (elim case_option_SomeE) (auto elim!: and_thenE simp: loop_inv_def intro: wf_lists_upd)

lemma ends_wf:
  assumes "loop_inv ctx a"
  shows "wf_args ctx a" and "wf_args ctx (after_terminator rest a)" and "wf_args ctx (positional s rest a)"
  using assms by (auto simp: loop_inv_def wf_args_def wf_target_def after_terminator_def positional_def split: list.splits)

lemma run_loop_wf: "run_loop ctx a args = Inr b \<Longrightarrow> stat_ok ctx \<Longrightarrow> f64_text_ok ctx \<Longrightarrow> loop_inv ctx a \<Longrightarrow> wf_args ctx b"
proof (induction ctx a args rule: run_loop.induct)
  case (2 ctx a s)
  then show ?case
    by (auto simp: ends_wf set_flag_inv split: if_splits option.splits dest!: set_inline_inv)
next
  case (3 ctx a s t rest)
  show ?case
  proof (cases "s \<in> set value_options")
    case True
    with 3(4-) obtain a' where "set_option ctx s t a = Inr a'" "run_loop ctx a' rest = Inr b"
      by (auto simp: and_then_eq_Inr_iff)
    with 3(1) True 3(5-7) set_option_inv show ?thesis by blast
  next
    case False
    show ?thesis
    proof (cases "set_flag s a")
      case (Some a')
      with 3 False set_flag_inv show ?thesis by auto
    next
      case None
      with 3(4-) False show ?thesis
        using 3(2) set_inline_inv by (fastforce simp: and_then_eq_Inr_iff ends_wf split: if_splits option.splits)
    qed
  qed
qed (simp add: ends_wf)

lemma log_size_small: "f64_text_ok ctx \<Longrightarrow> log_size_ok ctx 10485760"
proof -
  assume "f64_text_ok ctx"
  then have "\<forall>n < 2 ^ 53. c_round ctx (of_nat n) = Finite (of_nat n)" by (simp add: f64_text_ok_def)
  then have "c_round ctx (of_nat 10485760) = Finite (of_nat 10485760)" by (rule allE [of _ 10485760]) simp
  then show ?thesis by (simp add: log_size_ok_def)
qed

lemma parse_run_args_wf: "parse_run_args ctx args = Inr a \<Longrightarrow> stat_ok ctx \<Longrightarrow> f64_text_ok ctx \<Longrightarrow> wf_args ctx a"
  unfolding parse_run_args_def
  by (erule run_loop_wf)
    (simp_all add: loop_inv_def wf_run_def wf_lists_def wf_log_def is_btree_map_def RunArgs_default_def log_size_small)

section \<open>Reading the launch arguments\<close>

lemma set_option_eval:
  "set_option ctx ''--rootfs'' v b = Inr (b\<lparr>ra_rootfs := Some v\<rparr>)"
  "set_option ctx ''--memory'' v b = Inr (b\<lparr>ra_memory := Some v\<rparr>)"
  "set_option ctx ''--memory-reservation'' v b = Inr (b\<lparr>ra_memory_reservation := Some v\<rparr>)"
  "set_option ctx ''--memory-swap'' v b =
     and_then (map_err CgroupOption (parse_memory_swap v)) (\<lambda>x. Inr (b\<lparr>ra_memory_swap := Some x\<rparr>))"
  "set_option ctx ''--cpus'' v b =
     and_then (map_err CgroupOption (parse_cpus (c_parse_f64 ctx) (c_round ctx) v)) (\<lambda>x. Inr (b\<lparr>ra_cpus := Some x\<rparr>))"
  "set_option ctx ''--cpuset-cpus'' v b =
     and_then (map_err CgroupOption (parse_cpuset v)) (\<lambda>x. Inr (b\<lparr>ra_cpuset_cpus := Some x\<rparr>))"
  "set_option ctx ''--cpuset-mems'' v b =
     and_then (map_err CgroupOption (parse_cpuset v)) (\<lambda>x. Inr (b\<lparr>ra_cpuset_mems := Some x\<rparr>))"
  "set_option ctx ''--pids'' v b = and_then (ok_or (BadPids v) (parse_i64 v)) (\<lambda>x. Inr (b\<lparr>ra_pids := Some x\<rparr>))"
  "set_option ctx ''--hostname'' v b = Inr (b\<lparr>ra_hostname := Some v\<rparr>)"
  "set_option ctx ''--user'' v b = Inr (b\<lparr>ra_user := Some v\<rparr>)"
  "set_option ctx ''--platform'' v b = Inr (b\<lparr>ra_platform := Some v\<rparr>)"
  "set_option ctx ''--entrypoint'' v b = Inr (b\<lparr>ra_entrypoint := Some v\<rparr>)"
  "set_option ctx ''--workdir'' v b = Inr (b\<lparr>ra_workdir := Some v\<rparr>)"
  "set_option ctx ''--pull'' v b = and_then (PullPolicy_parse v) (\<lambda>p. Inr (b\<lparr>ra_pull := p\<rparr>))"
  "set_option ctx ''--log-max-size'' v b =
     and_then (parse_log_size ctx v) (\<lambda>n. Inr (b\<lparr>ra_log_max_size := n, ra_log_options_set := True\<rparr>))"
  "set_option ctx ''--log-max-file'' v b =
     and_then (map_err LogFilesOption (parse_max_files v)) (\<lambda>n. Inr (b\<lparr>ra_log_max_files := n, ra_log_options_set := True\<rparr>))"
  "set_option ctx ''--name'' v b = (if \<not> valid_name v then Inl (BadName v) else Inr (b\<lparr>ra_name := Some v\<rparr>))"
  "set_option ctx ''--seccomp'' ''unconfined'' b = Inr (b\<lparr>ra_seccomp := Unconfined\<rparr>)"
  by (simp_all add: set_option_def)

lemma set_option_net:
  "set_option ctx ''--net'' (net_label m) b = Inr (b\<lparr>ra_net_specified := True, ra_net := m\<rparr>)"
  by (cases m) (simp_all add: set_option_def)

lemma run_loop_opt:
  assumes "s \<in> set value_options" and "\<And>x. v = Some x \<Longrightarrow> set_option ctx s (f x) b = Inr (upd (\<lambda>_. Some x) b)"
    and "upd (\<lambda>y. y) b = b"
  shows "run_loop ctx b (opt_args s f v @ rest) = run_loop ctx (upd (or_else v) b) rest"
proof (cases v)
  case None
  have "or_else None = (\<lambda>y :: 'a option. y)" by (simp add: fun_eq_iff)
  with None assms(3) show ?thesis by (simp add: opt_args_def)
next
  case (Some x)
  have "or_else (Some x) = (\<lambda>_. Some x)" by (simp add: fun_eq_iff)
  with Some assms(1,2) show ?thesis by (simp add: opt_args_def)
qed

lemma run_loop_push:
  assumes "s \<in> set value_options" and "\<And>x b. x \<in> set xs \<Longrightarrow> set_option ctx s (f x) b = Inr (upd (g x) b)"
    and "\<And>b. upd (\<lambda>y. y) b = b" and "\<And>f g b. upd f (upd g b) = upd (\<lambda>x. f (g x)) b"
  shows "run_loop ctx b (list_args s f xs @ rest) = run_loop ctx (upd (fold g xs) b) rest"
  using assms(2)
proof (induction xs arbitrary: b)
  case (Cons x xs)
  then show ?case using assms(1,4) by (simp add: list_args_def comp_def)
qed (simp add: list_args_def assms(3) id_def)

lemma run_loop_push_io:
  assumes "s \<in> set value_options"
    and "\<And>l b. l \<in> set ls \<Longrightarrow> \<exists>n. f l = Some n \<and> set_option ctx s (device l @ '':'' @ show_nat n) b = Inr (upd (\<lambda>xs. xs @ [l]) b)"
    and "\<And>b. upd (\<lambda>y. y) b = b" and "\<And>f g b. upd f (upd g b) = upd (\<lambda>x. f (g x)) b"
  shows "run_loop ctx b (io_args s f ls @ rest) = run_loop ctx (upd (\<lambda>xs. xs @ ls) b) rest"
  using assms(2)
proof (induction ls arbitrary: b)
  case (Cons l ls)
  from Cons.prems [of l b] obtain n where "f l = Some n"
    "set_option ctx s (device l @ '':'' @ show_nat n) b = Inr (upd (\<lambda>xs. xs @ [l]) b)" by auto
  with Cons assms(1,4) show ?case by (simp add: io_args_def)
qed (simp add: io_args_def assms(3))

lemma fold_snoc: "fold (\<lambda>x xs. xs @ [x]) ys = (\<lambda>xs. xs @ ys)"
  by (induction ys) (auto simp: fun_eq_iff)

lemma fold_btree_extend: "is_btree_set xs \<Longrightarrow> fold (\<lambda>x s. btree_extend s [x]) xs [] = xs"
proof -
  have "fold (\<lambda>x s. btree_extend s [x]) xs s = btree_extend s xs" if "is_btree_set s" for s
    using that
  proof (induction xs arbitrary: s)
    case (Cons x xs)
    then show ?case by simp (rule btree_set_unique, auto)
  qed (simp add: btree_extend_def btree_set_id)
  then show "is_btree_set xs \<Longrightarrow> fold (\<lambda>x s. btree_extend s [x]) xs [] = xs"
    by (simp add: btree_extend_def btree_set_id)
qed

lemma fold_btree_insert: "is_btree_map m \<Longrightarrow> fold (\<lambda>p. btree_insert (fst p) (snd p)) m [] = m"
proof (induction m rule: rev_induct)
  case (snoc p m)
  then have "is_btree_map m" by (simp add: is_btree_map_def sorted_wrt_append)
  with snoc btree_insert_last [of m "fst p" "snd p"] show ?case by simp
qed simp

lemma set_option_push:
  "set_option ctx ''--cap-add'' v b = and_then (cap_list v) (\<lambda>cs. Inr (ra_cap_add_update (\<lambda>xs. btree_extend xs cs) b))"
  "set_option ctx ''--cap-drop'' v b = and_then (cap_list v) (\<lambda>cs. Inr (ra_cap_drop_update (\<lambda>xs. btree_extend xs cs) b))"
  "set_option ctx ''--tmpfs'' v b = and_then (map_err MountOption (parse_tmpfs v)) (\<lambda>t. Inr (ra_tmpfs_update (\<lambda>xs. xs @ [t]) b))"
  "set_option ctx ''--env'' v b = and_then (map_err EnvOption (validate_env_spec v)) (\<lambda>_. Inr (ra_env_update (\<lambda>xs. xs @ [v]) b))"
  "set_option ctx ''--volume'' v b = and_then (map_err MountOption (parse_bind (c_fs ctx) v)) (\<lambda>m. Inr (ra_volumes_update (\<lambda>xs. xs @ [m]) b))"
  "set_option ctx ''--publish'' v b = and_then (map_err PublishOption (parse_publish ctx v)) (\<lambda>p. Inr (ra_ports_update (\<lambda>xs. xs @ [p]) b))"
  "set_option ctx ''--device-read-bps'' v b = and_then (map_err CgroupOption (parse_io_limit (c_stat ctx) ''device-read-bps'' v))
     (\<lambda>l. Inr (ra_device_read_bps_update (\<lambda>xs. xs @ [l]) b))"
  "set_option ctx ''--device-write-bps'' v b = and_then (map_err CgroupOption (parse_io_limit (c_stat ctx) ''device-write-bps'' v))
     (\<lambda>l. Inr (ra_device_write_bps_update (\<lambda>xs. xs @ [l]) b))"
  "set_option ctx ''--device-read-iops'' v b = and_then (map_err CgroupOption (parse_io_limit (c_stat ctx) ''device-read-iops'' v))
     (\<lambda>l. Inr (ra_device_read_iops_update (\<lambda>xs. xs @ [l]) b))"
  "set_option ctx ''--device-write-iops'' v b = and_then (map_err CgroupOption (parse_io_limit (c_stat ctx) ''device-write-iops'' v))
     (\<lambda>l. Inr (ra_device_write_iops_update (\<lambda>xs. xs @ [l]) b))"
  "set_option ctx ''--dns'' v b = (if parse_ip ctx v = None then Inl (BadDns v) else Inr (ra_dns_update (\<lambda>xs. xs @ [v]) b))"
  "set_option ctx ''--label'' v b = and_then (parse_label v) (\<lambda>p. Inr (ra_labels_update (btree_insert (fst p) (snd p)) b))"
  by (simp_all add: set_option_def cong: RunArgs.fold_congs)

text \<open>One equation per group of launch arguments: reading the group sets the field it was printed from.\<close>

lemma launch_plain:
  shows "run_loop ctx b (opt_args ''--memory'' (\<lambda>v. v) (ra_memory a) @ rest) =
      run_loop ctx (ra_memory_update (or_else (ra_memory a)) b) rest"
  and "run_loop ctx b (opt_args ''--memory-reservation'' (\<lambda>v. v) (ra_memory_reservation a) @ rest) =
      run_loop ctx (ra_memory_reservation_update (or_else (ra_memory_reservation a)) b) rest"
  and "run_loop ctx b (opt_args ''--hostname'' (\<lambda>v. v) (ra_hostname a) @ rest) =
      run_loop ctx (ra_hostname_update (or_else (ra_hostname a)) b) rest"
  and "run_loop ctx b (opt_args ''--user'' (\<lambda>v. v) (ra_user a) @ rest) =
      run_loop ctx (ra_user_update (or_else (ra_user a)) b) rest"
  and "run_loop ctx b (opt_args ''--platform'' (\<lambda>v. v) (ra_platform a) @ rest) =
      run_loop ctx (ra_platform_update (or_else (ra_platform a)) b) rest"
  and "run_loop ctx b (opt_args ''--entrypoint'' (\<lambda>v. v) (ra_entrypoint a) @ rest) =
      run_loop ctx (ra_entrypoint_update (or_else (ra_entrypoint a)) b) rest"
  and "run_loop ctx b (opt_args ''--workdir'' (\<lambda>v. v) (ra_workdir a) @ rest) =
      run_loop ctx (ra_workdir_update (or_else (ra_workdir a)) b) rest"
  by (rule run_loop_opt; simp add: value_optionI set_option_eval)+

lemma launch_checked:
  assumes "wf_run ctx a"
  shows "run_loop ctx b (opt_args ''--name'' (\<lambda>v. v) (ra_name a) @ rest) =
      run_loop ctx (ra_name_update (or_else (ra_name a)) b) rest"
  and "run_loop ctx b (opt_args ''--memory-swap'' (\<lambda>v. if v < 0 then ''-1'' else show_int v) (ra_memory_swap a) @ rest) =
      run_loop ctx (ra_memory_swap_update (or_else (ra_memory_swap a)) b) rest"
  and "run_loop ctx b (opt_args ''--cpuset-cpus'' (\<lambda>v. v) (ra_cpuset_cpus a) @ rest) =
      run_loop ctx (ra_cpuset_cpus_update (or_else (ra_cpuset_cpus a)) b) rest"
  and "run_loop ctx b (opt_args ''--cpuset-mems'' (\<lambda>v. v) (ra_cpuset_mems a) @ rest) =
      run_loop ctx (ra_cpuset_mems_update (or_else (ra_cpuset_mems a)) b) rest"
  and "run_loop ctx b (opt_args ''--pids'' (show_int) (ra_pids a) @ rest) =
      run_loop ctx (ra_pids_update (or_else (ra_pids a)) b) rest"
  using assms [unfolded wf_run_def] parse_memory_swap_show
  by (intro run_loop_opt; simp add: value_optionI set_option_eval)+

lemma launch_cpus:
  assumes "wf_run ctx a" and "f64_text_ok ctx"
  shows "run_loop ctx b (opt_args ''--cpus'' (c_show_f64 ctx) (ra_cpus a) @ rest) =
      run_loop ctx (ra_cpus_update (or_else (ra_cpus a)) b) rest"
  by (rule run_loop_opt)
    (use assms in \<open>auto simp: wf_run_def value_optionI set_option_eval parse_cpus_def f64_text_ok_def\<close>)

lemma launch_io:
  assumes "wf_run ctx a"
  shows "run_loop ctx b (io_args ''--device-read-bps'' read_bps (ra_device_read_bps a) @ rest) =
      run_loop ctx (ra_device_read_bps_update (\<lambda>xs. xs @ ra_device_read_bps a) b) rest"
  and "run_loop ctx b (io_args ''--device-write-bps'' write_bps (ra_device_write_bps a) @ rest) =
      run_loop ctx (ra_device_write_bps_update (\<lambda>xs. xs @ ra_device_write_bps a) b) rest"
  and "run_loop ctx b (io_args ''--device-read-iops'' read_iops (ra_device_read_iops a) @ rest) =
      run_loop ctx (ra_device_read_iops_update (\<lambda>xs. xs @ ra_device_read_iops a) b) rest"
  and "run_loop ctx b (io_args ''--device-write-iops'' write_iops (ra_device_write_iops a) @ rest) =
      run_loop ctx (ra_device_write_iops_update (\<lambda>xs. xs @ ra_device_write_iops a) b) rest"
  using assms unfolding wf_run_def
  by (intro run_loop_push_io; fastforce simp: value_optionI stored_limit_def set_option_push)+

lemma launch_lists:
  assumes "wf_lists ctx a"
  shows "run_loop ctx b (list_args ''--tmpfs'' (tm_raw) (ra_tmpfs a) @ rest) =
      run_loop ctx (ra_tmpfs_update (fold (\<lambda>x xs. xs @ [x]) (ra_tmpfs a)) b) rest"
  and "run_loop ctx b (list_args ''--env'' (\<lambda>v. v) (ra_env a) @ rest) =
      run_loop ctx (ra_env_update (fold (\<lambda>x xs. xs @ [x]) (ra_env a)) b) rest"
  and "run_loop ctx b (list_args ''--volume'' (bm_raw) (ra_volumes a) @ rest) =
      run_loop ctx (ra_volumes_update (fold (\<lambda>x xs. xs @ [x]) (ra_volumes a)) b) rest"
  and "run_loop ctx b (list_args ''--dns'' (\<lambda>v. v) (ra_dns a) @ rest) =
      run_loop ctx (ra_dns_update (fold (\<lambda>x xs. xs @ [x]) (ra_dns a)) b) rest"
  using assms [unfolded wf_lists_def]
  by (intro run_loop_push; simp add: value_optionI set_option_push)+

lemma launch_ports:
  assumes "wf_lists ctx a" and "v6_text_ok ctx"
  shows "run_loop ctx b (list_args ''--publish'' (publish_text ctx) (ra_ports a) @ rest) =
      run_loop ctx (ra_ports_update (fold (\<lambda>x xs. xs @ [x]) (ra_ports a)) b) rest"
  using assms(1) [unfolded wf_lists_def]
  by (intro run_loop_push; simp add: value_optionI set_option_push publish_again [OF assms(2)])

lemma launch_caps:
  assumes "wf_lists ctx a"
  shows "run_loop ctx b (list_args ''--cap-add'' (\<lambda>v. v) (ra_cap_add a) @ rest) =
      run_loop ctx (ra_cap_add_update (fold (\<lambda>c s. btree_extend s [c]) (ra_cap_add a)) b) rest"
  and "run_loop ctx b (list_args ''--cap-drop'' (\<lambda>v. v) (ra_cap_drop a) @ rest) =
      run_loop ctx (ra_cap_drop_update (fold (\<lambda>c s. btree_extend s [c]) (ra_cap_drop a)) b) rest"
  using assms [unfolded wf_lists_def]
  by (intro run_loop_push; simp add: value_optionI set_option_push)+

lemma launch_labels:
  assumes "wf_lists ctx a"
  shows "run_loop ctx b (list_args ''--label'' (\<lambda>(k, v). k @ ''='' @ v) (ra_labels a) @ rest) =
      run_loop ctx (ra_labels_update (fold (\<lambda>p. btree_insert (fst p) (snd p)) (ra_labels a)) b) rest"
proof -
  have "parse_label (fst p @ CHR ''='' # snd p) = Inr p" if "fst p \<noteq> []" "CHR ''='' \<notin> set (fst p)" for p
    using that by (cases p) (simp add: parse_label_def split_once_append)
  then show ?thesis
    using assms [unfolded wf_lists_def]
    by (intro run_loop_push; simp add: value_optionI set_option_push case_prod_unfold)
qed

lemma upd_id:
  "ra_oom_group_update (\<lambda>x. x) b = b"
  "ra_use_init_update (\<lambda>x. x) b = b"
  "ra_no_overlay_update (\<lambda>x. x) b = b"
  "ra_tmpfs_upper_update (\<lambda>x. x) b = b"
  "ra_readonly_update (\<lambda>x. x) b = b"
  "ra_rm_update (\<lambda>x. x) b = b"
  "ra_seccomp_update (\<lambda>x. x) b = b"
  "ra_pull_update (\<lambda>x. x) b = b"
  "ra_log_max_size_update (\<lambda>x. x) b = b"
  "ra_log_max_files_update (\<lambda>x. x) b = b"
  "ra_log_options_set_update (\<lambda>x. x) b = b"
  by simp_all

lemma launch_flags:
  shows "run_loop ctx b (flag_args ''--oom-group'' v @ rest) =
      run_loop ctx (ra_oom_group_update (\<lambda>x. v \<or> x) b) rest"
  and "run_loop ctx b (flag_args ''--init'' v @ rest) =
      run_loop ctx (ra_use_init_update (\<lambda>x. v \<or> x) b) rest"
  and "run_loop ctx b (flag_args ''--no-overlay'' v @ rest) =
      run_loop ctx (ra_no_overlay_update (\<lambda>x. v \<or> x) b) rest"
  and "run_loop ctx b (flag_args ''--tmpfs-upper'' v @ rest) =
      run_loop ctx (ra_tmpfs_upper_update (\<lambda>x. v \<or> x) b) rest"
  and "run_loop ctx b (flag_args ''--read-only'' v @ rest) =
      run_loop ctx (ra_readonly_update (\<lambda>x. v \<or> x) b) rest"
  and "run_loop ctx b (flag_args ''--rm'' v @ rest) =
      run_loop ctx (ra_rm_update (\<lambda>x. v \<or> x) b) rest"
  by (simp_all add: flag_args_def run_loop_flag flag_optionI set_flag_def upd_id del: run_loop.simps)

lemma launch_net: "run_loop ctx b ([''--net'', net_label m] @ rest) = run_loop ctx (b\<lparr>ra_net_specified := True, ra_net := m\<rparr>) rest"
  by (simp add: run_loop_value value_optionI set_option_net)

lemma launch_seccomp:
  "run_loop ctx b ((if m = Unconfined then [''--seccomp'', ''unconfined''] else []) @ rest) =
   run_loop ctx (ra_seccomp_update (\<lambda>x. if m = Unconfined then m else x) b) rest"
  by (simp add: run_loop_value value_optionI set_option_eval upd_id)

lemma launch_pull:
  "run_loop ctx b ((if p \<noteq> Missing then [''--pull'', PullPolicy_label p] else []) @ rest) =
   run_loop ctx (ra_pull_update (\<lambda>x. if p \<noteq> Missing then p else x) b) rest"
  by (cases p) (simp_all add: run_loop_value value_optionI set_option_eval PullPolicy_parse_def upd_id)

lemma launch_log:
  assumes "wf_log ctx a" and "f64_text_ok ctx"
  shows "run_loop ctx b ((if ra_log_options_set a
        then [''--log-max-size'', show_nat (ra_log_max_size a), ''--log-max-file'', show_nat (ra_log_max_files a)] else []) @ rest) =
    run_loop ctx (ra_log_options_set_update (\<lambda>x. ra_log_options_set a \<or> x)
      (ra_log_max_files_update (\<lambda>x. if ra_log_options_set a then ra_log_max_files a else x)
      (ra_log_max_size_update (\<lambda>x. if ra_log_options_set a then ra_log_max_size a else x) b))) rest"
proof (cases "ra_log_options_set a")
  case True
  with assms(1) have "parse_max_files (show_nat (ra_log_max_files a)) = Inr (ra_log_max_files a)"
    by (auto simp: wf_log_def parse_max_files_def MAX_FILES_def)
  moreover have "parse_log_size ctx (show_nat (ra_log_max_size a)) = Inr (ra_log_max_size a)"
    using assms log_size_again by (simp add: wf_log_def)
  ultimately show ?thesis using True by (simp add: run_loop_value value_optionI set_option_eval)
qed (simp add: upd_id)

lemma if_SomeE': "(if c then x else r) = Some b \<Longrightarrow> (c \<Longrightarrow> P) \<Longrightarrow> (r = Some b \<Longrightarrow> P) \<Longrightarrow> P"
  by (auto split: if_splits)

lemma dash_words:
  "s \<in> set value_options \<Longrightarrow> starts_with s ''-'' \<and> 1 < length s"
  "set_flag s b = Some b' \<Longrightarrow> starts_with s ''-'' \<and> 1 < length s"
  "set_inline s b = Some r \<Longrightarrow> starts_with s ''-'' \<and> 1 < length s"
proof -
  have "list_all (\<lambda>s. starts_with s ''-'' \<and> 1 < length s) value_options"
    by (simp add: value_options_def starts_with_def)
  then show "s \<in> set value_options \<Longrightarrow> starts_with s ''-'' \<and> 1 < length s" by (simp add: list_all_iff)
  show "set_flag s b = Some b' \<Longrightarrow> starts_with s ''-'' \<and> 1 < length s"
    unfolding set_flag_def by (elim if_SomeE') (auto simp: starts_with_def)
  show "set_inline s b = Some r \<Longrightarrow> starts_with s ''-'' \<and> 1 < length s"
    by (auto simp: set_inline_def starts_with_def dest!: strip_prefix_SomeD split: option.splits)
qed

lemma run_loop_positional:
  assumes "\<not> (starts_with s ''-'' \<and> 1 < length s)"
  shows "run_loop ctx b (s # rest) = Inr (positional s rest b)"
proof -
  have "s \<notin> set value_options" "set_flag s b = None" "set_inline s b = None" "s \<noteq> ''--''"
    using assms dash_words(1) [of s] dash_words(2) [of s b] dash_words(3) [of s b]
    by (cases "set_flag s b"; cases "set_inline s b"; auto simp: starts_with_def)+
  with assms show ?thesis by (cases rest) auto
qed

lemma run_loop_terminator: "run_loop ctx b (''--'' # v # vs) = Inr (after_terminator (v # vs) b)"
proof -
  have "''--'' \<notin> set value_options" "set_flag ''--'' b = None" by (simp_all add: flag_optionI) (simp add: set_flag_def)
  then show ?thesis by simp
qed

lemma launch_end:
  assumes "wf_target a" and "ra_rootfs b = None" and "ra_image b = None" and "ra_argv b = []"
    and "\<And>img. ra_image a = Some img \<Longrightarrow> \<not> (starts_with img ''-'' \<and> 1 < length img)"
  shows "run_loop ctx b
      ((if ra_rootfs a \<noteq> None then [''--rootfs'', rootfs] else (case ra_image a of None \<Rightarrow> [] | Some img \<Rightarrow> [img]))
       @ (if ra_argv a \<noteq> [] then ''--'' # ra_argv a else [])) =
    Inr (b\<lparr>ra_rootfs := map_option (\<lambda>_. rootfs) (ra_rootfs a), ra_image := ra_image a, ra_argv := ra_argv a\<rparr>)"
proof (cases "ra_rootfs a")
  case (Some r)
  then have img: "ra_image a = None" using assms(1) by (simp add: wf_target_def)
  show ?thesis
    using Some img assms(2-4) set_option_eval(1) [of ctx rootfs b]
    by (cases "ra_argv a") (simp_all add: run_loop_value value_optionI run_loop_terminator after_terminator_def del: run_loop.simps(3))
next
  case None
  then show ?thesis
  proof (cases "ra_image a")
    case (Some img)
    show ?thesis
      using None Some assms(2-4) run_loop_positional [OF assms(5) [OF Some]]
      by (cases "ra_argv a") (simp_all add: positional_def del: run_loop.simps)
  qed (use assms in \<open>simp add: wf_target_def\<close>)
qed

definition relaunched :: "RunArgs \<Rightarrow> string \<Rightarrow> RunArgs" where
  "relaunched a rootfs = a\<lparr>ra_rootfs := map_option (\<lambda>_. rootfs) (ra_rootfs a), ra_net_specified := True,
     ra_interactive := False, ra_tty := False, ra_detach := True\<rparr>"

lemma run_loop_launch_args:
  assumes "wf_args ctx a" and "f64_text_ok ctx" and "v6_text_ok ctx"
    and "\<And>img. ra_image a = Some img \<Longrightarrow> \<not> (starts_with img ''-'' \<and> 1 < length img)"
  shows "run_loop ctx RunArgs_default (detached_launch_args ctx a rootfs) = Inr (relaunched a rootfs)"
proof -
  from assms(1) have w: "wf_run ctx a" "wf_lists ctx a" "wf_log ctx a" "wf_target a" by (simp_all add: wf_args_def)
  have d: "run_loop ctx RunArgs_default ([''-d''] @ rest) = run_loop ctx (RunArgs_default\<lparr>ra_detach := True\<rparr>) rest" for rest
    using run_loop_flag [of "''-d''" RunArgs_default] by (simp add: flag_optionI set_flag_def del: run_loop.simps)
  have seccomp: "ra_seccomp a \<noteq> Unconfined \<Longrightarrow> Default = ra_seccomp a" by (cases "ra_seccomp a") simp_all
  have caps: "is_btree_set (ra_cap_add a)" "is_btree_set (ra_cap_drop a)" "is_btree_map (ra_labels a)"
    using w(2) by (simp_all add: wf_lists_def)
  show ?thesis
    unfolding detached_launch_args_def d
    apply (simp only: launch_plain launch_checked [OF w(1)] launch_cpus [OF w(1) assms(2)] launch_io [OF w(1)] launch_lists [OF w(2)]
      launch_ports [OF w(2) assms(3)] launch_caps [OF w(2)] launch_labels [OF w(2)] launch_flags launch_net launch_seccomp launch_pull
      launch_log [OF w(3) assms(2)])
    apply (subst launch_end [OF w(4) _ _ _ assms(4)])
    apply (simp_all add: RunArgs_default_def fold_snoc fold_btree_extend fold_btree_insert caps split del: if_split)
    apply (rule RunArgs.equality)
    apply (use w(3) seccomp in \<open>simp_all add: relaunched_def wf_log_def split: if_splits\<close>)
    done
qed

section \<open>A sample context\<close>

text \<open>A context for concrete runs: the floats of the sample are the natural numbers, rounded up at \<open>u64::MAX\<close>.\<close>

definition sample_round :: "rat \<Rightarrow> F64" where
  "sample_round x = (if 2 ^ 64 - 1 \<le> x \<and> x < 2 ^ 64 then Finite (2 ^ 64) else Finite x)"

definition sample_ctx :: run_ctx where
  "sample_ctx = \<lparr>c_parse_f64 = (\<lambda>s. if s = [] then None else map_option (\<lambda>n. sample_round (of_nat n)) (digits_val 0 s)),
     c_show_f64 = (\<lambda>x. case x of Finite r \<Rightarrow> show_nat (nat \<lfloor>r\<rfloor>) | _ \<Rightarrow> []),
     c_round = sample_round, c_stat = (\<lambda>_. None), c_fs = (\<lambda>_. HostMissing),
     c_parse_v6 = (\<lambda>s. case s of [] \<Rightarrow> None | c # cs \<Rightarrow> map_option word_of_nat (digits_val 0 cs)),
     c_show_v6 = (\<lambda>a. CHR ''v'' # show_nat (unat a))\<rparr>"

lemma sample_stat_ok: "stat_ok sample_ctx"
  by (simp add: stat_ok_def sample_ctx_def)

lemma sample_v6_ok: "v6_text_ok sample_ctx"
proof -
  have "CHR ''.'' \<notin> set (CHR ''v'' # show_nat n)" "CHR '']'' \<notin> set (CHR ''v'' # show_nat n)" for n
    using not_digit_not_in_show_nat [of _ n] by (auto simp: ascii_class_defs)
  then show ?thesis
    using split_on_plain by (simp add: v6_text_ok_def sample_ctx_def parse_v4_def split: option.split)
qed

lemma sample_round_idem: "x < 2 ^ 64 - 1 \<or> 2 ^ 64 \<le> x \<Longrightarrow> sample_round x = Finite x"
  by (auto simp: sample_round_def)

lemma sample_round_range: "sample_round x = Finite b \<Longrightarrow> b < 2 ^ 64 - 1 \<or> 2 ^ 64 \<le> b"
  by (auto simp: sample_round_def split: if_splits)

lemma sample_round_floor:
  assumes "sample_round x = Finite b"
  shows "sample_round (of_int \<lfloor>b\<rfloor>) = Finite (of_int \<lfloor>b\<rfloor>)"
proof (rule sample_round_idem)
  from sample_round_range [OF assms] show "(of_int \<lfloor>b\<rfloor> :: rat) < 2 ^ 64 - 1 \<or> 2 ^ 64 \<le> (of_int \<lfloor>b\<rfloor> :: rat)"
  proof
    assume "b < 2 ^ 64 - 1"
    then show ?thesis using of_int_floor_le [of b] by linarith
  next
    assume "2 ^ 64 \<le> b"
    then have "(2 ^ 64 :: int) \<le> \<lfloor>b\<rfloor>" by (simp add: le_floor_iff)
    then show ?thesis using of_int_le_iff [of "2 ^ 64" "\<lfloor>b\<rfloor>", where 'a = rat] by simp
  qed
qed

lemma sample_f64_ok: "f64_text_ok sample_ctx"
proof -
  have "sample_round (of_nat n) = Finite (of_nat n)" if "n < 2 ^ 53" for n
  proof -
    have "(of_nat n :: rat) < 2 ^ 53" using of_nat_less_iff [of n "2 ^ 53", where 'a = rat] that by simp
    then show ?thesis by (simp add: sample_round_def)
  qed
  moreover have "(if s = [] then None else map_option (\<lambda>n. sample_round (of_nat n)) (digits_val 0 s)) = Some x \<Longrightarrow>
      c_parse_f64 sample_ctx (trim (c_show_f64 sample_ctx x)) = Some x" for s x
  proof -
    assume "(if s = [] then None else map_option (\<lambda>n. sample_round (of_nat n)) (digits_val 0 s)) = Some x"
    then obtain n where n: "x = sample_round (of_nat n)" by (auto split: if_splits)
    then obtain k where k: "x = Finite (of_nat k)"
      by (cases "2 ^ 64 - 1 \<le> (of_nat n :: rat) \<and> (of_nat n :: rat) < 2 ^ 64")
        (auto simp: sample_round_def intro: that [of "2 ^ 64"])
    then have "sample_round (of_nat k) = Finite (of_nat k)" using sample_round_floor [of "of_nat n" "of_nat k"] n by simp
    then show ?thesis by (simp add: k sample_ctx_def)
  qed
  ultimately show ?thesis
    using sample_round_floor by (simp add: f64_text_ok_def sample_ctx_def sample_round_def [of "2 ^ 64 - 1", simplified])
qed

section \<open>Properties\<close>

text \<open>C39: The canonical arguments that a detached container stores parse back to the arguments they were printed
  from: every resource limit, mount, port, label, capability, environment entry, the image and its command survive
  a restart, whatever command line was given. Only what a restart replaces differs: the container is detached and not
  interactive, the network mode counts as specified, and the root file system is the resolved path.\<close>

theorem launch_args_roundtrip:
  assumes "parse_run_args ctx args = Inr a" and "stat_ok ctx" and "v6_text_ok ctx" and "f64_text_ok ctx"
    and "\<And>img. ra_image a = Some img \<Longrightarrow> \<not> (starts_with img ''-'' \<and> 1 < length img)"
  shows "parse_run_args ctx (detached_launch_args ctx (a\<lparr>ra_net := net\<rparr>) rootfs) =
    Inr (a\<lparr>ra_net := net, ra_net_specified := True, ra_rootfs := map_option (\<lambda>_. rootfs) (ra_rootfs a),
      ra_interactive := False, ra_tty := False, ra_detach := True\<rparr>)"
proof -
  have "wf_args ctx a" using assms(1,2,4) by (rule parse_run_args_wf)
  then have "wf_args ctx (a\<lparr>ra_net := net\<rparr>)" by (simp add: wf_args_def wf_target_def)
  then have "run_loop ctx RunArgs_default (detached_launch_args ctx (a\<lparr>ra_net := net\<rparr>) rootfs) = Inr (relaunched (a\<lparr>ra_net := net\<rparr>) rootfs)"
    using assms(3-5) by (intro run_loop_launch_args) simp_all
  then show ?thesis by (simp add: parse_run_args_def relaunched_def)
qed

theorem launch_args_roundtrip_witness:
  "\<exists>a. parse_run_args sample_ctx [''-it'', ''--memory'', ''64M'', ''img'', ''sh''] = Inr a \<and>
     parse_run_args sample_ctx (detached_launch_args sample_ctx (a\<lparr>ra_net := NetBridge\<rparr>) ''/'') =
       Inr (a\<lparr>ra_net := NetBridge, ra_net_specified := True, ra_rootfs := None,
         ra_interactive := False, ra_tty := False, ra_detach := True\<rparr>)"
proof -
  let ?a = "RunArgs_default\<lparr>ra_interactive := True, ra_tty := True, ra_memory := Some ''64M'', ra_image := Some ''img'', ra_argv := [''sh'']\<rparr>"
  have "parse_run_args sample_ctx [''-it'', ''--memory'', ''64M'', ''img'', ''sh''] = Inr ?a"
    by (simp add: parse_run_args_def value_options_def set_flag_def set_option_eval set_inline_def strip_prefix_def starts_with_def
        positional_def RunArgs_default_def)
  moreover from this have "parse_run_args sample_ctx (detached_launch_args sample_ctx (?a\<lparr>ra_net := NetBridge\<rparr>) ''/'') =
     Inr (?a\<lparr>ra_net := NetBridge, ra_net_specified := True, ra_rootfs := map_option (\<lambda>_. ''/'') (ra_rootfs ?a),
      ra_interactive := False, ra_tty := False, ra_detach := True\<rparr>)"
    by (rule launch_args_roundtrip [OF _ sample_stat_ok sample_v6_ok sample_f64_ok]) (simp add: starts_with_def)
  moreover have "ra_rootfs ?a = None" by (simp add: RunArgs_default_def)
  ultimately show ?thesis by simp
qed

text \<open>Renaming a container edits its stored arguments to exactly those of a container created under the new name: a
  name is replaced, added or removed and no other argument changes. (Without a stored name, no other argument may be the
  word \<open>--name\<close>.)\<close>

lemma rename_launch_args:
  assumes "ra_name a \<noteq> None \<or> ''--name'' \<notin> set (detached_launch_args ctx a rootfs)"
  shows "set_launch_name name (detached_launch_args ctx a rootfs) = detached_launch_args ctx (a\<lparr>ra_name := name\<rparr>) rootfs"
proof -
  obtain tail where shape: "detached_launch_args ctx (a\<lparr>ra_name := n\<rparr>) rootfs = ''-d'' # opt_args ''--name'' (\<lambda>v. v) n @ tail" for n
  proof -
    have "\<exists>tail. \<forall>n. detached_launch_args ctx (a\<lparr>ra_name := n\<rparr>) rootfs = ''-d'' # opt_args ''--name'' (\<lambda>v. v) n @ tail"
      unfolding detached_launch_args_def by (simp only: append_Cons append_Nil) (simp cong: if_cong)
    then show ?thesis using that by blast
  qed
  have self: "detached_launch_args ctx a rootfs = ''-d'' # opt_args ''--name'' (\<lambda>v. v) (ra_name a) @ tail"
    using shape [of "ra_name a"] by simp
  show ?thesis
  proof (cases "ra_name a")
    case (Some old)
    then have args: "detached_launch_args ctx a rootfs = ''-d'' # ''--name'' # old # tail"
      by (simp add: self opt_args_def)
    have "position (\<lambda>x. x = ''--name'') (take (option_end (''-d'' # ''--name'' # old # tail)) (''-d'' # ''--name'' # old # tail)) = Some 1"
      by (cases "position (\<lambda>x. x = ''--'') (old # tail)") (simp_all add: option_end_def split: if_splits)
    then show ?thesis unfolding shape args by (cases name) (simp_all add: set_launch_name_def opt_args_def)
  next
    case None
    with assms have args: "detached_launch_args ctx a rootfs = ''-d'' # tail" and no: "''--name'' \<notin> set (''-d'' # tail)"
      by (simp_all add: self opt_args_def)
    then have "position (\<lambda>x. x = ''--name'') (take (option_end (''-d'' # tail)) (''-d'' # tail)) = None"
      by (auto simp: position_None_iff dest: in_set_takeD)
    then show ?thesis unfolding shape args by (cases name) (simp_all add: set_launch_name_def opt_args_def)
  qed
qed

lemma rename_launch_args_witness:
  "set_launch_name (Some ''web'') (detached_launch_args sample_ctx RunArgs_default ''/'') =
     [''-d'', ''--name'', ''web'', ''--net'', ''none'']"
proof -
  have "detached_launch_args sample_ctx (RunArgs_default\<lparr>ra_name := n\<rparr>) ''/'' =
      [''-d''] @ opt_args ''--name'' (\<lambda>v. v) n @ [''--net'', ''none'']" for n
    by (simp add: detached_launch_args_def opt_args_def flag_args_def list_args_def io_args_def RunArgs_default_def)
  from this [of None] this [of "Some ''web''"]
    rename_launch_args [where a = RunArgs_default and ctx = sample_ctx and rootfs = "''/''" and name = "Some ''web''"]
  show ?thesis by (simp add: opt_args_def RunArgs_default_def)
qed

end
