(* ===== verification/Lifecycle.thy ===== *)
theory Lifecycle
  imports Cgroup Container_State
begin

text \<open>
  The life of a detached container (src/lifecycle.rs and the container commands of src/main.rs): what the reaper persists,
  crash reconciliation, and the commands pause, unpause, kill, stop, rm, wait and rename.

  A \<open>world\<close> is what the processes of the host share: the records, the address file, the process table, the freezers of
  the cgroups, and the trace of actions on other host resources. The answers a command gets from the host are a \<open>host\<close>.
  A command that waits is given what the other processes do between its polls as lists of \<open>event\<close>s, so that every
  interleaving with a reaper is a run of the model.
\<close>

section \<open>The world and the host\<close>

datatype host_act =
    Net net_action
  | Cg cg_action
  | SendSignal int "nat option option" int
  | RemoveTree string
  | WriteFile string string

record world =
  w_root :: string
  w_data :: string
  w_dir :: containers
  w_ipam :: ipam_disk
  w_procs :: "int \<Rightarrow> nat option option"
  w_frozen :: "string \<Rightarrow> bool"
  w_acts :: "host_act list"

record host =
  h_now :: string
  h_nft :: bool
  h_nl :: bool
  h_link :: "string \<Rightarrow> nat option"
  h_cgroot :: "cg_error + string"
  h_exists :: "string \<Rightarrow> bool"
  h_file :: "string \<Rightarrow> string \<Rightarrow> string option"
  h_rmdir :: "string \<Rightarrow> rmdir_answer"
  h_save :: bool
  h_ipam :: ipam_env
  h_lock :: bool
  h_name_lock :: bool
  h_freeze :: "string \<Rightarrow> bool \<Rightarrow> bool \<times> (string option \<times> bool) list"
  h_pidfd :: "int \<Rightarrow> bool"
  h_kill :: "int \<Rightarrow> int \<Rightarrow> bool"

datatype cmd_error =
    CannotResolve resolve_error
  | Locked
  | Disappeared string
  | StateFailed state_error
  | NotRunning string
  | NoLifecycleCgroup string
  | CgroupFailed cg_error
  | RollbackFailed state_error cg_error
  | RunningNeedsForce string
  | NoValidPid
  | PidfdFailed
  | PidReused
  | SignalFailed
  | NeverStarted string
  | StateVanished string
  | BadNewName string
  | NameInUse string
  | AlreadyRunning string
  | NoLaunchMetadata string
  | BadLaunchMetadata string
  | StartFailed string

text \<open>The next step of a command, when the one before it succeeded.\<close>

definition andw :: "('e + 'a) \<times> world \<Rightarrow> ('a \<Rightarrow> world \<Rightarrow> ('e + 'b) \<times> world) \<Rightarrow> ('e + 'b) \<times> world" where
  "andw m f = (case m of (Inl e, w) \<Rightarrow> (Inl e, w) | (Inr x, w) \<Rightarrow> f x w)"

definition errw :: "('e \<Rightarrow> 'f) \<Rightarrow> ('e + 'a) \<times> world \<Rightarrow> ('f + 'a) \<times> world" where
  "errw g m = (map_err g (fst m), snd m)"

definition display_name :: "ContainerState \<Rightarrow> string" where
  "display_name st = (case cs_name st of Some n \<Rightarrow> n | None \<Rightarrow> cs_id st)"

text \<open>\<open>pid_alive\<close> over the process table: \<open>None\<close> is no such process, \<open>Some None\<close> one whose start time cannot be read.\<close>

definition alive :: "world \<Rightarrow> ContainerState \<Rightarrow> bool" where
  "alive w st = pid_alive (\<lambda>p. w_procs w p \<noteq> None) (\<lambda>p. case w_procs w p of None \<Rightarrow> None | Some t \<Rightarrow> t) st"

definition act :: "host_act list \<Rightarrow> world \<Rightarrow> world" where
  "act as w = w\<lparr>w_acts := w_acts w @ as\<rparr>"

definition get :: "world \<Rightarrow> string \<Rightarrow> ContainerState option" where
  "get w cid = load (w_root w) (w_dir w) cid"

definition put :: "host \<Rightarrow> ContainerState \<Rightarrow> world \<Rightarrow> (state_error + unit) \<times> world" where
  "put h st w = (case save (h_save h) (w_root w) st (w_dir w) of (r, dir) \<Rightarrow> (r, w\<lparr>w_dir := dir\<rparr>))"

section \<open>Reconciliation\<close>

definition reconcile_cgroup :: "host \<Rightarrow> ContainerState \<Rightarrow> bool \<times> ContainerMetrics option \<times> host_act list" where
  "reconcile_cgroup h st = (case cs_cgroup st of
      None \<Rightarrow> (True, cs_metrics st, [])
    | Some p \<Rightarrow>
        if is_container_path (h_cgroot h) (cs_id st) p then
          (case remove_for_container (h_rmdir h) (h_cgroot h) (cs_id st) p of (r, as) \<Rightarrow>
            (r = Inr (), if h_exists h p then Some (metrics_from_cgroup_path (h_file h p)) else cs_metrics st, map Cg as))
        else (False, cs_metrics st, []))"

definition teardown_acts :: "host \<Rightarrow> ContainerState \<Rightarrow> host_act list" where
  "teardown_acts h st = (case cs_veth st of None \<Rightarrow> []
     | Some veth \<Rightarrow> map Net (teardown_named (h_nft h) (h_nl h) (h_link h) (cs_id st) veth (cs_table st)))"

definition release_lease :: "host \<Rightarrow> ContainerState \<Rightarrow> world \<Rightarrow> world" where
  "release_lease h st w =
     (if cs_net st = ''bridge'' then w\<lparr>w_ipam := release_ip (h_ipam h) (cs_id st) (w_ipam w)\<rparr> else w)"

definition exited_record :: "host \<Rightarrow> bool \<Rightarrow> ContainerMetrics option \<Rightarrow> ContainerState \<Rightarrow> ContainerState" where
  "exited_record h reclaimed metrics st = st\<lparr>cs_metrics := metrics, cs_status := Exited, cs_paused := False,
     cs_exit_code := (case cs_exit_code st of None \<Rightarrow> Some 137 | Some c \<Rightarrow> Some c), cs_finished := Some (h_now h),
     cs_table := None, cs_veth := None, cs_cgroup := (if reclaimed then None else cs_cgroup st)\<rparr>"

definition reconcile_stale :: "host \<Rightarrow> ContainerState \<Rightarrow> world \<Rightarrow> bool \<times> ContainerState \<times> world" where
  "reconcile_stale h st w =
     (if cs_status st \<noteq> Running \<or> alive w st then (False, st, w)
      else (case reconcile_cgroup h st of (reclaimed, metrics, as) \<Rightarrow>
        (True, exited_record h reclaimed metrics st, release_lease h st (act (teardown_acts h st @ as) w))))"

definition reconcile_stale_and_save ::
  "host \<Rightarrow> ContainerState \<Rightarrow> world \<Rightarrow> (state_error + bool) \<times> ContainerState \<times> world" where
  "reconcile_stale_and_save h st w = (case reconcile_stale h st w of (changed, st, w) \<Rightarrow>
     if \<not> changed then (Inr False, st, w)
     else (case put h st w of (r, w) \<Rightarrow> (and_then r (\<lambda>_. Inr True), st, w)))"

definition reconcile_stale_state :: "host \<Rightarrow> ContainerState \<Rightarrow> world \<Rightarrow> (cmd_error + ContainerState) \<times> world" where
  "reconcile_stale_state h st w = (case reconcile_stale_and_save h st w of (r, st, w) \<Rightarrow>
     (map_err StateFailed (and_then r (\<lambda>_. Inr st)), w))"

definition reclaim_resources :: "host \<Rightarrow> ContainerState \<Rightarrow> world \<Rightarrow> world" where
  "reclaim_resources h st w =
     release_lease h st (act (teardown_acts h st @ (case cs_cgroup st of None \<Rightarrow> []
       | Some p \<Rightarrow> map Cg (snd (remove_for_container (h_rmdir h) (h_cgroot h) (cs_id st) p)))) w)"

section \<open>What the reaper writes\<close>

record StartedInfo =
  si_pid :: int
  si_pid_start_time :: "nat option"
  si_ip :: "Ipv4Addr option"
  si_table :: "string option"
  si_veth :: "string option"
  si_cgroup :: "string option"

datatype reaper_error = RecordGone string | NotPersisted state_error

definition started_record :: "host \<Rightarrow> StartedInfo \<Rightarrow> ContainerState \<Rightarrow> ContainerState" where
  "started_record h info st = st\<lparr>cs_status := Running, cs_paused := False, cs_pid := Some (si_pid info),
     cs_pid_start_time := si_pid_start_time info, cs_started := Some (h_now h), cs_ip := si_ip info,
     cs_table := si_table info, cs_veth := si_veth info, cs_cgroup := si_cgroup info\<rparr>"

definition persist_started_state :: "host \<Rightarrow> string \<Rightarrow> StartedInfo \<Rightarrow> world \<Rightarrow> (reaper_error + unit) \<times> world" where
  "persist_started_state h cid info w = (case get w cid of
      None \<Rightarrow> (Inl (RecordGone cid), w)
    | Some st \<Rightarrow> (case put h (started_record h info st) w of
          (Inl e, w) \<Rightarrow> (Inl (NotPersisted e), w) | (Inr _, w) \<Rightarrow> (Inr (), w)))"

definition finished_record :: "host \<Rightarrow> int \<Rightarrow> ContainerMetrics option \<Rightarrow> ContainerState \<Rightarrow> ContainerState" where
  "finished_record h ecode metrics st = st\<lparr>cs_metrics := or_else metrics (cs_metrics st), cs_status := Exited,
     cs_paused := False, cs_exit_code := Some ecode, cs_finished := Some (h_now h)\<rparr>"

text \<open>After the container's end: the final record, and with \<open>--rm\<close> the writable layer and the record's directory go.\<close>

definition reaper_finish ::
  "host \<Rightarrow> string \<Rightarrow> string option \<Rightarrow> bool \<Rightarrow> int \<Rightarrow> ContainerMetrics option \<Rightarrow> world \<Rightarrow> world" where
  "reaper_finish h cid fs remove_state ecode metrics w =
     (let w = (case get w cid of None \<Rightarrow> w | Some st \<Rightarrow> snd (put h (finished_record h ecode metrics st) w));
          w = (case fs of Some d \<Rightarrow> if remove_state then act [RemoveTree d] w else w | None \<Rightarrow> w) in
      if remove_state
      then act [RemoveTree (state_dir (w_root w) cid)] (w\<lparr>w_dir := remove_record cid (w_dir w)\<rparr>)
      else w)"

text \<open>
  The whole reaper. \<open>install\<close> and \<open>run\<close> are the answers of the log collector and of \<open>run_container_with_report\<close>, which calls
  the hook with \<open>hook\<close> when the workload has started and passes the hook's error on. The second component is what is
  written to, and closed at, the pipe the command line waits on.
\<close>

datatype pipe_op = WriteMsg string | ClosePipe

text \<open>The hook: persist the running state; \<open>None\<close> when the workload never started.\<close>

definition reaper_hook ::
  "host \<Rightarrow> StartedInfo option \<Rightarrow> string \<Rightarrow> world \<Rightarrow> (reaper_error + unit) option \<times> world" where
  "reaper_hook h hook cid w = (case hook of None \<Rightarrow> (None, w)
     | Some info \<Rightarrow> (case persist_started_state h cid info w of (r, w) \<Rightarrow> (Some r, w)))"

definition run_detached ::
  "host \<Rightarrow> string option \<Rightarrow> StartedInfo option \<Rightarrow> string + (int \<times> ContainerMetrics option) \<Rightarrow> (reaper_error \<Rightarrow> string) \<Rightarrow>
   string \<Rightarrow> string option \<Rightarrow> bool \<Rightarrow> world \<Rightarrow> int \<times> pipe_op list \<times> world" where
  "run_detached h install hook run show_err cid fs remove_state w =
     (case install of
        Some e \<Rightarrow> (1, [WriteMsg (''1: install log collector: '' @ e @ [CHR 0x0A]), ClosePipe], w)
      | None \<Rightarrow> (case reaper_hook h hook cid w of (hooked, w) \<Rightarrow>
          (let signaled = (hooked = Some (Inr ()));
               result = (case hooked of Some (Inl e) \<Rightarrow> Inl (show_err e) | _ \<Rightarrow> run);
               ended = (case result of Inr p \<Rightarrow> p | Inl _ \<Rightarrow> (1, None));
               ops = (if signaled then [WriteMsg (''0'' @ [CHR 0x0A]), ClosePipe] else [])
                 @ (case result of Inr _ \<Rightarrow> [] | Inl e \<Rightarrow> [WriteMsg (''1: '' @ e @ [CHR 0x0A]), ClosePipe])
                 @ (if signaled then []
                    else [WriteMsg (''1: container setup failed (see console.log)'' @ [CHR 0x0A]), ClosePipe])
           in (fst ended, ops, reaper_finish h cid fs remove_state (fst ended) (snd ended) w))))"

section \<open>Interference\<close>

text \<open>What other processes do while a command waits.\<close>

datatype event =
    ReaperStarted host string StartedInfo
  | ReaperFinished host string "string option" bool int "ContainerMetrics option"
  | ProcessStarts int "nat option"
  | ProcessEnds int

fun apply_event :: "event \<Rightarrow> world \<Rightarrow> world" where
  "apply_event (ReaperStarted h cid info) w = snd (persist_started_state h cid info w)"
| "apply_event (ReaperFinished h cid fs rm ecode metrics) w = reaper_finish h cid fs rm ecode metrics w"
| "apply_event (ProcessStarts pid t) w = w\<lparr>w_procs := (w_procs w)(pid := Some t)\<rparr>"
| "apply_event (ProcessEnds pid) w = w\<lparr>w_procs := (w_procs w)(pid := None)\<rparr>"

abbreviation interfere :: "event list \<Rightarrow> world \<Rightarrow> world" where
  "interfere evs w \<equiv> fold apply_event evs w"

section \<open>Waiting\<close>

text \<open>One list of events before each poll; the polls before the deadline, then the look after it.\<close>

fun wait_pid_gone :: "ContainerState \<Rightarrow> event list list \<Rightarrow> world \<Rightarrow> bool \<times> world" where
  "wait_pid_gone st [] w = (\<not> alive w st, w)"
| "wait_pid_gone st (evs # polls) w =
     (let w = interfere evs w in if \<not> alive w st then (True, w) else wait_pid_gone st polls w)"

definition settle_late :: "host \<Rightarrow> string \<Rightarrow> world \<Rightarrow> (cmd_error + unit) \<times> world" where
  "settle_late h cid w = (case get w cid of
      None \<Rightarrow> (Inr (), w)
    | Some st \<Rightarrow>
        if cs_status st = Running \<and> \<not> alive w st
        then andw (reconcile_stale_state h st w) (\<lambda>_ w. (Inr (), w)) else (Inr (), w))"

fun settle_exit :: "host \<Rightarrow> string \<Rightarrow> event list list \<Rightarrow> world \<Rightarrow> (cmd_error + unit) \<times> world" where
  "settle_exit h cid [] w = settle_late h cid w"
| "settle_exit h cid (evs # polls) w =
     (let w = interfere evs w in
      case get w cid of
        None \<Rightarrow> (Inr (), w)
      | Some st \<Rightarrow> if cs_status st \<noteq> Running then (Inr (), w) else settle_exit h cid polls w)"

section \<open>Signals\<close>

text \<open>The numbers of the targets zerun has a seccomp profile for.\<close>

definition signal_names :: "(string \<times> int) list" where
  "signal_names = [(''HUP'', 1), (''INT'', 2), (''QUIT'', 3), (''ILL'', 4), (''TRAP'', 5), (''ABRT'', 6), (''BUS'', 7),
     (''FPE'', 8), (''KILL'', 9), (''USR1'', 10), (''SEGV'', 11), (''USR2'', 12), (''PIPE'', 13), (''ALRM'', 14), (''TERM'', 15),
     (''STKFLT'', 16), (''CHLD'', 17), (''CONT'', 18), (''STOP'', 19), (''TSTP'', 20), (''TTIN'', 21), (''TTOU'', 22),
     (''URG'', 23), (''XCPU'', 24), (''XFSZ'', 25), (''VTALRM'', 26), (''PROF'', 27), (''WINCH'', 28), (''IO'', 29),
     (''PWR'', 30), (''SYS'', 31)]"

definition SIGKILL :: int where "SIGKILL = 9"
definition SIGTERM :: int where "SIGTERM = 15"

definition signal_number :: "string \<Rightarrow> int option" where
  "signal_number input =
     (case parse_i32 input of
        Some v \<Rightarrow> if 1 \<le> v \<and> v \<le> 64 then Some v else None
      | None \<Rightarrow>
          (let upper = to_ascii_uppercase input;
               name = (case strip_prefix ''SIG'' upper of Some s \<Rightarrow> s | None \<Rightarrow> upper);
               name = (case strip_prefix ''-'' name of Some s \<Rightarrow> s | None \<Rightarrow> name) in
           map_of signal_names name))"

definition signal_requires_thaw :: "int \<Rightarrow> bool" where
  "signal_requires_thaw sig \<longleftrightarrow>
     sig \<in> set [1, 2, 3, 4, 5, 6, 7, 8, 9, 10, 11, 12, 13, 14, 15, 16, 24, 25, 26, 27, 29, 30, 31]"

definition signal_container :: "host \<Rightarrow> ContainerState \<Rightarrow> int \<Rightarrow> world \<Rightarrow> (cmd_error + unit) \<times> world" where
  "signal_container h st sig w =
     (case cs_pid st of
        None \<Rightarrow> (Inl NoValidPid, w)
      | Some pid \<Rightarrow>
          if \<not> 0 < pid then (Inl NoValidPid, w)
          else (case cs_pid_start_time st of
              Some expected \<Rightarrow>
                if \<not> h_pidfd h pid then (Inl PidfdFailed, w)
                else if w_procs w pid \<noteq> Some (Some expected) then (Inl PidReused, w)
                else if h_kill h pid sig then (Inr (), act [SendSignal pid (w_procs w pid) sig] w) else (Inl SignalFailed, w)
            | None \<Rightarrow> if h_kill h pid sig then (Inr (), act [SendSignal pid (w_procs w pid) sig] w) else (Inl SignalFailed, w)))"

section \<open>Pausing\<close>

text \<open>\<open>CgroupV2::freeze\<close> on the cgroup at a path: once the control file is written, the kernel freezes or thaws, whether or not
  it reports so in time. The last poll of an answer is past the deadline.\<close>

definition set_freezer :: "host \<Rightarrow> string \<Rightarrow> bool \<Rightarrow> world \<Rightarrow> (cg_error + unit) \<times> world" where
  "set_freezer h path frozen w = (case h_freeze h path frozen of (written, polls) \<Rightarrow>
     (case freeze written frozen polls of None \<Rightarrow> Inl CgFreezeTimeout | Some r \<Rightarrow> r,
      if written then w\<lparr>w_frozen := (w_frozen w)(path := frozen)\<rparr> else w))"

definition open_cgroup :: "host \<Rightarrow> ContainerState \<Rightarrow> cmd_error + string" where
  "open_cgroup h st = (case cs_cgroup st of
      None \<Rightarrow> Inl (NoLifecycleCgroup (display_name st))
    | Some p \<Rightarrow> (case open_for_container (h_exists h) (h_cgroot h) (cs_id st) p of Inl e \<Rightarrow> Inl (CgroupFailed e) | Inr path \<Rightarrow> Inr path))"

text \<open>Freeze or thaw, record it, and undo the freezer when the record cannot be written. \<open>during\<close> is what happens while the
  freezer is awaited: the record that is written was loaded before.\<close>

definition switch_freezer ::
  "host \<Rightarrow> event list \<Rightarrow> string \<Rightarrow> bool \<Rightarrow> ContainerState \<Rightarrow> world \<Rightarrow> (cmd_error + ContainerState) \<times> world" where
  "switch_freezer h during path paused st w =
     andw (errw CgroupFailed (set_freezer h path paused w)) (\<lambda>_ w.
       (case put h (st\<lparr>cs_paused := paused\<rparr>) (interfere during w) of
          (Inr _, w) \<Rightarrow> (Inr (st\<lparr>cs_paused := paused\<rparr>), w)
        | (Inl e, w) \<Rightarrow>
            andw (errw (RollbackFailed e) (set_freezer h path (\<not> paused) w)) (\<lambda>_ w. (Inl (StateFailed e), w))))"

definition thaw_paused_container ::
  "host \<Rightarrow> event list \<Rightarrow> ContainerState \<Rightarrow> world \<Rightarrow> (cmd_error + ContainerState) \<times> world" where
  "thaw_paused_container h during st w =
     (if \<not> cs_paused st then (Inr st, w)
      else andw (open_cgroup h st, w) (\<lambda>path. switch_freezer h during path False st))"

section \<open>The commands\<close>

text \<open>What every command starts with: resolve, take the operation lock, load again. \<open>race\<close> is what happens in between.\<close>

definition open_record :: "host \<Rightarrow> string \<Rightarrow> event list \<Rightarrow> world \<Rightarrow> (cmd_error + ContainerState) \<times> world" where
  "open_record h target race w = (case resolve (w_root w) (w_dir w) target of
      Inl e \<Rightarrow> (Inl (CannotResolve e), w)
    | Inr initial \<Rightarrow>
        if \<not> h_lock h then (Inl Locked, w)
        else (let w = interfere race w in
          case get w (cs_id initial) of
            None \<Rightarrow> (Inl (Disappeared (display_name initial)), w)
          | Some st \<Rightarrow> (Inr st, w)))"

definition set_container_paused ::
  "host \<Rightarrow> string \<Rightarrow> bool \<Rightarrow> event list \<Rightarrow> event list \<Rightarrow> world \<Rightarrow> (cmd_error + string) \<times> world" where
  "set_container_paused h target paused race during w =
     andw (open_record h target race w) (\<lambda>st w.
     andw (reconcile_stale_state h st w) (\<lambda>st w.
       if cs_status st \<noteq> Running \<or> \<not> alive w st then (Inl (NotRunning (display_name st)), w)
       else andw (open_cgroup h st, w) (\<lambda>path w.
         andw (switch_freezer h during path paused st w) (\<lambda>_ w. (Inr (display_name st), w)))))"

text \<open>Signal, then wait for the process to be gone; whether it is does not matter to the caller.\<close>

definition kill_and_wait ::
  "host \<Rightarrow> ContainerState \<Rightarrow> event list list \<Rightarrow> world \<Rightarrow> (cmd_error + unit) \<times> world" where
  "kill_and_wait h st polls w =
     andw (signal_container h st SIGKILL w) (\<lambda>_ w. (Inr (), snd (wait_pid_gone st polls w)))"

definition kill_one ::
  "host \<Rightarrow> string \<Rightarrow> int \<Rightarrow> event list \<Rightarrow> event list \<Rightarrow> event list list \<Rightarrow> event list list \<Rightarrow> world \<Rightarrow> (cmd_error + string) \<times> world" where
  "kill_one h target sig race during polls settle w =
     andw (open_record h target race w) (\<lambda>st w.
       if cs_status st \<noteq> Running then (Inr (display_name st), w)
       else if \<not> alive w st then andw (reconcile_stale_state h st w) (\<lambda>_ w. (Inr (display_name st), w))
       else andw (if cs_paused st \<and> signal_requires_thaw sig then thaw_paused_container h during st w else (Inr st, w)) (\<lambda>st w.
         andw (signal_container h st sig w) (\<lambda>_ w.
           (case wait_pid_gone st polls w of (gone, w) \<Rightarrow>
              andw (if gone then settle_exit h (cs_id st) settle w else (Inr (), w)) (\<lambda>_ w. (Inr (display_name st), w))))))"

definition stop_one ::
  "host \<Rightarrow> string \<Rightarrow> event list \<Rightarrow> event list \<Rightarrow> event list list \<Rightarrow> event list list \<Rightarrow> event list list \<Rightarrow> world \<Rightarrow> (cmd_error + string) \<times> world" where
  "stop_one h target race during grace polls settle w =
     andw (open_record h target race w) (\<lambda>st w.
       if cs_status st \<noteq> Running then (Inr (display_name st), w)
       else if \<not> alive w st then andw (reconcile_stale_state h st w) (\<lambda>_ w. (Inr (display_name st), w))
       else andw (thaw_paused_container h during st w) (\<lambda>st w.
         andw (signal_container h st SIGTERM w) (\<lambda>_ w.
           (case wait_pid_gone st grace w of (gone, w) \<Rightarrow>
              andw (if gone then (Inr (), w) else kill_and_wait h st polls w) (\<lambda>_ w.
              andw (settle_exit h (cs_id st) settle w) (\<lambda>_ w. (Inr (display_name st), w)))))))"

text \<open>The kill of a running container that \<open>rm -f\<close> removes, and the record as it is afterwards.\<close>

definition rm_force ::
  "host \<Rightarrow> event list \<Rightarrow> ContainerState \<Rightarrow> event list list \<Rightarrow> event list list \<Rightarrow> world \<Rightarrow> (cmd_error + ContainerState) \<times> world" where
  "rm_force h during st polls settle w =
     andw (thaw_paused_container h during st w) (\<lambda>st w.
     andw (if cs_pid st \<noteq> None \<and> alive w st then kill_and_wait h st polls w else (Inr (), w)) (\<lambda>_ w.
     andw (settle_exit h (cs_id st) settle w) (\<lambda>_ w.
       (Inr (case get w (cs_id st) of Some fresh \<Rightarrow> fresh | None \<Rightarrow> st), w))))"

definition container_overlay_dir :: "string \<Rightarrow> string \<Rightarrow> string" where
  "container_overlay_dir data_root cid = data_root @ ''/overlays/'' @ cid"

definition remove_container :: "host \<Rightarrow> ContainerState \<Rightarrow> world \<Rightarrow> world" where
  "remove_container h st w =
     (let w = reclaim_resources h st w;
          w = (if cs_overlay st \<noteq> None then act [RemoveTree (container_overlay_dir (w_data w) (cs_id st))] w else w)
      in act [RemoveTree (state_dir (w_root w) (cs_id st))] (w\<lparr>w_dir := remove_record (cs_id st) (w_dir w)\<rparr>))"

definition rm_one ::
  "host \<Rightarrow> string \<Rightarrow> bool \<Rightarrow> event list \<Rightarrow> event list \<Rightarrow> event list list \<Rightarrow> event list list \<Rightarrow> world \<Rightarrow> (cmd_error + string) \<times> world" where
  "rm_one h target force race during polls settle w =
     andw (open_record h target race w) (\<lambda>st w.
       if cs_status st = Running \<and> \<not> force then (Inl (RunningNeedsForce (display_name st)), w)
       else andw (if cs_status st = Running then rm_force h during st polls settle w else (Inr st, w)) (\<lambda>st' w.
         (Inr (display_name st), remove_container h st' w)))"

text \<open>\<open>wait\<close> polls until the record is final; \<open>None\<close>: still waiting after the last poll given.\<close>

fun wait_loop :: "host \<Rightarrow> string \<Rightarrow> string \<Rightarrow> event list list \<Rightarrow> world \<Rightarrow> (cmd_error + int) option \<times> world" where
  "wait_loop h name cid [] w = (None, w)"
| "wait_loop h name cid (evs # polls) w =
     (let w = interfere evs w in
      case get w cid of
        None \<Rightarrow> (Some (Inl (StateVanished name)), w)
      | Some st \<Rightarrow>
          if cs_status st = Exited then (Some (Inr (case cs_exit_code st of None \<Rightarrow> - 1 | Some c \<Rightarrow> c)), w)
          else if cs_status st = Running \<and> \<not> alive w st then
            (case reconcile_stale_state h st w of
               (Inl e, w) \<Rightarrow> (Some (Inl e), w)
             | (Inr st, w) \<Rightarrow>
                 if cs_status st = Exited then (Some (Inr (case cs_exit_code st of None \<Rightarrow> - 1 | Some c \<Rightarrow> c)), w)
                 else wait_loop h name cid polls w)
          else wait_loop h name cid polls w)"

definition wait_one :: "host \<Rightarrow> string \<Rightarrow> event list list \<Rightarrow> world \<Rightarrow> (cmd_error + int) option \<times> world" where
  "wait_one h target polls w = (case resolve (w_root w) (w_dir w) target of
      Inl e \<Rightarrow> (Some (Inl (CannotResolve e)), w)
    | Inr st \<Rightarrow>
        if cs_status st = Created then (Some (Inl (NeverStarted (display_name st))), w)
        else wait_loop h (display_name st) (cs_id st) polls w)"

end
