(* ===== verification/Run_Cmd.thy ===== *)
theory Run_Cmd
  imports Lifecycle Run_Args Image_Name
begin

text \<open>
  Creating, starting and renaming containers (src/main.rs, with the per-container directories of src/store.rs): the checks of
  \<open>run\<close>, the resolution of a run from an image, a root file system or a stopped container, the reservation of an identifier,
  the record of a detached container, the hand-over to the reaper, and the commands \<open>start\<close> and \<open>rename\<close>.

  What the image store, the file system and the kernel answer is collected in \<open>run_host\<close>. Exit codes are those of the
  command.
\<close>

section \<open>Data\<close>

record ImageConfig =
  ic_env :: "string list"
  ic_entrypoint :: "string list"
  ic_cmd :: "string list"
  ic_working_dir :: string
  ic_user :: string
  ic_labels :: "(string \<times> string) list"

record ContainerFs =
  fs_lower :: string
  fs_upper :: string
  fs_work :: string
  fs_merged :: string
  fs_tmpfs_upper :: bool
  fs_dir :: string

record RunSpec =
  sp_rootfs :: string
  sp_argv :: "string list"
  sp_hostname :: "string option"
  sp_net :: NetMode
  sp_use_init :: bool
  sp_limits :: ResourceLimits
  sp_seccomp :: SeccompMode
  sp_capabilities :: "int list"
  sp_tty :: bool
  sp_interactive :: bool
  sp_overlay :: "ContainerFs option"
  sp_id :: string
  sp_env :: "(string \<times> string) list option"
  sp_cwd :: "string option"
  sp_user :: "string option"
  sp_readonly :: bool
  sp_tmpfs :: "TmpfsMount list"
  sp_ports :: "PublishedPort list"
  sp_volumes :: "BindMount list"
  sp_lifecycle_cgroup :: bool

record run_host =
  rh_ctx :: run_ctx
  rh_euid :: nat
  rh_last_cap :: nat
  rh_environ :: "string \<Rightarrow> string option"
  rh_lowercase :: "string \<Rightarrow> string"
  rh_store :: bool
  rh_dirs :: bool
  rh_mkdir :: "string \<Rightarrow> bool"
  rh_write :: "string \<Rightarrow> bool"
  rh_resolv :: "string option"
  rh_is_dir :: "string \<Rightarrow> bool"
  rh_canon :: "string \<Rightarrow> string option"
  rh_cwd :: "string option"
  rh_img_lock :: bool
  rh_img_open :: bool
  rh_img_lease :: bool
  rh_img_root :: "string option"
  rh_image :: "Reference \<Rightarrow> string option \<Rightarrow> PullPolicy \<Rightarrow> (string \<times> ImageConfig) option"
  rh_ids :: "string list"
  rh_reserve :: bool
  rh_log :: bool
  rh_pipe :: bool
  rh_fork :: bool
  rh_setsid :: bool

definition default_net :: "nat \<Rightarrow> NetMode" where
  "default_net euid = (if euid = 0 then NetBridge else NetNone)"

section \<open>The checks of run\<close>

text \<open>The combinations of options \<open>run\<close> refuses, in the order of the checks.\<close>

definition refused :: "RunArgs \<Rightarrow> bool" where
  "refused a \<longleftrightarrow>
     (ra_no_overlay a \<and> ra_tmpfs_upper a) \<or>
     (ra_ports a \<noteq> [] \<and> ra_net a \<noteq> NetBridge) \<or>
     (ra_tty a \<and> ra_detach a) \<or>
     (ra_rootfs a = None \<and> ra_image a = None) \<or>
     (ra_rootfs a \<noteq> None \<and> ra_entrypoint a \<noteq> None) \<or>
     (ra_rootfs a \<noteq> None \<and> ra_pull a \<noteq> Missing) \<or>
     ra_workdir a = Some []"

definition volume_dir :: "string \<Rightarrow> string \<Rightarrow> string" where
  "volume_dir data_root name = data_root @ ''/volumes/'' @ name"

fun resolve_named_volumes :: "(string \<Rightarrow> bool) \<Rightarrow> string \<Rightarrow> BindMount list \<Rightarrow> mount_error + BindMount list" where
  "resolve_named_volumes mkdir data [] = Inr []"
| "resolve_named_volumes mkdir data (v # vs) = (case bm_named v of
      None \<Rightarrow> and_then (resolve_named_volumes mkdir data vs) (\<lambda>vs. Inr (v # vs))
    | Some name \<Rightarrow>
        and_then (validate_volume_name name) (\<lambda>_.
          if \<not> mkdir (volume_dir data name) then Inl (VolumeCreate name)
          else and_then (resolve_named_volumes mkdir data vs) (\<lambda>vs. Inr (v\<lparr>bm_source := volume_dir data name\<rparr> # vs))))"

text \<open>The command line after all checks and defaults, with the capability set, or the exit code.\<close>

definition check_run :: "run_host \<Rightarrow> string \<Rightarrow> bool \<Rightarrow> string list \<Rightarrow> int + RunArgs \<times> int list" where
  "check_run rh data resuming args =
     (if ''--help'' \<in> set args then Inl 0
      else (case parse_run_args (rh_ctx rh) args of
          Inl _ \<Rightarrow> Inl 2
        | Inr a \<Rightarrow>
            (let a = (if ra_net_specified a then a else a\<lparr>ra_net := default_net (rh_euid rh)\<rparr>) in
             if refused a then Inl 2
             else (case resolve_caps (rh_last_cap rh) (ra_cap_add a) (ra_cap_drop a) of
                 Inl _ \<Rightarrow> Inl 2
               | Inr caps \<Rightarrow>
                   if \<not> rh_store rh \<or> \<not> rh_dirs rh then Inl 1
                   else (case resolve_named_volumes (rh_mkdir rh) data (ra_volumes a) of
                       Inl _ \<Rightarrow> Inl 2
                     | Inr vols \<Rightarrow>
                         if \<not> resuming \<and> ra_image a \<noteq> None \<and> \<not> (rh_img_open rh \<and> rh_img_lock rh) then Inl 1
                         else Inr (a\<lparr>ra_volumes := vols\<rparr>, caps))))))"

section \<open>Identifiers\<close>

text \<open>The loop over fresh random identifiers; \<open>None\<close>: the loop is not over with the candidates given. The directory is the
  reservation.\<close>

fun reserve :: "string list \<Rightarrow> bool \<Rightarrow> containers \<Rightarrow> (string option \<times> containers) option" where
  "reserve [] ok dir = None"
| "reserve (cid # ids) ok dir =
     (if cid \<in> set (map fst dir) then reserve ids ok dir
      else if ok then Some (Some cid, (cid, Directory, NoState) # dir) else Some (None, dir))"

section \<open>The writable layer\<close>

definition layer_paths :: "string \<Rightarrow> string \<Rightarrow> string \<Rightarrow> bool \<Rightarrow> ContainerFs" where
  "layer_paths dir lower cid tmpfs = \<lparr>fs_lower = lower, fs_upper = dir @ ''/upper'', fs_work = dir @ ''/work'',
     fs_merged = dir @ ''/merged'', fs_tmpfs_upper = tmpfs, fs_dir = dir\<rparr>"

definition absolute :: "string option \<Rightarrow> string \<Rightarrow> string option" where
  "absolute cwd p = (if starts_with p ''/'' then Some p else map_option (\<lambda>c. path_join c p) cwd)"

definition prepare_container_fs :: "run_host \<Rightarrow> string \<Rightarrow> string \<Rightarrow> string \<Rightarrow> bool \<Rightarrow> ContainerFs option" where
  "prepare_container_fs rh data cid lower tmpfs =
     (let dir = container_overlay_dir data cid in
      if \<not> valid_id cid \<or> \<not> list_all (rh_mkdir rh) [dir @ ''/upper'', dir @ ''/work'', dir @ ''/merged''] then None
      else map_option (\<lambda>lower. layer_paths dir lower cid tmpfs) (absolute (rh_cwd rh) lower))"

definition reopen_container_fs :: "run_host \<Rightarrow> string \<Rightarrow> string \<Rightarrow> string \<Rightarrow> bool \<Rightarrow> ContainerFs option" where
  "reopen_container_fs rh data cid lower tmpfs =
     (let dir = container_overlay_dir data cid in
      if \<not> valid_id cid \<or> \<not> rh_is_dir rh (dir @ ''/upper'') \<or> \<not> rh_is_dir rh (dir @ ''/work'') \<or> \<not> rh_mkdir rh (dir @ ''/merged'')
      then None
      else (case absolute (rh_cwd rh) lower of None \<Rightarrow> None
        | Some l \<Rightarrow> if rh_is_dir rh l then Some (layer_paths dir l cid tmpfs) else None))"

section \<open>What a run executes\<close>

record run_plan =
  pl_rootfs :: string
  pl_env :: "(string \<times> string) list option"
  pl_cwd :: "string option"
  pl_user :: "string option"
  pl_argv :: "string list"
  pl_labels :: "(string \<times> string) list"
  pl_caps :: "int list"
  pl_seccomp :: SeccompMode

definition state_environment :: "ContainerState \<Rightarrow> env_error + (string \<times> string) list option" where
  "state_environment st =
     (if cs_env st = [] \<and> starts_with (cs_image st) ''rootfs:'' then Inr None
      else and_then (state_env (cs_env st)) (\<lambda>e. Inr (Some e)))"

text \<open>The lower root file system of a stopped container: the recorded external one, or a directory of the image store.\<close>

definition path_below :: "string \<Rightarrow> string \<Rightarrow> bool" where
  "path_below base p \<longleftrightarrow> p = base \<or> starts_with p (if base = ''/'' then base else base @ ''/'')"

definition resumable_lower_rootfs :: "run_host \<Rightarrow> ContainerState \<Rightarrow> string option" where
  "resumable_lower_rootfs rh st = (case cs_lower st of None \<Rightarrow> None
     | Some lower \<Rightarrow>
         if \<not> starts_with lower ''/'' then None
         else (case strip_prefix ''rootfs:'' (cs_image st) of
             Some recorded \<Rightarrow> (case (rh_canon rh recorded, rh_canon rh lower) of
                 (Some r, Some l) \<Rightarrow> if r \<noteq> l then None else Some l | _ \<Rightarrow> None)
           | None \<Rightarrow>
               if \<not> rh_img_open rh then None
               else (case (rh_img_root rh, rh_canon rh lower) of
                   (Some base, Some l) \<Rightarrow> if path_below base l \<and> rh_is_dir rh l then Some l else None | _ \<Rightarrow> None)))"

definition plan_resume :: "run_host \<Rightarrow> RunArgs \<Rightarrow> int list \<Rightarrow> ContainerState \<Rightarrow> int + run_plan" where
  "plan_resume rh a caps st =
     (if cs_tmpfs_upper st then Inl 1
      else (case resumable_lower_rootfs rh st of None \<Rightarrow> Inl 1
        | Some lower \<Rightarrow>
            and_then (map_err (\<lambda>_. 1) (state_environment st)) (\<lambda>env.
            and_then (case cs_capabilities st of
                 Some names \<Rightarrow> map_err (\<lambda>_. 1) (from_names (rh_last_cap rh) names) | None \<Rightarrow> Inr caps) (\<lambda>caps.
            Inr \<lparr>pl_rootfs = lower, pl_env = env, pl_cwd = cs_cwd st, pl_user = cs_user st, pl_argv = cs_cmd st,
              pl_labels = cs_labels st, pl_caps = caps,
              pl_seccomp = (case cs_seccomp st of None \<Rightarrow> ra_seccomp a | Some m \<Rightarrow> m)\<rparr>))))"

definition plan_rootfs :: "run_host \<Rightarrow> RunArgs \<Rightarrow> int list \<Rightarrow> string \<Rightarrow> int + run_plan" where
  "plan_rootfs rh a caps rootfs =
     (if ra_env a \<noteq> [] \<or> \<not> rh_is_dir rh rootfs then Inl 2
      else Inr \<lparr>pl_rootfs = rootfs, pl_env = None, pl_cwd = ra_workdir a, pl_user = None,
        pl_argv = (if ra_argv a = [] then [''/bin/sh''] else ra_argv a), pl_labels = ra_labels a, pl_caps = caps,
        pl_seccomp = ra_seccomp a\<rparr>)"

definition extend_labels :: "(string \<times> string) list \<Rightarrow> (string \<times> string) list \<Rightarrow> (string \<times> string) list" where
  "extend_labels base extra = fold (\<lambda>p. btree_insert (fst p) (snd p)) extra base"

definition plan_image :: "run_host \<Rightarrow> RunArgs \<Rightarrow> int list \<Rightarrow> string \<Rightarrow> string \<Rightarrow> int + run_plan" where
  "plan_image rh a caps cid img =
     (case Reference_parse (rh_lowercase rh) img of
        Inl _ \<Rightarrow> Inl 2
      | Inr reference \<Rightarrow> (case rh_image rh reference (ra_platform a) (ra_pull a) of
            None \<Rightarrow> Inl 1
          | Some (rootfs, cfg) \<Rightarrow>
              if \<not> rh_img_lease rh then Inl 1
              else and_then (map_err (\<lambda>_. 1) (build_image_env (rh_environ rh) (ic_env cfg) (ra_env a) (ra_hostname a) cid (ra_tty a))) (\<lambda>env.
                Inr \<lparr>pl_rootfs = rootfs, pl_env = Some env,
                  pl_cwd = or_else (ra_workdir a) (if ic_working_dir cfg \<noteq> [] then Some (ic_working_dir cfg) else None),
                  pl_user = fst (resolve_image_user (ra_user a) (if ic_user cfg = [] then None else Some (ic_user cfg)) (rh_euid rh \<noteq> 0)),
                  pl_argv = resolve_image_argv (ic_entrypoint cfg) (ic_cmd cfg) (ra_entrypoint a) (ra_argv a),
                  pl_labels = extend_labels (ic_labels cfg) (ra_labels a), pl_caps = caps, pl_seccomp = ra_seccomp a\<rparr>)))"

definition plan_run :: "run_host \<Rightarrow> RunArgs \<Rightarrow> int list \<Rightarrow> ContainerState option \<Rightarrow> string \<Rightarrow> int + run_plan" where
  "plan_run rh a caps resume cid = (case resume of
      Some st \<Rightarrow> plan_resume rh a caps st
    | None \<Rightarrow> (case ra_rootfs a of
          Some rootfs \<Rightarrow> plan_rootfs rh a caps rootfs
        | None \<Rightarrow> (case ra_image a of Some img \<Rightarrow> plan_image rh a caps cid img | None \<Rightarrow> Inl 2)))"

definition open_layer ::
  "run_host \<Rightarrow> string \<Rightarrow> RunArgs \<Rightarrow> ContainerState option \<Rightarrow> string \<Rightarrow> string \<Rightarrow> int + ContainerFs option" where
  "open_layer rh data a resume cid rootfs = (case resume of
      Some st \<Rightarrow>
        if cs_overlay st \<noteq> None
        then (case reopen_container_fs rh data cid rootfs (cs_tmpfs_upper st) of None \<Rightarrow> Inl 1 | Some fs \<Rightarrow> Inr (Some fs))
        else Inr None
    | None \<Rightarrow>
        if ra_no_overlay a then Inr None
        else (case prepare_container_fs rh data cid rootfs (ra_tmpfs_upper a) of None \<Rightarrow> Inl 1 | Some fs \<Rightarrow> Inr (Some fs)))"

text \<open>The name servers a container in bridge mode gets; loopback servers are of no use in its network namespace.\<close>

definition nameserver_of_line :: "string \<Rightarrow> string option" where
  "nameserver_of_line line = (case split_whitespace line of
      k # ip # _ \<Rightarrow> if k = ''nameserver'' \<and> \<not> starts_with ip ''127.'' \<and> \<not> starts_with ip ''::1'' then Some ip else None
    | _ \<Rightarrow> None)"

definition host_nameservers :: "string option \<Rightarrow> string list" where
  "host_nameservers resolv =
     (let out = (case resolv of None \<Rightarrow> [] | Some text \<Rightarrow> List.map_filter nameserver_of_line (lines text)) in
      if out = [] then [''1.1.1.1'', ''8.8.8.8''] else out)"

definition inject_resolv_conf :: "run_host \<Rightarrow> NetMode \<Rightarrow> string list \<Rightarrow> ContainerFs option \<Rightarrow> world \<Rightarrow> world" where
  "inject_resolv_conf rh net explicit fs w =
     (if net \<noteq> NetBridge then w
      else (case fs of None \<Rightarrow> w
        | Some f \<Rightarrow>
            (let servers = (if explicit \<noteq> [] then explicit else host_nameservers (rh_resolv rh));
                 etc = fs_upper f @ ''/etc'';
                 file = etc @ ''/resolv.conf'' in
             if servers = [] \<or> \<not> rh_mkdir rh etc \<or> \<not> rh_write rh file then w
             else act [WriteFile file (concat (map (\<lambda>s. ''nameserver '' @ s @ [CHR 0x0A]) servers))] w)))"

definition canonical_or_self :: "run_host \<Rightarrow> string \<Rightarrow> string" where
  "canonical_or_self rh p = (case rh_canon rh p of Some c \<Rightarrow> c | None \<Rightarrow> p)"

definition run_spec :: "RunArgs \<Rightarrow> run_plan \<Rightarrow> ContainerFs option \<Rightarrow> string \<Rightarrow> RunSpec" where
  "run_spec a pl fs cid = \<lparr>sp_rootfs = (case fs of Some f \<Rightarrow> fs_merged f | None \<Rightarrow> pl_rootfs pl), sp_argv = pl_argv pl,
     sp_hostname = ra_hostname a, sp_net = ra_net a, sp_use_init = ra_use_init a,
     sp_limits = \<lparr>rl_memory = ra_memory a, rl_memory_reservation = ra_memory_reservation a, rl_memory_swap = ra_memory_swap a,
       rl_cpus = ra_cpus a, rl_cpuset_cpus = ra_cpuset_cpus a, rl_cpuset_mems = ra_cpuset_mems a, rl_pids = ra_pids a,
       rl_io = ra_device_read_bps a @ ra_device_write_bps a @ ra_device_read_iops a @ ra_device_write_iops a,
       rl_oom_group = ra_oom_group a\<rparr>,
     sp_seccomp = pl_seccomp pl, sp_capabilities = pl_caps pl, sp_tty = ra_tty a, sp_interactive = ra_interactive a,
     sp_overlay = fs, sp_id = cid, sp_env = pl_env pl, sp_cwd = pl_cwd pl, sp_user = pl_user pl, sp_readonly = ra_readonly a,
     sp_tmpfs = ra_tmpfs a, sp_ports = ra_ports a, sp_volumes = ra_volumes a, sp_lifecycle_cgroup = ra_detach a\<rparr>"

section \<open>The record of a detached container\<close>

record DetachedInfo =
  di_launch_args :: "string list"
  di_name :: "string option"
  di_rm :: bool
  di_labels :: "(string \<times> string) list"
  di_log_max_size :: nat
  di_log_max_files :: nat
  di_lower :: string

definition ip_text :: "run_ctx \<Rightarrow> IpAddr \<Rightarrow> string" where
  "ip_text ctx ip = (case ip of V4 a \<Rightarrow> show_v4 a | V6 a \<Rightarrow> c_show_v6 ctx a)"

definition fresh_record :: "host \<Rightarrow> run_host \<Rightarrow> RunSpec \<Rightarrow> DetachedInfo \<Rightarrow> string \<Rightarrow> ContainerState" where
  "fresh_record h rh spec info image_desc = \<lparr>cs_version = 1, cs_id = sp_id spec, cs_name = di_name info,
     cs_image = image_desc, cs_pid = None, cs_pid_start_time = None, cs_status = Created, cs_paused = False,
     cs_exit_code = None, cs_created = h_now h, cs_started = None, cs_finished = None, cs_rootless = (rh_euid rh \<noteq> 0),
     cs_net = net_label (sp_net spec), cs_ports = [], cs_port_protocols = None, cs_port_ips = None, cs_ip = None, cs_cmd = [],
     cs_env = [], cs_cwd = None, cs_user = None, cs_capabilities = None, cs_seccomp = None, cs_log = [],
     cs_log_max_size = None, cs_log_max_file = None, cs_lower = None, cs_rootfs = [], cs_overlay = None,
     cs_tmpfs_upper = False, cs_labels = [], cs_launch_args = Some (di_launch_args info), cs_table = None, cs_veth = None,
     cs_cgroup = None, cs_metrics = None\<rparr>"

definition created_record ::
  "run_host \<Rightarrow> RunSpec \<Rightarrow> DetachedInfo \<Rightarrow> string \<Rightarrow> string \<Rightarrow> ContainerFs option \<Rightarrow> ContainerState \<Rightarrow> ContainerState" where
  "created_record rh spec info run_root state_rootfs fs st = st\<lparr>cs_status := Created, cs_pid := None, cs_pid_start_time := None,
     cs_paused := False, cs_exit_code := None, cs_started := None, cs_finished := None, cs_ip := None,
     cs_rootless := (rh_euid rh \<noteq> 0), cs_net := net_label (sp_net spec),
     cs_ports := map (\<lambda>p. (host_port p, container_port p)) (sp_ports spec),
     cs_port_protocols := (if sp_ports spec = [] then None else Some (map (\<lambda>p. protocol_label (protocol p)) (sp_ports spec))),
     cs_port_ips := (if sp_ports spec = [] then None else Some (map (\<lambda>p. ip_text (rh_ctx rh) (host_ip p)) (sp_ports spec))),
     cs_name := di_name info, cs_cmd := sp_argv spec,
     cs_env := (case sp_env spec of None \<Rightarrow> [] | Some ps \<Rightarrow> map env_entry ps), cs_cwd := sp_cwd spec, cs_user := sp_user spec,
     cs_capabilities := Some (cap_names (sp_capabilities spec)), cs_seccomp := Some (sp_seccomp spec),
     cs_labels := di_labels info, cs_log := log_path run_root (cs_id st), cs_log_max_size := Some (di_log_max_size info),
     cs_log_max_file := Some (di_log_max_files info), cs_lower := Some (di_lower info), cs_rootfs := state_rootfs,
     cs_overlay := map_option fs_dir fs, cs_tmpfs_upper := (case fs of None \<Rightarrow> False | Some f \<Rightarrow> fs_tmpfs_upper f),
     cs_table := None, cs_veth := None, cs_cgroup := None, cs_metrics := None, cs_launch_args := Some (di_launch_args info)\<rparr>"

section \<open>Handing over to the reaper\<close>

text \<open>What the reaper meets: its own host answers, the log collector, the hook, the result of the run.\<close>

record reaper =
  rp_host :: host
  rp_install :: "string option"
  rp_hook :: "StartedInfo option"
  rp_run :: "string + (int \<times> ContainerMetrics option)"
  rp_show :: "reaper_error \<Rightarrow> string"

definition cleanup_failed_detached_start :: "ContainerFs option \<Rightarrow> string \<Rightarrow> world \<Rightarrow> world" where
  "cleanup_failed_detached_start fs cid w =
     act [RemoveTree (state_dir (w_root w) cid)]
       ((act (case fs of None \<Rightarrow> [] | Some f \<Rightarrow> [RemoveTree (fs_dir f)]) w)\<lparr>w_dir := remove_record cid (w_dir w)\<rparr>)"

text \<open>The first byte on the pipe decides.\<close>

definition cli_status :: "pipe_op list \<Rightarrow> int" where
  "cli_status ops = (case ops of WriteMsg m # _ \<Rightarrow> if starts_with m ''0'' then 0 else 1 | _ \<Rightarrow> 1)"

definition start_reaper ::
  "run_host \<Rightarrow> reaper \<Rightarrow> ContainerFs option \<Rightarrow> bool \<Rightarrow> string \<Rightarrow> world \<Rightarrow> int \<times> world" where
  "start_reaper rh rp fs remove_state cid w =
     (if \<not> rh_setsid rh then (1, w)
      else (case run_detached (rp_host rp) (rp_install rp) (rp_hook rp) (rp_run rp) (rp_show rp) cid (map_option fs_dir fs) remove_state w of
        (_, ops, w_end) \<Rightarrow>
          if cli_status ops = 0 then (0, snd (reaper_hook (rp_host rp) (rp_hook rp) cid w)) else (1, w_end)))"

text \<open>Exit code, whether the reserved directory now belongs to a record, and the world.\<close>

definition run_detached_cli ::
  "host \<Rightarrow> run_host \<Rightarrow> reaper \<Rightarrow> RunSpec \<Rightarrow> ContainerFs option \<Rightarrow> string \<Rightarrow> string \<Rightarrow> DetachedInfo \<Rightarrow> ContainerState option \<Rightarrow>
   world \<Rightarrow> int \<times> bool \<times> world" where
  "run_detached_cli h rh rp spec fs image_desc state_rootfs info resume w =
     (let cid = sp_id spec;
          drop_layer = (\<lambda>w. act (case fs of None \<Rightarrow> [] | Some f \<Rightarrow> [RemoveTree (fs_dir f)]) w);
          failed = (\<lambda>committed w. (1, committed, if resume = None then cleanup_failed_detached_start fs cid w else w)) in
      if resume = None \<and> di_name info \<noteq> None \<and> \<not> h_name_lock h then (1, False, drop_layer w)
      else if resume = None \<and> di_name info \<noteq> None \<and>
              list_ex (\<lambda>c. cs_name c = di_name info) (list_states (w_root w) (w_dir w)) then (1, False, drop_layer w)
      else if \<not> rh_mkdir rh (state_dir (w_root w) cid) \<or> \<not> rh_log rh then failed False w
      else (case put h (created_record rh spec info (w_root w) state_rootfs fs
                 (case resume of None \<Rightarrow> fresh_record h rh spec info image_desc | Some st \<Rightarrow> st)) w of
          (Inl _, w) \<Rightarrow> failed False w
        | (Inr _, w) \<Rightarrow>
            if \<not> rh_pipe rh \<or> \<not> rh_fork rh then failed True w
            else (case start_reaper rh rp fs (di_rm info) cid w of (rc, w) \<Rightarrow> (rc, True, w))))"

section \<open>run -d and start\<close>

definition launch_args_for :: "run_host \<Rightarrow> RunArgs \<Rightarrow> string \<Rightarrow> ContainerState option \<Rightarrow> string list" where
  "launch_args_for rh a rootfs resume = (case resume of
      Some st \<Rightarrow> set_launch_name (cs_name st) (case cs_launch_args st of None \<Rightarrow> [] | Some args \<Rightarrow> args)
    | None \<Rightarrow> detached_launch_args (rh_ctx rh) a rootfs)"

definition launch ::
  "host \<Rightarrow> run_host \<Rightarrow> reaper \<Rightarrow> RunArgs \<Rightarrow> int list \<Rightarrow> ContainerState option \<Rightarrow> string \<Rightarrow> world \<Rightarrow> int \<times> bool \<times> world" where
  "launch h rh rp a caps resume cid w =
     (case plan_run rh a caps resume cid of
        Inl rc \<Rightarrow> (rc, False, w)
      | Inr pl \<Rightarrow> (case open_layer rh (w_data w) a resume cid (pl_rootfs pl) of
            Inl rc \<Rightarrow> (rc, False, w)
          | Inr fs \<Rightarrow>
              run_detached_cli h rh rp (run_spec a pl fs cid) fs
                (case resume of Some st \<Rightarrow> cs_image st
                 | None \<Rightarrow> (case ra_image a of Some i \<Rightarrow> i | None \<Rightarrow> ''rootfs:'' @ canonical_or_self rh (pl_rootfs pl)))
                (case fs of Some f \<Rightarrow> fs_merged f | None \<Rightarrow> canonical_or_self rh (pl_rootfs pl))
                \<lparr>di_launch_args = launch_args_for rh a (pl_rootfs pl) resume,
                 di_name = (case resume of Some st \<Rightarrow> cs_name st | None \<Rightarrow> ra_name a), di_rm = ra_rm a,
                 di_labels = pl_labels pl, di_log_max_size = ra_log_max_size a, di_log_max_files = ra_log_max_files a,
                 di_lower = (case fs of Some f \<Rightarrow> fs_lower f | None \<Rightarrow> canonical_or_self rh (pl_rootfs pl))\<rparr>
                resume (inject_resolv_conf rh (ra_net a) (ra_dns a) fs w)))"

text \<open>\<open>run -d\<close>: the reserved directory is removed again unless a record took it over. \<open>None\<close>: the reservation still looks for an
  unused identifier. A command line without \<open>-d\<close> is a foreground run, which keeps no record: \<open>Some (Inl a)\<close>.\<close>

definition cmd_run_detached ::
  "host \<Rightarrow> run_host \<Rightarrow> reaper \<Rightarrow> string list \<Rightarrow> world \<Rightarrow> (RunArgs + int \<times> world) option" where
  "cmd_run_detached h rh rp args w = (case check_run rh (w_data w) False args of
      Inl rc \<Rightarrow> Some (Inr (rc, w))
    | Inr (a, caps) \<Rightarrow>
        if \<not> ra_detach a then Some (Inl a)
        else (case reserve (rh_ids rh) (rh_reserve rh) (w_dir w) of
            None \<Rightarrow> None
          | Some (None, _) \<Rightarrow> Some (Inr (1, w))
          | Some (Some cid, dir) \<Rightarrow>
              (case launch h rh rp a caps None cid (w\<lparr>w_dir := dir\<rparr>) of (rc, committed, w) \<Rightarrow>
                Some (Inr (rc, if committed then w else w\<lparr>w_dir := remove_record cid (w_dir w)\<rparr>)))))"

definition cmd_run_resume :: "host \<Rightarrow> run_host \<Rightarrow> reaper \<Rightarrow> string list \<Rightarrow> ContainerState \<Rightarrow> world \<Rightarrow> int \<times> world" where
  "cmd_run_resume h rh rp args st w = (case check_run rh (w_data w) True args of
      Inl rc \<Rightarrow> (rc, w)
    | Inr (a, caps) \<Rightarrow> (case launch h rh rp a caps (Some st) (cs_id st) w of (rc, _, w) \<Rightarrow> (rc, w)))"

definition start_one ::
  "host \<Rightarrow> run_host \<Rightarrow> reaper \<Rightarrow> string \<Rightarrow> event list \<Rightarrow> world \<Rightarrow> (cmd_error + string) \<times> world" where
  "start_one h rh rp target race w =
     andw (open_record h target race w) (\<lambda>st w.
     andw (if cs_status st = Running
           then (if alive w st then (Inl (AlreadyRunning (display_name st)), w) else reconcile_stale_state h st w)
           else (Inr st, w)) (\<lambda>st w.
       let st = st\<lparr>cs_paused := False\<rparr> in
       (case cs_launch_args st of
          None \<Rightarrow> (Inl (NoLaunchMetadata (display_name st)), w)
        | Some args \<Rightarrow>
            if args = [] \<or> hd args \<noteq> ''-d'' then (Inl (BadLaunchMetadata (display_name st)), w)
            else (case cmd_run_resume h rh rp args st (reclaim_resources h st w) of (rc, w) \<Rightarrow>
              if rc \<noteq> 0 then (Inl (StartFailed (display_name st)), w) else (Inr (display_name st), w)))))"

section \<open>rename\<close>

definition rename_one :: "host \<Rightarrow> string \<Rightarrow> string \<Rightarrow> event list \<Rightarrow> world \<Rightarrow> (cmd_error + unit) \<times> world" where
  "rename_one h old new race w =
     (if \<not> valid_name new then (Inl (BadNewName new), w)
      else andw (open_record (h\<lparr>h_lock := h_lock h \<and> h_name_lock h\<rparr>) old race w) (\<lambda>st w.
        if cs_name st = Some new then (Inr (), w)
        else if list_ex (\<lambda>c. cs_id c \<noteq> cs_id st \<and> cs_name c = Some new) (list_states (w_root w) (w_dir w))
        then (Inl (NameInUse new), w)
        else errw StateFailed (put h (st\<lparr>cs_name := Some new,
               cs_launch_args := map_option (set_launch_name (Some new)) (cs_launch_args st)\<rparr>) w)))"

end
