(* ===== verification/Lifecycle_Calc.thy ===== *)
theory Lifecycle_Calc
  imports Lifecycle
begin

text \<open>
  The interface between the lifecycle commands and what is to be kept of the world: the locale \<open>command_calculus\<close>. A client
  gives an invariant \<open>I\<close> of worlds, a predicate \<open>S\<close> on the records a command holds, the identifiers \<open>own\<close> it may touch, the
  events \<open>E\<close> and the actions \<open>A\<close>, and shows the laws for the primitives of the store; the lemmas of the locale carry them
  through reconciliation, the reaper, the waits and every command.
\<close>

section \<open>The primitives\<close>

lemma put_eq:
  "put h st w =
     (if \<not> valid_id (cs_id st) then (Inl (InvalidId (cs_id st)), w)
      else if \<not> h_save h then (Inl (WriteFailed (cs_id st)), w)
      else (Inr (), w\<lparr>w_dir := the (save_ok (w_root w) st (w_dir w))\<rparr>))"
  by (simp add: put_def save_def save_ok_def Let_def)

lemma put_Inl: "put h st w = (Inl e, w') \<Longrightarrow> w' = w"
  by (auto simp: put_eq split: if_splits)

lemma get_put:
  assumes "dir_ok (w_dir w)" and "put h st w = (Inr u, w')"
  shows "get w' k = (if k = cs_id st then Some (canonical_log (w_root w) st) else get w k)"
proof -
  from assms(2) have v: "valid_id (cs_id st)" and w': "w' = w\<lparr>w_dir := the (save_ok (w_root w) st (w_dir w))\<rparr>"
    by (auto simp: put_eq split: if_splits)
  obtain d where d: "save_ok (w_root w) st (w_dir w) = Some d" using v by (simp add: save_ok_eq)
  show ?thesis using records.ld_sv [OF assms(1) d] by (simp add: get_def w' d)
qed

lemma put_dir_ok: "dir_ok (w_dir w) \<Longrightarrow> dir_ok (w_dir (snd (put h st w)))"
  using records.invar_sv [of "w_dir w" "w_root w" st] by (auto simp: put_eq save_ok_eq)

lemma get_id: "get w k = Some st \<Longrightarrow> cs_id st = k \<and> valid_id k"
  using load_id by (auto simp: get_def)

lemma get_remove: "get (w\<lparr>w_dir := remove_record k (w_dir w)\<rparr>) = (get w)(k := None)"
  by (auto simp: get_def load_remove fun_eq_iff)

lemma get_frame [simp]:
  "get (w\<lparr>w_ipam := i\<rparr>) = get w" "get (w\<lparr>w_procs := p\<rparr>) = get w" "get (w\<lparr>w_frozen := f\<rparr>) = get w"
  "get (w\<lparr>w_acts := a\<rparr>) = get w" "get (act as w) = get w"
  by (simp_all add: get_def fun_eq_iff act_def)

lemma andw_simps [simp]: "andw (Inl e, w) f = (Inl e, w)" "andw (Inr x, w) f = f x w"
  by (simp_all add: andw_def)

lemma errw_simps [simp]: "errw g (Inl e, w) = (Inl (g e), w)" "errw g (Inr x, w) = (Inr x, w)" "snd (errw g m) = snd m"
  by (simp_all add: errw_def)

lemma andw_cases:
  obtains e w where "m = (Inl e, w)" "andw m f = (Inl e, w)" | x w where "m = (Inr x, w)" "andw m f = f x w"
  by (cases m; cases "fst m") auto

lemma andw_Inr:
  assumes "andw m f = (Inr y, w')"
  obtains x w where "m = (Inr x, w)" "f x w = (Inr y, w')"
  using assms by (cases rule: andw_cases [of m f]) auto

text \<open>The rule for a step and what follows it: \<open>I\<close> is kept, \<open>P\<close> is what the result satisfies.\<close>

definition keeps :: "(world \<Rightarrow> bool) \<Rightarrow> ('a \<Rightarrow> bool) \<Rightarrow> ('e + 'a) \<times> world \<Rightarrow> bool" where
  "keeps I P m \<longleftrightarrow> I (snd m) \<and> (\<forall>x. fst m = Inr x \<longrightarrow> P x)"

lemma keeps_andw:
  assumes "keeps I P m" and "\<And>x w. P x \<Longrightarrow> I w \<Longrightarrow> keeps J Q (f x w)" and "\<And>w. I w \<Longrightarrow> J w"
  shows "keeps J Q (andw m f)"
  using assms by (cases rule: andw_cases [of m f]) (auto simp: keeps_def)

lemma keeps_simps [simp]:
  "keeps I P (Inl e, w) = I w" "keeps I P (Inr x, w) = (I w \<and> P x)" "keeps I P (errw g m) = keeps I P m"
  by (cases m; cases "fst m"; auto simp: keeps_def)+

lemma keeps_mono: "keeps I P m \<Longrightarrow> (\<And>x. P x \<Longrightarrow> Q x) \<Longrightarrow> keeps I Q m"
  by (auto simp: keeps_def)

fun is_signal :: "host_act \<Rightarrow> bool" where
  "is_signal (SendSignal _ _ _) = True"
| "is_signal _ = False"

lemma teardown_no_signal: "a \<in> set (teardown_acts h st) \<Longrightarrow> \<not> is_signal a"
  by (auto simp: teardown_acts_def split: option.splits)

lemma reconcile_cgroup_no_signal: "reconcile_cgroup h st = (b, m, as) \<Longrightarrow> a \<in> set as \<Longrightarrow> \<not> is_signal a"
  by (auto simp: reconcile_cgroup_def split: option.splits if_splits prod.splits)

section \<open>The calculus\<close>

locale command_calculus =
  fixes I :: "world \<Rightarrow> bool"
    and S :: "ContainerState \<Rightarrow> bool"
    and own :: "string \<Rightarrow> bool"
    and E :: "event \<Rightarrow> bool"
    and A :: "host_act \<Rightarrow> bool"
  assumes put_I: "I w \<Longrightarrow> S st \<Longrightarrow> I (snd (put h st w))"
    and remove_I: "I w \<Longrightarrow> own cid \<Longrightarrow> I (w\<lparr>w_dir := remove_record cid (w_dir w)\<rparr>)"
    and load_S: "I w \<Longrightarrow> own cid \<Longrightarrow> get w cid = Some st \<Longrightarrow> S st"
    and own_S: "S st \<Longrightarrow> own (cs_id st)"
    and ipam_I: "I w \<Longrightarrow> I (w\<lparr>w_ipam := i\<rparr>)"
    and procs_I: "I w \<Longrightarrow> I (w\<lparr>w_procs := ps\<rparr>)"
    and frozen_I: "I w \<Longrightarrow> I (w\<lparr>w_frozen := f\<rparr>)"
    and acts_I: "I w \<Longrightarrow> list_all A as \<Longrightarrow> I (act as w)"
    and exited_S: "S st \<Longrightarrow> S (exited_record h b m st)"
    and finished_S: "S st \<Longrightarrow> S (finished_record h c m st)"
    and started_S: "S st \<Longrightarrow> E (ReaperStarted h (cs_id st) info) \<Longrightarrow> S (started_record h info st)"
    and paused_S: "S st \<Longrightarrow> (p \<Longrightarrow> cs_status st = Running) \<Longrightarrow> S (st\<lparr>cs_paused := p\<rparr>)"
    and started_own: "E (ReaperStarted h cid info) \<Longrightarrow> own cid"
    and finished_own: "E (ReaperFinished h cid fs rm c m) \<Longrightarrow> own cid"
    and quiet_A: "\<not> is_signal a \<Longrightarrow> A a"
    and signal_A: "S st \<Longrightarrow> cs_pid st = Some pid \<Longrightarrow> 0 < pid \<Longrightarrow>
      (\<And>t. cs_pid_start_time st = Some t \<Longrightarrow> q = Some (Some t)) \<Longrightarrow> A (SendSignal pid q sig)"
begin

lemmas step = keeps_andw [where I = I and J = I, OF _ _ asm_rl]

lemma lease_I: "I w \<Longrightarrow> I (release_lease h st w)"
  by (simp add: release_lease_def ipam_I)

lemma quiet_acts: "I w \<Longrightarrow> (\<And>a. a \<in> set as \<Longrightarrow> \<not> is_signal a) \<Longrightarrow> I (act as w)"
  by (rule acts_I) (auto simp: list_all_iff quiet_A)

lemma reclaim_I: "I w \<Longrightarrow> I (reclaim_resources h st w)"
  unfolding reclaim_resources_def
  by (rule lease_I, rule quiet_acts) (auto dest: teardown_no_signal split: option.splits)

lemma reconcile_I:
  assumes "I w" and "S st" and "reconcile_stale_and_save h st w = (r, st', w')"
  shows "I w' \<and> S st'"
proof (cases "cs_status st \<noteq> Running \<or> alive w st")
  case True
  with assms show ?thesis by (simp add: reconcile_stale_and_save_def reconcile_stale_def)
next
  case False
  obtain b m as where rc: "reconcile_cgroup h st = (b, m, as)" by (metis prod_cases3)
  have "I (release_lease h st (act (teardown_acts h st @ as) w))"
    by (rule lease_I, rule quiet_acts [OF assms(1)]) (auto dest: teardown_no_signal reconcile_cgroup_no_signal [OF rc])
  then have "I (snd (put h (exited_record h b m st) (release_lease h st (act (teardown_acts h st @ as) w))))"
    by (rule put_I) (rule exited_S [OF assms(2)])
  with False rc assms(2,3) exited_S show ?thesis
    by (auto simp: reconcile_stale_and_save_def reconcile_stale_def split: prod.splits)
qed

lemma reconcile_keeps: "I w \<Longrightarrow> S st \<Longrightarrow> keeps I S (reconcile_stale_state h st w)"
proof -
  assume a: "I w" "S st"
  obtain r st' w' where rc: "reconcile_stale_and_save h st w = (r, st', w')" by (metis prod_cases3)
  from reconcile_I [OF a rc] show ?thesis by (cases r) (simp_all add: reconcile_stale_state_def rc)
qed

lemma persist_I: "I w \<Longrightarrow> E (ReaperStarted h cid info) \<Longrightarrow> I (snd (persist_started_state h cid info w))"
proof (cases "get w cid")
  case (Some st)
  assume e: "I w" "E (ReaperStarted h cid info)"
  have "S st" using load_S [OF e(1) started_own [OF e(2)] Some] .
  with e get_id [OF Some] have "I (snd (put h (started_record h info st) w))" by (intro put_I started_S) auto
  with Some show ?thesis by (auto simp: persist_started_state_def split: prod.splits sum.splits)
qed (simp add: persist_started_state_def)

lemma finish_I: "I w \<Longrightarrow> own cid \<Longrightarrow> I (reaper_finish h cid fs rm c m w)"
proof -
  assume e: "I w" "own cid"
  let ?w = "case get w cid of None \<Rightarrow> w | Some st \<Rightarrow> snd (put h (finished_record h c m st) w)"
  have w: "I ?w" using e load_S [OF e] put_I [OF e(1)] finished_S by (auto split: option.splits)
  let ?v = "case fs of Some d \<Rightarrow> if rm then act [RemoveTree d] ?w else ?w | None \<Rightarrow> ?w"
  have v: "I ?v" using w by (auto intro: quiet_acts split: option.splits)
  show ?thesis unfolding reaper_finish_def Let_def
    using v by (auto intro!: quiet_acts remove_I [OF _ e(2)] simp del: fun_upd_apply)
qed

lemma event_I: "I w \<Longrightarrow> E e \<Longrightarrow> I (apply_event e w)"
  by (cases e) (simp_all add: persist_I finish_I finished_own procs_I)

lemma interfere_I: "I w \<Longrightarrow> list_all E evs \<Longrightarrow> I (interfere evs w)"
  by (induction evs arbitrary: w) (simp_all add: event_I)

lemma wait_I: "I w \<Longrightarrow> list_all (list_all E) polls \<Longrightarrow> I (snd (wait_pid_gone st polls w))"
  by (induction st polls w rule: wait_pid_gone.induct) (simp_all add: Let_def interfere_I)

lemma settle_late_keeps: "I w \<Longrightarrow> own cid \<Longrightarrow> keeps I (\<lambda>_. True) (settle_late h cid w)"
  using load_S [of w cid] by (auto simp: settle_late_def split: option.splits intro!: step reconcile_keeps)

lemma settle_keeps:
  "I w \<Longrightarrow> own cid \<Longrightarrow> list_all (list_all E) polls \<Longrightarrow> keeps I (\<lambda>_. True) (settle_exit h cid polls w)"
  by (induction h cid polls w rule: settle_exit.induct)
    (auto simp: Let_def settle_late_keeps interfere_I split: option.splits)

lemma signal_keeps: "I w \<Longrightarrow> S st \<Longrightarrow> keeps I (\<lambda>_. True) (signal_container h st sig w)"
  by (auto simp: signal_container_def intro!: acts_I signal_A split: option.splits)

lemma freezer_keeps: "I w \<Longrightarrow> keeps I (\<lambda>_. True) (set_freezer h p f w)"
  by (auto simp: set_freezer_def keeps_def frozen_I split: prod.splits)

lemma remove_container_I: "I w \<Longrightarrow> S st \<Longrightarrow> I (remove_container h st w)"
  unfolding remove_container_def Let_def
  by (rule quiet_acts, rule remove_I [OF _ own_S]) (auto intro!: quiet_acts reclaim_I)

lemma open_record_keeps:
  assumes "I w" and "list_all E race" and "\<And>st. resolve (w_root w) (w_dir w) target = Inr st \<Longrightarrow> own (cs_id st)"
  shows "keeps I S (open_record h target race w)"
proof -
  have i: "I (interfere race w)" using interfere_I [OF assms(1,2)] .
  with load_S [OF i] assms show ?thesis by (auto simp: open_record_def Let_def split: sum.splits option.splits)
qed

lemma switch_keeps:
  assumes "I w" and "S st" and "p \<Longrightarrow> cs_status st = Running" and "list_all E during"
  shows "keeps I S (switch_freezer h during path p st w)"
  unfolding switch_freezer_def
proof (rule step)
  show "keeps I (\<lambda>_. True) (errw CgroupFailed (set_freezer h path p w))" using freezer_keeps [OF assms(1)] by simp
  fix w1
  assume "I w1"
  then have i: "I (interfere during w1)" using assms(4) by (rule interfere_I)
  have st: "S (st\<lparr>cs_paused := p\<rparr>)" using paused_S assms(2,3) by blast
  obtain r2 w2 where pt: "put h (st\<lparr>cs_paused := p\<rparr>) (interfere during w1) = (r2, w2)" by fastforce
  with put_I [OF i st, of h] have "I w2" by simp
  with st show "keeps I S (case put h (st\<lparr>cs_paused := p\<rparr>) (interfere during w1) of
      (Inl e, w) \<Rightarrow> andw (errw (RollbackFailed e) (set_freezer h path (\<not> p) w)) (\<lambda>_ w. (Inl (StateFailed e), w))
    | (Inr _, w) \<Rightarrow> (Inr (st\<lparr>cs_paused := p\<rparr>), w))"
    by (auto simp: pt intro!: step freezer_keeps split: sum.splits)
qed

lemma cgroup_keeps: "I w \<Longrightarrow> keeps I (\<lambda>_. True) (open_cgroup h st, w)"
  by (simp add: keeps_def)

lemma thaw_keeps: "I w \<Longrightarrow> S st \<Longrightarrow> list_all E during \<Longrightarrow> keeps I S (thaw_paused_container h during st w)"
  unfolding thaw_paused_container_def by (auto intro!: step [OF cgroup_keeps] switch_keeps)

lemma kill_and_wait_keeps:
  "I w \<Longrightarrow> S st \<Longrightarrow> list_all (list_all E) polls \<Longrightarrow> keeps I (\<lambda>_. True) (kill_and_wait h st polls w)"
  by (auto simp: kill_and_wait_def wait_I intro!: step signal_keeps)

lemma pause_keeps:
  assumes "I w" and "list_all E race" and "\<And>st. resolve (w_root w) (w_dir w) target = Inr st \<Longrightarrow> own (cs_id st)"
    and "list_all E during"
  shows "keeps I (\<lambda>_. True) (set_container_paused h target p race during w)"
  unfolding set_container_paused_def
  by (rule step [OF open_record_keeps [OF assms(1-3)]], assumption, rule step [OF reconcile_keeps], assumption, assumption)
    (auto intro!: step [OF cgroup_keeps] step [OF switch_keeps] assms(4))

lemma kill_keeps:
  assumes "I w" and "list_all E race" and "\<And>st. resolve (w_root w) (w_dir w) target = Inr st \<Longrightarrow> own (cs_id st)"
    and "list_all E during" and "list_all (list_all E) polls" and "list_all (list_all E) settle"
  shows "keeps I (\<lambda>_. True) (kill_one h target sig race during polls settle w)"
  unfolding kill_one_def
proof (rule step [OF open_record_keeps [OF assms(1-3)]])
  fix st w1
  assume a: "S st" "I w1"
  have tail: "keeps I (\<lambda>_. True) (case wait_pid_gone st' polls w2 of (gone, w) \<Rightarrow>
      andw (if gone then settle_exit h (cs_id st') settle w else (Inr (), w)) (\<lambda>_ w. (Inr (display_name st'), w)))"
    if "I w2" "S st'" for st' w2
    using wait_I [OF that(1) assms(5), of st'] own_S [OF that(2)]
    by (auto intro!: step [where P = "\<lambda>_. True"] settle_keeps assms(6) split: prod.splits)
  show "keeps I (\<lambda>_. True) (if cs_status st \<noteq> Running then (Inr (display_name st), w1)
      else if \<not> alive w1 st then andw (reconcile_stale_state h st w1) (\<lambda>_ w. (Inr (display_name st), w))
      else andw (if cs_paused st \<and> signal_requires_thaw sig then thaw_paused_container h during st w1 else (Inr st, w1)) (\<lambda>st w.
         andw (signal_container h st sig w) (\<lambda>_ w.
           (case wait_pid_gone st polls w of (gone, w) \<Rightarrow>
              andw (if gone then settle_exit h (cs_id st) settle w else (Inr (), w)) (\<lambda>_ w. (Inr (display_name st), w))))))"
    using a tail assms(4) by (auto intro!: step [OF reconcile_keeps] step [OF thaw_keeps] step [OF signal_keeps])
qed

lemma stop_keeps:
  assumes "I w" and "list_all E race" and "\<And>st. resolve (w_root w) (w_dir w) target = Inr st \<Longrightarrow> own (cs_id st)"
    and "list_all E during" and "list_all (list_all E) grace" and "list_all (list_all E) polls" and "list_all (list_all E) settle"
  shows "keeps I (\<lambda>_. True) (stop_one h target race during grace polls settle w)"
  unfolding stop_one_def
proof (rule step [OF open_record_keeps [OF assms(1-3)]])
  fix st w1
  assume a: "S st" "I w1"
  have tail: "keeps I (\<lambda>_. True) (case wait_pid_gone st' grace w2 of (gone, w) \<Rightarrow>
      andw (if gone then (Inr (), w) else kill_and_wait h st' polls w) (\<lambda>_ w.
      andw (settle_exit h (cs_id st') settle w) (\<lambda>_ w. (Inr (display_name st'), w))))"
    if "I w2" "S st'" for st' w2
    using wait_I [OF that(1) assms(5), of st'] own_S [OF that(2)] that(2)
    by (auto intro!: step [where P = "\<lambda>_. True"] settle_keeps kill_and_wait_keeps assms(6,7) split: prod.splits)
  show "keeps I (\<lambda>_. True) (if cs_status st \<noteq> Running then (Inr (display_name st), w1)
      else if \<not> alive w1 st then andw (reconcile_stale_state h st w1) (\<lambda>_ w. (Inr (display_name st), w))
      else andw (thaw_paused_container h during st w1) (\<lambda>st w.
         andw (signal_container h st SIGTERM w) (\<lambda>_ w.
           (case wait_pid_gone st grace w of (gone, w) \<Rightarrow>
              andw (if gone then (Inr (), w) else kill_and_wait h st polls w) (\<lambda>_ w.
              andw (settle_exit h (cs_id st) settle w) (\<lambda>_ w. (Inr (display_name st), w)))))))"
    using a tail assms(4) by (auto intro!: step [OF reconcile_keeps] step [OF thaw_keeps] step [OF signal_keeps])
qed

lemma rm_force_keeps:
  assumes "I w" and "S st" and "list_all E during" and "list_all (list_all E) polls" and "list_all (list_all E) settle"
  shows "keeps I S (rm_force h during st polls settle w)"
  unfolding rm_force_def
proof (rule step [OF thaw_keeps [OF assms(1-3)]])
  fix st' w1
  assume a: "S st'" "I w1"
  have last: "S (case get v (cs_id st') of None \<Rightarrow> st' | Some fresh \<Rightarrow> fresh)" if "I v" for v
    using that a(1) load_S [OF that own_S [OF a(1)]] by (auto split: option.splits)
  show "keeps I S (andw (if cs_pid st' \<noteq> None \<and> alive w1 st' then kill_and_wait h st' polls w1 else (Inr (), w1)) (\<lambda>_ w.
     andw (settle_exit h (cs_id st') settle w) (\<lambda>_ w. (Inr (case get w (cs_id st') of Some fresh \<Rightarrow> fresh | None \<Rightarrow> st'), w))))"
    by (rule step [where P = "\<lambda>_. True"], simp add: a kill_and_wait_keeps assms(4), rule step [OF settle_keeps])
      (simp_all add: last own_S [OF a(1)] assms(5))
qed

lemma rm_keeps:
  assumes "I w" and "list_all E race" and "\<And>st. resolve (w_root w) (w_dir w) target = Inr st \<Longrightarrow> own (cs_id st)"
    and "list_all E during" and "list_all (list_all E) polls" and "list_all (list_all E) settle"
  shows "keeps I (\<lambda>_. True) (rm_one h target force race during polls settle w)"
  unfolding rm_one_def
  by (rule step [OF open_record_keeps [OF assms(1-3)]], assumption)
    (auto intro!: step [where P = S] rm_force_keeps remove_container_I assms(4-6))

lemma wait_loop_I: "I w \<Longrightarrow> own cid \<Longrightarrow> list_all (list_all E) polls \<Longrightarrow> I (snd (wait_loop h n cid polls w))"
proof (induction h n cid polls w rule: wait_loop.induct)
  case (2 h name cid evs polls w)
  let ?w = "interfere evs w"
  have e: "I ?w" using "2.prems" interfere_I by simp
  show ?case
  proof (cases "get ?w cid")
    case (Some st)
    obtain r w' where rc: "reconcile_stale_state h st ?w = (r, w')" by fastforce
    have "I w'" using reconcile_keeps [OF e load_S [OF e "2.prems"(2) Some], of h] rc by (simp add: keeps_def)
    with e Some rc 2 show ?thesis by (auto simp: Let_def split: sum.splits)
  qed (simp add: e)
qed simp

lemma wait_one_I:
  assumes "I w" and "\<And>st. resolve (w_root w) (w_dir w) target = Inr st \<Longrightarrow> own (cs_id st)" and "list_all (list_all E) polls"
  shows "I (snd (wait_one h target polls w))"
  using assms by (auto simp: wait_one_def wait_loop_I split: sum.splits)

end

end
