(* ===== verification/Lifecycle_Inv.thy ===== *)
theory Lifecycle_Inv
  imports Run_Cmd Launch_Args Lifecycle_Calc
begin

text \<open>
  The invariant of the records under every command and every interleaving with the reapers: the instance of the calculus for
  the commands that do not create containers (\<open>evolves\<close>), the commands that create or rename them (\<open>world_ok\<close>), the step
  relation of the host and its reachable worlds.

  A command waits with its container's operation lock held, so what runs between its polls are the reapers, which take no
  lock, and processes that start and end: these are the events. Commands are steps of their own.
\<close>

section \<open>Records and worlds\<close>

text \<open>What no command changes of a record once it exists.\<close>

definition ident where
  "ident st = (cs_version st, cs_id st, cs_name st, cs_image st, cs_created st, cs_rootless st, cs_net st, cs_ports st,
     cs_port_protocols st, cs_port_ips st, cs_cmd st, cs_env st, cs_cwd st, cs_user st, cs_capabilities st, cs_seccomp st,
     cs_log_max_size st, cs_log_max_file st, cs_lower st, cs_rootfs st, cs_overlay st, cs_tmpfs_upper st, cs_labels st,
     cs_launch_args st)"

text \<open>Only a running container is paused, an exited one has an exit code, a running one a process.\<close>

definition rec_ok :: "ContainerState \<Rightarrow> bool" where
  "rec_ok st \<longleftrightarrow> (cs_paused st \<longrightarrow> cs_status st = Running) \<and> (cs_status st = Exited \<longrightarrow> cs_exit_code st \<noteq> None) \<and>
     (cs_status st = Running \<longrightarrow> cs_pid st \<noteq> None)"

definition plain :: "world \<Rightarrow> bool" where
  "plain w \<longleftrightarrow> dir_ok (w_dir w) \<and> (\<forall>e \<in> set (w_dir w). fst (snd e) = Directory)"

text \<open>\<open>w\<close> came from \<open>w0\<close> without a new container: every record was one of \<open>w0\<close>, under the same identity.\<close>

definition evolves :: "world \<Rightarrow> world \<Rightarrow> bool" where
  "evolves w0 w \<longleftrightarrow> plain w \<and> w_root w = w_root w0 \<and>
     (\<forall>k st. get w k = Some st \<longrightarrow> rec_ok st \<and> (\<exists>s0. get w0 k = Some s0 \<and> ident st = ident s0))"

definition known :: "world \<Rightarrow> ContainerState \<Rightarrow> bool" where
  "known w0 st \<longleftrightarrow> (\<exists>s0. get w0 (cs_id st) = Some s0 \<and> ident st = ident s0)"

lemma set_update_subset: "set (AList.update k v xs) \<subseteq> insert (k, v) (set xs)"
  by (induction xs) auto

lemma plain_put: "plain w \<Longrightarrow> plain (snd (put h st w))"
proof (cases "valid_id (cs_id st) \<and> h_save h")
  case True
  assume p: "plain w"
  let ?d = "AList.update (cs_id st) (entry_kind_of (w_dir w) (cs_id st), Saved (canonical_log (w_root w) st)) (w_dir w)"
  have save: "save_ok (w_root w) st (w_dir w) = Some ?d" using True by (simp add: save_ok_eq)
  have kind: "entry_kind_of (w_dir w) (cs_id st) = Directory"
    using p by (auto simp: plain_def entry_kind_of_def split: option.splits dest!: map_of_SomeD)
  have "set ?d \<subseteq> insert (cs_id st, Directory, Saved (canonical_log (w_root w) st)) (set (w_dir w))"
    unfolding kind by (rule set_update_subset)
  moreover have "dir_ok ?d" using p save dir_ok_save by (auto simp: plain_def)
  ultimately show ?thesis using p True save by (auto simp: put_eq plain_def)
qed (auto simp: put_eq)

lemma evolves_put:
  assumes "evolves w0 w" and "known w0 st" and "rec_ok st"
  shows "evolves w0 (snd (put h st w))"
proof (cases "put h st w")
  case (Pair r w')
  show ?thesis
  proof (cases r)
    case (Inl e)
    with Pair have "w' = w" by (auto simp: put_eq split: if_splits)
    with assms(1) Pair show ?thesis by simp
  next
    case (Inr u)
    with Pair have put: "put h st w = (Inr u, w')" by simp
    have plain: "plain w'" using plain_put [of w h st] assms(1) put by (simp add: evolves_def)
    have root: "w_root w' = w_root w" using put by (auto simp: put_eq split: if_splits)
    have g: "get w' k = (if k = cs_id st then Some (canonical_log (w_root w) st) else get w k)" for k
      using get_put [OF _ put] assms(1) by (simp add: evolves_def plain_def)
    have "rec_ok (canonical_log (w_root w) st)" "ident (canonical_log (w_root w) st) = ident st"
      using assms(3) by (simp_all add: canonical_log_def rec_ok_def ident_def)
    with plain root g assms show ?thesis by (auto simp: evolves_def known_def put)
  qed
qed

lemma evolves_frame [simp]:
  "evolves w0 (w\<lparr>w_ipam := i\<rparr>) = evolves w0 w" "evolves w0 (w\<lparr>w_procs := p\<rparr>) = evolves w0 w"
  "evolves w0 (w\<lparr>w_frozen := f\<rparr>) = evolves w0 w" "evolves w0 (act as w) = evolves w0 w"
  "evolves w0 (release_lease h st w) = evolves w0 w"
  by (simp_all add: evolves_def plain_def release_lease_def) (simp_all add: act_def)

lemma set_remove_record: "set (remove_record k d) \<subseteq> set d"
  by (auto simp: remove_record_def AList.delete_eq)

lemma evolves_remove: "evolves w0 w \<Longrightarrow> evolves w0 (w\<lparr>w_dir := remove_record k (w_dir w)\<rparr>)"
  using set_remove_record [of k "w_dir w"]
  by (auto simp: evolves_def plain_def get_def load_remove dir_ok_remove split: if_splits)

lemma evolves_known: "evolves w0 w \<Longrightarrow> get w k = Some st \<Longrightarrow> known w0 st \<and> rec_ok st"
  using get_id by (fastforce simp: evolves_def known_def)

lemma exited_record_ok: "known w0 st \<Longrightarrow> known w0 (exited_record h r m st)" "rec_ok (exited_record h r m st)"
  by (auto simp: known_def exited_record_def ident_def rec_ok_def split: option.splits)

lemma started_record_ok: "known w0 st \<Longrightarrow> known w0 (started_record h info st)" "rec_ok (started_record h info st)"
  by (auto simp: known_def started_record_def ident_def rec_ok_def)

lemma finished_record_ok: "known w0 st \<Longrightarrow> known w0 (finished_record h c m st)" "rec_ok (finished_record h c m st)"
  by (auto simp: known_def finished_record_def ident_def rec_ok_def)

lemma paused_record_ok:
  "known w0 st \<Longrightarrow> known w0 (st\<lparr>cs_paused := p\<rparr>)"
  "rec_ok st \<Longrightarrow> (p \<Longrightarrow> cs_status st = Running) \<Longrightarrow> rec_ok (st\<lparr>cs_paused := p\<rparr>)"
  by (auto simp: known_def ident_def rec_ok_def)

abbreviation sane :: "world \<Rightarrow> ContainerState \<Rightarrow> bool" where
  "sane w0 st \<equiv> known w0 st \<and> rec_ok st"

lemma list_all_True [simp]: "list_all (\<lambda>_. True) xs" "list_all (list_all (\<lambda>_. True)) xss"
  by (simp_all add: list_all_iff)

text \<open>Pause, unpause, kill, stop, rm, wait and the reapers evolve the world: the calculus, with nothing forbidden.\<close>

interpretation evolution: command_calculus "evolves w0" "sane w0" "\<lambda>_. True" "\<lambda>_. True" "\<lambda>_. True"
  for w0
  by unfold_locales (use evolves_known in \<open>auto simp: evolves_put evolves_remove exited_record_ok started_record_ok finished_record_ok
    paused_record_ok\<close>)

section \<open>Creating and starting\<close>

definition names_unique :: "world \<Rightarrow> bool" where
  "names_unique w \<longleftrightarrow> (\<forall>j k s t n. get w j = Some s \<longrightarrow> get w k = Some t \<longrightarrow> cs_name s = Some n \<longrightarrow> cs_name t = Some n \<longrightarrow> j = k)"

definition world_ok :: "world \<Rightarrow> bool" where
  "world_ok w \<longleftrightarrow> plain w \<and> (\<forall>k st. get w k = Some st \<longrightarrow> rec_ok st) \<and> names_unique w"

lemma world_ok_refl: "world_ok w \<Longrightarrow> evolves w w"
  by (auto simp: world_ok_def evolves_def)

lemma ident_name: "ident st = ident s0 \<Longrightarrow> cs_name st = cs_name s0 \<and> cs_id st = cs_id s0"
  by (simp add: ident_def)

lemma world_ok_evolves: "world_ok w0 \<Longrightarrow> evolves w0 w \<Longrightarrow> world_ok w"
  unfolding world_ok_def names_unique_def evolves_def by (metis ident_name)

text \<open>A record may be written when nobody else has its name.\<close>

lemma world_ok_put:
  assumes "world_ok w" and "rec_ok st"
    and "\<And>k t n. get w k = Some t \<Longrightarrow> cs_name st = Some n \<Longrightarrow> cs_name t = Some n \<Longrightarrow> k = cs_id st"
  shows "world_ok (snd (put h st w))"
proof (cases "put h st w")
  case (Pair r w')
  show ?thesis
  proof (cases r)
    case (Inl e)
    with Pair have "w' = w" by (auto simp: put_eq split: if_splits)
    with assms(1) Pair show ?thesis by simp
  next
    case (Inr u)
    with Pair have put: "put h st w = (Inr u, w')" by simp
    have plain: "plain w'" using plain_put [of w h st] assms(1) put by (simp add: world_ok_def)
    have g: "get w' k = (if k = cs_id st then Some (canonical_log (w_root w) st) else get w k)" for k
      using get_put [OF _ put] assms(1) by (simp add: world_ok_def plain_def)
    have c: "rec_ok (canonical_log (w_root w) st)" "cs_name (canonical_log (w_root w) st) = cs_name st"
      using assms(2) by (simp_all add: canonical_log_def rec_ok_def)
    have "names_unique w'" unfolding names_unique_def g
      using assms(1,3) c(2) unfolding world_ok_def names_unique_def by (metis option.inject)
    with plain c g assms(1) show ?thesis by (auto simp: world_ok_def put)
  qed
qed

lemma known_unique:
  assumes "world_ok w0" and "evolves w0 w" and "known w0 st" and "get w k = Some t" and "cs_name st = Some n" and "cs_name t = Some n"
  shows "k = cs_id st"
  using assms unfolding world_ok_def names_unique_def evolves_def known_def by (metis ident_name)

lemma list_states_all: "plain w \<Longrightarrow> get w k = Some t \<Longrightarrow> t \<in> set (list_states (w_root w) (w_dir w))"
proof -
  assume p: "plain w" "get w k = Some t"
  from get_id [OF p(2)] have k: "cs_id t = k" by simp
  from p(2) obtain e where "map_of (w_dir w) k = Some e" by (auto simp: get_def load_def split: if_splits option.splits)
  then have "(k, e) \<in> set (w_dir w)" by (rule map_of_SomeD)
  moreover from this p(1) have "fst e = Directory" by (auto simp: plain_def)
  ultimately have "(k, Directory, snd e) \<in> set (w_dir w)" by (cases e) simp
  with p(2) k show ?thesis by (auto simp: set_list_states get_def)
qed

lemma reaper_hook_evolves: "evolves w0 w \<Longrightarrow> evolves w0 (snd (reaper_hook h hook k w))"
  using evolution.persist_I [of w0 w h k] by (auto simp: reaper_hook_def split: option.splits prod.splits) (metis snd_conv)

lemma run_detached_evolves: "evolves w0 w \<Longrightarrow> evolves w0 (snd (snd (run_detached h i hook r s k fs rm w)))"
  using reaper_hook_evolves [of w0 w h hook k] evolution.finish_I
  by (auto simp: run_detached_def Let_def split: option.splits prod.splits)

lemma start_reaper_evolves: "evolves w0 w \<Longrightarrow> evolves w0 (snd (start_reaper rh rp fs rm k w))"
  using run_detached_evolves [of w0 w "rp_host rp" "rp_install rp" "rp_hook rp" "rp_run rp" "rp_show rp" k "map_option fs_dir fs" rm]
    reaper_hook_evolves [of w0 w]
  by (auto simp: start_reaper_def split: prod.splits)

lemma cleanup_evolves: "evolves w0 w \<Longrightarrow> evolves w0 (cleanup_failed_detached_start fs k w)"
  using evolves_remove [of w0 "act _ w" k] by (simp add: cleanup_failed_detached_start_def) (simp add: act_def)

lemma created_record_ok: "rec_ok (created_record rh spec info rr sr fs st)"
  "cs_name (created_record rh spec info rr sr fs st) = di_name info" "cs_id (created_record rh spec info rr sr fs st) = cs_id st"
  by (simp_all add: created_record_def rec_ok_def)

text \<open>A new record has a fresh identifier and a name nobody has; a started container keeps its own.\<close>

lemma run_detached_cli_ok:
  assumes "world_ok w" and "run_detached_cli h rh rp spec fs im sr info resume w = (rc, committed, w')"
    and "\<And>st. resume = Some st \<Longrightarrow> cs_id st = sp_id spec \<and>
      (\<forall>k t n. get w k = Some t \<longrightarrow> di_name info = Some n \<longrightarrow> cs_name t = Some n \<longrightarrow> k = sp_id spec)"
  shows "world_ok w'"
proof -
  let ?st = "case resume of None \<Rightarrow> fresh_record h rh spec info im | Some st \<Rightarrow> st"
  let ?rec = "created_record rh spec info (w_root w) sr fs ?st"
  note e = world_ok_refl [OF assms(1)]
  have fin: "world_ok (if resume = None then cleanup_failed_detached_start fs (sp_id spec) v else v)" if "world_ok v" for v
    using that cleanup_evolves [OF world_ok_refl [OF that]] world_ok_evolves by auto
  show ?thesis
  proof (cases "resume = None \<and> di_name info \<noteq> None \<and>
      (\<not> h_name_lock h \<or> list_ex (\<lambda>c. cs_name c = di_name info) (list_states (w_root w) (w_dir w)))")
    case True
    with assms(2) have "w' = act (case fs of None \<Rightarrow> [] | Some f \<Rightarrow> [RemoveTree (fs_dir f)]) w"
      by (auto simp: run_detached_cli_def Let_def split: if_splits)
    with e world_ok_evolves [OF assms(1)] show ?thesis by simp
  next
    case False
    have id: "cs_id ?st = sp_id spec" using assms(3) by (cases resume) (auto simp: fresh_record_def)
    have uniq: "k = cs_id ?rec" if "get w k = Some t" "cs_name ?rec = Some n" "cs_name t = Some n" for k t n
    proof (cases resume)
      case None
      with False that list_states_all [OF _ that(1)] assms(1) show ?thesis
        by (auto simp: created_record_ok world_ok_def list_ex_iff)
    next
      case (Some st)
      with that assms(3) [OF Some] id show ?thesis by (auto simp: created_record_ok)
    qed
    have put: "world_ok (snd (put h ?rec w))" by (rule world_ok_put [OF assms(1) created_record_ok(1) uniq])
    then have reap: "world_ok (snd (start_reaper rh rp fs (di_rm info) (sp_id spec) (snd (put h ?rec w))))"
      using start_reaper_evolves [OF world_ok_refl] world_ok_evolves by blast
    have cond: "\<not> (resume = None \<and> di_name info \<noteq> None \<and> \<not> h_name_lock h)"
      "\<not> (resume = None \<and> di_name info \<noteq> None \<and> list_ex (\<lambda>c. cs_name c = di_name info) (list_states (w_root w) (w_dir w)))"
      using False by auto
    show ?thesis
    proof (cases "put h ?rec w")
      case (Pair r w2)
      with assms(1,2) cond put reap fin show ?thesis
        unfolding run_detached_cli_def Let_def
        by (cases r) (auto split: if_splits prod.splits simp del: split_paired_All)
    qed
  qed
qed

lemma inject_frame [simp]:
  "get (inject_resolv_conf rh net dns fs w) = get w" "w_dir (inject_resolv_conf rh net dns fs w) = w_dir w"
  "w_root (inject_resolv_conf rh net dns fs w) = w_root w" "evolves w0 (inject_resolv_conf rh net dns fs w) = evolves w0 w"
  by (auto simp: inject_resolv_conf_def Let_def split: option.splits) (simp_all add: act_def)

lemma launch_ok:
  assumes "world_ok w" and "launch h rh rp a caps resume cid w = (rc, committed, w')"
    and "\<And>st. resume = Some st \<Longrightarrow> cs_id st = cid \<and>
      (\<forall>k t n. get w k = Some t \<longrightarrow> cs_name st = Some n \<longrightarrow> cs_name t = Some n \<longrightarrow> k = cid)"
  shows "world_ok w'"
proof (cases "plan_run rh a caps resume cid")
  case (Inr pl)
  show ?thesis
  proof (cases "open_layer rh (w_data w) a resume cid (pl_rootfs pl)")
    case Inr': (Inr fs)
    have "world_ok (inject_resolv_conf rh (ra_net a) (ra_dns a) fs w)"
      using world_ok_evolves [OF assms(1)] world_ok_refl [OF assms(1)] by simp
    then show ?thesis
      using assms(2) unfolding launch_def Inr Inr' sum.case
      by (rule run_detached_cli_ok) (use assms(3) in \<open>auto simp: run_spec_def\<close>)
  qed (use assms Inr in \<open>simp add: launch_def\<close>)
qed (use assms in \<open>simp add: launch_def\<close>)

lemma reserve_fresh:
  "reserve ids ok dir = Some (Some cid, dir') \<Longrightarrow> cid \<notin> set (map fst dir) \<and> dir' = (cid, Directory, NoState) # dir"
  by (induction ids) (auto split: if_splits)

lemma reserved_evolves:
  assumes "world_ok w" and "cid \<notin> set (map fst (w_dir w))"
  shows "evolves w (w\<lparr>w_dir := (cid, Directory, NoState) # w_dir w\<rparr>)"
proof -
  let ?d = "(cid, Directory, NoState) # w_dir w"
  have "map_of (w_dir w) cid = None" using assms(2) by (simp add: map_of_eq_None_iff)
  then have "load rr ?d k = load rr (w_dir w) k" for rr k by (simp add: load_def)
  moreover have "dir_ok ?d" using assms by (auto simp: world_ok_def plain_def dir_ok_def)
  ultimately show ?thesis using assms(1) world_ok_refl [OF assms(1)]
    by (auto simp: evolves_def plain_def get_def world_ok_def)
qed

lemma run_ok:
  assumes "world_ok w" and "cmd_run_detached h rh rp args w = Some (Inr (rc, w'))"
  shows "world_ok w'"
proof (cases "check_run rh (w_data w) False args")
  case (Inr p)
  obtain a caps where p: "p = (a, caps)" by fastforce
  with assms(2) Inr have det: "ra_detach a" by (auto simp: cmd_run_detached_def split: if_splits)
  show ?thesis
  proof (cases "reserve (rh_ids rh) (rh_reserve rh) (w_dir w)")
    case (Some q)
    then obtain c dir where q: "reserve (rh_ids rh) (rh_reserve rh) (w_dir w) = Some (c, dir)" by (cases q) auto
    show ?thesis
    proof (cases c)
      case None
      with assms Inr p det q show ?thesis by (simp add: cmd_run_detached_def)
    next
      case (Some cid)
      with q have fresh: "cid \<notin> set (map fst (w_dir w))" "dir = (cid, Directory, NoState) # w_dir w"
        using reserve_fresh by blast+
      let ?w = "w\<lparr>w_dir := dir\<rparr>"
      have "world_ok ?w" using world_ok_evolves [OF assms(1)] reserved_evolves [OF assms(1) fresh(1)] fresh(2) by simp
      moreover obtain rc' com v where l: "launch h rh rp a caps None cid ?w = (rc', com, v)" by (metis prod_cases3)
      ultimately have v: "world_ok v" using launch_ok by fastforce
      then have "world_ok (v\<lparr>w_dir := remove_record cid (w_dir v)\<rparr>)"
        using world_ok_evolves evolves_remove world_ok_refl by blast
      with v assms(2) Inr p det q Some l show ?thesis by (auto simp: cmd_run_detached_def split: if_splits)
    qed
  qed (use assms Inr p det in \<open>simp add: cmd_run_detached_def\<close>)
qed (use assms in \<open>simp add: cmd_run_detached_def\<close>)

lemma cmd_run_resume_ok:
  assumes "world_ok w0" and "evolves w0 w" and "known w0 st"
  shows "world_ok (snd (cmd_run_resume h rh rp args st w))"
proof -
  have w: "world_ok w" using world_ok_evolves [OF assms(1,2)] .
  show ?thesis
  proof (cases "check_run rh (w_data w) True args")
    case (Inr p)
    obtain a caps where p: "p = (a, caps)" by fastforce
    obtain rc com v where l: "launch h rh rp a caps (Some st) (cs_id st) w = (rc, com, v)" by (metis prod_cases3)
    have "world_ok v"
      by (rule launch_ok [OF w l]) (use known_unique [OF assms] in auto)
    with Inr p l show ?thesis by (simp add: cmd_run_resume_def)
  qed (simp add: cmd_run_resume_def w)
qed

text \<open>The rule for a step followed by one that may create a record.\<close>

lemma ok_andw:
  assumes "world_ok w0" and "keeps (evolves w0) P m" and "\<And>x w. P x \<Longrightarrow> evolves w0 w \<Longrightarrow> world_ok (snd (f x w))"
  shows "world_ok (snd (andw m f))"
  using assms world_ok_evolves [OF assms(1)] by (cases rule: andw_cases [of m f]) (auto simp: keeps_def)

lemma start_ok:
  assumes "world_ok w"
  shows "world_ok (snd (start_one h rh rp target race w))"
  unfolding start_one_def
proof (rule ok_andw [OF assms evolution.open_record_keeps [OF world_ok_refl [OF assms] list_all_True(1) TrueI]])
  fix st w1
  assume st: "sane w st" and w1: "evolves w w1"
  have tail: "world_ok (snd (let st = st\<lparr>cs_paused := False\<rparr> in
       (case cs_launch_args st of
          None \<Rightarrow> (Inl (NoLaunchMetadata (display_name st)), w2)
        | Some args \<Rightarrow>
            if args = [] \<or> hd args \<noteq> ''-d'' then (Inl (BadLaunchMetadata (display_name st)), w2)
            else (case cmd_run_resume h rh rp args st (reclaim_resources h st w2) of (rc, w) \<Rightarrow>
              if rc \<noteq> 0 then (Inl (StartFailed (display_name st)), w) else (Inr (display_name st), w)))))"
    if "sane w st" and "evolves w w2" for st w2
  proof -
    have "known w (st\<lparr>cs_paused := False\<rparr>)" using that paused_record_ok by simp
    then have "world_ok (snd (cmd_run_resume h rh rp args (st\<lparr>cs_paused := False\<rparr>) (reclaim_resources h (st\<lparr>cs_paused := False\<rparr>) w2)))" for args
      using that by (intro cmd_run_resume_ok [OF assms]) (simp_all add: evolution.reclaim_I)
    with world_ok_evolves [OF assms that(2)] show ?thesis by (auto simp: Let_def split: option.splits prod.splits) (metis snd_conv)+
  qed
  show "world_ok (snd (andw (if cs_status st = Running
           then (if alive w1 st then (Inl (AlreadyRunning (display_name st)), w1) else reconcile_stale_state h st w1)
           else (Inr st, w1)) (\<lambda>st w.
       let st = st\<lparr>cs_paused := False\<rparr> in
       (case cs_launch_args st of
          None \<Rightarrow> (Inl (NoLaunchMetadata (display_name st)), w)
        | Some args \<Rightarrow>
            if args = [] \<or> hd args \<noteq> ''-d'' then (Inl (BadLaunchMetadata (display_name st)), w)
            else (case cmd_run_resume h rh rp args st (reclaim_resources h st w) of (rc, w) \<Rightarrow>
              if rc \<noteq> 0 then (Inl (StartFailed (display_name st)), w) else (Inr (display_name st), w))))))"
    by (rule ok_andw [OF assms, where P = "sane w"]) (use st w1 tail evolution.reconcile_keeps in auto)
qed

lemma rename_ok:
  assumes "world_ok w"
  shows "world_ok (snd (rename_one h old new race w))"
proof (cases "valid_name new")
  case True
  have "world_ok (snd (if cs_name st = Some new then (Inr (), w1)
        else if list_ex (\<lambda>c. cs_id c \<noteq> cs_id st \<and> cs_name c = Some new) (list_states (w_root w1) (w_dir w1))
        then (Inl (NameInUse new), w1)
        else errw StateFailed (put h (st\<lparr>cs_name := Some new,
               cs_launch_args := map_option (set_launch_name (Some new)) (cs_launch_args st)\<rparr>) w1)))"
    if "sane w st" and "evolves w w1" for st w1
  proof -
    have ok: "world_ok w1" using world_ok_evolves [OF assms that(2)] .
    let ?st = "st\<lparr>cs_name := Some new, cs_launch_args := map_option (set_launch_name (Some new)) (cs_launch_args st)\<rparr>"
    have rec: "rec_ok ?st" using that(1) by (simp add: rec_ok_def)
    have "world_ok (snd (put h ?st w1))"
      if free: "\<not> list_ex (\<lambda>c. cs_id c \<noteq> cs_id st \<and> cs_name c = Some new) (list_states (w_root w1) (w_dir w1))"
    proof (rule world_ok_put [OF ok rec])
      fix k t n
      assume t: "get w1 k = Some t" and n: "cs_name ?st = Some n" "cs_name t = Some n"
      have "t \<in> set (list_states (w_root w1) (w_dir w1))" using list_states_all [OF _ t] ok by (simp add: world_ok_def)
      with free n have "cs_id t = cs_id st" by (auto simp: list_ex_iff)
      with get_id [OF t] show "k = cs_id ?st" by simp
    qed
    with ok show ?thesis by auto
  qed
  then show ?thesis
    using True unfolding rename_one_def by (auto intro: ok_andw [OF assms evolution.open_record_keeps [OF world_ok_refl [OF assms] list_all_True(1) TrueI]] simp del: errw_simps)
qed (simp add: rename_one_def assms)

section \<open>The step relation\<close>

inductive step :: "world \<Rightarrow> world \<Rightarrow> bool" where
  step_event: "step w (apply_event e w)"
| step_pause: "step w (snd (set_container_paused h target paused race during w))"
| step_kill: "step w (snd (kill_one h target sig race during polls settle w))"
| step_stop: "step w (snd (stop_one h target race during grace polls settle w))"
| step_rm: "step w (snd (rm_one h target force race during polls settle w))"
| step_wait: "step w (snd (wait_one h target polls w))"
| step_start: "step w (snd (start_one h rh rp target race w))"
| step_rename: "step w (snd (rename_one h old new race w))"
| step_run: "cmd_run_detached h rh rp args w = Some (Inr (rc, w')) \<Longrightarrow> step w w'"

inductive reachable :: "world \<Rightarrow> bool" where
  reachable_init: "w_dir w = [] \<Longrightarrow> reachable w"
| reachable_step: "reachable w \<Longrightarrow> step w w' \<Longrightarrow> reachable w'"

inductive_cases stepE: "step w w'"

lemma world_ok_keeps: "world_ok w \<Longrightarrow> keeps (evolves w) P m \<Longrightarrow> world_ok (snd m)"
  using world_ok_evolves by (auto simp: keeps_def)

lemma step_ok: "step w w' \<Longrightarrow> world_ok w \<Longrightarrow> world_ok w'"
proof (erule stepE)
  assume ok: "world_ok w"
  note e = world_ok_refl [OF ok] and k = world_ok_keeps [OF ok]
  show "w' = apply_event x w \<Longrightarrow> world_ok w'" for x using world_ok_evolves [OF ok evolution.event_I [OF e]] by simp
  show "w' = snd (set_container_paused h t p r d w) \<Longrightarrow> world_ok w'" for h t p r d using k [OF evolution.pause_keeps [OF e]] by simp
  show "w' = snd (kill_one h t s r d p x w) \<Longrightarrow> world_ok w'" for h t s r d p x using k [OF evolution.kill_keeps [OF e]] by simp
  show "w' = snd (stop_one h t r d g p x w) \<Longrightarrow> world_ok w'" for h t r d g p x using k [OF evolution.stop_keeps [OF e]] by simp
  show "w' = snd (rm_one h t f r d p x w) \<Longrightarrow> world_ok w'" for h t f r d p x using k [OF evolution.rm_keeps [OF e]] by simp
  show "w' = snd (wait_one h t p w) \<Longrightarrow> world_ok w'" for h t p using world_ok_evolves [OF ok evolution.wait_one_I [OF e]] by simp
qed (simp_all add: start_ok rename_ok run_ok)

lemma reachable_ok: "reachable w \<Longrightarrow> world_ok w"
proof (induction rule: reachable.induct)
  case (reachable_init w)
  then show ?case by (simp add: world_ok_def plain_def dir_ok_def get_def load_def names_unique_def)
qed (rule step_ok)

end
