(* ===== verification/Lifecycle_Facts.thy ===== *)
theory Lifecycle_Facts
  imports Lifecycle_Inv
begin

text \<open>
  Facts about the lifecycle commands beyond the invariant: what reconciliation does to the host, when waiting ends, two more instances
  of the calculus (a command touches its own record only; signals reach recorded processes only), the freezer, and the outcomes of
  \<open>run -d\<close> and \<open>start\<close>.
\<close>

section \<open>Reconciliation\<close>

text \<open>What a clean-up of \<open>st\<close> may do to the host.\<close>

definition own_act :: "host \<Rightarrow> ContainerState \<Rightarrow> host_act \<Rightarrow> bool" where
  "own_act h st a = (case a of
      Net (RemoveTable t) \<Rightarrow> t = legacy_table_name (cs_id st)
    | Net (DeleteLink i) \<Rightarrow> h_link h (veth_name (cs_id st)) = Some i
    | Cg (Rmdir p) \<Rightarrow> (case h_cgroot h of Inl _ \<Rightarrow> False | Inr r \<Rightarrow> p = leaf_path r (cs_id st) \<or> p = parent_path r)
    | RemoveTree _ \<Rightarrow> False
    | _ \<Rightarrow> False)"

lemma teardown_own: "list_all (own_act h st) (teardown_acts h st)"
  by (auto simp: teardown_acts_def teardown_named_def own_act_def list_all_iff split: option.splits)

lemma remove_own:
  "remove_for_container (h_rmdir h) (h_cgroot h) (cs_id st) p = (r, as) \<Longrightarrow> list_all (own_act h st) (map Cg as)"
  by (auto simp: remove_for_container_def own_act_def list_all_iff Let_def split: sum.splits if_splits)

lemma reconcile_cgroup_own: "reconcile_cgroup h st = (b, m, as) \<Longrightarrow> list_all (own_act h st) as"
  by (auto simp: reconcile_cgroup_def dest!: remove_own split: option.splits if_splits prod.splits)

lemma release_lease_simps [simp]:
  "w_dir (release_lease h st w) = w_dir w" "w_root (release_lease h st w) = w_root w" "w_procs (release_lease h st w) = w_procs w"
  "w_frozen (release_lease h st w) = w_frozen w" "w_acts (release_lease h st w) = w_acts w" "get (release_lease h st w) = get w"
  "w_data (release_lease h st w) = w_data w"
  by (simp_all add: release_lease_def)

lemma act_simps [simp]:
  "w_dir (act as w) = w_dir w" "w_root (act as w) = w_root w" "w_procs (act as w) = w_procs w" "w_frozen (act as w) = w_frozen w"
  "w_acts (act as w) = w_acts w @ as" "w_ipam (act as w) = w_ipam w" "w_data (act as w) = w_data w"
  by (simp_all add: act_def)

lemma put_simps:
  "put h st w = (r, w') \<Longrightarrow> w_root w' = w_root w \<and> w_procs w' = w_procs w \<and> w_frozen w' = w_frozen w \<and> w_acts w' = w_acts w \<and>
     w_ipam w' = w_ipam w \<and> w_data w' = w_data w"
  by (auto simp: put_eq split: if_splits)

lemma reconcile_True:
  assumes "reconcile_stale_and_save h st w = (Inr True, st', w')"
  obtains b m as u where "cs_status st = Running" "\<not> alive w st" "reconcile_cgroup h st = (b, m, as)" "st' = exited_record h b m st"
    "put h st' (release_lease h st (act (teardown_acts h st @ as) w)) = (Inr u, w')"
proof (cases "cs_status st \<noteq> Running \<or> alive w st")
  case True
  with assms show ?thesis by (simp add: reconcile_stale_and_save_def reconcile_stale_def)
next
  case False
  obtain b m as where "reconcile_cgroup h st = (b, m, as)" by (metis prod_cases3)
  with False assms that show ?thesis
    by (auto simp: reconcile_stale_and_save_def reconcile_stale_def and_then_eq_Inr_iff split: prod.splits)
qed

section \<open>Waiting\<close>

definition final :: "world \<Rightarrow> string \<Rightarrow> bool" where
  "final w cid \<longleftrightarrow> (case get w cid of None \<Rightarrow> True
     | Some st \<Rightarrow> cs_status st = Exited \<or> cs_status st = Running \<and> \<not> alive w st)"

lemma reconcile_dead:
  assumes "cs_status st = Running" and "\<not> alive w st"
  shows "fst (reconcile_stale_state h st w) = Inr st' \<Longrightarrow> cs_status st' = Exited"
  using assms by (auto simp: reconcile_stale_state_def reconcile_stale_and_save_def reconcile_stale_def exited_record_def
    map_err_def and_then_eq_Inr_iff split: prod.splits sum.splits)

lemma wait_loop_final: "final (interfere evs w) cid \<Longrightarrow> fst (wait_loop h n cid (evs # polls) w) \<noteq> None"
proof (cases "get (interfere evs w) cid")
  case (Some st)
  assume f: "final (interfere evs w) cid"
  obtain r w' where rc: "reconcile_stale_state h st (interfere evs w) = (r, w')" by fastforce
  with f Some reconcile_dead [of st "interfere evs w" h] show ?thesis by (cases r) (auto simp: Let_def final_def)
qed simp

lemma wait_loop_waits:
  "\<not> final (interfere evs w) cid \<Longrightarrow> wait_loop h n cid (evs # polls) w = wait_loop h n cid polls (interfere evs w)"
  by (auto simp: Let_def final_def split: option.splits)

lemma wait_loop_None:
  "fst (wait_loop h n cid polls w) = None \<longleftrightarrow>
     (\<forall>i < length polls. \<not> final (interfere (concat (take (Suc i) polls)) w) cid)"
proof (induction polls arbitrary: w)
  case (Cons evs polls)
  show ?case
  proof (cases "final (interfere evs w) cid")
    case True
    have "\<exists>i < length (evs # polls). final (interfere (concat (take (Suc i) (evs # polls))) w) cid"
      by (rule exI [of _ 0]) (simp add: True)
    with wait_loop_final [OF True] show ?thesis by blast
  next
    case False
    then show ?thesis using Cons.IH wait_loop_waits by (simp add: All_less_Suc2 del: wait_loop.simps)
  qed
qed simp

lemma reconcile_state_get:
  assumes "plain w" and "cs_status st = Running" and "\<not> alive w st" and "reconcile_stale_state h st w = (Inr st', w')"
  shows "get w' (cs_id st) = Some (canonical_log (w_root w) st')" and "cs_status st' = Exited" and "cs_exit_code st' \<noteq> None"
proof -
  have c: "reconcile_stale_and_save h st w = (Inr True, st', w')"
    using assms(2-4) by (auto simp: reconcile_stale_state_def reconcile_stale_and_save_def reconcile_stale_def map_err_def
      and_then_eq_Inr_iff split: prod.splits sum.splits)
  obtain b m as u where st': "st' = exited_record h b m st"
    and p: "put h st' (release_lease h st (act (teardown_acts h st @ as) w)) = (Inr u, w')"
    using c by (rule reconcile_True)
  show "get w' (cs_id st) = Some (canonical_log (w_root w) st')"
    using get_put [OF _ p] assms(1) by (auto simp: plain_def st' exited_record_def)
  show "cs_status st' = Exited" "cs_exit_code st' \<noteq> None" by (auto simp: st' exited_record_def split: option.splits)
qed

lemma canonical_log_simps [simp]:
  "cs_status (canonical_log rr st) = cs_status st" "cs_exit_code (canonical_log rr st) = cs_exit_code st"
  "cs_id (canonical_log rr st) = cs_id st" "cs_pid (canonical_log rr st) = cs_pid st"
  "cs_pid_start_time (canonical_log rr st) = cs_pid_start_time st" "cs_paused (canonical_log rr st) = cs_paused st"
  "cs_cgroup (canonical_log rr st) = cs_cgroup st"
  by (simp_all add: canonical_log_def)

lemma evolves_plain: "evolves w0 w \<Longrightarrow> plain w"
  by (simp add: evolves_def)

lemma wait_loop_code:
  assumes "evolves w0 w" and "wait_loop h n cid polls w = (Some (Inr c), w')"
  shows "\<exists>st. get w' cid = Some st \<and> cs_status st = Exited \<and> cs_exit_code st = Some c"
  using assms
proof (induction polls arbitrary: w)
  case (Cons evs polls)
  let ?w = "interfere evs w"
  have e: "evolves w0 ?w" using Cons.prems(1) by (rule evolution.interfere_I) simp
  show ?case
  proof (cases "final ?w cid")
    case False
    with Cons e wait_loop_waits show ?thesis by (metis (no_types, lifting))
  next
    case True
    show ?thesis
    proof (cases "get ?w cid")
      case None
      with Cons.prems(2) show ?thesis by simp
    next
      case (Some st)
      have ok: "rec_ok st" using evolves_known [OF e Some] by simp
      show ?thesis
      proof (cases "cs_status st = Exited")
        case True
        with ok Cons.prems(2) Some show ?thesis by (auto simp: rec_ok_def Let_def)
      next
        case False
        with \<open>final ?w cid\<close> Some have dead: "cs_status st = Running" "\<not> alive ?w st" by (auto simp: final_def)
        obtain r v where rc: "reconcile_stale_state h st ?w = (r, v)" by fastforce
        show ?thesis
        proof (cases r)
          case (Inr st')
          note q = reconcile_state_get [OF evolves_plain [OF e] dead rc [unfolded Inr]]
          from q(3) obtain y where "cs_exit_code st' = Some y" by auto
          with Inr rc q(1,2) get_id [OF Some] Cons.prems(2) Some dead show ?thesis by (auto simp: Let_def)
        qed (use Cons.prems(2) Some dead rc in \<open>simp add: Let_def\<close>)
      qed
    qed
  qed
qed simp

section \<open>stop\<close>

definition settled :: "world \<Rightarrow> string \<Rightarrow> bool" where
  "settled w cid \<longleftrightarrow> (\<forall>t. get w cid = Some t \<longrightarrow> cs_status t = Running \<longrightarrow> alive w t)"

lemma reconcile_settles:
  assumes "plain w" and "get w cid = Some st" and "cs_status st = Running" and "\<not> alive w st"
    and "reconcile_stale_state h st w = (Inr st', w')"
  shows "settled w' cid"
  using reconcile_state_get [OF assms(1,3-5)] get_id [OF assms(2)] by (auto simp: settled_def)

lemma settle_exit_settled:
  assumes "evolves w0 w" and "settle_exit h cid polls w = (Inr u, w')"
  shows "settled w' cid"
  using assms
proof (induction h cid polls w rule: settle_exit.induct)
  case (1 h cid w)
  show ?case
  proof (cases "get w cid")
    case (Some st)
    obtain r v where rc: "reconcile_stale_state h st w = (r, v)" by fastforce
    with 1 Some reconcile_settles [OF evolves_plain [OF "1.prems"(1)] Some, of h] show ?thesis
      by (cases r) (auto simp: settle_late_def settled_def split: if_splits)
  qed (use 1 in \<open>auto simp: settle_late_def settled_def\<close>)
next
  case (2 h cid evs polls w)
  have e: "evolves w0 (interfere evs w)" using "2.prems"(1) by (rule evolution.interfere_I) simp
  show ?case
  proof (cases "get (interfere evs w) cid")
    case (Some st)
    with 2 e show ?thesis by (cases "cs_status st = Running") (auto simp: Let_def settled_def)
  qed (use 2 in \<open>auto simp: settled_def\<close>)
qed

lemma open_record_Inr:
  assumes "open_record h target race w = (Inr st, w')"
  obtains initial where "resolve (w_root w) (w_dir w) target = Inr initial" "cs_id initial = cs_id st" "w' = interfere race w"
    "get w' (cs_id st) = Some st"
proof -
  obtain initial where r: "resolve (w_root w) (w_dir w) target = Inr initial" and "h_lock h"
    and g: "get (interfere race w) (cs_id initial) = Some st" "w' = interfere race w"
    using assms by (auto simp: open_record_def Let_def split: sum.splits if_splits option.splits)
  from r _ g(2) show ?thesis by (rule that) (use get_id [OF g(1)] g in simp_all)
qed

lemma switch_freezer_Inr:
  assumes "switch_freezer h during path p st w = (Inr st', w')"
  obtains u v where "set_freezer h path p w = (Inr (), u)" "put h st' (interfere during u) = (Inr v, w')" "st' = st\<lparr>cs_paused := p\<rparr>"
proof -
  from assms obtain u where f: "errw CgroupFailed (set_freezer h path p w) = (Inr (), u)"
    and b: "(case put h (st\<lparr>cs_paused := p\<rparr>) (interfere during u) of
          (Inr _, w) \<Rightarrow> (Inr (st\<lparr>cs_paused := p\<rparr>), w)
        | (Inl e, w) \<Rightarrow>
            andw (errw (RollbackFailed e) (set_freezer h path (\<not> p) w)) (\<lambda>_ w. (Inl (StateFailed e), w))) = (Inr st', w')"
    unfolding switch_freezer_def by (auto elim: andw_Inr)
  from f have f': "set_freezer h path p w = (Inr (), u)" by (cases "set_freezer h path p w"; cases "fst (set_freezer h path p w)") auto
  obtain r v where pt: "put h (st\<lparr>cs_paused := p\<rparr>) (interfere during u) = (r, v)" by fastforce
  show ?thesis
  proof (cases r)
    case (Inl e)
    with b pt show ?thesis by (auto elim: andw_Inr)
  next
    case (Inr x)
    with b pt have "st' = st\<lparr>cs_paused := p\<rparr>" "w' = v" by simp_all
    with that f' pt Inr show ?thesis by simp
  qed
qed

lemma thaw_same_id:
  assumes "thaw_paused_container h during st w = (Inr st', w')"
  shows "st' = st\<lparr>cs_paused := False\<rparr>"
proof (cases "cs_paused st")
  case True
  with assms obtain path where "switch_freezer h during path False st w = (Inr st', w')"
    by (auto simp: thaw_paused_container_def elim!: andw_Inr)
  then show ?thesis by (auto elim: switch_freezer_Inr)
qed (use assms in \<open>simp add: thaw_paused_container_def\<close>)

section \<open>rm\<close>

lemma rm_force_id: "rm_force h during st polls settle w = (Inr st', w') \<Longrightarrow> cs_id st' = cs_id st"
  unfolding rm_force_def by (auto elim!: andw_Inr dest!: thaw_same_id get_id split: option.splits)

section \<open>A command touches its own container only\<close>

fun about :: "string \<Rightarrow> event \<Rightarrow> bool" where
  "about cid (ReaperStarted h k info) \<longleftrightarrow> k = cid"
| "about cid (ReaperFinished h k fs rm c m) \<longleftrightarrow> k = cid"
| "about cid _ \<longleftrightarrow> True"

definition others_kept :: "world \<Rightarrow> string \<Rightarrow> world \<Rightarrow> bool" where
  "others_kept w0 cid w \<longleftrightarrow> dir_ok (w_dir w) \<and> (\<forall>k. k \<noteq> cid \<longrightarrow> get w k = get w0 k)"

lemma others_put: "others_kept w0 (cs_id st) w \<Longrightarrow> others_kept w0 (cs_id st) (snd (put h st w))"
proof (cases "put h st w")
  case (Pair r w')
  assume o: "others_kept w0 (cs_id st) w"
  have d: "dir_ok (w_dir w')" using put_dir_ok [of w h st] o Pair by (simp add: others_kept_def)
  show ?thesis
  proof (cases r)
    case (Inl e)
    with put_Inl [of h st w e w'] Pair o show ?thesis by auto
  next
    case (Inr u)
    with get_put [of w h st u w'] Pair o d show ?thesis by (auto simp: others_kept_def)
  qed
qed

interpretation others: command_calculus "others_kept w0 cid" "\<lambda>st. cs_id st = cid" "\<lambda>k. k = cid" "about cid" "\<lambda>_. True"
  for w0 cid
proof unfold_locales
  fix w st h
  show "others_kept w0 cid w \<Longrightarrow> cs_id st = cid \<Longrightarrow> others_kept w0 cid (snd (put h st w))" using others_put by auto
qed (auto simp: others_kept_def get_remove dir_ok_remove act_def exited_record_def finished_record_def started_record_def
    dest!: get_id)

section \<open>Signals reach the recorded process only\<close>

text \<open>\<open>R\<close>: the processes that were recorded for the container, with their start times.\<close>

definition recorded :: "(int \<times> nat option) set \<Rightarrow> ContainerState \<Rightarrow> bool" where
  "recorded R st \<longleftrightarrow> (\<forall>p. cs_pid st = Some p \<longrightarrow> (p, cs_pid_start_time st) \<in> R)"

fun aimed :: "(int \<times> nat option) set \<Rightarrow> host_act \<Rightarrow> bool" where
  "aimed R (SendSignal p q sig) \<longleftrightarrow> 0 < p \<and> (\<exists>t. (p, t) \<in> R \<and> (\<forall>x. t = Some x \<longrightarrow> q = Some (Some x)))"
| "aimed R _ \<longleftrightarrow> True"

fun reports :: "string \<Rightarrow> (int \<times> nat option) set \<Rightarrow> event \<Rightarrow> bool" where
  "reports cid R (ReaperStarted h k info) \<longleftrightarrow> k = cid \<and> (si_pid info, si_pid_start_time info) \<in> R"
| "reports cid R e \<longleftrightarrow> about cid e"

definition signals_aimed :: "world \<Rightarrow> string \<Rightarrow> (int \<times> nat option) set \<Rightarrow> world \<Rightarrow> bool" where
  "signals_aimed w0 cid R w \<longleftrightarrow> dir_ok (w_dir w) \<and> (\<forall>st. get w cid = Some st \<longrightarrow> recorded R st) \<and>
     (\<exists>as. w_acts w = w_acts w0 @ as \<and> list_all (aimed R) as)"

lemma signals_put:
  assumes "signals_aimed w0 cid R w" and "cs_id st = cid" and "recorded R st"
  shows "signals_aimed w0 cid R (snd (put h st w))"
proof (cases "put h st w")
  case (Pair r w')
  have d: "dir_ok (w_dir w')" using put_dir_ok [of w h st] assms(1) Pair by (simp add: signals_aimed_def)
  show ?thesis
  proof (cases r)
    case (Inl e)
    with put_Inl [of h st w e w'] Pair assms(1) show ?thesis by auto
  next
    case (Inr u)
    then have p: "put h st w = (Inr u, w')" using Pair by simp
    have "recorded R (canonical_log (w_root w) st)" using assms(3) by (simp add: recorded_def)
    then show ?thesis using get_put [OF _ p] put_simps [OF p] assms d by (auto simp: signals_aimed_def p)
  qed
qed

interpretation aim: command_calculus "signals_aimed w0 cid R" "\<lambda>st. cs_id st = cid \<and> recorded R st" "\<lambda>k. k = cid"
    "reports cid R" "aimed R"
  for w0 cid R
proof unfold_locales
  fix w st h
  show "signals_aimed w0 cid R w \<Longrightarrow> cs_id st = cid \<and> recorded R st \<Longrightarrow> signals_aimed w0 cid R (snd (put h st w))"
    using signals_put by auto
next
  fix w as
  show "signals_aimed w0 cid R w \<Longrightarrow> list_all (aimed R) as \<Longrightarrow> signals_aimed w0 cid R (act as w)"
    by (auto simp: signals_aimed_def)
next
  fix a
  show "\<not> is_signal a \<Longrightarrow> aimed R a" by (cases a) auto
next
  fix w k st
  show "signals_aimed w0 cid R w \<Longrightarrow> k = cid \<Longrightarrow> get w k = Some st \<Longrightarrow> cs_id st = cid \<and> recorded R st"
    using get_id by (auto simp: signals_aimed_def)
qed (auto simp: signals_aimed_def get_remove dir_ok_remove exited_record_def finished_record_def started_record_def recorded_def)

section \<open>Pause\<close>

lemma put_frozen [simp]: "w_frozen (snd (put h st w)) = w_frozen w"
  by (simp add: put_eq)

lemma persist_snd:
  "snd (persist_started_state h k info w) = (case get w k of None \<Rightarrow> w | Some st \<Rightarrow> snd (put h (started_record h info st) w))"
  by (auto simp: persist_started_state_def split: option.splits prod.splits sum.splits)

lemma event_frozen [simp]: "w_frozen (apply_event e w) = w_frozen w"
  by (cases e) (auto simp: persist_snd reaper_finish_def Let_def split: option.splits)

lemma interfere_frozen [simp]: "w_frozen (interfere evs w) = w_frozen w"
  by (induction evs arbitrary: w) simp_all

lemma reconcile_frozen: "reconcile_stale_state h st w = (r, w') \<Longrightarrow> w_frozen w' = w_frozen w"
  by (auto simp: reconcile_stale_state_def reconcile_stale_and_save_def reconcile_stale_def dest!: put_simps split: prod.splits if_splits)

lemma open_record_frozen: "open_record h target race w = (r, w') \<Longrightarrow> w_frozen w' = w_frozen w"
  by (auto simp: open_record_def Let_def split: sum.splits if_splits option.splits)

lemma set_freezer_cases:
  assumes "set_freezer h path f w = (r, w')"
  obtains "w_dir w' = w_dir w" "w_root w' = w_root w" "w_frozen w' = (w_frozen w)(path := f)"
  | e where "r = Inl e" "w' = w"
  using assms by (auto simp: set_freezer_def freeze_def split: prod.splits if_splits)

lemma reconcile_alive: "alive w' st' \<Longrightarrow> reconcile_stale_state h st w = (Inr st', w') \<Longrightarrow> cs_status st' = Running \<Longrightarrow> st' = st \<and> w' = w"
  by (auto simp: reconcile_stale_state_def reconcile_stale_and_save_def reconcile_stale_def exited_record_def map_err_def
    and_then_eq_Inr_iff split: prod.splits if_splits sum.splits)

lemma open_record_Inl:
  "open_record h target race w = (Inl e, w') \<Longrightarrow> \<exists>x. e = CannotResolve x \<or> e = Locked \<or> (\<exists>n. e = Disappeared n)"
  by (auto simp: open_record_def Let_def split: sum.splits if_splits option.splits)

lemma reconcile_Inl: "reconcile_stale_state h st w = (Inl e, w') \<Longrightarrow> \<exists>x. e = StateFailed x"
  by (auto simp: reconcile_stale_state_def map_err_def split: prod.splits sum.splits)

lemma interfere_root [simp]: "w_root (interfere evs w) = w_root w"
proof -
  have "w_root (apply_event e w) = w_root w" for e w
    by (cases e) (auto simp: persist_snd reaper_finish_def Let_def put_eq split: option.splits)
  then show ?thesis by (induction evs arbitrary: w) simp_all
qed

lemma interfere_dir_ok: "dir_ok (w_dir w) \<Longrightarrow> dir_ok (w_dir (interfere evs w))"
proof -
  have "dir_ok (w_dir (apply_event e w))" if "dir_ok (w_dir w)" for e w
    using that put_dir_ok [OF that]
    by (cases e) (auto simp: persist_snd reaper_finish_def Let_def dir_ok_remove split: option.splits)
  then show "dir_ok (w_dir w) \<Longrightarrow> dir_ok (w_dir (interfere evs w))" by (induction evs arbitrary: w) simp_all
qed

lemma switch_freezer_cases:
  assumes "switch_freezer h during path p st w = (r, w')"
  obtains (ok) st' where "r = Inr st'" "st' = st\<lparr>cs_paused := p\<rparr>" "w_frozen w' = (w_frozen w)(path := p)"
      "dir_ok (w_dir w) \<Longrightarrow> get w' (cs_id st) = Some (canonical_log (w_root w) st')"
  | (cgroup) e where "r = Inl (CgroupFailed e)"
  | (rollback) x e where "r = Inl (RollbackFailed x e)"
  | (undone) e where "r = Inl (StateFailed e)" "w_frozen w' = (w_frozen w)(path := \<not> p)"
proof -
  obtain r1 w1 where f: "set_freezer h path p w = (r1, w1)" by fastforce
  obtain r2 w2 where pt: "put h (st\<lparr>cs_paused := p\<rparr>) (interfere during w1) = (r2, w2)" by fastforce
  obtain r3 w3 where g: "set_freezer h path (\<not> p) w2 = (r3, w3)" by fastforce
  show ?thesis
  proof (cases r1)
    case (Inl e)
    with assms f that(2) show ?thesis by (auto simp: switch_freezer_def)
  next
    case Inr1: (Inr u)
    from f have w1: "w_dir w1 = w_dir w" "w_root w1 = w_root w" "w_frozen w1 = (w_frozen w)(path := p)"
      by (auto elim!: set_freezer_cases simp: Inr1)
    have w2: "w_frozen w2 = (w_frozen w)(path := p)" using put_simps [OF pt] w1 by simp
    show ?thesis
    proof (cases r2)
      case (Inr v)
      have "get w2 (cs_id st) = Some (canonical_log (w_root w) (st\<lparr>cs_paused := p\<rparr>))" if "dir_ok (w_dir w)"
        using get_put [OF interfere_dir_ok pt [unfolded Inr]] that w1 by simp
      with assms f Inr1 pt Inr w2 that(1) show ?thesis by (auto simp: switch_freezer_def)
    next
      case (Inl e)
      show ?thesis
      proof (cases r3)
        case Inl3: (Inl x)
        with assms f Inr1 pt Inl g that(3) show ?thesis by (auto simp: switch_freezer_def)
      next
        case Inr3: (Inr x)
        with g have "w_frozen w3 = (w_frozen w2)(path := \<not> p)" by (auto elim!: set_freezer_cases)
        with assms f Inr1 pt Inl g Inr3 w2 that(4) show ?thesis by (auto simp: switch_freezer_def)
      qed
    qed
  qed
qed

section \<open>run -d and start tell the truth\<close>

lemma signaled_status:
  "cli_status (fst (snd (run_detached h i hook r s k fs rm w))) = 0 \<longleftrightarrow> i = None \<and> fst (reaper_hook h hook k w) = Some (Inr ())"
  by (auto simp: run_detached_def cli_status_def Let_def starts_with_def split: option.splits prod.splits sum.splits)

lemma hook_started:
  assumes "reaper_hook h hook k w = (Some (Inr u), w')" and "dir_ok (w_dir w)"
  obtains info st0 where "hook = Some info" "get w k = Some st0"
    "get w' = (get w)(k \<mapsto> canonical_log (w_root w) (started_record h info st0))"
proof -
  from assms(1) obtain info where i: "hook = Some info" and p: "persist_started_state h k info w = (Inr u, w')"
    by (auto simp: reaper_hook_def split: option.splits prod.splits)
  from p obtain st0 v where g: "get w k = Some st0" and q: "put h (started_record h info st0) w = (Inr v, w')"
    by (auto simp: persist_started_state_def split: option.splits prod.splits sum.splits)
  show ?thesis using i g by (rule that) (use get_put [OF assms(2) q] get_id [OF g] in \<open>auto simp: fun_eq_iff started_record_def\<close>)
qed

lemma start_reaper_0:
  assumes "start_reaper rh rp fs rm k w = (0, w')" and "dir_ok (w_dir w)"
  obtains info st0 where "rp_hook rp = Some info" "get w k = Some st0"
    "get w' = (get w)(k \<mapsto> canonical_log (w_root w) (started_record (rp_host rp) info st0))"
proof -
  let ?run = "run_detached (rp_host rp) (rp_install rp) (rp_hook rp) (rp_run rp) (rp_show rp) k (map_option fs_dir fs) rm w"
  from assms(1) have s: "cli_status (fst (snd ?run)) = 0" and w': "w' = snd (reaper_hook (rp_host rp) (rp_hook rp) k w)"
    by (auto simp: start_reaper_def split: if_splits prod.splits)
  from s obtain u where "reaper_hook (rp_host rp) (rp_hook rp) k w = (Some (Inr u), w')"
    using w' by (auto simp: signaled_status prod_eq_iff)
  from this assms(2) show ?thesis by (rule hook_started) (rule that)
qed

text \<open>A start that is not reported leaves the record of the container created or exited.\<close>

lemma finish_not_running:
  assumes "dir_ok (w_dir w)" and "\<forall>st. get w k = Some st \<longrightarrow> cs_status st \<noteq> Running"
  shows "(\<forall>st. get (reaper_finish h k fs rm c m w) k = Some st \<longrightarrow> cs_status st \<noteq> Running) \<and>
    (\<forall>j. j \<noteq> k \<longrightarrow> get (reaper_finish h k fs rm c m w) j = get w j)"
proof -
  let ?w = "case get w k of None \<Rightarrow> w | Some st \<Rightarrow> snd (put h (finished_record h c m st) w)"
  have "(\<forall>st. get ?w k = Some st \<longrightarrow> cs_status st \<noteq> Running) \<and> (\<forall>j. j \<noteq> k \<longrightarrow> get ?w j = get w j)"
  proof (cases "get w k")
    case (Some st)
    obtain r w1 where p: "put h (finished_record h c m st) w = (r, w1)" by fastforce
    show ?thesis
    proof (cases r)
      case (Inl e)
      with p put_Inl [of h "finished_record h c m st" w e w1] Some assms(2) show ?thesis by auto
    next
      case (Inr u)
      with get_put [OF assms(1) p [unfolded Inr]] get_id [OF Some] Some p show ?thesis
        by (auto simp: finished_record_def)
    qed
  qed (use assms in simp)
  then show ?thesis by (auto simp: reaper_finish_def Let_def get_remove split: option.splits)
qed

lemma start_reaper_failed:
  assumes "start_reaper rh rp fs rm k w = (rc, w')" and "rc \<noteq> 0" and "dir_ok (w_dir w)"
    and "\<forall>st. get w k = Some st \<longrightarrow> cs_status st \<noteq> Running"
  shows "(\<forall>st. get w' k = Some st \<longrightarrow> cs_status st \<noteq> Running) \<and> (\<forall>j. j \<noteq> k \<longrightarrow> get w' j = get w j)"
proof (cases "rh_setsid rh")
  case True
  let ?run = "run_detached (rp_host rp) (rp_install rp) (rp_hook rp) (rp_run rp) (rp_show rp) k (map_option fs_dir fs) rm w"
  from assms(1,2) True have w': "w' = snd (snd ?run)" and s: "cli_status (fst (snd ?run)) \<noteq> 0"
    by (auto simp: start_reaper_def split: if_splits prod.splits)
  show ?thesis
  proof (cases "rp_install rp")
    case (Some e)
    with w' assms(4) show ?thesis by (simp add: run_detached_def)
  next
    case None
    obtain hk w1 where hk: "reaper_hook (rp_host rp) (rp_hook rp) k w = (hk, w1)" by fastforce
    with s None have "hk \<noteq> Some (Inr ())" by (simp add: signaled_status)
    with hk have "w1 = w"
      by (auto simp: reaper_hook_def persist_started_state_def split: option.splits prod.splits sum.splits dest: put_Inl)
    with None hk w' obtain c m where "w' = reaper_finish (rp_host rp) k (map_option fs_dir fs) rm c m w"
      by (auto simp: run_detached_def Let_def)
    with finish_not_running [OF assms(3,4)] show ?thesis by simp
  qed
qed (use assms in \<open>simp add: start_reaper_def\<close>)

lemma canonical_log_started [simp]:
  "canonical_log rr (started_record h info (canonical_log rr st)) = canonical_log rr (started_record h info st)"
  by (simp add: canonical_log_def started_record_def)

lemma run_detached_cli_0:
  assumes "run_detached_cli h rh rp spec fs im sr info resume w = (0, com, w')" and "dir_ok (w_dir w)"
    and "\<And>st. resume = Some st \<Longrightarrow> cs_id st = sp_id spec"
  obtains i where "com" "rp_hook rp = Some i"
    "get w' = (get w)(sp_id spec \<mapsto> canonical_log (w_root w) (started_record (rp_host rp) i
       (created_record rh spec info (w_root w) sr fs (case resume of None \<Rightarrow> fresh_record h rh spec info im | Some st \<Rightarrow> st))))"
proof -
  let ?st = "case resume of None \<Rightarrow> fresh_record h rh spec info im | Some st \<Rightarrow> st"
  let ?rec = "created_record rh spec info (w_root w) sr fs ?st"
  obtain r w1 where p: "put h ?rec w = (r, w1)" by fastforce
  with assms(1) obtain u where r: "r = Inr u" and s: "start_reaper rh rp fs (di_rm info) (sp_id spec) w1 = (0, w')" and com
    by (auto simp: run_detached_cli_def Let_def split: if_splits sum.splits prod.splits)
  have id: "cs_id ?rec = sp_id spec" using assms(3) by (auto simp: created_record_ok fresh_record_def split: option.splits)
  note g = get_put [OF assms(2) p [unfolded r]] and root = put_simps [OF p]
  have d: "dir_ok (w_dir w1)" using put_dir_ok [OF assms(2), of h ?rec] p by simp
  from s d obtain i st0 where i: "rp_hook rp = Some i" and st0: "get w1 (sp_id spec) = Some st0"
    and w': "get w' = (get w1)(sp_id spec \<mapsto> canonical_log (w_root w1) (started_record (rp_host rp) i st0))"
    by (rule start_reaper_0)
  have st0: "st0 = canonical_log (w_root w) ?rec" using st0 g id by simp
  have "get w' = (get w)(sp_id spec \<mapsto> canonical_log (w_root w) (started_record (rp_host rp) i ?rec))"
    unfolding w' st0 using g id root by (auto simp: fun_eq_iff)
  with \<open>com\<close> i show ?thesis by (rule that)
qed

lemma run_detached_cli_failed:
  assumes "run_detached_cli h rh rp spec fs im sr info None w = (rc, com, w')" and "rc \<noteq> 0" and "dir_ok (w_dir w)"
    and "get w (sp_id spec) = None"
  shows "(\<forall>st. get w' (sp_id spec) = Some st \<longrightarrow> cs_status st \<noteq> Running) \<and> (\<forall>j. j \<noteq> sp_id spec \<longrightarrow> get w' j = get w j)"
proof -
  let ?k = "sp_id spec"
  let ?rec = "created_record rh spec info (w_root w) sr fs (fresh_record h rh spec info im)"
  have id: "cs_id ?rec = ?k" by (simp add: created_record_ok fresh_record_def)
  have clean: "get (cleanup_failed_detached_start fs ?k v) = (get v)(?k := None)" for v
    by (simp add: cleanup_failed_detached_start_def get_remove [symmetric]) (simp add: get_def fun_eq_iff)
  obtain r w1 where p: "put h ?rec w = (r, w1)" by fastforce
  obtain rc2 w2 where s: "start_reaper rh rp fs (di_rm info) ?k w1 = (rc2, w2)" by fastforce
  have w1: "(\<forall>st. get w1 ?k = Some st \<longrightarrow> cs_status st \<noteq> Running) \<and> (\<forall>j. j \<noteq> ?k \<longrightarrow> get w1 j = get w j)"
    using get_put [OF assms(3), of h ?rec _ w1] put_Inl [of h ?rec w _ w1] p id assms(4)
    by (cases r) (auto simp: created_record_def)
  have d: "dir_ok (w_dir w1)" using put_dir_ok [OF assms(3), of h ?rec] p by simp
  have w2: "(\<forall>st. get w2 ?k = Some st \<longrightarrow> cs_status st \<noteq> Running) \<and> (\<forall>j. j \<noteq> ?k \<longrightarrow> get w2 j = get w j)" if "rc2 \<noteq> 0"
    using start_reaper_failed [OF s that d] w1 by simp
  show ?thesis
    using assms(1,2,4) p s w1 w2 clean
    by (auto simp: run_detached_cli_def Let_def split: if_splits sum.splits prod.splits)
qed

lemma check_run_code: "check_run rh data resuming args = Inl rc \<Longrightarrow> rc = 0 \<Longrightarrow> ''--help'' \<in> set args"
  by (auto simp: check_run_def Let_def split: if_splits sum.splits)

lemma plan_run_code: "plan_run rh a caps resume cid = Inl rc \<Longrightarrow> rc \<noteq> 0"
  by (auto simp: plan_run_def plan_resume_def plan_rootfs_def plan_image_def and_then_def map_err_def
    split: if_splits sum.splits option.splits prod.splits)

lemma open_layer_code: "open_layer rh data a resume cid rootfs = Inl rc \<Longrightarrow> rc \<noteq> 0"
  by (auto simp: open_layer_def split: if_splits option.splits)

lemma launch_cases:
  assumes "launch h rh rp a caps resume cid w = (rc, com, w')"
  obtains (refused) "rc \<noteq> 0" "w' = w"
  | (cli) pl fs im sr info where "plan_run rh a caps resume cid = Inr pl" "open_layer rh (w_data w) a resume cid (pl_rootfs pl) = Inr fs"
      "run_detached_cli h rh rp (run_spec a pl fs cid) fs im sr info resume (inject_resolv_conf rh (ra_net a) (ra_dns a) fs w) =
        (rc, com, w')"
      "di_name info = (case resume of Some st \<Rightarrow> cs_name st | None \<Rightarrow> ra_name a)" "di_labels info = pl_labels pl"
proof (cases "plan_run rh a caps resume cid")
  case (Inl c)
  with assms plan_run_code [OF Inl] that(1) show ?thesis by (simp add: launch_def)
next
  case (Inr pl)
  show ?thesis
  proof (cases "open_layer rh (w_data w) a resume cid (pl_rootfs pl)")
    case (Inl c)
    with assms Inr open_layer_code [OF Inl] that(1) show ?thesis by (simp add: launch_def)
  next
    case fs: (Inr fs)
    show ?thesis
      using assms unfolding launch_def Inr fs sum.case by (rule that(2) [OF Inr fs]) simp_all
  qed
qed

lemma env_entry_state: "state_entry e = Inr p \<Longrightarrow> env_entry p = e"
  by (auto simp: state_entry_def env_entry_def and_then_eq_Inr_iff dest!: split_once_SomeD split: option.splits)

lemma state_env_entries: "state_env es = Inr ps \<Longrightarrow> map env_entry ps = es"
  unfolding state_env_def
  by (induction es arbitrary: ps) (auto simp: and_then_eq_Inr_iff dest: env_entry_state)

lemma state_environment_entries:
  "state_environment st = Inr env \<Longrightarrow> (case env of None \<Rightarrow> [] | Some ps \<Rightarrow> map env_entry ps) = cs_env st"
  by (auto simp: state_environment_def and_then_eq_Inr_iff state_env_entries split: if_splits)

lemma plan_resume_keeps:
  assumes "plan_resume rh a caps st = Inr pl"
  shows "pl_argv pl = cs_cmd st \<and> pl_cwd pl = cs_cwd st \<and> pl_user pl = cs_user st \<and> pl_labels pl = cs_labels st \<and>
    (case pl_env pl of None \<Rightarrow> [] | Some ps \<Rightarrow> map env_entry ps) = cs_env st"
proof -
  obtain env where env: "state_environment st = Inr env" "pl_env pl = env" "pl_argv pl = cs_cmd st" "pl_cwd pl = cs_cwd st"
      "pl_user pl = cs_user st" "pl_labels pl = cs_labels st"
    using assms by (auto simp: plan_resume_def and_then_eq_Inr_iff map_err_def split: if_splits option.splits sum.splits)
  with state_environment_entries [OF env(1)] show ?thesis by simp
qed

lemma reconcile_state_id: "reconcile_stale_state h st w = (Inr st', w') \<Longrightarrow> cs_id st' = cs_id st"
  by (auto simp: reconcile_stale_state_def reconcile_stale_and_save_def reconcile_stale_def exited_record_def map_err_def
    and_then_eq_Inr_iff split: prod.splits if_splits sum.splits)

end
