(* ===== verification/Lifecycle_Samples.thy ===== *)
theory Lifecycle_Samples
  imports Lifecycle_Facts
begin

text \<open>
  A concrete host with one container: started by \<open>run -d --rootfs /r\<close>, then ended. The worlds are reachable; the properties of the
  lifecycle are evaluated on them.
\<close>

definition sample_host :: host where
  "sample_host = \<lparr>h_now = ''t1'', h_nft = True, h_nl = True, h_link = (\<lambda>_. None), h_cgroot = Inr ''/cg'', h_exists = (\<lambda>_. True),
     h_file = (\<lambda>_ _. None), h_rmdir = (\<lambda>_. Removed), h_save = True, h_ipam = \<lparr>lock_ok = True, write_ok = True\<rparr>, h_lock = True,
     h_name_lock = True, h_freeze = (\<lambda>_ f. (True, [(Some (if f then ''frozen 1'' else ''frozen 0''), True)])),
     h_pidfd = (\<lambda>_. True), h_kill = (\<lambda>_ _. True)\<rparr>"

definition sample_run_host :: run_host where
  "sample_run_host = \<lparr>rh_ctx = sample_ctx, rh_euid = 0, rh_last_cap = 40, rh_environ = (\<lambda>_. None), rh_lowercase = id, rh_store = True,
     rh_dirs = True, rh_mkdir = (\<lambda>_. True), rh_write = (\<lambda>_. False), rh_resolv = None, rh_is_dir = (\<lambda>_. True), rh_canon = Some, rh_cwd = Some ''/'', rh_img_lock = True,
     rh_img_open = True, rh_img_lease = True, rh_img_root = Some ''/i'', rh_image = (\<lambda>_ _ _. None), rh_ids = [''ab''],
     rh_reserve = True, rh_log = True, rh_pipe = True, rh_fork = True, rh_setsid = True\<rparr>"

definition sample_info :: StartedInfo where
  "sample_info = \<lparr>si_pid = 7, si_pid_start_time = Some 3, si_ip = None, si_table = None, si_veth = None, si_cgroup = Some ''/cg/zerun/ab''\<rparr>"

definition sample_reaper :: reaper where
  "sample_reaper = \<lparr>rp_host = sample_host, rp_install = None, rp_hook = Some sample_info, rp_run = Inr (0, None), rp_show = (\<lambda>_. [])\<rparr>"

definition sample_world :: world where
  "sample_world = \<lparr>w_root = ''/run'', w_data = ''/data'', w_dir = [], w_ipam = NoFile, w_procs = (\<lambda>p. if p = 7 then Some (Some 3) else None),
     w_frozen = (\<lambda>_. False), w_acts = []\<rparr>"

definition sample_args :: RunArgs where
  "sample_args = ra_rootfs_update (\<lambda>_. Some ''/r'') (ra_detach_update (\<lambda>_. True) RunArgs_default)"

lemma sample_parse: "parse_run_args sample_ctx [''-d'', ''--rootfs'', ''/r''] = Inr sample_args"
  by (simp add: parse_run_args_def sample_args_def value_options_def set_flag_def set_option_def)

lemma sample_caps: "resolve_caps 40 [] [] = Inr default_set"
  by (simp add: resolve_caps_def parse_requests_many_def)

lemma sample_check: "check_run sample_run_host d resuming [''-d'', ''--rootfs'', ''/r''] = Inr (ra_net_update (\<lambda>_. NetBridge) sample_args, default_set)"
  by (simp add: check_run_def sample_run_host_def sample_parse sample_args_def RunArgs_default_def refused_def default_net_def sample_caps)

definition sample_plan :: run_plan where
  "sample_plan = \<lparr>pl_rootfs = ''/r'', pl_env = None, pl_cwd = None, pl_user = None, pl_argv = [''/bin/sh''], pl_labels = [],
     pl_caps = default_set, pl_seccomp = Default\<rparr>"

lemma sample_plan: "plan_run sample_run_host (ra_net_update (\<lambda>_. NetBridge) sample_args) default_set None k = Inr sample_plan"
  by (simp add: plan_run_def plan_rootfs_def sample_plan_def sample_args_def RunArgs_default_def sample_run_host_def)

definition one :: "state_file \<Rightarrow> world" where
  "one x = sample_world\<lparr>w_dir := [(''ab'', Directory, x)]\<rparr>"

lemma one_simps [simp]: "w_root (one x) = ''/run''" "w_data (one x) = ''/data''" "w_dir (one x) = [(''ab'', Directory, x)]"
  "w_procs (one x) = (\<lambda>p. if p = 7 then Some (Some 3) else None)" "w_ipam (one x) = NoFile" "w_frozen (one x) = (\<lambda>_. False)"
  "w_acts (one x) = []" "(one x)\<lparr>w_acts := []\<rparr> = one x" "(one x)\<lparr>w_ipam := NoFile\<rparr> = one x" "w_dir_update f (one x) = sample_world\<lparr>w_dir := f [(''ab'', Directory, x)]\<rparr>"
  by (simp_all add: one_def sample_world_def)

lemma put_one: "h_save h \<Longrightarrow> cs_id st = ''ab'' \<Longrightarrow> put h st (one x) = (Inr (), one (Saved (canonical_log ''/run'' st)))"
  by (simp add: put_eq save_ok_eq valid_id_ab entry_kind_of_def one_def sample_world_def)

lemma get_one [simp]: "get (one x) ''ab'' = (case x of Saved st \<Rightarrow> if cs_id st = ''ab'' then Some (canonical_log ''/run'' st) else None | _ \<Rightarrow> None)"
  by (simp add: get_def load_def valid_id_ab canonical_log_def split: state_file.split)

lemma resolve_one:
  "cs_id st = ''ab'' \<Longrightarrow> canonical_log ''/run'' st = st \<Longrightarrow> resolve (w_root (one (Saved st))) (w_dir (one (Saved st))) ''ab'' = Inr st"
  using get_one [of "Saved st"] by (simp add: resolve_def get_def)

lemma sample_host_simps [simp]: "h_save sample_host" "h_lock sample_host" "h_name_lock sample_host" "h_kill sample_host pid sig"
  "h_pidfd sample_host pid" "h_cgroot sample_host = Inr ''/cg''" "h_exists sample_host p" "h_rmdir sample_host p = Removed"
  by (simp_all add: sample_host_def)

lemma sample_run_host_simps [simp]: "rh_ctx sample_run_host = sample_ctx" "rh_mkdir sample_run_host p" "rh_log sample_run_host" "rh_pipe sample_run_host"
  "rh_fork sample_run_host" "rh_setsid sample_run_host" "rh_ids sample_run_host = [''ab'']" "rh_reserve sample_run_host"
  "rh_cwd sample_run_host = Some ''/''" "rh_is_dir sample_run_host p" "rh_canon sample_run_host = Some"
  by (simp_all add: sample_run_host_def)

text \<open>The record of a sample container that runs as \<open>spec\<close> says.\<close>

abbreviation sample_record :: "RunSpec \<Rightarrow> DetachedInfo \<Rightarrow> string \<Rightarrow> ContainerFs option \<Rightarrow> ContainerState \<Rightarrow> ContainerState" where
  "sample_record spec info sr fs st \<equiv> canonical_log ''/run'' (started_record sample_host sample_info (created_record sample_run_host spec info ''/run'' sr fs st))"

lemma sample_cli:
  assumes "sp_id spec = ''ab''" and "di_name info = None" and "\<And>st. resume = Some st \<Longrightarrow> cs_id st = ''ab''"
    and "h_save h"
  shows "run_detached_cli h sample_run_host sample_reaper spec fs im sr info resume (one x) =
    (0, True, one (Saved (sample_record spec info sr fs (case resume of None \<Rightarrow> fresh_record h sample_run_host spec info im | Some st \<Rightarrow> st))))"
proof -
  let ?st = "case resume of None \<Rightarrow> fresh_record h sample_run_host spec info im | Some st \<Rightarrow> st"
  let ?rec = "created_record sample_run_host spec info ''/run'' sr fs ?st"
  have id: "cs_id ?rec = ''ab''" using assms by (auto simp: created_record_ok fresh_record_def split: option.splits)
  have p: "put h ?rec (one x) = (Inr (), one (Saved (canonical_log ''/run'' ?rec)))" by (rule put_one [OF assms(4) id])
  have "persist_started_state sample_host ''ab'' sample_info (one (Saved (canonical_log ''/run'' ?rec))) =
      (Inr (), one (Saved (canonical_log ''/run'' (started_record sample_host sample_info ?rec))))"
    using id put_one [of sample_host "started_record sample_host sample_info (canonical_log ''/run'' (canonical_log ''/run'' ?rec))"]
    by (simp add: persist_started_state_def started_record_def canonical_log_def)
  then have "start_reaper sample_run_host sample_reaper fs rm ''ab'' (one (Saved (canonical_log ''/run'' ?rec))) =
      (0, one (Saved (canonical_log ''/run'' (started_record sample_host sample_info ?rec))))" for rm
    using signaled_status [of sample_host None "Some sample_info" "Inr (0, None)" "\<lambda>_. []" "''ab''" "map_option fs_dir fs" rm "one (Saved (canonical_log ''/run'' ?rec))"]
    by (simp add: start_reaper_def sample_reaper_def reaper_hook_def case_prod_beta)
  with p assms(1,2) show ?thesis by (simp add: run_detached_cli_def Let_def)
qed

definition sample_fs :: ContainerFs where
  "sample_fs = layer_paths ''/data/overlays/ab'' ''/r'' ''ab'' False"

definition sample_spec :: RunSpec where
  "sample_spec = run_spec (ra_net_update (\<lambda>_. NetBridge) sample_args) sample_plan (Some sample_fs) ''ab''"

definition sample_dinfo :: DetachedInfo where
  "sample_dinfo = \<lparr>di_launch_args = [''-d'', ''--net'', ''bridge'', ''--rootfs'', ''/r''], di_name = None, di_rm = False, di_labels = [],
     di_log_max_size = 10 * 1024 * 1024, di_log_max_files = 3, di_lower = ''/r''\<rparr>"

definition sample_st :: ContainerState where
  "sample_st = sample_record sample_spec sample_dinfo (fs_merged sample_fs) (Some sample_fs)
     (fresh_record sample_host sample_run_host sample_spec sample_dinfo ''rootfs:/r'')"

lemma sample_st_simps [simp]: "cs_id sample_st = ''ab''" "cs_status sample_st = Running" "cs_pid sample_st = Some 7"
  "cs_pid_start_time sample_st = Some 3" "cs_cgroup sample_st = Some ''/cg/zerun/ab''" "cs_name sample_st = None" "cs_paused sample_st = False"
  "cs_launch_args sample_st = Some [''-d'', ''--net'', ''bridge'', ''--rootfs'', ''/r'']" "canonical_log ''/run'' sample_st = sample_st"
  "cs_net sample_st = ''bridge''" "cs_veth sample_st = None" "cs_exit_code sample_st = None"
  by (simp_all add: sample_st_def started_record_def sample_info_def created_record_def fresh_record_def sample_spec_def run_spec_def
    sample_dinfo_def canonical_log_def sample_args_def RunArgs_default_def)

lemma sample_launch_args:
  "detached_launch_args sample_ctx (ra_net_update (\<lambda>_. NetBridge) sample_args) ''/r'' = [''-d'', ''--net'', ''bridge'', ''--rootfs'', ''/r'']"
  by (simp add: detached_launch_args_def opt_args_def flag_args_def list_args_def io_args_def sample_args_def RunArgs_default_def)

lemma sample_layer: "open_layer sample_run_host ''/data'' (ra_net_update (\<lambda>_. NetBridge) sample_args) None ''ab'' ''/r'' = Inr (Some sample_fs)"
  by (simp add: open_layer_def prepare_container_fs_def container_overlay_dir_def valid_id_ab absolute_def starts_with_def sample_fs_def
    sample_args_def RunArgs_default_def)

lemma sample_inject [simp]: "inject_resolv_conf sample_run_host net dns fs w = w"
  by (auto simp: inject_resolv_conf_def sample_run_host_def Let_def split: option.splits)

lemma sample_launch:
  "launch sample_host sample_run_host sample_reaper (ra_net_update (\<lambda>_. NetBridge) sample_args) default_set None ''ab'' (one NoState) =
    (0, True, one (Saved sample_st))"
proof -
  have "sp_id sample_spec = ''ab''" by (simp add: sample_spec_def run_spec_def)
  then have "run_detached_cli sample_host sample_run_host sample_reaper sample_spec (Some sample_fs) ''rootfs:/r'' (fs_merged sample_fs)
      sample_dinfo None (one NoState) = (0, True, one (Saved sample_st))"
    by (subst sample_cli) (simp_all add: sample_dinfo_def sample_st_def)
  moreover have "pl_rootfs sample_plan = ''/r''" by (simp add: sample_plan_def)
  moreover have "\<lparr>di_launch_args = launch_args_for sample_run_host (ra_net_update (\<lambda>_. NetBridge) sample_args) ''/r'' None,
       di_name = ra_name (ra_net_update (\<lambda>_. NetBridge) sample_args), di_rm = ra_rm (ra_net_update (\<lambda>_. NetBridge) sample_args),
       di_labels = pl_labels sample_plan, di_log_max_size = ra_log_max_size (ra_net_update (\<lambda>_. NetBridge) sample_args),
       di_log_max_files = ra_log_max_files (ra_net_update (\<lambda>_. NetBridge) sample_args), di_lower = fs_lower sample_fs\<rparr> = sample_dinfo"
    by (simp add: launch_args_for_def sample_launch_args) (simp add: sample_dinfo_def sample_args_def RunArgs_default_def sample_fs_def
      layer_paths_def sample_plan_def)
  moreover have "ra_image (ra_net_update (\<lambda>_. NetBridge) sample_args) = None" by (simp add: sample_args_def RunArgs_default_def)
  ultimately show ?thesis
    by (simp add: launch_def sample_plan sample_layer canonical_or_self_def sample_spec_def [symmetric] del: One_nat_def)
qed

lemma sample_run: "cmd_run_detached sample_host sample_run_host sample_reaper [''-d'', ''--rootfs'', ''/r''] sample_world =
    Some (Inr (0, one (Saved sample_st)))"
proof -
  have "ra_detach (ra_net_update (\<lambda>_. NetBridge) sample_args)" by (simp add: sample_args_def)
  moreover have "w_dir sample_world = []" by (simp add: sample_world_def)
  ultimately show ?thesis using sample_launch by (simp add: cmd_run_detached_def sample_check one_def)
qed

lemma sample_reachable: "reachable sample_world" "reachable (one (Saved sample_st))"
proof -
  show r: "reachable sample_world" by (rule reachable_init) (simp add: sample_world_def)
  show "reachable (one (Saved sample_st))" using r step_run [OF sample_run] by (rule reachable_step)
qed

lemma sample_open: "open_record sample_host ''ab'' [] (one (Saved sample_st)) = (Inr sample_st, one (Saved sample_st))"
  using resolve_one [of sample_st] by (simp add: open_record_def)

lemma sample_alive: "alive (one (Saved sample_st)) sample_st"
  by (simp add: alive_def pid_alive_def)

lemma sample_cgroup: "open_cgroup sample_host sample_st = Inr ''/cg/zerun/ab''"
proof -
  have "validate_container_id ''ab'' = Inr ()" by code_simp
  then show ?thesis
    by (simp add: open_cgroup_def open_for_container_def container_path_def leaf_path_def parent_path_def path_eq_def)
qed

lemma sample_reconcile: "reconcile_stale_state sample_host sample_st (one (Saved sample_st)) = (Inr sample_st, one (Saved sample_st))"
  using sample_alive by (simp add: reconcile_stale_state_def reconcile_stale_and_save_def reconcile_stale_def)

lemma reaper_finish_removes: "get (reaper_finish h k fs True c m w) k = None"
  by (simp add: reaper_finish_def Let_def get_remove)

text \<open>A stop whose container obeys: it ends in the grace period, and its reaper removes the record.\<close>

lemma sample_stop:
  "\<exists>w'. stop_one sample_host ''ab'' [] [] [[ProcessEnds 7]] [] [[ReaperFinished sample_host ''ab'' None True 143 None]]
     (one (Saved sample_st)) = (Inr ''ab'', w')"
proof -
  let ?w = "one (Saved sample_st)"
  let ?v = "act [SendSignal 7 (Some (Some 3)) SIGTERM] ?w"
  have "thaw_paused_container sample_host [] sample_st ?w = (Inr sample_st, ?w)" by (simp add: thaw_paused_container_def)
  moreover have "signal_container sample_host sample_st SIGTERM ?w = (Inr (), ?v)" by (simp add: signal_container_def)
  moreover have "wait_pid_gone sample_st [[ProcessEnds 7]] ?v = (True, ?v\<lparr>w_procs := (w_procs ?w)(7 := None)\<rparr>)"
    by (simp add: alive_def pid_alive_def)
  ultimately show ?thesis
    using sample_open sample_alive reaper_finish_removes by (simp add: stop_one_def display_name_def Let_def del: wait_pid_gone.simps)
qed

definition sample_ended :: ContainerState where
  "sample_ended = canonical_log ''/run'' (finished_record sample_host 0 None sample_st)"

lemma canonical_log_idem [simp]: "canonical_log rr (canonical_log rr st) = canonical_log rr st"
  by (simp add: canonical_log_def)

lemma finished_record_simps [simp]:
  "cs_id (finished_record h c m st) = cs_id st" "cs_status (finished_record h c m st) = Exited"
  "cs_launch_args (canonical_log rr (finished_record h c m st)) = cs_launch_args st"
  "cs_name (canonical_log rr (finished_record h c m st)) = cs_name st"
  by (simp_all add: finished_record_def canonical_log_def)

lemma sample_ended_simps [simp]: "cs_id sample_ended = ''ab''" "cs_status sample_ended = Exited" "canonical_log ''/run'' sample_ended = sample_ended"
  "cs_launch_args sample_ended = Some [''-d'', ''--net'', ''bridge'', ''--rootfs'', ''/r'']" "cs_name sample_ended = None"
  by (simp_all add: sample_ended_def)

lemma sample_ended_reachable: "reachable (one (Saved sample_ended))"
proof -
  have "apply_event (ReaperFinished sample_host ''ab'' None False 0 None) (one (Saved sample_st)) = one (Saved sample_ended)"
    using put_one [of sample_host "finished_record sample_host 0 None sample_st" "Saved sample_st"]
    by (simp add: reaper_finish_def sample_ended_def)
  then show ?thesis using reachable_step [OF sample_reachable(2) step_event] by metis
qed

lemma sample_ended_open: "h_lock h \<Longrightarrow> open_record h ''ab'' [] (one (Saved sample_ended)) = (Inr sample_ended, one (Saved sample_ended))"
  using resolve_one [of sample_ended] by (simp add: open_record_def)

lemma sample_freeze: "set_freezer sample_host path f w = (Inr (), w\<lparr>w_frozen := (w_frozen w)(path := f)\<rparr>)"
proof -
  have "freeze True True [(Some ''frozen 1'', True)] = Some (Inr ())" "freeze True False [(Some ''frozen 0'', True)] = Some (Inr ())"
    by code_simp+
  then show ?thesis by (simp add: set_freezer_def sample_host_def)
qed

lemma sample_caps_back: "from_names 40 (cap_names default_set) = Inr default_set"
  by (rule cap_names_roundtrip) code_simp+

definition restart_args :: RunArgs where
  "restart_args = ra_rootfs_update (\<lambda>_. Some ''/r'') (ra_net_update (\<lambda>_. NetBridge) (ra_net_specified_update (\<lambda>_. True)
     (ra_detach_update (\<lambda>_. True) RunArgs_default)))"

lemma restart_check: "check_run sample_run_host d True [''-d'', ''--net'', ''bridge'', ''--rootfs'', ''/r''] = Inr (restart_args, default_set)"
proof -
  have "parse_run_args sample_ctx [''-d'', ''--net'', ''bridge'', ''--rootfs'', ''/r''] = Inr restart_args"
    using set_option_net [of sample_ctx NetBridge]
    by (simp add: parse_run_args_def restart_args_def value_options_def set_flag_def set_option_eval)
  then show ?thesis
    by (simp add: check_run_def sample_run_host_def restart_args_def RunArgs_default_def refused_def sample_caps)
qed

lemma sample_ended_more [simp]: "cs_tmpfs_upper sample_ended = False" "cs_lower sample_ended = Some ''/r''" "cs_image sample_ended = ''rootfs:/r''"
  "cs_env sample_ended = []" "cs_capabilities sample_ended = Some (cap_names default_set)" "cs_overlay sample_ended = Some ''/data/overlays/ab''"
  "cs_veth sample_ended = None"
  by (simp_all add: sample_ended_def finished_record_def canonical_log_def sample_st_def started_record_def created_record_def fresh_record_def
    sample_spec_def run_spec_def sample_dinfo_def sample_fs_def layer_paths_def sample_plan_def sample_info_def)

lemma restart_plan: "\<exists>pl. plan_run sample_run_host restart_args default_set (Some (sample_ended\<lparr>cs_paused := False\<rparr>)) ''ab'' = Inr pl \<and> pl_rootfs pl = ''/r''"
  by (simp add: plan_run_def plan_resume_def resumable_lower_rootfs_def starts_with_def strip_prefix_def state_environment_def
    sample_caps_back sample_run_host_def [THEN arg_cong, of rh_last_cap])

definition plain_host :: host where
  "plain_host = sample_host\<lparr>h_cgroot := Inl CgNoHierarchy\<rparr>"

end
