(* ===== verification/Lifecycle_Props.thy ===== *)
theory Lifecycle_Props
  imports Lifecycle_Samples
begin

text \<open>The properties of the container lifecycle, each with a concrete run.\<close>

text \<open>C4: Whatever commands ran on the host and however the reapers interleaved with them, every record is well formed: a paused
  container is running, a running one has a process, an exited one has an exit code, the record is stored under its own
  identifier, and no two containers have the same name.\<close>

theorem lifecycle_invariant:
  assumes "reachable w" and "get w k = Some st"
  shows "cs_id st = k \<and> (cs_paused st \<longrightarrow> cs_status st = Running) \<and> (cs_status st = Running \<longrightarrow> cs_pid st \<noteq> None) \<and>
    (cs_status st = Exited \<longrightarrow> cs_exit_code st \<noteq> None) \<and>
    (\<forall>j t. get w j = Some t \<longrightarrow> cs_name st \<noteq> None \<longrightarrow> cs_name t = cs_name st \<longrightarrow> j = k)"
  using reachable_ok [OF assms(1)] assms(2) get_id [OF assms(2)]
  unfolding world_ok_def names_unique_def rec_ok_def by (metis not_None_eq)

theorem lifecycle_invariant_witness:
  "reachable (one (Saved sample_st)) \<and> (\<exists>st. get (one (Saved sample_st)) ''ab'' = Some st \<and> cs_status st = Running \<and> cs_pid st \<noteq> None)"
  using lifecycle_invariant [OF sample_reachable(2), of "''ab''" sample_st] sample_reachable(2) by simp

text \<open>C7: Stop, kill, rm, pause, unpause and wait change the record of the container they are given and no other, as long as the
  reaper that reports meanwhile is that container's.\<close>

theorem commands_touch_own_record:
  assumes "dir_ok (w_dir w)" and "resolve (w_root w) (w_dir w) target = Inr st"
    and "list_all (about (cs_id st)) (race @ during @ concat grace @ concat polls @ concat settle)" and "k \<noteq> cs_id st"
  shows "get (snd (stop_one h target race during grace polls settle w)) k = get w k \<and>
    get (snd (kill_one h target sig race during polls settle w)) k = get w k \<and>
    get (snd (rm_one h target force race during polls settle w)) k = get w k \<and>
    get (snd (set_container_paused h target paused race during w)) k = get w k \<and>
    get (snd (wait_one h target polls w)) k = get w k"
proof -
  have o: "others_kept w (cs_id st) w" using assms(1) by (simp add: others_kept_def)
  have ev: "list_all (about (cs_id st)) race" "list_all (about (cs_id st)) during" "list_all (list_all (about (cs_id st))) grace"
    "list_all (list_all (about (cs_id st))) polls" "list_all (list_all (about (cs_id st))) settle"
    using assms(3) by (auto simp: list_all_iff)
  have id: "resolve (w_root w) (w_dir w) target = Inr s \<Longrightarrow> cs_id s = cs_id st" for s using assms(2) by simp
  have keep: "keeps (others_kept w (cs_id st)) P m \<Longrightarrow> get (snd m) k = get w k" for P m
    using assms(4) by (simp add: keeps_def others_kept_def)
  show ?thesis
    using keep [OF others.stop_keeps [OF o ev(1) id ev(2-5)]] keep [OF others.kill_keeps [OF o ev(1) id ev(2,4,5)]]
      keep [OF others.rm_keeps [OF o ev(1) id ev(2,4,5)]] keep [OF others.pause_keeps [OF o ev(1) id ev(2)]]
      others.wait_one_I [OF o id ev(4)] assms(4)
    by (simp add: others_kept_def)
qed

theorem commands_touch_own_record_witness:
  "let w = sample_world\<lparr>w_dir := [(''ab'', Directory, Saved sample_st), (''cd'', Directory, Saved (blank_record ''cd'' ''t''))]\<rparr> in
   get w ''cd'' \<noteq> None \<and> get (snd (stop_one sample_host ''ab'' [] [] [] [] [] w)) ''cd'' = get w ''cd''"
proof -
  let ?w = "sample_world\<lparr>w_dir := [(''ab'', Directory, Saved sample_st), (''cd'', Directory, Saved (blank_record ''cd'' ''t''))]\<rparr>"
  have "get ?w ''ab'' = Some sample_st" using sample_st_simps(9) by (simp add: get_def load_def valid_id_ab canonical_log_def sample_world_def)
  then have r: "resolve (w_root ?w) (w_dir ?w) ''ab'' = Inr sample_st" by (simp add: resolve_def get_def)
  have d: "dir_ok (w_dir ?w)" by (simp add: dir_ok_def)
  have "valid_id ''cd''" by code_simp
  then have n: "get ?w ''cd'' \<noteq> None" by (simp add: get_def load_def)
  show ?thesis using commands_touch_own_record [OF d r, of "[]" "[]" "[]" "[]" "[]" "''cd''" sample_host] n by simp
qed

text \<open>C5: Stop, kill and rm signal only a process that was recorded for the container (\<open>R\<close>), and one recorded with its start time
  only while the process with that number still has that start time: a reused process number is never signalled.\<close>

theorem signals_recorded_process:
  assumes "dir_ok (w_dir w)" and "resolve (w_root w) (w_dir w) target = Inr st" and "recorded R st"
    and "list_all (reports (cs_id st) R) (race @ during @ concat grace @ concat polls @ concat settle)"
  shows "(\<exists>as. w_acts (snd (stop_one h target race during grace polls settle w)) = w_acts w @ as \<and> list_all (aimed R) as) \<and>
    (\<exists>as. w_acts (snd (kill_one h target sig race during polls settle w)) = w_acts w @ as \<and> list_all (aimed R) as) \<and>
    (\<exists>as. w_acts (snd (rm_one h target force race during polls settle w)) = w_acts w @ as \<and> list_all (aimed R) as)"
proof -
  let ?c = "cs_id st"
  have o: "signals_aimed w ?c R w"
    using assms(1,3) resolve_Inr [OF assms(2)] by (auto simp: signals_aimed_def get_def)
  have ev: "list_all (reports ?c R) race" "list_all (reports ?c R) during" "list_all (list_all (reports ?c R)) grace"
    "list_all (list_all (reports ?c R)) polls" "list_all (list_all (reports ?c R)) settle"
    using assms(4) by (auto simp: list_all_iff)
  have id: "resolve (w_root w) (w_dir w) target = Inr s \<Longrightarrow> cs_id s = ?c" for s using assms(2) by simp
  have keep: "keeps (signals_aimed w ?c R) P m \<Longrightarrow> \<exists>as. w_acts (snd m) = w_acts w @ as \<and> list_all (aimed R) as" for P m
    by (simp add: keeps_def signals_aimed_def)
  show ?thesis
    using keep [OF aim.stop_keeps [OF o ev(1) id ev(2-5)]] keep [OF aim.kill_keeps [OF o ev(1) id ev(2,4,5)]]
      keep [OF aim.rm_keeps [OF o ev(1) id ev(2,4,5)]]
    by simp
qed

theorem signals_recorded_process_witness:
  "let as = w_acts (snd (kill_one sample_host ''ab'' SIGKILL [] [] [] [] (one (Saved sample_st)))) in
   SendSignal 7 (Some (Some 3)) SIGKILL \<in> set as \<and> list_all (aimed {(7, Some 3)}) as"
proof -
  let ?w = "one (Saved sample_st)"
  have "signal_container sample_host sample_st SIGKILL ?w = (Inr (), act [SendSignal 7 (Some (Some 3)) SIGKILL] ?w)"
    by (simp add: signal_container_def)
  moreover have "alive (act [SendSignal 7 (Some (Some 3)) SIGKILL] ?w) sample_st" by (simp add: alive_def pid_alive_def)
  ultimately have "SendSignal 7 (Some (Some 3)) SIGKILL \<in> set (w_acts (snd (kill_one sample_host ''ab'' SIGKILL [] [] [] [] ?w)))"
    using sample_open sample_alive by (simp add: kill_one_def)
  then show ?thesis
    using signals_recorded_process [of ?w "''ab''" sample_st "{(7, Some 3)}" "[]" "[]" "[]" "[]" "[]" sample_host SIGKILL]
      resolve_one [of sample_st]
    by (simp add: dir_ok_def recorded_def)
qed

text \<open>C8: Reconciling a record whose process is gone ends it (exited, not paused, an exit code) under the same identity, changes no
  other record and no other lease, and removes only the container's own table, link and cgroup (with the cgroup parent, which the
  kernel keeps unless it is empty). Doing it again does nothing.\<close>

theorem reconcile_own_resources:
  assumes "dir_ok (w_dir w)" and "ipam_ok (w_ipam w)" and "reconcile_stale_and_save h st w = (Inr True, st', w')"
  shows "cs_status st = Running \<and> \<not> alive w st \<and>
    get w' = (get w)(cs_id st \<mapsto> canonical_log (w_root w) st') \<and>
    cs_status st' = Exited \<and> \<not> cs_paused st' \<and> cs_exit_code st' \<noteq> None \<and> ident st' = ident st \<and>
    (\<forall>j. j \<noteq> cs_id st \<longrightarrow> lease_map (w_ipam w') j = lease_map (w_ipam w) j) \<and>
    (\<exists>as. w_acts w' = w_acts w @ as \<and> list_all (own_act h st) as) \<and>
    w_procs w' = w_procs w \<and> w_frozen w' = w_frozen w \<and>
    reconcile_stale h2 st' w2 = (False, st', w2)"
proof -
  obtain b m as u where run: "cs_status st = Running" "\<not> alive w st" and rc: "reconcile_cgroup h st = (b, m, as)"
    and st': "st' = exited_record h b m st"
    and p: "put h st' (release_lease h st (act (teardown_acts h st @ as) w)) = (Inr u, w')"
    using assms(3) by (rule reconcile_True)
  have g: "get w' = (get w)(cs_id st \<mapsto> canonical_log (w_root w) st')"
    using get_put [OF _ p] assms(1) by (auto simp: fun_eq_iff st' exited_record_def)
  have "w_ipam w' = (if cs_net st = ''bridge'' then release_ip (h_ipam h) (cs_id st) (w_ipam w) else w_ipam w)"
    using put_simps [OF p] by (simp add: release_lease_def)
  then have l: "\<forall>j. j \<noteq> cs_id st \<longrightarrow> lease_map (w_ipam w') j = lease_map (w_ipam w) j"
    using release_ip_disk [OF assms(2), of "h_ipam h" "cs_id st"] by simp
  have "w_acts w' = w_acts w @ teardown_acts h st @ as" using put_simps [OF p] by simp
  moreover have "list_all (own_act h st) (teardown_acts h st @ as)"
    using teardown_own reconcile_cgroup_own [OF rc] by simp
  ultimately have a: "\<exists>as. w_acts w' = w_acts w @ as \<and> list_all (own_act h st) as" by blast
  show ?thesis
    using run g l a put_simps [OF p]
    by (simp add: st' exited_record_def ident_def reconcile_stale_def split: option.splits)
qed

theorem reconcile_own_resources_witness:
  "\<exists>st' w'. reconcile_stale_and_save sample_host sample_st (one (Saved sample_st)\<lparr>w_procs := Map.empty\<rparr>) = (Inr True, st', w') \<and>
     get w' ''ab'' = Some (canonical_log ''/run'' st') \<and> cs_status st' = Exited"
proof -
  let ?w = "(one (Saved sample_st))\<lparr>w_procs := Map.empty\<rparr>"
  have dead: "\<not> alive ?w sample_st" by (simp add: alive_def pid_alive_def)
  obtain b m as where rc: "reconcile_cgroup sample_host sample_st = (b, m, as)" by (metis prod_cases3)
  let ?st = "exited_record sample_host b m sample_st" and ?v = "release_lease sample_host sample_st (act (teardown_acts sample_host sample_st @ as) ?w)"
  have id: "cs_id ?st = ''ab''" by (simp add: exited_record_def)
  obtain w' where p: "put sample_host ?st ?v = (Inr (), w')" by (simp add: put_eq id valid_id_ab)
  then have r: "reconcile_stale_and_save sample_host sample_st ?w = (Inr True, ?st, w')"
    using dead rc by (simp add: reconcile_stale_and_save_def reconcile_stale_def)
  from reconcile_own_resources [OF _ _ r] show ?thesis
    using r by (auto simp: dir_ok_def ipam_ok_NoFile)
qed

text \<open>C12: A stop that succeeds does not leave a stale record: if the record still says running, its process is alive (it survived
  the final kill).\<close>

theorem stop_settles:
  assumes "reachable w" and "stop_one h target race during grace polls settle w = (Inr name, w')"
  shows "\<exists>st. resolve (w_root w) (w_dir w) target = Inr st \<and> settled w' (cs_id st)"
proof -
  obtain st w1 where o: "open_record h target race w = (Inr st, w1)"
    and b: "(if cs_status st \<noteq> Running then (Inr (display_name st), w1)
       else if \<not> alive w1 st then andw (reconcile_stale_state h st w1) (\<lambda>_ w. (Inr (display_name st), w))
       else andw (thaw_paused_container h during st w1) (\<lambda>st w.
         andw (signal_container h st SIGTERM w) (\<lambda>_ w.
           (case wait_pid_gone st grace w of (gone, w) \<Rightarrow>
              andw (if gone then (Inr (), w) else kill_and_wait h st polls w) (\<lambda>_ w.
              andw (settle_exit h (cs_id st) settle w) (\<lambda>_ w. (Inr (display_name st), w))))))) = (Inr name, w')"
    using assms(2) unfolding stop_one_def by (rule andw_Inr)
  obtain init where r: "resolve (w_root w) (w_dir w) target = Inr init" "cs_id init = cs_id st"
    and w1: "w1 = interfere race w" "get w1 (cs_id st) = Some st" using o by (rule open_record_Inr)
  have e0: "evolves w w" using reachable_ok [OF assms(1)] by (rule world_ok_refl)
  then have e: "evolves w w1" unfolding w1(1) by (rule evolution.interfere_I) simp
  have "settled w' (cs_id st)"
  proof (cases "cs_status st = Running \<and> alive w1 st")
    case False
    show ?thesis
    proof (cases "cs_status st = Running")
      case True
      with False b obtain st' where "reconcile_stale_state h st w1 = (Inr st', w')" by (auto elim: andw_Inr)
      with True False show ?thesis using reconcile_settles [OF evolves_plain [OF e] w1(2)] by blast
    qed (use b w1 in \<open>auto simp: settled_def\<close>)
  next
    case True
    with b have "andw (thaw_paused_container h during st w1) (\<lambda>st w.
         andw (signal_container h st SIGTERM w) (\<lambda>_ w.
           (case wait_pid_gone st grace w of (gone, w) \<Rightarrow>
              andw (if gone then (Inr (), w) else kill_and_wait h st polls w) (\<lambda>_ w.
              andw (settle_exit h (cs_id st) settle w) (\<lambda>_ w. (Inr (display_name st), w)))))) = (Inr name, w')" by simp
    then obtain st2 w2 w3 g w4 w5 u where t: "thaw_paused_container h during st w1 = (Inr st2, w2)"
      and s: "signal_container h st2 SIGTERM w2 = (Inr (), w3)" and g: "wait_pid_gone st2 grace w3 = (g, w4)"
      and k: "(if g then (Inr (), w4) else kill_and_wait h st2 polls w4) = (Inr (), w5)"
      and x: "settle_exit h (cs_id st2) settle w5 = (Inr u, w')"
      by (auto elim!: andw_Inr split: prod.splits)
    have kn: "sane w st" using evolves_known [OF e w1(2)] .
    have w2: "evolves w w2" "sane w st2" using evolution.thaw_keeps [OF e kn, of during h] t by (simp_all add: keeps_def)
    then have "evolves w w3" using evolution.signal_keeps [of w w2 st2 h SIGTERM] s by (simp add: keeps_def)
    then have "evolves w w4" using evolution.wait_I [of w w3 grace st2] g by simp
    then have "evolves w w5" using evolution.kill_and_wait_keeps [of w w4 st2 polls h] w2(2) k
      by (auto simp: keeps_def split: if_splits)
    then have "settled w' (cs_id st2)" using x by (rule settle_exit_settled)
    with thaw_same_id [OF t] show ?thesis by simp
  qed
  with r show ?thesis by metis
qed

theorem stop_settles_witness:
  "\<exists>w'. stop_one sample_host ''ab'' [] [] [[ProcessEnds 7]] [] [[ReaperFinished sample_host ''ab'' None True 143 None]]
     (one (Saved sample_st)) = (Inr ''ab'', w') \<and> settled w' ''ab''"
proof -
  obtain w' where s: "stop_one sample_host ''ab'' [] [] [[ProcessEnds 7]] [] [[ReaperFinished sample_host ''ab'' None True 143 None]]
     (one (Saved sample_st)) = (Inr ''ab'', w')" using sample_stop by blast
  from stop_settles [OF sample_reachable(2) s] resolve_one [of sample_st] s show ?thesis by auto
qed









text \<open>A successful rm leaves no record of the container and has removed its directory.\<close>

lemma rm_removes:
  assumes "rm_one h target force race during polls settle w = (Inr name, w')"
  shows "\<exists>st. resolve (w_root w) (w_dir w) target = Inr st \<and> get w' (cs_id st) = None \<and>
    RemoveTree (state_dir (w_root w') (cs_id st)) \<in> set (w_acts w')"
proof -
  obtain st w1 st' w2 where o: "open_record h target race w = (Inr st, w1)"
    and f: "(if cs_status st = Running then rm_force h during st polls settle w1 else (Inr st, w1)) = (Inr st', w2)"
    and w': "w' = remove_container h st' w2"
    using assms unfolding rm_one_def by (auto elim!: andw_Inr split: if_splits)
  have "cs_id st' = cs_id st" using f rm_force_id by (auto split: if_splits)
  then have "get w' (cs_id st) = None" "RemoveTree (state_dir (w_root w') (cs_id st)) \<in> set (w_acts w')"
    by (simp_all add: w' remove_container_def Let_def get_def load_remove)
  moreover obtain init where "resolve (w_root w) (w_dir w) target = Inr init" "cs_id init = cs_id st"
    using o by (rule open_record_Inr)
  ultimately show ?thesis by metis
qed

lemma rm_removes_witness:
  "\<exists>w'. rm_one sample_host ''ab'' False [] [] [] [] (one (Saved sample_ended)) = (Inr ''ab'', w') \<and> get w' ''ab'' = None"
proof -
  obtain w' where r: "rm_one sample_host ''ab'' False [] [] [] [] (one (Saved sample_ended)) = (Inr ''ab'', w')"
    using sample_ended_open by (simp add: rm_one_def display_name_def)
  from rm_removes [OF r] resolve_one [of sample_ended] r show ?thesis by auto
qed

text \<open>The reaper takes no operation lock, and pause writes back the record it loaded before it waited for the freezer: an exit that
  is recorded in between is overwritten. The container stays recorded as running and the exit code is lost.\<close>

lemma pause_overwrites_exit:
  "\<exists>w' st. set_container_paused sample_host ''ab'' True [] [ReaperFinished sample_host ''ab'' None False 0 None] (one (Saved sample_st)) =
      (Inr ''ab'', w') \<and> get w' ''ab'' = Some st \<and> cs_status st = Running \<and> cs_paused st \<and> cs_exit_code st = None"
proof -
  let ?w = "one (Saved sample_st)" and ?e = "[ReaperFinished sample_host ''ab'' None False 0 None]"
  obtain w' where s: "switch_freezer sample_host ?e ''/cg/zerun/ab'' True sample_st ?w = (Inr (sample_st\<lparr>cs_paused := True\<rparr>), w')"
    using sample_freeze by (simp add: switch_freezer_def put_eq valid_id_ab)
  have g: "get w' (cs_id sample_st) = Some (canonical_log (w_root ?w) (sample_st\<lparr>cs_paused := True\<rparr>))"
    using s by (cases rule: switch_freezer_cases) (simp_all add: dir_ok_def)
  have "set_container_paused sample_host ''ab'' True [] ?e ?w = (Inr ''ab'', w')"
    using sample_open sample_alive sample_cgroup sample_reconcile s by (simp add: set_container_paused_def display_name_def)
  with g show ?thesis by simp
qed

end
