(* ===== verification/Image_Manifest.thy ===== *)
theory Image_Manifest
  imports Rust_Str
begin

text \<open>
  Image manifests (src/image/manifest.rs): descriptors, manifests, indexes, platforms, and the choice of a manifest for a platform.

  JSON is parsed by a library. What the source asks of a parsed document is a \<open>json_view\<close>: whether it has a non-empty array
  \<open>manifests\<close>, and whether it deserialises as an index and as a manifest.
\<close>

record Platform =
  p_os :: string
  p_architecture :: string
  p_variant :: "string option"

record Descriptor =
  d_media_type :: string
  d_digest :: string
  d_size :: nat
  d_platform :: "Platform option"

record Manifest =
  m_config :: Descriptor
  m_layers :: "Descriptor list"

record Index =
  i_manifests :: "Descriptor list"

datatype ImageDoc = DocManifest Manifest | DocIndex Index

datatype manifest_error =
    PlatformSpec string
  | BadJson
  | BadIndexJson
  | BadManifestJson
  | MissingConfigDigest
  | NoManifestFor Platform "string list"

definition Platform_parse :: "string \<Rightarrow> manifest_error + Platform" where
  "Platform_parse spec = (case split_on (CHR ''/'') spec of
      [os, arch] \<Rightarrow> Inr \<lparr>p_os = os, p_architecture = arch, p_variant = None\<rparr>
    | [os, arch, variant] \<Rightarrow> Inr \<lparr>p_os = os, p_architecture = arch, p_variant = Some variant\<rparr>
    | _ \<Rightarrow> Inl (PlatformSpec spec))"

definition Platform_matches :: "Platform \<Rightarrow> Platform \<Rightarrow> bool" where
  "Platform_matches have want \<longleftrightarrow>
     p_os have = p_os want \<and> p_architecture have = p_architecture want \<and>
     (case (p_variant want, p_variant have) of
        (None, _) \<Rightarrow> True
      | (Some w, Some v) \<Rightarrow> w = v
      | (Some _, None) \<Rightarrow> False)"

text \<open>\<open>machine\<close>: what the kernel reports as its machine name.\<close>

definition arm_variant :: "string option \<Rightarrow> string option" where
  "arm_variant machine = (case machine of None \<Rightarrow> None
     | Some m \<Rightarrow> (case strip_prefix ''armv'' m of
           Some (c # _) \<Rightarrow> if is_ascii_digit c then Some [CHR ''v'', c] else None
         | _ \<Rightarrow> None))"

definition host_platform :: "string \<Rightarrow> string option \<Rightarrow> Platform" where
  "host_platform arch machine =
     (case (if arch = ''x86_64'' then (''amd64'', None)
            else if arch = ''aarch64'' then (''arm64'', None)
            else if arch = ''arm'' then (''arm'', arm_variant machine)
            else if arch = ''riscv64'' then (''riscv64'', None)
            else if arch = ''powerpc64'' then (''ppc64le'', None)
            else (arch, None)) of
       (a, v) \<Rightarrow> \<lparr>p_os = ''linux'', p_architecture = a, p_variant = v\<rparr>)"

record json_view =
  has_manifests :: bool
  as_index :: "Index option"
  as_manifest :: "Manifest option"

definition classify :: "(string \<Rightarrow> json_view option) \<Rightarrow> string \<Rightarrow> manifest_error + ImageDoc" where
  "classify json bytes = (case json bytes of
      None \<Rightarrow> Inl BadJson
    | Some v \<Rightarrow>
        if has_manifests v
        then (case as_index v of None \<Rightarrow> Inl BadIndexJson | Some i \<Rightarrow> Inr (DocIndex i))
        else (case as_manifest v of
            None \<Rightarrow> Inl BadManifestJson
          | Some m \<Rightarrow> if d_digest (m_config m) = [] then Inl MissingConfigDigest else Inr (DocManifest m)))"

definition platform_text :: "Platform \<Rightarrow> string" where
  "platform_text p = p_os p @ ''/'' @ (case p_variant p of
      Some v \<Rightarrow> p_architecture p @ ''/'' @ v | None \<Rightarrow> p_architecture p)"

definition ImageDoc_select :: "ImageDoc \<Rightarrow> Platform \<Rightarrow> manifest_error + Descriptor option" where
  "ImageDoc_select doc want = (case doc of
      DocManifest _ \<Rightarrow> Inr None
    | DocIndex idx \<Rightarrow>
        (let matches = filter (\<lambda>d. case d_platform d of None \<Rightarrow> False | Some p \<Rightarrow> Platform_matches p want) (i_manifests idx) in
         (case matches of
            [] \<Rightarrow> Inl (NoManifestFor want (map platform_text (List.map_filter d_platform (i_manifests idx))))
          | d # _ \<Rightarrow> Inr (Some d))))"

text \<open>A platform parses back from its text.\<close>

lemma Platform_parse_text:
  assumes "CHR ''/'' \<notin> set (p_os p)" and "CHR ''/'' \<notin> set (p_architecture p)"
    and "\<And>v. p_variant p = Some v \<Longrightarrow> CHR ''/'' \<notin> set v"
  shows "Platform_parse (platform_text p) = Inr p"
  using assms by (auto simp: Platform_parse_def platform_text_def split_on_append split_on_plain split: option.splits)

end
