(* ===== verification/Image_Store.thy ===== *)
theory Image_Store
  imports Image_Manifest Container_State
begin

text \<open>
  The image store (src/image/store.rs): content-addressed blobs, the index of tagged images, materialised root file systems, and
  garbage collection with the protections \<open>run\<close> and the container records give.

  A directory is the list of its entries. SHA-256 is a parameter \<open>sha\<close> that gives the hexadecimal digest; the answers of the
  file system are arguments. Records carry the prefix \<open>ir_\<close>.
\<close>

section \<open>Data\<close>

record ImageRecord =
  ir_name :: string
  ir_tag :: "string option"
  ir_manifest :: string
  ir_index :: "string option"
  ir_config :: string
  ir_size :: nat
  ir_created :: nat

datatype blob_entry = BlobFile string | BlobDir

datatype index_file = NoIndex | BrokenIndex | IndexFile "ImageRecord list"

record image_store =
  is_root :: string
  is_blobs :: "(string \<times> blob_entry) list"
  is_rootfs :: "(string \<times> nat) list"
  is_locks :: "string list"
  is_index :: index_file

datatype store_error =
    UnsupportedDigest string
  | MalformedDigest string
  | DigestMismatch string string
  | BlobIo string
  | IndexLock
  | IndexParse
  | IndexWrite
  | OperationLock
  | RootfsLock string
  | NotRegular
  | NoSuchImage string "string option" "string option"
  | TagTarget

definition digest_hex :: "string \<Rightarrow> store_error + string" where
  "digest_hex digest = (case strip_prefix ''sha256:'' digest of
      None \<Rightarrow> Inl (UnsupportedDigest digest)
    | Some hex \<Rightarrow>
        if length hex \<noteq> 64 \<or> \<not> list_all is_ascii_hexdigit hex then Inl (MalformedDigest digest) else Inr hex)"

section \<open>Blobs\<close>

text \<open>\<open>readable\<close>: whether the file can be opened and read.\<close>

definition verify_blob :: "(string \<Rightarrow> string) \<Rightarrow> (string \<Rightarrow> bool) \<Rightarrow> string \<Rightarrow> image_store \<Rightarrow> store_error + bool" where
  "verify_blob sha readable digest s =
     and_then (digest_hex digest) (\<lambda>expected.
       (case map_of (is_blobs s) expected of
          Some (BlobFile b) \<Rightarrow> if readable expected then Inr (sha b = expected) else Inl (BlobIo digest)
        | _ \<Rightarrow> Inr False))"

definition has_blob :: "(string \<Rightarrow> string) \<Rightarrow> (string \<Rightarrow> bool) \<Rightarrow> string \<Rightarrow> image_store \<Rightarrow> bool" where
  "has_blob sha readable digest s = (case verify_blob sha readable digest s of Inl _ \<Rightarrow> False | Inr b \<Rightarrow> b)"

definition read_blob :: "(string \<Rightarrow> bool) \<Rightarrow> string \<Rightarrow> image_store \<Rightarrow> store_error + string option" where
  "read_blob readable digest s =
     and_then (digest_hex digest) (\<lambda>hex.
       (case map_of (is_blobs s) hex of
          Some (BlobFile b) \<Rightarrow> if readable hex then Inr (Some b) else Inl (BlobIo digest)
        | _ \<Rightarrow> Inr None))"

text \<open>What the file system does with a temporary file: whether it is created, written and synced, renamed; and what is left of it when
  it cannot be removed after a failure.\<close>

record blob_io =
  io_tmp :: string
  io_create :: bool
  io_write :: bool
  io_rename :: bool
  io_left :: "string option"

definition set_blobs :: "(string \<times> blob_entry) list \<Rightarrow> image_store \<Rightarrow> image_store" where
  "set_blobs bs s = s\<lparr>is_blobs := bs\<rparr>"

definition give_up :: "blob_io \<Rightarrow> image_store \<Rightarrow> image_store" where
  "give_up io s = (case io_left io of
      None \<Rightarrow> s | Some b \<Rightarrow> set_blobs (AList.update (io_tmp io) (BlobFile b) (is_blobs s)) s)"

text \<open>A rename onto a directory fails.\<close>

definition install_blob_temp :: "blob_io \<Rightarrow> string \<Rightarrow> string \<Rightarrow> string \<Rightarrow> image_store \<Rightarrow> (store_error + unit) \<times> image_store" where
  "install_blob_temp io hex bytes digest s =
     (if io_rename io \<and> map_of (is_blobs s) hex \<noteq> Some BlobDir
      then (Inr (), set_blobs (AList.update hex (BlobFile bytes) (is_blobs s)) s)
      else (Inl (BlobIo digest), give_up io s))"

definition write_blob ::
  "(string \<Rightarrow> string) \<Rightarrow> (string \<Rightarrow> bool) \<Rightarrow> blob_io \<Rightarrow> string \<Rightarrow> string \<Rightarrow> image_store \<Rightarrow> (store_error + unit) \<times> image_store" where
  "write_blob sha readable io digest bytes s = (case digest_hex digest of
      Inl e \<Rightarrow> (Inl e, s)
    | Inr expected \<Rightarrow>
        if sha bytes \<noteq> expected then (Inl (DigestMismatch expected (sha bytes)), s)
        else (case verify_blob sha readable digest s of
            Inl e \<Rightarrow> (Inl e, s)
          | Inr True \<Rightarrow> (Inr (), s)
          | Inr False \<Rightarrow>
              if \<not> io_create io then (Inl (BlobIo digest), s)
              else if \<not> io_write io then (Inl (BlobIo digest), give_up io s)
              else install_blob_temp io expected bytes digest s))"

text \<open>A reader gives chunks; \<open>None\<close> is an error, an empty chunk the end. The hash is that of everything read.\<close>

fun read_body :: "string option list \<Rightarrow> string option" where
  "read_body [] = Some []"
| "read_body (None # _) = None"
| "read_body (Some c # rs) = (if c = [] then Some [] else map_option (\<lambda>b. c @ b) (read_body rs))"

definition store_blob_stream ::
  "(string \<Rightarrow> string) \<Rightarrow> (string \<Rightarrow> bool) \<Rightarrow> blob_io \<Rightarrow> string \<Rightarrow> string option list \<Rightarrow> image_store \<Rightarrow> (store_error + unit) \<times> image_store" where
  "store_blob_stream sha readable io digest reader s = (case digest_hex digest of
      Inl e \<Rightarrow> (Inl e, s)
    | Inr expected \<Rightarrow>
        (case verify_blob sha readable digest s of
            Inl e \<Rightarrow> (Inl e, s)
          | Inr True \<Rightarrow> (Inr (), s)
          | Inr False \<Rightarrow>
              if \<not> io_create io then (Inl (BlobIo digest), s)
              else (case read_body reader of
                  None \<Rightarrow> (Inl (BlobIo digest), give_up io s)
                | Some bytes \<Rightarrow>
                    if \<not> io_write io then (Inl (BlobIo digest), give_up io s)
                    else if sha bytes \<noteq> expected then (Inl (DigestMismatch expected (sha bytes)), give_up io s)
                    else install_blob_temp io expected bytes digest s)))"

text \<open>\<open>source\<close>: the content of the file that is installed, \<open>None\<close> when it is not a regular file.\<close>

definition install_blob_file ::
  "(string \<Rightarrow> string) \<Rightarrow> (string \<Rightarrow> bool) \<Rightarrow> bool \<Rightarrow> string option \<Rightarrow> image_store \<Rightarrow> (store_error + string \<times> nat) \<times> image_store" where
  "install_blob_file sha readable rename_ok source s = (case source of
      None \<Rightarrow> (Inl NotRegular, s)
    | Some bytes \<Rightarrow>
        (let digest = ''sha256:'' @ sha bytes in
         (case verify_blob sha readable digest s of
            Inl e \<Rightarrow> (Inl e, s)
          | Inr True \<Rightarrow> (Inr (digest, length bytes), s)
          | Inr False \<Rightarrow>
              if rename_ok \<and> map_of (is_blobs s) (sha bytes) \<noteq> Some BlobDir
              then (Inr (digest, length bytes), set_blobs (AList.update (sha bytes) (BlobFile bytes) (is_blobs s)) s)
              else (Inl (BlobIo digest), s))))"

section \<open>The index\<close>

definition records :: "image_store \<Rightarrow> store_error + ImageRecord list" where
  "records s = (case is_index s of NoIndex \<Rightarrow> Inr [] | BrokenIndex \<Rightarrow> Inl IndexParse | IndexFile rs \<Rightarrow> Inr rs)"

definition find_record_in :: "ImageRecord list \<Rightarrow> string \<Rightarrow> string option \<Rightarrow> string option \<Rightarrow> ImageRecord option" where
  "find_record_in rs name tag digest = (case digest of
      Some d \<Rightarrow> find (\<lambda>r. ir_manifest r = d \<or> ir_index r = Some d) rs
    | None \<Rightarrow>
        (let tag = (case tag of None \<Rightarrow> ''latest'' | Some t \<Rightarrow> t) in
         find (\<lambda>r. ir_name r = name \<and> ir_tag r = Some tag) rs))"

definition find_record :: "string \<Rightarrow> string option \<Rightarrow> string option \<Rightarrow> image_store \<Rightarrow> store_error + ImageRecord option" where
  "find_record name tag digest s = and_then (records s) (\<lambda>rs. Inr (find_record_in rs name tag digest))"

definition new_record ::
  "nat \<Rightarrow> string \<Rightarrow> string option \<Rightarrow> string \<Rightarrow> string \<Rightarrow> nat \<Rightarrow> string option \<Rightarrow> ImageRecord" where
  "new_record now name tag manifest_digest config_digest size_bytes index_digest =
     \<lparr>ir_name = name, ir_tag = tag, ir_manifest = manifest_digest, ir_index = index_digest, ir_config = config_digest,
      ir_size = size_bytes, ir_created = now\<rparr>"

definition upsert_record :: "ImageRecord list \<Rightarrow> ImageRecord \<Rightarrow> ImageRecord list" where
  "upsert_record rs r = filter (\<lambda>q. \<not> (ir_name q = ir_name r \<and> ir_tag q = ir_tag r)) rs @ [r]"

text \<open>\<open>locks\<close> and \<open>written\<close>: whether the locks are obtained and the index is written.\<close>

definition save_records :: "bool \<Rightarrow> ImageRecord list \<Rightarrow> image_store \<Rightarrow> (store_error + unit) \<times> image_store" where
  "save_records written rs s = (if written then (Inr (), s\<lparr>is_index := IndexFile rs\<rparr>) else (Inl IndexWrite, s))"

definition add_index_image ::
  "bool \<Rightarrow> bool \<Rightarrow> nat \<Rightarrow> string \<Rightarrow> string option \<Rightarrow> string \<Rightarrow> string \<Rightarrow> nat \<Rightarrow> string option \<Rightarrow> image_store \<Rightarrow>
   (store_error + unit) \<times> image_store" where
  "add_index_image lock written now name tag manifest_digest config_digest size_bytes index_digest s =
     (if \<not> lock then (Inl IndexLock, s)
      else (case records s of Inl e \<Rightarrow> (Inl e, s)
        | Inr rs \<Rightarrow>
            save_records written (upsert_record rs (new_record now name tag manifest_digest config_digest size_bytes index_digest)) s))"

definition add_image ::
  "bool \<Rightarrow> bool \<Rightarrow> nat \<Rightarrow> string \<Rightarrow> string option \<Rightarrow> string \<Rightarrow> string \<Rightarrow> nat \<Rightarrow> image_store \<Rightarrow> (store_error + unit) \<times> image_store" where
  "add_image lock written now name tag manifest_digest config_digest size_bytes s =
     add_index_image lock written now name tag manifest_digest config_digest size_bytes None s"

definition tag_record ::
  "bool \<Rightarrow> bool \<Rightarrow> bool \<Rightarrow> nat \<Rightarrow> string \<Rightarrow> string option \<Rightarrow> string option \<Rightarrow> string \<Rightarrow> string option \<Rightarrow> image_store \<Rightarrow>
   (store_error + ImageRecord) \<times> image_store" where
  "tag_record operation lock written now source_name source_tag source_digest target_name target_tag s =
     (if \<not> operation then (Inl OperationLock, s)
      else if \<not> lock then (Inl IndexLock, s)
      else (case records s of Inl e \<Rightarrow> (Inl e, s)
        | Inr rs \<Rightarrow> (case find_record_in rs source_name source_tag source_digest of
              None \<Rightarrow> (Inl (NoSuchImage source_name source_tag source_digest), s)
            | Some src \<Rightarrow> (case target_tag of
                  None \<Rightarrow> (Inl TagTarget, s)
                | Some tag \<Rightarrow>
                    (let r = new_record now target_name (Some tag) (ir_manifest src) (ir_config src) (ir_size src) (ir_index src) in
                     (case save_records written (upsert_record rs r) s of
                        (Inl e, s) \<Rightarrow> (Inl e, s) | (Inr _, s) \<Rightarrow> (Inr r, s)))))))"

definition remove_image_record ::
  "bool \<Rightarrow> bool \<Rightarrow> bool \<Rightarrow> string \<Rightarrow> string option \<Rightarrow> string option \<Rightarrow> image_store \<Rightarrow> (store_error + ImageRecord option) \<times> image_store" where
  "remove_image_record operation lock written name tag digest s =
     (if \<not> operation then (Inl OperationLock, s)
      else if \<not> lock then (Inl IndexLock, s)
      else (case records s of Inl e \<Rightarrow> (Inl e, s)
        | Inr rs \<Rightarrow>
            (case (case digest of
                 Some d \<Rightarrow> position (\<lambda>r. ir_manifest r = d \<or> ir_index r = Some d) rs
               | None \<Rightarrow> position (\<lambda>r. ir_name r = name \<and> ir_tag r = Some (case tag of None \<Rightarrow> ''latest'' | Some t \<Rightarrow> t)) rs) of
               None \<Rightarrow> (Inr None, s)
             | Some i \<Rightarrow> (case save_records written (take i rs @ drop (Suc i) rs) s of
                   (Inl e, s) \<Rightarrow> (Inl e, s) | (Inr _, s) \<Rightarrow> (Inr (Some (rs ! i)), s)))))"

section \<open>Garbage collection\<close>

text \<open>Marking what a manifest or index reaches, in the order of the source; \<open>None\<close>: the fuel, a bound on the depth, is used up.
  A set of marks is the list of its elements.\<close>

fun fold_opt :: "('a \<Rightarrow> 'b \<Rightarrow> 'b option) \<Rightarrow> 'a list \<Rightarrow> 'b \<Rightarrow> 'b option" where
  "fold_opt f [] b = Some b"
| "fold_opt f (x # xs) b = (case f x b of None \<Rightarrow> None | Some b \<Rightarrow> fold_opt f xs b)"

fun keep_manifest_tree ::
  "(string \<Rightarrow> json_view option) \<Rightarrow> (string \<Rightarrow> bool) \<Rightarrow> image_store \<Rightarrow> nat \<Rightarrow> string \<Rightarrow> string list \<Rightarrow> string list option" where
  "keep_manifest_tree json readable s 0 digest keep = None"
| "keep_manifest_tree json readable s (Suc n) digest keep =
     (if digest \<in> set keep then Some keep
      else (let keep = List.insert digest keep in
        (case read_blob readable digest s of
           Inr (Some bytes) \<Rightarrow>
             (case classify json bytes of
                Inr (DocManifest m) \<Rightarrow>
                  Some (fold (\<lambda>l. List.insert (d_digest l)) (m_layers m) (List.insert (d_digest (m_config m)) keep))
              | Inr (DocIndex idx) \<Rightarrow>
                  fold_opt (\<lambda>child. keep_manifest_tree json readable s n (d_digest child)) (i_manifests idx) keep
              | Inl _ \<Rightarrow> Some keep)
         | _ \<Rightarrow> Some keep)))"

definition keep_record ::
  "(string \<Rightarrow> json_view option) \<Rightarrow> (string \<Rightarrow> bool) \<Rightarrow> image_store \<Rightarrow> nat \<Rightarrow> ImageRecord \<Rightarrow> string list \<Rightarrow> string list option" where
  "keep_record json readable s fuel r keep =
     (let keep = List.insert (ir_manifest r) keep;
          keep = (case ir_index r of None \<Rightarrow> keep | Some i \<Rightarrow> List.insert i keep);
          keep = List.insert (ir_config r) keep in
      (case (case ir_index r of None \<Rightarrow> Some keep | Some i \<Rightarrow> keep_manifest_tree json readable s fuel i keep) of
         None \<Rightarrow> None
       | Some keep \<Rightarrow> keep_manifest_tree json readable s fuel (ir_manifest r) keep))"

definition keep_rootfs :: "ImageRecord list \<Rightarrow> string list" where
  "keep_rootfs rs = List.map_filter (\<lambda>r. case digest_hex (ir_config r) of Inl _ \<Rightarrow> None | Inr hex \<Rightarrow> Some hex) rs"

definition sweeps_blob :: "string list \<Rightarrow> string \<Rightarrow> bool" where
  "sweeps_blob keep name \<longleftrightarrow> starts_with name ''.tmp-'' \<or> ''sha256:'' @ name \<notin> set keep"

text \<open>\<open>unlink\<close>: whether a file can be removed; a directory cannot.\<close>

definition sweep_blobs :: "(string \<Rightarrow> bool) \<Rightarrow> string list \<Rightarrow> (string \<times> blob_entry) list \<Rightarrow> (string \<times> blob_entry) list" where
  "sweep_blobs unlink keep bs = filter (\<lambda>(name, e). \<not> (sweeps_blob keep name \<and> unlink name \<and> e \<noteq> BlobDir)) bs"

datatype lock_answer = LockFree | LockHeld | LockError

definition rootfs_entry :: "image_store \<Rightarrow> string \<Rightarrow> string" where
  "rootfs_entry s name = is_root s @ ''/rootfs/'' @ name"

definition is_config_name :: "string \<Rightarrow> bool" where
  "is_config_name name \<longleftrightarrow> length name = 64 \<and> list_all is_ascii_hexdigit name"

text \<open>The sweep of the root file systems: the names that are gone, the lock files that are gone, and the error that ended it.\<close>

fun sweep_rootfs ::
  "(string \<Rightarrow> lock_answer) \<Rightarrow> (string \<Rightarrow> string) \<Rightarrow> string list \<Rightarrow> string list \<Rightarrow> string list \<Rightarrow>
   (store_error + unit) \<times> string list \<times> string list" where
  "sweep_rootfs lock path protected keep [] = (Inr (), [], [])"
| "sweep_rootfs lock path protected keep (name # names) =
     (if starts_with name ''.tmp-'' \<or> path name \<in> set protected then sweep_rootfs lock path protected keep names
      else if is_config_name name then
        (case lock name of
           LockError \<Rightarrow> (Inl (RootfsLock name), [], [])
         | LockHeld \<Rightarrow> sweep_rootfs lock path protected keep names
         | LockFree \<Rightarrow>
             (case sweep_rootfs lock path protected keep names of (r, gone, unlocked) \<Rightarrow>
               (r, (if name \<notin> set keep then [name] else []) @ gone, name # unlocked)))
      else
        (case sweep_rootfs lock path protected keep names of (r, gone, unlocked) \<Rightarrow>
          (r, (if name \<notin> set keep then [name] else []) @ gone, unlocked)))"

record gc_io =
  g_operation :: bool
  g_lock :: bool
  g_readable :: "string \<Rightarrow> bool"
  g_unlink :: "string \<Rightarrow> bool"
  g_rootfs :: "string \<Rightarrow> lock_answer"
  g_rmdir :: "string \<Rightarrow> bool"

definition gc_with_protected_from ::
  "(string \<Rightarrow> json_view option) \<Rightarrow> nat \<Rightarrow> gc_io \<Rightarrow> (unit \<Rightarrow> string list) \<Rightarrow> image_store \<Rightarrow> ((store_error + unit) \<times> image_store) option" where
  "gc_with_protected_from json fuel io protected s =
     (if \<not> g_operation io then Some (Inl OperationLock, s)
      else (let prot = protected () in
        if \<not> g_lock io then Some (Inl IndexLock, s)
        else (case records s of
            Inl e \<Rightarrow> Some (Inl e, s)
          | Inr rs \<Rightarrow> (case fold_opt (keep_record json (g_readable io) s fuel) rs [] of
                None \<Rightarrow> None
              | Some keep \<Rightarrow>
                  (case sweep_rootfs (g_rootfs io) (rootfs_entry s) prot (keep_rootfs rs) (map fst (is_rootfs s)) of (r, gone, unlocked) \<Rightarrow>
                    Some (r, s\<lparr>is_blobs := sweep_blobs (g_unlink io) keep (is_blobs s),
                      is_rootfs := filter (\<lambda>(name, _). \<not> (name \<in> set gone \<and> g_rmdir io name)) (is_rootfs s),
                      is_locks := filter (\<lambda>l. \<not> (l \<in> set unlocked \<and> g_unlink io (l @ ''.lock''))) (is_locks s)\<rparr>))))))"

text \<open>The dry run: the bytes it reports. \<open>size\<close> is the size of a directory entry of the blobs.\<close>

definition reclaimable_bytes_with_protected ::
  "(string \<Rightarrow> json_view option) \<Rightarrow> nat \<Rightarrow> gc_io \<Rightarrow> (string \<Rightarrow> nat) \<Rightarrow> string list \<Rightarrow> image_store \<Rightarrow> nat option" where
  "reclaimable_bytes_with_protected json fuel io blob_size protected s =
     (if \<not> g_operation io \<or> \<not> g_lock io then Some 0
      else (case records s of
          Inl _ \<Rightarrow> Some 0
        | Inr rs \<Rightarrow> (case fold_opt (keep_record json (g_readable io) s fuel) rs [] of
              None \<Rightarrow> None
            | Some keep \<Rightarrow>
                Some (sum_list (map (\<lambda>(name, _). if sweeps_blob keep name then blob_size name else 0) (is_blobs s))
                  + sum_list (map (\<lambda>(name, n).
                      if starts_with name ''.tmp-'' then n
                      else if name \<in> set (keep_rootfs rs) \<or> rootfs_entry s name \<in> set protected then 0
                      else if is_config_name name \<and> g_rootfs io name \<noteq> LockFree then 0
                      else n) (is_rootfs s))))))"

text \<open>What the container records protect (src/main.rs): \<open>canon\<close> resolves a path, \<open>None\<close> when it does not exist.\<close>

definition protected_image_rootfs_excluding ::
  "(string \<Rightarrow> string option) \<Rightarrow> string list \<Rightarrow> image_store \<Rightarrow> string \<Rightarrow> containers \<Rightarrow> string list" where
  "protected_image_rootfs_excluding canon excluded s run_root dir =
     (let base = is_root s @ ''/rootfs''; base = (case canon base of None \<Rightarrow> base | Some p \<Rightarrow> p) in
      filter (\<lambda>p. p = base \<or> starts_with p (base @ ''/''))
        (List.map_filter (\<lambda>st. Option.bind (cs_lower st) canon)
          (filter (\<lambda>st. cs_id st \<notin> set excluded) (list_states run_root dir))))"

definition protected_image_rootfs :: "(string \<Rightarrow> string option) \<Rightarrow> image_store \<Rightarrow> string \<Rightarrow> containers \<Rightarrow> string list" where
  "protected_image_rootfs canon s run_root dir = protected_image_rootfs_excluding canon [] s run_root dir"

end
