(* ===== verification/Image_Store_Facts.thy ===== *)
theory Image_Store_Facts
  imports Image_Store
begin

text \<open>
  What the operations of the image store do: what a collection marks and removes, why the marking ends, and the steps the store
  takes with the invariant they keep.
\<close>

section \<open>Marking\<close>

lemma keep_marked: "0 < fuel \<Longrightarrow> d \<in> set keep \<Longrightarrow> keep_manifest_tree json readable s fuel d keep = Some keep"
  by (cases fuel) simp_all

definition marks :: "ImageRecord \<Rightarrow> string set" where
  "marks r = {ir_manifest r, ir_config r} \<union> set_option (ir_index r)"

text \<open>A record marks its manifest and its index before it asks for what they reach, and a marked digest is not followed: the
  layers are never marked.\<close>

lemma keep_record_marks:
  assumes "0 < fuel"
  obtains keep' where "keep_record json readable s fuel r keep = Some keep'" "set keep' = set keep \<union> marks r"
proof -
  let ?k = "List.insert (ir_config r) (case ir_index r of None \<Rightarrow> List.insert (ir_manifest r) keep
    | Some i \<Rightarrow> List.insert i (List.insert (ir_manifest r) keep))"
  have "keep_record json readable s fuel r keep = Some ?k"
    using assms by (auto simp: keep_record_def Let_def keep_marked split: option.splits)
  moreover have "set ?k = set keep \<union> marks r" by (auto simp: marks_def split: option.splits)
  ultimately show ?thesis by (rule that)
qed

lemma keep_records_marks:
  "0 < fuel \<Longrightarrow> \<exists>keep'. fold_opt (keep_record json readable s fuel) rs keep = Some keep' \<and> set keep' = set keep \<union> \<Union> (marks ` set rs)"
proof (induction rs arbitrary: keep)
  case (Cons r rs)
  obtain k where k: "keep_record json readable s fuel r keep = Some k" "set k = set keep \<union> marks r"
    using keep_record_marks [OF Cons.prems] .
  from Cons.IH [OF Cons.prems, of k] k show ?case by auto
qed simp

section \<open>The marking ends\<close>

definition followed :: "(string \<Rightarrow> bool) \<Rightarrow> image_store \<Rightarrow> string set" where
  "followed readable s = {d. \<exists>b. read_blob readable d s = Inr (Some b)}"

lemma read_blob_SomeD:
  "read_blob readable d s = Inr (Some b) \<Longrightarrow> \<exists>hex. digest_hex d = Inr hex \<and> map_of (is_blobs s) hex = Some (BlobFile b)"
proof -
  assume "read_blob readable d s = Inr (Some b)"
  then obtain hex where "digest_hex d = Inr hex" and
    "(case map_of (is_blobs s) hex of Some (BlobFile b) \<Rightarrow> if readable hex then Inr (Some b) else Inl (BlobIo d) | _ \<Rightarrow> Inr None) =
      (Inr (Some b) :: store_error + string option)"
    unfolding read_blob_def and_then_eq_Inr_iff by blast
  then show ?thesis by (cases "map_of (is_blobs s) hex"; cases "the (map_of (is_blobs s) hex)") (auto split: if_splits)
qed

lemma followed_blob:
  "followed readable s \<subseteq> (\<lambda>hex. ''sha256:'' @ hex) ` fst ` set (is_blobs s)"
proof
  fix d
  assume "d \<in> followed readable s"
  then obtain hex where h: "digest_hex d = Inr hex" and "map_of (is_blobs s) hex \<noteq> None"
    using read_blob_SomeD by (fastforce simp: followed_def)
  then have "hex \<in> fst ` set (is_blobs s)" by (metis map_of_eq_None_iff)
  moreover have "d = ''sha256:'' @ hex"
    using h by (auto simp: digest_hex_def dest!: strip_prefix_SomeD split: option.splits if_splits)
  ultimately show "d \<in> (\<lambda>hex. ''sha256:'' @ hex) ` fst ` set (is_blobs s)" by blast
qed

lemma followed_finite: "finite (followed readable s)" "card (followed readable s) \<le> length (is_blobs s)"
proof -
  have f: "finite ((\<lambda>hex. ''sha256:'' @ hex) ` fst ` set (is_blobs s))" by simp
  then show "finite (followed readable s)" using followed_blob finite_subset by blast
  have "card (followed readable s) \<le> card ((\<lambda>hex. ''sha256:'' @ hex) ` fst ` set (is_blobs s))"
    using card_mono [OF f followed_blob] .
  also have "\<dots> \<le> card (set (is_blobs s))" by (meson card_image_le finite_imageI finite_set le_trans)
  also have "\<dots> \<le> length (is_blobs s)" by (rule card_length)
  finally show "card (followed readable s) \<le> length (is_blobs s)" .
qed

lemma fold_opt_marks:
  assumes "\<And>x k. x \<in> set xs \<Longrightarrow> K \<subseteq> set k \<Longrightarrow> \<exists>k'. f x k = Some k' \<and> set k \<subseteq> set k'" and "K \<subseteq> set k"
  shows "\<exists>k'. fold_opt f xs k = Some k' \<and> set k \<subseteq> set k'"
  using assms
proof (induction xs arbitrary: k)
  case (Cons x xs)
  from Cons.prems obtain k1 where 1: "f x k = Some k1" "set k \<subseteq> set k1" by (metis list.set_intros(1))
  with Cons.prems(2) have "K \<subseteq> set k1" by blast
  with Cons.IH Cons.prems(1) obtain k2 where "fold_opt f xs k1 = Some k2" "set k1 \<subseteq> set k2" by (metis list.set_intros(2))
  with 1 show ?case by auto
qed simp

lemma set_fold_insert: "set (fold (\<lambda>l. List.insert (g l)) ls k) = g ` set ls \<union> set k"
  by (induction ls arbitrary: k) auto

lemma keep_tree_enough:
  assumes "card (followed readable s - set keep) < fuel"
  shows "\<exists>k. keep_manifest_tree json readable s fuel d keep = Some k \<and> set keep \<subseteq> set k"
  using assms
proof (induction fuel arbitrary: d keep)
  case (Suc n)
  let ?k = "List.insert d keep"
  show ?case
  proof (cases "d \<in> set keep \<or> d \<notin> followed readable s")
    case True
    then show ?thesis
      by (auto simp: Let_def followed_def split: sum.splits option.splits)
  next
    case False
    then obtain b where b: "read_blob readable d s = Inr (Some b)" by (auto simp: followed_def)
    have "card (followed readable s - set ?k) < card (followed readable s - set keep)"
      using False followed_finite(1) by (intro psubset_card_mono) auto
    with Suc.prems have less: "card (followed readable s - set ?k) < n" by linarith
    have kids: "\<exists>k'. keep_manifest_tree json readable s n (d_digest c) k = Some k' \<and> set k \<subseteq> set k'" if "set ?k \<subseteq> set k" for c k
    proof (rule Suc.IH)
      have "card (followed readable s - set k) \<le> card (followed readable s - set ?k)"
        using that followed_finite(1) by (intro card_mono) auto
      with less show "card (followed readable s - set k) < n" by linarith
    qed
    show ?thesis
    proof (cases "classify json b")
      case (Inr doc)
      show ?thesis
      proof (cases doc)
        case (DocIndex idx)
        have "\<exists>k'. fold_opt (\<lambda>c. keep_manifest_tree json readable s n (d_digest c)) (i_manifests idx) ?k = Some k' \<and> set ?k \<subseteq> set k'"
          by (rule fold_opt_marks [where K = "set ?k"], rule kids, assumption) (rule order_refl)
        with False b Inr DocIndex show ?thesis by (auto simp: Let_def)
      qed (use False b Inr in \<open>auto simp: Let_def set_fold_insert\<close>)
    qed (use False b in \<open>auto simp: Let_def\<close>)
  qed
qed simp

section \<open>The store as a whole\<close>

text \<open>Temporary files have names of their own.\<close>

definition tmp_ok :: "blob_io \<Rightarrow> bool" where
  "tmp_ok io \<longleftrightarrow> starts_with (io_tmp io) ''.tmp-''"

inductive store_step :: "(string \<Rightarrow> string) \<Rightarrow> (string \<Rightarrow> json_view option) \<Rightarrow> image_store \<Rightarrow> image_store \<Rightarrow> bool"
  for sha json where
  step_write: "tmp_ok io \<Longrightarrow> store_step sha json s (snd (write_blob sha readable io digest bytes s))"
| step_stream: "tmp_ok io \<Longrightarrow> store_step sha json s (snd (store_blob_stream sha readable io digest reader s))"
| step_install: "store_step sha json s (snd (install_blob_file sha readable rename_ok source s))"
| step_add: "store_step sha json s (snd (add_index_image lock written now name tag md cd n idx s))"
| step_tag: "store_step sha json s (snd (tag_record op lock written now sn stag sd tn ttag s))"
| step_remove: "store_step sha json s (snd (remove_image_record op lock written name tag digest s))"
| step_gc: "gc_with_protected_from json fuel io protected s = Some (r, s') \<Longrightarrow> store_step sha json s s'"

inductive_cases store_stepE: "store_step sha json s s'"

definition blobs_sound :: "(string \<Rightarrow> string) \<Rightarrow> image_store \<Rightarrow> bool" where
  "blobs_sound sha s \<longleftrightarrow> (\<forall>name b. is_config_name name \<longrightarrow> (name, BlobFile b) \<in> set (is_blobs s) \<longrightarrow> sha b = name)"

definition tags_unique :: "image_store \<Rightarrow> bool" where
  "tags_unique s \<longleftrightarrow> (\<forall>rs. is_index s = IndexFile rs \<longrightarrow> distinct (map (\<lambda>r. (ir_name r, ir_tag r)) rs))"

lemma set_update_entry: "set (AList.update k v xs) \<subseteq> insert (k, v) (set xs)"
  by (induction xs) auto

lemma sound_update:
  "blobs_sound sha s \<Longrightarrow> (is_config_name k \<Longrightarrow> sha b = k) \<Longrightarrow> blobs_sound sha (set_blobs (AList.update k (BlobFile b) (is_blobs s)) s)"
  using set_update_entry [of k "BlobFile b" "is_blobs s"] by (fastforce simp: blobs_sound_def set_blobs_def)

lemma tmp_not_config: "starts_with k ''.tmp-'' \<Longrightarrow> \<not> is_config_name k"
  by (auto simp: starts_with_iff is_config_name_def ascii_class_defs)

lemma sound_give_up: "blobs_sound sha s \<Longrightarrow> tmp_ok io \<Longrightarrow> blobs_sound sha (give_up io s)"
  using tmp_not_config by (auto simp: give_up_def tmp_ok_def intro: sound_update split: option.splits)

lemma sound_install: "blobs_sound sha s \<Longrightarrow> tmp_ok io \<Longrightarrow> sha b = hex \<Longrightarrow> blobs_sound sha (snd (install_blob_temp io hex b d s))"
  by (auto simp: install_blob_temp_def intro: sound_update sound_give_up)

lemma sound_write: "blobs_sound sha s \<Longrightarrow> tmp_ok io \<Longrightarrow> blobs_sound sha (snd (write_blob sha readable io d b s))"
  by (auto simp: write_blob_def intro: sound_install sound_give_up split: sum.splits bool.splits)

lemma sound_stream: "blobs_sound sha s \<Longrightarrow> tmp_ok io \<Longrightarrow> blobs_sound sha (snd (store_blob_stream sha readable io d reader s))"
  by (auto simp: store_blob_stream_def intro: sound_install sound_give_up split: sum.splits bool.splits option.splits)

lemma sound_install_file: "blobs_sound sha s \<Longrightarrow> blobs_sound sha (snd (install_blob_file sha readable ok src s))"
  by (auto simp: install_blob_file_def Let_def intro: sound_update split: sum.splits bool.splits option.splits)

lemma index_of_blob_ops [simp]:
  "is_index (snd (write_blob sha readable io d b s)) = is_index s"
  "is_index (snd (store_blob_stream sha readable io d reader s)) = is_index s"
  "is_index (snd (install_blob_file sha readable ok src s)) = is_index s"
  by (auto simp: write_blob_def store_blob_stream_def install_blob_file_def install_blob_temp_def give_up_def set_blobs_def Let_def
    split: sum.splits bool.splits option.splits)

lemma blobs_of_index_ops [simp]:
  "is_blobs (snd (add_index_image lock written now name tag md cd n idx s)) = is_blobs s"
  "is_blobs (snd (tag_record op lock written now sn stag sd tn ttag s)) = is_blobs s"
  "is_blobs (snd (remove_image_record op lock written name tag digest s)) = is_blobs s"
  by (auto simp: add_index_image_def tag_record_def remove_image_record_def save_records_def Let_def
    split: sum.splits option.splits prod.splits)

lemma distinct_upsert:
  "distinct (map (\<lambda>r. (ir_name r, ir_tag r)) rs) \<Longrightarrow> distinct (map (\<lambda>r. (ir_name r, ir_tag r)) (upsert_record rs r))"
  by (auto simp: upsert_record_def distinct_map_filter intro: inj_on_subset simp: distinct_map)


lemma unique_save: "distinct (map (\<lambda>r. (ir_name r, ir_tag r)) rs) \<Longrightarrow> tags_unique s \<Longrightarrow> tags_unique (snd (save_records ok rs s))"
  by (auto simp: save_records_def tags_unique_def)

lemma records_unique: "tags_unique s \<Longrightarrow> records s = Inr rs \<Longrightarrow> distinct (map (\<lambda>r. (ir_name r, ir_tag r)) rs)"
  by (auto simp: tags_unique_def records_def split: index_file.splits)

lemma unique_add: "tags_unique s \<Longrightarrow> tags_unique (snd (add_index_image lock written now name tag md cd n idx s))"
  by (auto simp: add_index_image_def intro: unique_save distinct_upsert records_unique split: sum.splits)

lemma unique_tag: "tags_unique s \<Longrightarrow> tags_unique (snd (tag_record op lock written now sn stag sd tn ttag s))"
proof (cases "op \<and> lock \<and> (\<exists>rs src t. records s = Inr rs \<and> find_record_in rs sn stag sd = Some src \<and> ttag = Some t)")
  case True
  assume u: "tags_unique s"
  from True obtain rs src t where r: "records s = Inr rs" "find_record_in rs sn stag sd = Some src" "ttag = Some t" by auto
  let ?r = "new_record now tn (Some t) (ir_manifest src) (ir_config src) (ir_size src) (ir_index src)"
  have "tags_unique (snd (save_records written (upsert_record rs ?r) s))"
    using u by (intro unique_save distinct_upsert records_unique [OF u r(1)])
  with True r show ?thesis by (auto simp: tag_record_def Let_def split: prod.splits sum.splits)
qed (auto simp: tag_record_def split: sum.splits option.splits)

lemma distinct_drop_one: "distinct xs \<Longrightarrow> distinct (take i xs @ drop (Suc i) xs)"
  by (metis distinct_append append_take_drop_id distinct_drop set_drop_subset drop_Suc drop_drop Suc_eq_plus1 set_take_disj_set_drop_if_distinct distinct_take le_Suc_eq order_refl)

lemma unique_remove: "tags_unique s \<Longrightarrow> tags_unique (snd (remove_image_record op lock written name tag digest s))"
proof (cases "records s")
  case (Inr rs)
  assume u: "tags_unique s"
  have "tags_unique (snd (save_records written (take i rs @ drop (Suc i) rs) s))" for i
    using distinct_drop_one [OF records_unique [OF u Inr], of i] u by (intro unique_save) (simp_all add: take_map drop_map)
  with Inr u show ?thesis
    by (auto simp: remove_image_record_def split: option.splits prod.splits sum.splits) (metis snd_conv)+
qed (auto simp: remove_image_record_def)

lemma gc_cases:
  assumes "gc_with_protected_from json fuel io protected s = Some (r, s')"
  obtains "s' = s" | keep gone unlocked rs where "records s = Inr rs" "fold_opt (keep_record json (g_readable io) s fuel) rs [] = Some keep"
    "sweep_rootfs (g_rootfs io) (rootfs_entry s) (protected ()) (keep_rootfs rs) (map fst (is_rootfs s)) = (r, gone, unlocked)"
    "is_blobs s' = sweep_blobs (g_unlink io) keep (is_blobs s)" "is_index s' = is_index s"
    "is_rootfs s' = filter (\<lambda>(name, _). \<not> (name \<in> set gone \<and> g_rmdir io name)) (is_rootfs s)"
proof (cases "g_operation io \<and> g_lock io \<and> (\<exists>rs. records s = Inr rs)")
  case True
  then obtain rs where rs: "records s = Inr rs" by auto
  obtain r' gone unlocked where sw: "sweep_rootfs (g_rootfs io) (rootfs_entry s) (protected ()) (keep_rootfs rs) (map fst (is_rootfs s)) =
      (r', gone, unlocked)" by (metis prod_cases3)
  show ?thesis
  proof (cases "fold_opt (keep_record json (g_readable io) s fuel) rs []")
    case (Some keep)
    have "r' = r" "is_blobs s' = sweep_blobs (g_unlink io) keep (is_blobs s)" "is_index s' = is_index s"
      "is_rootfs s' = filter (\<lambda>(name, _). \<not> (name \<in> set gone \<and> g_rmdir io name)) (is_rootfs s)"
      using assms True rs sw Some by (auto simp: gc_with_protected_from_def)
    with that(2) rs Some sw show ?thesis by blast
  qed (use assms True rs in \<open>simp add: gc_with_protected_from_def\<close>)
next
  case False
  with assms have "s' = s" by (cases "records s") (auto simp: gc_with_protected_from_def Let_def split: if_splits)
  then show ?thesis by (rule that(1))
qed

lemma step_frames [simp]:
  "tags_unique (snd (write_blob sha readable io d b s)) = tags_unique s"
  "tags_unique (snd (store_blob_stream sha readable io d reader s)) = tags_unique s"
  "tags_unique (snd (install_blob_file sha readable ok src s)) = tags_unique s"
  "blobs_sound sha (snd (add_index_image lock written now name tag md cd n idx s)) = blobs_sound sha s"
  "blobs_sound sha (snd (tag_record op lock written now sn stag sd tn ttag s)) = blobs_sound sha s"
  "blobs_sound sha (snd (remove_image_record op lock written name tag digest s)) = blobs_sound sha s"
  by (simp_all add: tags_unique_def blobs_sound_def)

lemma store_step_ok:
  assumes "store_step sha json s s'" and "blobs_sound sha s \<and> tags_unique s"
  shows "blobs_sound sha s' \<and> tags_unique s'"
  using assms(1)
proof cases
  case (step_gc fuel io protected r)
  from step_gc show ?thesis
    by (cases rule: gc_cases) (use assms(2) in \<open>auto simp: blobs_sound_def tags_unique_def sweep_blobs_def\<close>)
qed (use assms(2) in \<open>simp_all add: sound_write sound_stream sound_install_file unique_add unique_tag unique_remove\<close>)

inductive store_reachable :: "(string \<Rightarrow> string) \<Rightarrow> (string \<Rightarrow> json_view option) \<Rightarrow> image_store \<Rightarrow> bool"
  for sha json where
  store_init: "is_blobs s = [] \<Longrightarrow> is_index s = NoIndex \<Longrightarrow> store_reachable sha json s"
| store_next: "store_reachable sha json s \<Longrightarrow> store_step sha json s s' \<Longrightarrow> store_reachable sha json s'"

lemma store_reachable_ok: "store_reachable sha json s \<Longrightarrow> blobs_sound sha s \<and> tags_unique s"
proof (induction rule: store_reachable.induct)
  case (store_next s s')
  then show ?case using store_step_ok by blast
qed (simp add: blobs_sound_def tags_unique_def)

section \<open>Collections\<close>

lemma digest_hex_Inr: "digest_hex d = Inr hex \<longleftrightarrow> d = ''sha256:'' @ hex \<and> is_config_name hex"
proof
  show "digest_hex d = Inr hex \<Longrightarrow> d = ''sha256:'' @ hex \<and> is_config_name hex"
    by (auto simp: digest_hex_def is_config_name_def dest!: strip_prefix_SomeD split: option.splits if_splits)
  show "d = ''sha256:'' @ hex \<and> is_config_name hex \<Longrightarrow> digest_hex d = Inr hex"
    using strip_prefix_append [of "''sha256:''" hex] unfolding digest_hex_def is_config_name_def by simp
qed

lemma set_map_filter: "set (List.map_filter f xs) = {y. \<exists>x \<in> set xs. f x = Some y}"
  by (induction xs) (auto simp: List.map_filter_simps split: option.splits)

text \<open>Which entries of the root file systems a sweep removes.\<close>

lemma sweep_gone:
  assumes "sweep_rootfs lock path prot keep names = (r, gone, unlocked)" and "name \<in> set gone"
  shows "name \<in> set names \<and> name \<notin> set keep \<and> path name \<notin> set prot \<and> \<not> starts_with name ''.tmp-'' \<and>
    (is_config_name name \<longrightarrow> lock name = LockFree)"
  using assms
  by (induction names arbitrary: r gone unlocked)
    (auto split: if_splits lock_answer.splits prod.splits)

lemma sweep_gone_iff:
  assumes "sweep_rootfs lock path prot keep names = (Inr (), gone, unlocked)"
  shows "name \<in> set gone \<longleftrightarrow> name \<in> set names \<and> name \<notin> set keep \<and> path name \<notin> set prot \<and> \<not> starts_with name ''.tmp-'' \<and>
    (is_config_name name \<longrightarrow> lock name = LockFree)"
  using assms
  by (induction names arbitrary: gone unlocked) (auto split: if_splits lock_answer.splits prod.splits)

lemma gc_runs:
  assumes "records s = Inr rs" and "g_operation io" and "g_lock io" and "0 < fuel"
  shows "\<exists>r s'. gc_with_protected_from json fuel io protected s = Some (r, s')"
  using keep_records_marks [OF assms(4), of json "g_readable io" s rs "[]"] assms(1-3)
  by (auto simp: gc_with_protected_from_def Let_def split: prod.splits)

lemma gc_Inr:
  assumes "gc_with_protected_from json fuel io protected s = Some (Inr (), s')"
  obtains rs keep gone unlocked where "g_operation io" "g_lock io" "records s = Inr rs"
    "fold_opt (keep_record json (g_readable io) s fuel) rs [] = Some keep"
    "sweep_rootfs (g_rootfs io) (rootfs_entry s) (protected ()) (keep_rootfs rs) (map fst (is_rootfs s)) = (Inr (), gone, unlocked)"
    "is_blobs s' = sweep_blobs (g_unlink io) keep (is_blobs s)"
    "is_rootfs s' = filter (\<lambda>(name, _). \<not> (name \<in> set gone \<and> g_rmdir io name)) (is_rootfs s)"
proof -
  have o: "g_operation io" "g_lock io" using assms by (auto simp: gc_with_protected_from_def Let_def split: if_splits)
  then obtain rs where rs: "records s = Inr rs" using assms by (cases "records s") (auto simp: gc_with_protected_from_def)
  obtain keep where k: "fold_opt (keep_record json (g_readable io) s fuel) rs [] = Some keep"
    using assms o rs by (cases "fold_opt (keep_record json (g_readable io) s fuel) rs []") (auto simp: gc_with_protected_from_def)
  obtain r gone unlocked where sw: "sweep_rootfs (g_rootfs io) (rootfs_entry s) (protected ()) (keep_rootfs rs) (map fst (is_rootfs s)) =
      (r, gone, unlocked)" by (metis prod_cases3)
  show ?thesis
    by (rule that [OF o rs k, of gone unlocked]) (use assms o rs k sw in \<open>auto simp: gc_with_protected_from_def\<close>)
qed

lemma find_upsert_same: "ir_tag r = Some t \<Longrightarrow> find (\<lambda>q. ir_name q = ir_name r \<and> ir_tag q = Some t) (upsert_record rs r) = Some r"
  unfolding upsert_record_def by (induction rs) auto

lemma find_upsert_other:
  "(name, Some t) \<noteq> (ir_name r, ir_tag r) \<Longrightarrow>
    find (\<lambda>q. ir_name q = name \<and> ir_tag q = Some t) (upsert_record rs r) = find (\<lambda>q. ir_name q = name \<and> ir_tag q = Some t) rs"
  unfolding upsert_record_def by (induction rs) auto

lemma sum_split: "sum_list (map (\<lambda>x. if P x then f x else (0 :: nat)) xs) + sum_list (map f (filter (\<lambda>x. \<not> P x) xs)) = sum_list (map f xs)"
  by (induction xs) auto

text \<open>The bytes of the store, and those of root file systems that are being unpacked.\<close>

definition store_bytes :: "(string \<Rightarrow> nat) \<Rightarrow> image_store \<Rightarrow> nat" where
  "store_bytes blob_size s = sum_list (map (\<lambda>e. blob_size (fst e)) (is_blobs s)) + sum_list (map snd (is_rootfs s))"

definition staging_bytes :: "image_store \<Rightarrow> nat" where
  "staging_bytes s = sum_list (map (\<lambda>e. if starts_with (fst e) ''.tmp-'' then snd e else 0) (is_rootfs s))"

end
