(* ===== verification/Image_Store_Props.thy ===== *)
theory Image_Store_Props
  imports Image_Store_Facts
begin

text \<open>
  The properties of the image store, with a small store to try them on.
\<close>

section \<open>A sample store\<close>

definition hex_of :: "char \<Rightarrow> string" where "hex_of c = replicate 64 c"

definition dig :: "char \<Rightarrow> string" where "dig c = ''sha256:'' @ hex_of c"

lemma hex_of_simps [simp]: "is_config_name (hex_of CHR ''a'')" "is_config_name (hex_of CHR ''b'')" "is_config_name (hex_of CHR ''c'')"
  "hex_of c = hex_of d \<longleftrightarrow> c = d" "dig c = dig d \<longleftrightarrow> c = d" "''sha256:'' @ hex_of c = dig d \<longleftrightarrow> c = d"
  by (simp_all add: is_config_name_def hex_of_def list_all_iff ascii_class_defs dig_def)

lemma digest_hex_dig [simp]: "is_config_name (hex_of c) \<Longrightarrow> digest_hex (dig c) = Inr (hex_of c)"
  by (simp only: digest_hex_Inr dig_def)

definition sample_image :: ImageRecord where
  "sample_image = \<lparr>ir_name = ''docker.io/library/alpine'', ir_tag = Some ''latest'', ir_manifest = dig CHR ''a'', ir_index = None,
     ir_config = dig CHR ''b'', ir_size = 1, ir_created = 0\<rparr>"

definition sample_store :: image_store where
  "sample_store = \<lparr>is_root = ''/data'', is_blobs = [(hex_of CHR ''a'', BlobFile ''M''), (hex_of CHR ''b'', BlobFile ''C''), (hex_of CHR ''c'', BlobFile ''L'')],
     is_rootfs = [(hex_of CHR ''b'', 5)], is_locks = [], is_index = IndexFile [sample_image]\<rparr>"

definition desc :: "char \<Rightarrow> Descriptor" where
  "desc c = \<lparr>d_media_type = [], d_digest = dig c, d_size = 1, d_platform = None\<rparr>"

text \<open>The manifest \<open>M\<close> has the configuration \<open>C\<close> and the layer \<open>L\<close>; the index \<open>I\<close> lists itself.\<close>

definition sample_json :: "string \<Rightarrow> json_view option" where
  "sample_json b =
     (if b = ''M'' then Some \<lparr>has_manifests = False, as_index = None, as_manifest = Some \<lparr>m_config = desc CHR ''b'', m_layers = [desc CHR ''c'']\<rparr>\<rparr>
      else if b = ''I'' then Some \<lparr>has_manifests = True, as_index = Some \<lparr>i_manifests = [desc CHR ''a'']\<rparr>, as_manifest = None\<rparr>
      else None)"

definition sample_gc :: gc_io where
  "sample_gc = \<lparr>g_operation = True, g_lock = True, g_readable = (\<lambda>_. True), g_unlink = (\<lambda>_. True), g_rootfs = (\<lambda>_. LockFree),
     g_rmdir = (\<lambda>_. True)\<rparr>"

section \<open>Properties\<close>

text \<open>C18: Whatever sequence of writes, streamed downloads, installations, tags, removals and collections built the image store, every blob
  it serves has the SHA-256 digest it was asked for, and no two records of the index carry the same name and tag.\<close>

theorem image_store_invariant:
  assumes "store_reachable sha json s"
  shows "(read_blob readable digest s = Inr (Some b) \<longrightarrow> digest = ''sha256:'' @ sha b) \<and>
    (records s = Inr rs \<longrightarrow> distinct (map (\<lambda>r. (ir_name r, ir_tag r)) rs))"
proof -
  note ok = store_reachable_ok [OF assms]
  have "digest = ''sha256:'' @ sha b" if "read_blob readable digest s = Inr (Some b)"
  proof -
    from read_blob_SomeD [OF that] obtain hex where h: "digest_hex digest = Inr hex" "map_of (is_blobs s) hex = Some (BlobFile b)" by auto
    from h(2) have "(hex, BlobFile b) \<in> set (is_blobs s)" by (rule map_of_SomeD)
    with ok h(1) show ?thesis by (auto simp: blobs_sound_def digest_hex_Inr)
  qed
  with ok records_unique show ?thesis by blast
qed

theorem image_store_invariant_witness:
  "\<exists>s. store_reachable (\<lambda>_. hex_of CHR ''a'') sample_json s \<and> read_blob (\<lambda>_. True) (dig CHR ''a'') s = Inr (Some ''x'') \<and>
     dig CHR ''a'' = ''sha256:'' @ hex_of CHR ''a''"
proof -
  let ?empty = "\<lparr>is_root = ''/data'', is_blobs = [], is_rootfs = [], is_locks = [], is_index = NoIndex\<rparr>"
  let ?io = "\<lparr>io_tmp = ''.tmp-1'', io_create = True, io_write = True, io_rename = True, io_left = None\<rparr>"
  let ?sha = "\<lambda>_. hex_of CHR ''a''"
  let ?s = "snd (write_blob ?sha (\<lambda>_. True) ?io (dig CHR ''a'') ''x'' ?empty)"
  have i: "store_reachable ?sha sample_json ?empty" by (rule store_init) simp_all
  have "tmp_ok ?io" by (simp add: tmp_ok_def starts_with_def)
  then have r: "store_reachable ?sha sample_json ?s" by (rule store_next [OF i step_write])
  have b: "read_blob (\<lambda>_. True) (dig CHR ''a'') ?s = Inr (Some ''x'')"
    by (simp add: read_blob_def write_blob_def verify_blob_def install_blob_temp_def set_blobs_def)
  from image_store_invariant [OF r, of "\<lambda>_. True" "dig CHR ''a''" "''x''" "[]"] r b show ?thesis by blast
qed



text \<open>C20: The root file system a container record was created on survives every collection, whatever the index holds, when the path of
  the data root is canonical and the record's path resolves to that entry.\<close>

theorem gc_keeps_container_rootfs:
  assumes "st \<in> set (list_states run_root dir)" and "cs_lower st = Some lower" and "canon lower = Some (rootfs_entry s name)"
    and "canon (is_root s @ ''/rootfs'') = Some (is_root s @ ''/rootfs'')" and "(name, n) \<in> set (is_rootfs s)"
    and "gc_with_protected_from json fuel io (\<lambda>_. protected_image_rootfs canon s run_root dir) s = Some (r, s')"
  shows "(name, n) \<in> set (is_rootfs s')"
proof -
  have "rootfs_entry s name \<in> set (protected_image_rootfs canon s run_root dir)"
    using assms(1-4)
    by (auto simp: protected_image_rootfs_def protected_image_rootfs_excluding_def set_map_filter rootfs_entry_def starts_with_iff
      intro!: bexI [of _ st])
  with assms(6,5) show ?thesis by (cases rule: gc_cases) (auto dest: sweep_gone)
qed

theorem gc_keeps_container_rootfs_witness:
  "let st = (blank_record ''ab'' ''t'')\<lparr>cs_lower := Some ''/data/rootfs/old''\<rparr>; dir = [(''ab'', Directory, Saved st)];
       s = sample_store\<lparr>is_rootfs := [(''old'', 3)], is_index := NoIndex\<rparr>
   in \<exists>r s'. gc_with_protected_from sample_json 1 sample_gc (\<lambda>_. protected_image_rootfs Some s ''/run'' dir) s = Some (r, s') \<and>
     (''old'', 3) \<in> set (is_rootfs s')"
proof -
  let ?st = "(blank_record ''ab'' ''t'')\<lparr>cs_lower := Some ''/data/rootfs/old''\<rparr>"
  let ?dir = "[(''ab'', Directory, Saved ?st)]" and ?s = "sample_store\<lparr>is_rootfs := [(''old'', 3)], is_index := NoIndex\<rparr>"
  let ?st' = "?st\<lparr>cs_log := log_path ''/run'' ''ab''\<rparr>"
  have "load ''/run'' ?dir ''ab'' = Some ?st'" by (simp add: load_def valid_id_ab)
  then have l: "?st' \<in> set (list_states ''/run'' ?dir)" by (simp add: set_list_states)
  have rs: "records ?s = Inr []" by (simp add: records_def)
  have io: "g_operation sample_gc" "g_lock sample_gc" by (simp_all add: sample_gc_def)
  obtain r s' where g: "gc_with_protected_from sample_json 1 sample_gc (\<lambda>_. protected_image_rootfs Some ?s ''/run'' ?dir) ?s = Some (r, s')"
    using gc_runs [OF rs io zero_less_one] by blast
  have "(''old'', 3) \<in> set (is_rootfs s')"
    by (rule gc_keeps_container_rootfs [OF l _ _ _ _ g]) (simp_all add: rootfs_entry_def sample_store_def)
  with g show ?thesis by (auto simp: Let_def)
qed

text \<open>C31: Marking what a manifest or an index reaches ends for every set of blobs, indexes that list themselves included, and only adds
  marks: a depth of one more than the number of blobs is enough.\<close>

theorem keep_tree_terminates:
  assumes "length (is_blobs s) < fuel"
  shows "\<exists>marked. keep_manifest_tree json readable s fuel digest keep = Some marked \<and> set keep \<subseteq> set marked"
proof (rule keep_tree_enough)
  have "card (followed readable s - set keep) \<le> card (followed readable s)"
    using followed_finite(1) by (intro card_mono) auto
  with assms followed_finite(2) [of readable s] show "card (followed readable s - set keep) < fuel" by linarith
qed

theorem keep_tree_terminates_witness:
  "\<exists>marked. keep_manifest_tree sample_json (\<lambda>_. True) (sample_store\<lparr>is_blobs := [(hex_of CHR ''a'', BlobFile ''I'')]\<rparr>) 2 (dig CHR ''a'') [] = Some marked"
  using keep_tree_terminates [of "sample_store\<lparr>is_blobs := [(hex_of CHR ''a'', BlobFile ''I'')]\<rparr>" 2 sample_json "\<lambda>_. True" "dig CHR ''a''" "[]"]
  by auto

text \<open>Tagging an image gives a record with the digests of its source that the new reference finds; every other reference finds what it
  found before, and neither blobs nor root file systems change.\<close>

lemma tag_then_find:
  assumes "tag_record op lock written now source_name source_tag source_digest target (Some t) s = (Inr r, s')"
  shows "\<exists>src. find_record source_name source_tag source_digest s = Inr (Some src) \<and>
    ir_manifest r = ir_manifest src \<and> ir_config r = ir_config src \<and> ir_index r = ir_index src \<and>
    find_record target (Some t) None s' = Inr (Some r) \<and>
    (\<forall>name u. (name, u) \<noteq> (target, t) \<longrightarrow> find_record name (Some u) None s' = find_record name (Some u) None s) \<and>
    is_blobs s' = is_blobs s \<and> is_rootfs s' = is_rootfs s"
proof -
  obtain rs src where rs: "records s = Inr rs" and src: "find_record_in rs source_name source_tag source_digest = Some src"
    and r: "r = new_record now target (Some t) (ir_manifest src) (ir_config src) (ir_size src) (ir_index src)"
    and s': "s' = s\<lparr>is_index := IndexFile (upsert_record rs r)\<rparr>"
    using assms by (auto simp: tag_record_def save_records_def Let_def split: if_splits sum.splits option.splits)
  have new: "records s' = Inr (upsert_record rs r)" by (simp add: s' records_def)
  have "ir_name r = target" "ir_tag r = Some t" by (simp_all add: r new_record_def)
  with find_upsert_same [of r t rs] find_upsert_other [of _ _ r rs] rs new src s' show ?thesis
    by (auto simp: find_record_def find_record_in_def r new_record_def)
qed

lemma tag_then_find_witness:
  "\<exists>r s'. tag_record True True True 1 ''docker.io/library/alpine'' None None ''docker.io/x'' (Some ''v1'') sample_store = (Inr r, s') \<and>
     find_record ''docker.io/x'' (Some ''v1'') None s' = Inr (Some r)"
proof -
  obtain r s' where t: "tag_record True True True 1 ''docker.io/library/alpine'' None None ''docker.io/x'' (Some ''v1'') sample_store = (Inr r, s')"
    by (simp add: tag_record_def records_def sample_store_def find_record_in_def sample_image_def save_records_def Let_def)
  from tag_then_find [OF t] t show ?thesis by blast
qed

text \<open>C32: The dry run reports what the collection then frees, when every file can be removed, plus the size of root file systems that are
  being unpacked: the dry run counts them and the collection leaves them alone.\<close>

theorem dry_run_matches_gc:
  assumes "reclaimable_bytes_with_protected json fuel io blob_size (protected ()) s = Some n"
    and "gc_with_protected_from json fuel io protected s = Some (Inr (), s')"
    and "\<And>name. g_unlink io name \<and> g_rmdir io name" and "\<And>name. (name, BlobDir) \<notin> set (is_blobs s)"
  shows "n + store_bytes blob_size s' = store_bytes blob_size s + staging_bytes s"
proof -
  obtain rs keep gone unlocked where g: "g_operation io" "g_lock io" "records s = Inr rs"
    "fold_opt (keep_record json (g_readable io) s fuel) rs [] = Some keep"
    and sw: "sweep_rootfs (g_rootfs io) (rootfs_entry s) (protected ()) (keep_rootfs rs) (map fst (is_rootfs s)) = (Inr (), gone, unlocked)"
    and b': "is_blobs s' = sweep_blobs (g_unlink io) keep (is_blobs s)"
    and r': "is_rootfs s' = filter (\<lambda>(name, _). \<not> (name \<in> set gone \<and> g_rmdir io name)) (is_rootfs s)"
    using assms(2) by (rule gc_Inr)
  let ?B = "\<lambda>e. sweeps_blob keep (fst e)" and ?G = "\<lambda>e. fst e \<in> set gone"
  have blobs: "is_blobs s' = filter (\<lambda>e. \<not> ?B e) (is_blobs s)"
    unfolding b' sweep_blobs_def using assms(3,4) by (intro filter_cong) auto
  have roots: "is_rootfs s' = filter (\<lambda>e. \<not> ?G e) (is_rootfs s)"
    unfolding r' using assms(3) by (intro filter_cong) auto
  have "n = sum_list (map (\<lambda>e. if ?B e then blob_size (fst e) else 0) (is_blobs s))
      + sum_list (map (\<lambda>e. if starts_with (fst e) ''.tmp-'' then snd e
          else if fst e \<in> set (keep_rootfs rs) \<or> rootfs_entry s (fst e) \<in> set (protected ()) then 0
          else if is_config_name (fst e) \<and> g_rootfs io (fst e) \<noteq> LockFree then 0 else snd e) (is_rootfs s))"
    using assms(1) g by (simp add: reclaimable_bytes_with_protected_def split_def)
  also have "sum_list (map (\<lambda>e. if starts_with (fst e) ''.tmp-'' then snd e
          else if fst e \<in> set (keep_rootfs rs) \<or> rootfs_entry s (fst e) \<in> set (protected ()) then 0
          else if is_config_name (fst e) \<and> g_rootfs io (fst e) \<noteq> LockFree then 0 else snd e) (is_rootfs s)) =
      sum_list (map (\<lambda>e. (if ?G e then snd e else 0) + (if starts_with (fst e) ''.tmp-'' then snd e else 0)) (is_rootfs s))"
    by (intro arg_cong [where f = sum_list] map_cong) (auto simp: sweep_gone_iff [OF sw])
  also have "\<dots> = sum_list (map (\<lambda>e. if ?G e then snd e else 0) (is_rootfs s)) + staging_bytes s"
    by (simp add: sum_list_addf staging_bytes_def)
  finally show ?thesis
    using sum_split [of ?B "\<lambda>e. blob_size (fst e)" "is_blobs s"] sum_split [of ?G snd "is_rootfs s"]
    by (simp add: store_bytes_def blobs roots)
qed

theorem dry_run_matches_gc_witness:
  "\<exists>n s'. gc_with_protected_from sample_json 1 sample_gc (\<lambda>_. []) (sample_store\<lparr>is_rootfs := [(''.tmp-1'', 7)]\<rparr>) = Some (Inr (), s') \<and>
     reclaimable_bytes_with_protected sample_json 1 sample_gc (\<lambda>_. 1) [] (sample_store\<lparr>is_rootfs := [(''.tmp-1'', 7)]\<rparr>) = Some n \<and>
     n + store_bytes (\<lambda>_. 1) s' = store_bytes (\<lambda>_. 1) (sample_store\<lparr>is_rootfs := [(''.tmp-1'', 7)]\<rparr>) + 7"
proof -
  let ?s = "sample_store\<lparr>is_rootfs := [(''.tmp-1'', 7)]\<rparr>"
  have io: "g_operation sample_gc" "g_lock sample_gc" by (simp_all add: sample_gc_def)
  have rs: "records ?s = Inr [sample_image]" by (simp add: records_def sample_store_def)
  obtain keep where k: "fold_opt (keep_record sample_json (g_readable sample_gc) ?s 1) [sample_image] [] = Some keep"
    using keep_records_marks [OF zero_less_one] by metis
  obtain s' where g: "gc_with_protected_from sample_json 1 sample_gc (\<lambda>_. []) ?s = Some (Inr (), s')"
    using io rs k by (simp add: gc_with_protected_from_def starts_with_def)
  moreover obtain n where n: "reclaimable_bytes_with_protected sample_json 1 sample_gc (\<lambda>_. 1) [] ?s = Some n"
    using io rs k by (simp add: reclaimable_bytes_with_protected_def)
  moreover have "n + store_bytes (\<lambda>_. 1) s' = store_bytes (\<lambda>_. 1) ?s + staging_bytes ?s"
    by (rule dry_run_matches_gc [OF n g]) (simp_all add: sample_gc_def sample_store_def)
  ultimately show ?thesis by (auto simp: staging_bytes_def starts_with_def)
qed

end
