(* ===== verification/File_System.thy ===== *)
theory File_System
  imports Rust_Str "HOL-Library.Sublist" "HOL-Library.AList"
begin

text \<open>
  The file system as the sources see it through \<open>std::fs\<close>: a tree of directories, files, symbolic links and special files, paths as
  the kernel resolves them, and the operations the sources call.

  An absolute path is the list of its names. The kernel may refuse any change or read (\<open>k_allow\<close>); \<open>k_dir_mode\<close> and
  \<open>k_file_mode\<close> are the modes the umask leaves of a new directory and a new file. A file has one name: hard links copy it.
\<close>

section \<open>The tree\<close>

datatype fnode =
    Dir nat "(string \<times> fnode) list"
  | File nat string
  | Link string
  | Device nat
  | Other

type_synonym path = "string list"

fun node_at :: "fnode \<Rightarrow> path \<Rightarrow> fnode option" where
  "node_at n [] = Some n"
| "node_at n (c # p) = (case n of
      Dir _ es \<Rightarrow> (case map_of es c of None \<Rightarrow> None | Some k \<Rightarrow> node_at k p)
    | _ \<Rightarrow> None)"

fun store_at :: "fnode option \<Rightarrow> path \<Rightarrow> fnode \<Rightarrow> fnode" where
  "store_at v [] n = n"
| "store_at v (c # p) n = (case n of
      Dir m es \<Rightarrow>
        if p = [] then Dir m (case v of None \<Rightarrow> AList.delete c es | Some k \<Rightarrow> AList.update c k es)
        else (case map_of es c of None \<Rightarrow> n | Some k \<Rightarrow> Dir m (AList.update c (store_at v p k) es))
    | _ \<Rightarrow> n)"

text \<open>What is found at a path, without what a directory holds.\<close>

datatype inode = IDir nat | IFile nat string | ILink string | IDevice nat | IOther

fun inode_of :: "fnode \<Rightarrow> inode" where
  "inode_of (Dir m _) = IDir m"
| "inode_of (File m d) = IFile m d"
| "inode_of (Link t) = ILink t"
| "inode_of (Device d) = IDevice d"
| "inode_of Other = IOther"

definition info :: "fnode \<Rightarrow> path \<Rightarrow> inode option" where
  "info t p = map_option inode_of (node_at t p)"

definition is_link :: "fnode \<Rightarrow> path \<Rightarrow> bool" where
  "is_link t p \<longleftrightarrow> (\<exists>l. info t p = Some (ILink l))"

definition is_dir_at :: "fnode \<Rightarrow> path \<Rightarrow> bool" where
  "is_dir_at t p \<longleftrightarrow> (\<exists>m. info t p = Some (IDir m))"

section \<open>Path resolution\<close>

datatype io_error = NotFound | NotADirectory | IsADirectory | AlreadyExists | NotEmpty | TooManyLinks | PermissionDenied | InvalidInput

text \<open>The kernel's walk from the directory \<open>cur\<close>: \<open>follow\<close> says whether a link in the last place is followed, \<open>links\<close> how many
  links may still be followed.\<close>

function walk :: "fnode \<Rightarrow> nat \<Rightarrow> bool \<Rightarrow> path \<Rightarrow> string list \<Rightarrow> io_error + path" where
  "walk t links follow cur [] = Inr cur"
| "walk t links follow cur (c # cs) =
     (if c = ''..'' then walk t links follow (butlast cur) cs
      else (case node_at t (cur @ [c]) of
          None \<Rightarrow> if cs = [] then Inr (cur @ [c]) else Inl NotFound
        | Some (Link target) \<Rightarrow>
            if cs = [] \<and> \<not> follow then Inr (cur @ [c])
            else if links = 0 then Inl TooManyLinks
            else walk t (links - 1) follow (if starts_with target ''/'' then [] else cur) (path_parts target @ cs)
        | Some (Dir _ _) \<Rightarrow> walk t links follow (cur @ [c]) cs
        | Some _ \<Rightarrow> if cs = [] then Inr (cur @ [c]) else Inl NotADirectory))"
  by pat_completeness auto
termination by (relation "measures [\<lambda>(t, links, follow, cur, cs). links, \<lambda>(t, links, follow, cur, cs). length cs]") auto

abbreviation locate :: "fnode \<Rightarrow> bool \<Rightarrow> path \<Rightarrow> io_error + path" where
  "locate t follow p \<equiv> walk t 40 follow [] p"

definition lstat :: "fnode \<Rightarrow> path \<Rightarrow> io_error + fnode" where
  "lstat t p = and_then (locate t False p) (\<lambda>q. ok_or NotFound (node_at t q))"

definition stat :: "fnode \<Rightarrow> path \<Rightarrow> io_error + fnode" where
  "stat t p = and_then (locate t True p) (\<lambda>q. ok_or NotFound (node_at t q))"

definition is_dir :: "fnode \<Rightarrow> path \<Rightarrow> bool" where
  "is_dir t p = (case stat t p of Inr (Dir _ _) \<Rightarrow> True | _ \<Rightarrow> False)"

definition canonicalize :: "fnode \<Rightarrow> path \<Rightarrow> path option" where
  "canonicalize t p = (case locate t True p of
      Inl _ \<Rightarrow> None
    | Inr q \<Rightarrow> if node_at t q = None then None else Some q)"

section \<open>Operations\<close>

datatype fs_op = Mkdir | Unlink | Rmdir | Create | Write | Symlink | Hardlink | Chmod | Rename | Read | Readdir | Readdir_Again

record kernel =
  k_allow :: "fs_op \<Rightarrow> path \<Rightarrow> bool"
  k_dir_mode :: nat
  k_file_mode :: nat

type_synonym 'a fs_result = "(io_error + 'a) \<times> fnode"

definition bindf :: "('e + 'a) \<times> fnode \<Rightarrow> ('a \<Rightarrow> fnode \<Rightarrow> ('e + 'b) \<times> fnode) \<Rightarrow> ('e + 'b) \<times> fnode" where
  "bindf m f = (case m of (Inl e, t) \<Rightarrow> (Inl e, t) | (Inr x, t) \<Rightarrow> f x t)"

text \<open>A change at a resolved path, when the kernel allows it.\<close>

definition change :: "kernel \<Rightarrow> fs_op \<Rightarrow> fnode option \<Rightarrow> path \<Rightarrow> fnode \<Rightarrow> unit fs_result" where
  "change k op v q t = (if k_allow k op q then (Inr (), store_at v q t) else (Inl PermissionDenied, t))"

definition mkdir :: "kernel \<Rightarrow> path \<Rightarrow> fnode \<Rightarrow> unit fs_result" where
  "mkdir k p t = (case locate t False p of
      Inl e \<Rightarrow> (Inl e, t)
    | Inr q \<Rightarrow> if node_at t q \<noteq> None then (Inl AlreadyExists, t) else change k Mkdir (Some (Dir (k_dir_mode k) [])) q t)"

definition remove_file :: "kernel \<Rightarrow> path \<Rightarrow> fnode \<Rightarrow> unit fs_result" where
  "remove_file k p t = (case locate t False p of
      Inl e \<Rightarrow> (Inl e, t)
    | Inr q \<Rightarrow> (case node_at t q of
          None \<Rightarrow> (Inl NotFound, t)
        | Some (Dir _ _) \<Rightarrow> (Inl IsADirectory, t)
        | Some _ \<Rightarrow> change k Unlink None q t))"

definition remove_dir :: "kernel \<Rightarrow> path \<Rightarrow> fnode \<Rightarrow> unit fs_result" where
  "remove_dir k p t = (case locate t False p of
      Inl e \<Rightarrow> (Inl e, t)
    | Inr q \<Rightarrow> (case node_at t q of
          None \<Rightarrow> (Inl NotFound, t)
        | Some (Dir _ es) \<Rightarrow> if es \<noteq> [] then (Inl NotEmpty, t) else change k Rmdir None q t
        | Some _ \<Rightarrow> (Inl NotADirectory, t)))"

text \<open>\<open>OpenOptions\<close> with write, create, truncate and \<open>O_NOFOLLOW\<close>, and the copy of \<open>data\<close> into the file. What is written to a
  special file does not stay in the tree; a copy that fails leaves the part before the failure.\<close>

definition write_new :: "kernel \<Rightarrow> path \<Rightarrow> string \<Rightarrow> fnode \<Rightarrow> unit fs_result" where
  "write_new k p data t = (case locate t False p of
      Inl e \<Rightarrow> (Inl e, t)
    | Inr q \<Rightarrow> (case node_at t q of
          Some (Dir _ _) \<Rightarrow> (Inl IsADirectory, t)
        | Some (Link _) \<Rightarrow> (Inl TooManyLinks, t)
        | Some (File m _) \<Rightarrow> change k Write (Some (File m data)) q t
        | None \<Rightarrow> change k Create (Some (File (k_file_mode k) data)) q t
        | Some _ \<Rightarrow> (if k_allow k Write q then Inr () else Inl PermissionDenied, t)))"

definition symlink :: "kernel \<Rightarrow> string \<Rightarrow> path \<Rightarrow> fnode \<Rightarrow> unit fs_result" where
  "symlink k target p t = (case locate t False p of
      Inl e \<Rightarrow> (Inl e, t)
    | Inr q \<Rightarrow> if node_at t q \<noteq> None then (Inl AlreadyExists, t) else change k Symlink (Some (Link target)) q t)"

definition hard_link :: "kernel \<Rightarrow> path \<Rightarrow> path \<Rightarrow> fnode \<Rightarrow> unit fs_result" where
  "hard_link k source p t = (case lstat t source of
      Inl e \<Rightarrow> (Inl e, t)
    | Inr (Dir _ _) \<Rightarrow> (Inl PermissionDenied, t)
    | Inr n \<Rightarrow> (case locate t False p of
          Inl e \<Rightarrow> (Inl e, t)
        | Inr q \<Rightarrow> if node_at t q \<noteq> None then (Inl AlreadyExists, t) else change k Hardlink (Some n) q t))"

fun with_mode :: "nat \<Rightarrow> fnode \<Rightarrow> fnode" where
  "with_mode m (Dir _ es) = Dir m es"
| "with_mode m (File _ d) = File m d"
| "with_mode m n = n"

definition set_permissions :: "kernel \<Rightarrow> nat \<Rightarrow> path \<Rightarrow> fnode \<Rightarrow> unit fs_result" where
  "set_permissions k mode p t = (case locate t True p of
      Inl e \<Rightarrow> (Inl e, t)
    | Inr q \<Rightarrow> (case node_at t q of
          None \<Rightarrow> (Inl NotFound, t)
        | Some n \<Rightarrow> change k Chmod (Some (with_mode mode n)) q t))"

text \<open>\<open>create_new\<close> (\<open>O_EXCL\<close>) with \<open>data\<close>, and \<open>rename\<close>: a directory may replace an empty directory only, and cannot be moved below
  itself.\<close>

definition create_new :: "kernel \<Rightarrow> path \<Rightarrow> string \<Rightarrow> fnode \<Rightarrow> unit fs_result" where
  "create_new k p data t = (case locate t False p of
      Inl e \<Rightarrow> (Inl e, t)
    | Inr q \<Rightarrow> if node_at t q \<noteq> None then (Inl AlreadyExists, t) else change k Create (Some (File (k_file_mode k) data)) q t)"

fun is_dir_node :: "fnode \<Rightarrow> bool" where
  "is_dir_node (Dir _ _) = True"
| "is_dir_node _ = False"

definition rename :: "kernel \<Rightarrow> path \<Rightarrow> path \<Rightarrow> fnode \<Rightarrow> unit fs_result" where
  "rename k p p' t = (case (locate t False p, locate t False p') of
      (Inl e, _) \<Rightarrow> (Inl e, t)
    | (_, Inl e) \<Rightarrow> (Inl e, t)
    | (Inr q, Inr q') \<Rightarrow> (case node_at t q of
          None \<Rightarrow> (Inl NotFound, t)
        | Some n \<Rightarrow>
            (let move = (if k_allow k Rename q then (Inr (), store_at (Some n) q' (store_at None q t)) else (Inl PermissionDenied, t)) in
             if q = q' then (Inr (), t)
             else if prefix q q' then (Inl InvalidInput, t)
             else (case node_at t q' of
                 None \<Rightarrow> move
               | Some (Dir _ es) \<Rightarrow>
                   if \<not> is_dir_node n then (Inl IsADirectory, t) else if es \<noteq> [] then (Inl NotEmpty, t) else move
               | Some _ \<Rightarrow> if is_dir_node n then (Inl NotADirectory, t) else move))))"

text \<open>\<open>create_dir_all\<close>: when the directory cannot be made because its parent is missing, the parent first.\<close>

function create_dir_all :: "kernel \<Rightarrow> path \<Rightarrow> fnode \<Rightarrow> unit fs_result" where
  "create_dir_all k p t =
     (if p = [] then (Inr (), t)
      else (case mkdir k p t of
          (Inr _, t) \<Rightarrow> (Inr (), t)
        | (Inl e, t) \<Rightarrow>
            if e = NotFound then
              (case create_dir_all k (butlast p) t of
                 (Inl e, t) \<Rightarrow> (Inl e, t)
               | (Inr _, t) \<Rightarrow> (case mkdir k p t of
                     (Inr _, t) \<Rightarrow> (Inr (), t)
                   | (Inl e, t) \<Rightarrow> if is_dir t p then (Inr (), t) else (Inl e, t)))
            else if is_dir t p then (Inr (), t) else (Inl e, t)))"
  by pat_completeness auto
termination by (relation "measure (\<lambda>(k, p, t). length p)") auto

declare create_dir_all.simps [simp del]

end
