(* ===== verification/File_System_Facts.thy ===== *)
theory File_System_Facts
  imports File_System
begin

text \<open>
  The laws of the file system: what an operation at a path may change, when a path is resolved literally, and the interface
  \<open>mutator\<close> of the operations that change nothing but what is below the path they are given.
\<close>

section \<open>Laws of the tree\<close>

lemma node_at_append: "node_at t (p @ q) = Option.bind (node_at t p) (\<lambda>n. node_at n q)"
  by (induction p arbitrary: t) (auto split: fnode.splits option.splits)

lemma node_at_snoc_dir: "node_at t (p @ [c]) = Some n \<Longrightarrow> is_dir_at t p"
  by (cases "node_at t p") (auto simp: node_at_append is_dir_at_def info_def split: fnode.splits)

lemma info_store_other: "\<not> prefix p q \<Longrightarrow> info (store_at v p t) q = info t q"
proof (induction p arbitrary: q t)
  case (Cons c p)
  show ?case
  proof (cases q)
    case Nil
    then show ?thesis by (cases t) (auto simp: info_def split: option.splits)
  next
    case q: (Cons d q')
    show ?thesis
    proof (cases "d = c")
      case True
      with Cons.prems q have "\<not> prefix p q'" by simp
      moreover from this have "p \<noteq> []" by auto
      ultimately show ?thesis
        using Cons.IH q True by (cases t) (auto simp: info_def update_conv' split: option.splits)
    next
      case False
      then show ?thesis
        using q by (cases t) (auto simp: info_def update_conv' delete_conv' split: option.splits)
    qed
  qed
qed simp

lemma node_store_at:
  assumes "is_dir_at t p"
  shows "node_at (store_at v (p @ [c]) t) (p @ c # r) = Option.bind v (\<lambda>n. node_at n r)"
  using assms
proof (induction p arbitrary: t)
  case Nil
  then show ?case by (cases t) (auto simp: is_dir_at_def info_def update_conv' delete_conv' split: option.splits)
next
  case (Cons d p)
  then show ?case by (cases t) (auto simp: is_dir_at_def info_def update_conv' split: option.splits)
qed

lemma is_dir_not_link: "is_dir_at t p \<Longrightarrow> \<not> is_link t p"
  by (auto simp: is_dir_at_def is_link_def)

text \<open>What an operation at a path may change.\<close>

definition touches :: "path \<Rightarrow> fnode \<Rightarrow> fnode \<Rightarrow> bool" where
  "touches p t t' \<longleftrightarrow> (\<forall>q. \<not> prefix p q \<longrightarrow> info t' q = info t q)"

lemma touches_refl [simp]: "touches p t t"
  by (simp add: touches_def)

lemma touches_trans [trans]: "touches p a b \<Longrightarrow> touches p b c \<Longrightarrow> touches p a c"
  by (simp add: touches_def)

lemma touches_weaken: "touches p a b \<Longrightarrow> prefix q p \<Longrightarrow> touches q a b"
  by (auto simp: touches_def dest: prefix_order.trans)

lemma touches_store [simp]: "touches p t (store_at v p t)"
  by (simp add: touches_def info_store_other)

lemma touches_strict: "touches p a b \<Longrightarrow> strict_prefix q p \<Longrightarrow> info b q = info a q"
  by (auto simp: touches_def strict_prefix_def dest: prefix_order.antisym)

section \<open>Literal paths\<close>

text \<open>A path that resolves to itself or to nothing: no name on the way is a link or leads up.\<close>

definition clean :: "fnode \<Rightarrow> path \<Rightarrow> bool" where
  "clean t p \<longleftrightarrow> ''..'' \<notin> set p \<and> (\<forall>q. strict_prefix q p \<longrightarrow> \<not> is_link t q)"

lemma walk_literal:
  assumes "''..'' \<notin> set cs" and "\<And>ds. strict_prefix ds cs \<Longrightarrow> ds \<noteq> [] \<Longrightarrow> \<not> is_link t (cur @ ds)"
    and "follow \<Longrightarrow> cs \<noteq> [] \<Longrightarrow> \<not> is_link t (cur @ cs)" and "walk t l follow cur cs = Inr r"
  shows "r = cur @ cs"
  using assms
proof (induction cs arbitrary: cur)
  case (Cons c cs)
  have link: "\<not> is_link t (cur @ [c])" if "cs \<noteq> [] \<or> follow"
    using that Cons.prems(2) [of "[c]"] Cons.prems(3) by (cases "cs = []") (auto simp: strict_prefix_def)
  have next': "r = (cur @ [c]) @ cs" if "walk t l follow (cur @ [c]) cs = Inr r"
  proof (rule Cons.IH [OF _ _ _ that])
    show "\<not> is_link t ((cur @ [c]) @ ds)" if "strict_prefix ds cs" "ds \<noteq> []" for ds
      using Cons.prems(2) [of "c # ds"] that by simp
    show "\<not> is_link t ((cur @ [c]) @ cs)" if "follow" "cs \<noteq> []" using Cons.prems(3) that by simp
  qed (use Cons.prems(1) in simp)
  show ?case
    using Cons.prems(1,4) link next'
    by (auto simp: is_link_def info_def split: option.splits fnode.splits if_splits)
qed simp

lemma walk_dirs:
  assumes "''..'' \<notin> set cs" and "\<And>ds. strict_prefix ds cs \<Longrightarrow> ds \<noteq> [] \<Longrightarrow> is_dir_at t (cur @ ds)"
    and "follow \<Longrightarrow> cs \<noteq> [] \<Longrightarrow> \<not> is_link t (cur @ cs)"
  shows "walk t l follow cur cs = Inr (cur @ cs)"
  using assms
proof (induction cs arbitrary: cur)
  case (Cons c cs)
  show ?case
  proof (cases "cs = []")
    case True
    with Cons.prems(1,3) show ?thesis by (auto simp: is_link_def info_def split: option.splits fnode.splits)
  next
    case False
    then have "strict_prefix [c] (c # cs)" by (auto simp: strict_prefix_def)
    with Cons.prems(2) [of "[c]"] obtain m es where "node_at t (cur @ [c]) = Some (Dir m es)"
      by (auto simp: is_dir_at_def info_def) (metis inode_of.elims inode.distinct inode.inject)
    moreover have "walk t l follow (cur @ [c]) cs = Inr ((cur @ [c]) @ cs)"
    proof (rule Cons.IH)
      show "is_dir_at t ((cur @ [c]) @ ds)" if "strict_prefix ds cs" "ds \<noteq> []" for ds
        using Cons.prems(2) [of "c # ds"] that by simp
      show "\<not> is_link t ((cur @ [c]) @ cs)" if "follow" "cs \<noteq> []" using Cons.prems(3) that by simp
    qed (use Cons.prems(1) in simp)
    ultimately show ?thesis using Cons.prems(1) by auto
  qed
qed simp

lemma locate_clean: "clean t p \<Longrightarrow> locate t False p = Inr r \<Longrightarrow> r = p"
  using walk_literal [of p t "[]" False 40 r] by (simp add: clean_def)

lemma locate_clean_follow: "clean t p \<Longrightarrow> \<not> is_link t p \<Longrightarrow> locate t True p = Inr r \<Longrightarrow> r = p"
  using walk_literal [of p t "[]" True 40 r] by (simp add: clean_def)

lemma clean_prefix: "clean t p \<Longrightarrow> prefix q p \<Longrightarrow> clean t q"
  unfolding clean_def by (metis prefix_order.less_le_trans set_mono_prefix subsetD)

lemma clean_snoc: "clean t (p @ [c]) \<longleftrightarrow> clean t p \<and> \<not> is_link t p \<and> c \<noteq> ''..''"
proof -
  have "strict_prefix q (p @ [c]) \<longleftrightarrow> strict_prefix q p \<or> q = p" for q by (auto simp: strict_prefix_def)
  then show ?thesis by (auto simp: clean_def)
qed

lemma clean_touched: "touches q t t' \<Longrightarrow> (\<And>r. strict_prefix r p \<Longrightarrow> \<not> prefix q r) \<Longrightarrow> clean t' p \<longleftrightarrow> clean t p"
  by (simp add: clean_def touches_def is_link_def)

lemma clean_same: "touches p t t' \<Longrightarrow> clean t' p \<longleftrightarrow> clean t p"
  by (rule clean_touched) (auto simp: strict_prefix_def dest: prefix_order.antisym)

lemma lstat_clean: "clean t p \<Longrightarrow> lstat t p = Inr n \<Longrightarrow> node_at t p = Some n"
  unfolding lstat_def by (auto simp: ok_or_eq_Inr_iff and_then_eq_Inr_iff dest: locate_clean)

section \<open>Operations that touch nothing but what they are given\<close>

locale mutator =
  fixes op :: "path \<Rightarrow> fnode \<Rightarrow> 'r \<times> fnode"
  assumes op_touches: "clean t p \<Longrightarrow> touches p t (snd (op p t))"
begin

lemma op_clean: "clean t p \<Longrightarrow> clean (snd (op p t)) p"
  using op_touches clean_same by blast

lemma op_above: "clean t p \<Longrightarrow> strict_prefix q p \<Longrightarrow> info (snd (op p t)) q = info t q"
  using op_touches touches_strict by blast

lemma op_confined: "clean t p \<Longrightarrow> touches root t0 t \<Longrightarrow> prefix root p \<Longrightarrow> touches root t0 (snd (op p t))"
  using op_touches touches_weaken touches_trans by blast

end

lemma change_touches [simp]: "touches q t (snd (change k op v q t))"
  by (simp add: change_def)

lemmas op_defs = mkdir_def remove_file_def remove_dir_def write_new_def symlink_def hard_link_def

interpretation mkdir: mutator "mkdir k"
  by unfold_locales (auto simp: mkdir_def dest!: locate_clean split: sum.splits)

interpretation remove_file: mutator "remove_file k"
  by unfold_locales (auto simp: remove_file_def dest!: locate_clean split: sum.splits option.splits fnode.splits)

interpretation remove_dir: mutator "remove_dir k"
  by unfold_locales (auto simp: remove_dir_def dest!: locate_clean split: sum.splits option.splits fnode.splits)

interpretation write_new: mutator "\<lambda>p. write_new k p data"
  by unfold_locales (auto simp: write_new_def dest!: locate_clean split: sum.splits option.splits fnode.splits)

interpretation symlink: mutator "symlink k target"
  by unfold_locales (auto simp: symlink_def dest!: locate_clean split: sum.splits)

interpretation hard_link: mutator "hard_link k source"
  by unfold_locales (auto simp: hard_link_def dest!: locate_clean split: sum.splits option.splits fnode.splits)

text \<open>\<open>set_permissions\<close> follows a link: it needs a path that is not one.\<close>

lemma set_permissions_touches: "clean t p \<Longrightarrow> \<not> is_link t p \<Longrightarrow> touches p t (snd (set_permissions k m p t))"
  by (auto simp: set_permissions_def dest!: locate_clean_follow split: sum.splits option.splits)

lemma with_mode_not_link: "inode_of (with_mode m n) = ILink l \<longleftrightarrow> inode_of n = ILink l"
  by (cases n) auto

text \<open>Nothing but \<open>symlink\<close> and a hard link to a link makes a link.\<close>

lemma info_store_at: "is_dir_at t p \<Longrightarrow> info (store_at v (p @ [c]) t) (p @ [c]) = map_option inode_of v"
  using node_store_at [of t p v c "[]"] by (cases v) (simp_all add: info_def)

lemma store_at_nowhere: "p = [] \<or> \<not> is_dir_at t (butlast p) \<Longrightarrow> store_at v p t = t"
proof (induction p arbitrary: t)
  case (Cons c p)
  then show ?case
    by (cases t; cases p) (auto simp: is_dir_at_def info_def map_of_eq_None_iff update_triv split: option.splits)
qed simp

lemma info_store_same: "info (store_at v p t) p = map_option inode_of v \<or> store_at v p t = t"
proof (cases "p = [] \<or> \<not> is_dir_at t (butlast p)")
  case True
  then show ?thesis by (simp add: store_at_nowhere)
next
  case False
  then show ?thesis using info_store_at [of t "butlast p" v "last p"] by simp
qed

lemma mkdir_frame:
  assumes "clean t p" and "\<not> prefix q p \<or> info t q \<noteq> None"
  shows "info (snd (mkdir k p t)) q = info t q"
proof -
  have "info (store_at (Some (Dir (k_dir_mode k) [])) p t) q = info t q" if n: "node_at t p = None"
  proof (cases "prefix p q")
    case True
    then obtain r where q: "q = p @ r" by (auto elim: prefixE)
    show ?thesis
    proof (cases "p = [] \<or> \<not> is_dir_at t (butlast p)")
      case False
      then obtain p0 c where p: "p = p0 @ [c]" and d: "is_dir_at t p0" by (metis append_butlast_last_id)
      from q n assms(2) have "r \<noteq> []" "info t q = None" by (auto simp: info_def node_at_append)
      with q p node_store_at [OF d, of "Some (Dir (k_dir_mode k) [])" c r] show ?thesis
        by (cases r) (auto simp: info_def)
    qed (simp add: store_at_nowhere)
  qed (simp add: info_store_other)
  then show ?thesis using assms(1) by (auto simp: mkdir_def change_def dest!: locate_clean split: sum.splits)
qed

lemma mkdir_links: "clean t p \<Longrightarrow> is_link (snd (mkdir k p t)) q \<longleftrightarrow> is_link t q"
proof (cases "\<not> prefix q p \<or> info t q \<noteq> None")
  case False
  assume c: "clean t p"
  show ?thesis
  proof (cases "q = p")
    case True
    have "\<not> is_link (store_at (Some (Dir (k_dir_mode k) [])) p t) p \<or> store_at (Some (Dir (k_dir_mode k) [])) p t = t"
      using info_store_same [of "Some (Dir (k_dir_mode k) [])" p t] by (auto simp: is_link_def)
    with True False c show ?thesis
      by (auto simp: mkdir_def change_def is_link_def dest!: locate_clean split: sum.splits)
  next
    case q: False
    with False have "strict_prefix q p" by (auto simp: strict_prefix_def)
    with mkdir.op_above [OF c] show ?thesis by (simp add: is_link_def)
  qed
qed (simp add: mkdir_frame is_link_def)

lemma clean_links: "(\<And>q. is_link t' q \<longleftrightarrow> is_link t q) \<Longrightarrow> clean t' p \<longleftrightarrow> clean t p"
  by (simp add: clean_def)

lemma create_dir_all_frame:
  assumes "clean t p"
  shows "(\<not> prefix q p \<or> info t q \<noteq> None \<longrightarrow> info (snd (create_dir_all k p t)) q = info t q) \<and>
    (is_link (snd (create_dir_all k p t)) q \<longleftrightarrow> is_link t q)"
  using assms
proof (induction k p t arbitrary: q rule: create_dir_all.induct)
  case (1 k p t)
  show ?case
  proof (cases "p = []")
    case False
    obtain r t1 where m: "mkdir k p t = (r, t1)" by fastforce
    note frame = mkdir_frame [OF "1.prems", of _ k, unfolded m snd_conv] and links = mkdir_links [OF "1.prems", of k, unfolded m snd_conv]
    have c1: "clean t1 p" using clean_links [of t1 t] links "1.prems" by blast
    show ?thesis
    proof (cases "r = Inl NotFound")
      case True
      obtain r2 t2 where a: "create_dir_all k (butlast p) t1 = (r2, t2)" by fastforce
      have "clean t1 (butlast p)" using c1 clean_prefix prefixeq_butlast by blast
      note ih = "1.IH" [OF False m [symmetric, unfolded True] refl refl this, unfolded a snd_conv]
      have c2: "clean t2 p" using clean_links [of t2 t1] ih c1 by blast
      obtain r3 t3 where m3: "mkdir k p t2 = (r3, t3)" by fastforce
      note frame3 = mkdir_frame [OF c2, of _ k, unfolded m3 snd_conv] and links3 = mkdir_links [OF c2, of k, unfolded m3 snd_conv]
      have "snd (create_dir_all k p t) \<in> {t2, t3}"
        using create_dir_all.simps [of k p t] False True m a m3 by (cases r2; cases r3) simp_all
      moreover have "info t2 q = info t q" if "\<not> prefix q p \<or> info t q \<noteq> None"
        using that ih [of q] frame [of q] prefix_order.trans [of q "butlast p" p] prefixeq_butlast [of p] by metis
      ultimately show ?thesis using frame3 links3 links ih by auto
    next
      case r: False
      then have "snd (create_dir_all k p t) = t1"
        using create_dir_all.simps [of k p t] False m by (cases r) simp_all
      with frame links show ?thesis by auto
    qed
  qed (simp add: create_dir_all.simps)
qed

lemma create_dir_all_clean: "clean t p \<Longrightarrow> clean (snd (create_dir_all k p t)) q \<longleftrightarrow> clean t q"
  using create_dir_all_frame by (intro clean_links) blast

text \<open>Below a root whose parents exist, nothing else changes.\<close>

lemma create_dir_all_confined:
  assumes "clean t p" and "touches root t0 t" and "prefix root p" and "\<And>q. strict_prefix q root \<Longrightarrow> info t0 q \<noteq> None"
  shows "touches root t0 (snd (create_dir_all k p t))"
  unfolding touches_def
proof (intro allI impI)
  fix q
  assume q: "\<not> prefix root q"
  then have same: "info t q = info t0 q" using assms(2) by (simp add: touches_def)
  have "\<not> prefix q p \<or> info t q \<noteq> None"
  proof (cases "prefix q p")
    case True
    with assms(3) q have "strict_prefix q root" by (metis prefix_same_cases prefix_order.le_imp_less_or_eq)
    with assms(4) same show ?thesis by simp
  qed simp
  with create_dir_all_frame [OF assms(1)] same show "info (snd (create_dir_all k p t)) q = info t0 q" by simp
qed

end
