(* ===== verification/Fsutil.thy ===== *)
theory Fsutil
  imports File_System "HOL-Library.Word"
begin

text \<open>
  File-system helpers (src/fsutil.rs): removing a tree, copying a tree without following links, and sizes.

  A recursion over a directory reads it before it changes anything below, so it follows the tree that is there when it begins.
\<close>

section \<open>Removal\<close>

text \<open>\<open>remove_rec\<close>: the directory itself when it is empty, else its entries first. A directory that may not be read is made readable
  once.\<close>

fun remove_rec :: "kernel \<Rightarrow> path \<Rightarrow> fnode \<Rightarrow> fnode \<Rightarrow> unit fs_result"
  and remove_entries :: "kernel \<Rightarrow> path \<Rightarrow> (string \<times> fnode) list \<Rightarrow> fnode \<Rightarrow> unit fs_result" where
  "remove_rec k p (Dir m es) t =
     (case remove_dir k p t of
        (Inr _, t) \<Rightarrow> (Inr (), t)
      | (Inl e, t) \<Rightarrow>
          if e = NotFound then (Inr (), t)
          else (case (if k_allow k Readdir p then (True, t) else (k_allow k Readdir_Again p, snd (set_permissions k 448 p t))) of
              (False, t) \<Rightarrow> (Inl PermissionDenied, t)
            | (True, t) \<Rightarrow> (case remove_entries k p es t of
                  (Inl e, t) \<Rightarrow> (Inl e, t)
                | (Inr _, t) \<Rightarrow> remove_dir k p t)))"
| "remove_rec k p n t = remove_file k p t"
| "remove_entries k p [] t = (Inr (), t)"
| "remove_entries k p ((c, n) # es) t =
     (case remove_rec k (p @ [c]) n t of
        (Inl e, t) \<Rightarrow> (Inl e, t)
      | (Inr _, t) \<Rightarrow> remove_entries k p es t)"

definition remove_at :: "kernel \<Rightarrow> path \<Rightarrow> fnode \<Rightarrow> unit fs_result" where
  "remove_at k p t = (case lstat t p of
      Inl e \<Rightarrow> (if e = NotFound then Inr () else Inl e, t)
    | Inr n \<Rightarrow> remove_rec k p n t)"

definition remove_dir_all_quiet :: "kernel \<Rightarrow> path \<Rightarrow> fnode \<Rightarrow> fnode" where
  "remove_dir_all_quiet k p t = snd (remove_at k p t)"

text \<open>The standard library's \<open>remove_dir_all\<close> of a directory.\<close>

fun remove_dir_all :: "kernel \<Rightarrow> path \<Rightarrow> fnode \<Rightarrow> fnode \<Rightarrow> unit fs_result"
  and remove_dir_entries :: "kernel \<Rightarrow> path \<Rightarrow> (string \<times> fnode) list \<Rightarrow> fnode \<Rightarrow> unit fs_result" where
  "remove_dir_all k p (Dir m es) t =
     (if \<not> k_allow k Readdir p then (Inl PermissionDenied, t)
      else (case remove_dir_entries k p es t of
          (Inl e, t) \<Rightarrow> (Inl e, t)
        | (Inr _, t) \<Rightarrow> remove_dir k p t))"
| "remove_dir_all k p n t = remove_file k p t"
| "remove_dir_entries k p [] t = (Inr (), t)"
| "remove_dir_entries k p ((c, n) # es) t =
     (case remove_dir_all k (p @ [c]) n t of
        (Inl e, t) \<Rightarrow> (Inl e, t)
      | (Inr _, t) \<Rightarrow> remove_dir_entries k p es t)"

section \<open>Copies\<close>

datatype copy_error = SourceNotDir | SourceNotFile | CopyIo io_error

definition iof :: "'a fs_result \<Rightarrow> (copy_error + 'a) \<times> fnode" where
  "iof m = (map_err CopyIo (fst m), snd m)"

definition prepare_destination :: "kernel \<Rightarrow> path \<Rightarrow> bool \<Rightarrow> fnode \<Rightarrow> (copy_error + unit) \<times> fnode" where
  "prepare_destination k p want_directory t = (case lstat t p of
      Inl _ \<Rightarrow> (Inr (), t)
    | Inr (Dir m es) \<Rightarrow> if want_directory then (Inr (), t) else iof (remove_dir_all k p (Dir m es) t)
    | Inr n \<Rightarrow> iof (remove_file k p t))"

text \<open>Modes are kept to twelve bits.\<close>

abbreviation mode_bits :: "nat \<Rightarrow> nat" where
  "mode_bits m \<equiv> m mod 4096"

definition copy_file :: "kernel \<Rightarrow> path \<Rightarrow> fnode \<Rightarrow> path \<Rightarrow> fnode \<Rightarrow> (copy_error + unit) \<times> fnode" where
  "copy_file k src n dst t = (case n of
      File m d \<Rightarrow>
        bindf (prepare_destination k dst False t) (\<lambda>_ t.
        if \<not> k_allow k Read src then (Inl (CopyIo PermissionDenied), t)
        else bindf (iof (write_new k dst d t)) (\<lambda>_ t.
        iof (set_permissions k (mode_bits m) dst t)))
    | _ \<Rightarrow> (Inl SourceNotFile, t))"

definition copy_link :: "kernel \<Rightarrow> path \<Rightarrow> string \<Rightarrow> path \<Rightarrow> fnode \<Rightarrow> (copy_error + unit) \<times> fnode" where
  "copy_link k src target dst t =
     bindf (prepare_destination k dst False t) (\<lambda>_ t.
     if \<not> k_allow k Read src then (Inl (CopyIo PermissionDenied), t)
     else iof (symlink k target dst t))"

lemma bindf_cong [fundef_cong]:
  "m = m' \<Longrightarrow> (\<And>x t. m' = (Inr x, t) \<Longrightarrow> f x t = g x t) \<Longrightarrow> bindf m f = bindf m' g"
  by (auto simp: bindf_def split: sum.splits prod.splits)

fun copy_dir_all :: "kernel \<Rightarrow> path \<Rightarrow> fnode \<Rightarrow> path \<Rightarrow> fnode \<Rightarrow> (copy_error + unit) \<times> fnode"
  and copy_entries :: "kernel \<Rightarrow> path \<Rightarrow> (string \<times> fnode) list \<Rightarrow> path \<Rightarrow> fnode \<Rightarrow> (copy_error + unit) \<times> fnode" where
  "copy_dir_all k src (Dir m es) dst t =
     bindf (prepare_destination k dst True t) (\<lambda>_ t.
     bindf (iof (create_dir_all k dst t)) (\<lambda>_ t.
     bindf (iof (set_permissions k (mode_bits m) dst t)) (\<lambda>_ t.
     if \<not> k_allow k Readdir src then (Inl (CopyIo PermissionDenied), t)
     else copy_entries k src es dst t)))"
| "copy_dir_all k src n dst t = (Inl SourceNotDir, t)"
| "copy_entries k src [] dst t = (Inr (), t)"
| "copy_entries k src ((c, n) # es) dst t =
     bindf (case n of
         Dir _ _ \<Rightarrow> copy_dir_all k (src @ [c]) n (dst @ [c]) t
       | Link target \<Rightarrow> copy_link k (src @ [c]) target (dst @ [c]) t
       | File _ _ \<Rightarrow> copy_file k (src @ [c]) n (dst @ [c]) t
       | _ \<Rightarrow> (Inr (), t)) (\<lambda>_ t. copy_entries k src es dst t)"

section \<open>Sizes\<close>

fun dir_size :: "(path \<Rightarrow> bool) \<Rightarrow> path \<Rightarrow> fnode \<Rightarrow> 64 word" where
  "dir_size readable p (Dir m es) = (if readable p then sum_list (map (\<lambda>(c, n). dir_size readable (p @ [c]) n) es) else 0)"
| "dir_size readable p (File m d) = word_of_nat (length d)"
| "dir_size readable p n = 0"

end
