(* ===== verification/Fsutil_Facts.thy ===== *)
theory Fsutil_Facts
  imports Fsutil File_System_Facts
begin

text \<open>
  What the helpers do: well-formed trees stay well formed, a removal changes nothing outside and makes no link, a removal is
  complete and a copy is exact when the kernel refuses nothing.
\<close>

section \<open>Well-formed trees\<close>

fun wf_node :: "fnode \<Rightarrow> bool" where
  "wf_node (Dir m es) \<longleftrightarrow> distinct (map fst es) \<and> (\<forall>e \<in> set es. fst e \<noteq> ''..'' \<and> wf_node (snd e))"
| "wf_node _ \<longleftrightarrow> True"

lemma wf_entry: "wf_node (Dir m es) \<Longrightarrow> (c, n) \<in> set es \<Longrightarrow> c \<noteq> ''..'' \<and> wf_node n"
  by fastforce

lemma wf_node_at: "wf_node t \<Longrightarrow> node_at t p = Some n \<Longrightarrow> wf_node n"
  by (induction p arbitrary: t) (fastforce split: fnode.splits option.splits dest: map_of_SomeD)+

lemma wf_update: "wf_node (Dir m es) \<Longrightarrow> c \<noteq> ''..'' \<Longrightarrow> wf_node n \<Longrightarrow> wf_node (Dir m (AList.update c n es))"
proof -
  assume a: "wf_node (Dir m es)" "c \<noteq> ''..''" "wf_node n"
  have "set (AList.update c n es) \<subseteq> insert (c, n) (set es)" by (induction es) auto
  with a show ?thesis by (auto simp: distinct_update)
qed

lemma wf_delete: "wf_node (Dir m es) \<Longrightarrow> wf_node (Dir m (AList.delete c es))"
  by (auto simp: AList.delete_eq distinct_map_filter)

lemma wf_store: "wf_node t \<Longrightarrow> ''..'' \<notin> set p \<Longrightarrow> (\<And>n. v = Some n \<Longrightarrow> wf_node n) \<Longrightarrow> wf_node (store_at v p t)"
proof (induction p arbitrary: t)
  case (Cons c p)
  show ?case
  proof (cases t)
    case (Dir m es)
    have "wf_node (store_at v p n)" if "map_of es c = Some n" for n
      using Cons.IH [of n] Cons.prems Dir that wf_entry map_of_SomeD by (metis list.set_intros(2))
    with Dir Cons.prems show ?thesis
      using wf_update [of m es c] wf_delete [of m es c] by (auto split: option.splits simp del: wf_node.simps)
  qed (use Cons.prems in auto)
qed simp

lemma walk_names: "walk t l follow cur cs = Inr r \<Longrightarrow> ''..'' \<notin> set cur \<Longrightarrow> ''..'' \<notin> set r"
proof (induction t l follow cur cs rule: walk.induct)
  case (2 t l follow cur c cs)
  then show ?case
    by (auto dest: in_set_butlastD split: if_splits option.splits fnode.splits)
qed simp

lemma wf_change: "wf_node t \<Longrightarrow> ''..'' \<notin> set p \<Longrightarrow> (\<And>n. v = Some n \<Longrightarrow> wf_node n) \<Longrightarrow> wf_node (snd (change k op v p t))"
  by (simp add: change_def wf_store)

lemma wf_with_mode: "wf_node n \<Longrightarrow> wf_node (with_mode m n)"
  by (cases n) auto

lemma wf_ops:
  assumes "wf_node t"
  shows "wf_node (snd (mkdir k p t))" "wf_node (snd (remove_file k p t))" "wf_node (snd (remove_dir k p t))"
    "wf_node (snd (write_new k p d t))" "wf_node (snd (symlink k l p t))" "wf_node (snd (hard_link k s p t))"
    "wf_node (snd (set_permissions k m p t))"
  using assms walk_names [of t 40 _ "[]" p]
  by (auto simp: op_defs set_permissions_def lstat_def and_then_eq_Inr_iff ok_or_eq_Inr_iff
    intro!: wf_change wf_with_mode dest: wf_node_at split: sum.splits option.splits fnode.splits)

section \<open>What removing does\<close>

text \<open>The directories of a snapshot are not links of the tree.\<close>

fun dirs_solid :: "fnode \<Rightarrow> path \<Rightarrow> fnode \<Rightarrow> bool" where
  "dirs_solid t p (Dir m es) \<longleftrightarrow> \<not> is_link t p \<and> (\<forall>e \<in> set es. fst e \<noteq> ''..'' \<and> dirs_solid t (p @ [fst e]) (snd e))"
| "dirs_solid t p _ \<longleftrightarrow> True"

definition fewer_links :: "fnode \<Rightarrow> fnode \<Rightarrow> bool" where
  "fewer_links t t' \<longleftrightarrow> (\<forall>q. is_link t' q \<longrightarrow> is_link t q)"

lemma fewer_links_simps [simp]: "fewer_links t t"
  by (simp add: fewer_links_def)

lemma fewer_links_trans [trans]: "fewer_links a b \<Longrightarrow> fewer_links b c \<Longrightarrow> fewer_links a c"
  by (simp add: fewer_links_def)

lemma dirs_solid_mono: "fewer_links t t' \<Longrightarrow> dirs_solid t p n \<Longrightarrow> dirs_solid t' p n"
  by (induction t p n rule: dirs_solid.induct) (auto simp: fewer_links_def)

lemma dirs_solid_node: "wf_node t \<Longrightarrow> node_at t p = Some n \<Longrightarrow> dirs_solid t p n"
proof (induction n arbitrary: p)
  case (Dir m es)
  have "node_at t (p @ [c]) = Some n" if "(c, n) \<in> set es" for c n
    using Dir.prems that wf_node_at [OF Dir.prems] by (auto simp: node_at_append)
  then have "dirs_solid t (p @ [fst e]) (snd e)" if "e \<in> set es" for e
    using Dir.IH [of e "snd e"] Dir.prems(1) that by (cases e) (auto simp: snds.simps)
  with wf_node_at [OF Dir.prems] Dir.prems(2) show ?case by (auto simp: is_link_def info_def)
qed simp_all

lemma info_store_none: "prefix p q \<Longrightarrow> info (store_at None p t) q = None \<or> store_at None p t = t"
proof (cases "p = [] \<or> \<not> is_dir_at t (butlast p)")
  case False
  assume "prefix p q"
  moreover from False obtain p0 c where "p = p0 @ [c]" "is_dir_at t p0" by (metis append_butlast_last_id)
  ultimately show ?thesis using node_store_at [of t p0 None c] by (auto simp: info_def elim!: prefixE)
qed (simp add: store_at_nowhere)

lemma fewer_store_none: "fewer_links t (store_at None p t)"
  using info_store_none [of p _ t] info_store_other [of p _ None t] unfolding fewer_links_def is_link_def
  by (metis option.distinct(1))

lemma fewer_ops:
  "fewer_links t (snd (remove_file k p t))" "fewer_links t (snd (remove_dir k p t))"
  by (auto simp: remove_file_def remove_dir_def change_def fewer_store_none split: sum.splits option.splits fnode.splits)

lemma same_links_chmod: "is_link (snd (set_permissions k m p t)) q \<longleftrightarrow> is_link t q"
proof -
  have "is_link (store_at (Some (with_mode m n)) r t) q \<longleftrightarrow> is_link t q" if "node_at t r = Some n" for r n
  proof (cases "prefix r q")
    case True
    then obtain s where q: "q = r @ s" by (auto elim: prefixE)
    show ?thesis
    proof (cases "r = [] \<or> \<not> is_dir_at t (butlast r)")
      case False
      then obtain p0 c where r: "r = p0 @ [c]" "is_dir_at t p0" by (metis append_butlast_last_id)
      have "node_at (store_at (Some (with_mode m n)) r t) q = node_at (with_mode m n) s" using node_store_at [OF r(2)] q r(1) by simp
      moreover have "node_at t q = node_at n s" using that q by (simp add: node_at_append)
      ultimately show ?thesis
        by (cases s; cases n) (auto simp: is_link_def info_def)
    qed (simp add: store_at_nowhere)
  qed (simp add: is_link_def info_store_other)
  then show ?thesis by (auto simp: set_permissions_def change_def split: sum.splits option.splits)
qed

lemma fewer_chmod: "fewer_links t (snd (set_permissions k m p t))"
  by (simp add: fewer_links_def same_links_chmod)

lemma clean_entry: "clean t p \<Longrightarrow> \<not> is_link t p \<Longrightarrow> c \<noteq> ''..'' \<Longrightarrow> clean t (p @ [c])"
  by (simp add: clean_snoc)

lemma fewer_clean: "fewer_links t t' \<Longrightarrow> clean t p \<Longrightarrow> clean t' p"
  by (auto simp: clean_def fewer_links_def)

text \<open>The steps of a removal, with what each leaves to the next.\<close>

definition pruned :: "path \<Rightarrow> fnode \<Rightarrow> fnode \<Rightarrow> bool" where
  "pruned p t t' \<longleftrightarrow> touches p t t' \<and> fewer_links t t' \<and> (wf_node t \<longrightarrow> wf_node t')"

lemma pruned_refl [simp]: "pruned p t t"
  by (simp add: pruned_def)

lemma pruned_trans [trans]: "pruned p a b \<Longrightarrow> pruned p b c \<Longrightarrow> pruned p a c"
  unfolding pruned_def using touches_trans fewer_links_trans by blast

lemma pruned_weaken: "pruned (p @ [c]) a b \<Longrightarrow> pruned p a b"
  unfolding pruned_def using touches_weaken by fastforce

lemma pruned_clean: "pruned q t t' \<Longrightarrow> clean t p \<Longrightarrow> clean t' p"
  unfolding pruned_def using fewer_clean by blast

lemma pruned_solid: "pruned q t t' \<Longrightarrow> dirs_solid t p n \<Longrightarrow> dirs_solid t' p n"
  unfolding pruned_def using dirs_solid_mono by blast

lemma pruned_link: "pruned q t t' \<Longrightarrow> \<not> is_link t p \<Longrightarrow> \<not> is_link t' p"
  unfolding pruned_def fewer_links_def by blast

lemma pruned_file: "clean t p \<Longrightarrow> pruned p t (snd (remove_file k p t))"
  by (simp add: pruned_def fewer_ops wf_ops remove_file.op_touches)

lemma pruned_dir: "clean t p \<Longrightarrow> pruned p t (snd (remove_dir k p t))"
  by (simp add: pruned_def fewer_ops wf_ops remove_dir.op_touches)

lemma pruned_chmod: "clean t p \<Longrightarrow> \<not> is_link t p \<Longrightarrow> pruned p t (snd (set_permissions k m p t))"
  by (simp add: pruned_def fewer_chmod wf_ops set_permissions_touches)

lemma pruned_then_dir: "pruned p t t' \<Longrightarrow> clean t p \<Longrightarrow> pruned p t (snd (remove_dir k p t'))"
  using pruned_trans pruned_dir pruned_clean by blast

lemma pruned_cons:
  assumes "pruned (p @ [c]) t (snd r)" and "\<And>t'. r = (Inr (), t') \<Longrightarrow> pruned p t t' \<Longrightarrow> pruned p t' (snd (f t'))"
  shows "pruned p t (snd (case r of (Inl e, t) \<Rightarrow> (Inl e, t) | (Inr _, t) \<Rightarrow> f t))"
proof (cases r)
  case (Pair a t')
  from assms(1) Pair have p: "pruned p t t'" by (auto dest: pruned_weaken)
  show ?thesis
  proof (cases a)
    case (Inr u)
    with Pair p assms(2) [of t'] show ?thesis by (auto intro: pruned_trans)
  qed (use Pair p in simp)
qed

lemma entries_pruned:
  assumes "\<And>c n t. (c, n) \<in> set es \<Longrightarrow> clean t (p @ [c]) \<Longrightarrow> dirs_solid t (p @ [c]) n \<Longrightarrow> pruned (p @ [c]) t (snd (rm (p @ [c]) n t :: unit fs_result))"
    and "clean t p" and "\<not> is_link t p" and "\<forall>e \<in> set es. fst e \<noteq> ''..'' \<and> dirs_solid t (p @ [fst e]) (snd e)"
    and "\<And>t. rms [] t = (Inr (), t)"
    and "\<And>c n es t. rms ((c, n) # es) t = (case rm (p @ [c]) n t of (Inl e, t) \<Rightarrow> (Inl e, t) | (Inr _, t) \<Rightarrow> rms es t)"
  shows "pruned p t (snd (rms es t :: unit fs_result))"
  using assms(1-4)
proof (induction es arbitrary: t)
  case (Cons e es)
  obtain c n where e: "e = (c, n)" by fastforce
  have "pruned (p @ [c]) t (snd (rm (p @ [c]) n t))"
    using Cons.prems e by (intro Cons.prems(1)) (auto intro: clean_entry)
  then show ?case unfolding e assms(6)
  proof (rule pruned_cons)
    fix t'
    assume "pruned p t t'"
    with Cons.prems show "pruned p t' (snd (rms es t'))"
      by (intro Cons.IH) (auto intro: pruned_clean pruned_solid dest: pruned_link)
  qed
qed (simp add: assms(5))

lemma remove_rec_pruned: "clean t p \<Longrightarrow> dirs_solid t p n \<Longrightarrow> pruned p t (snd (remove_rec k p n t))"
proof (induction n arbitrary: p t)
  case (Dir m es)
  obtain r t1 where d: "remove_dir k p t = (r, t1)" by fastforce
  have p1: "pruned p t t1" using pruned_dir [OF Dir.prems(1), of k] d by simp
  define t2 where "t2 = (if k_allow k Readdir p then t1 else snd (set_permissions k 448 p t1))"
  have p2: "pruned p t t2"
    using p1 Dir.prems pruned_chmod [of t1 p k 448] by (auto simp: t2_def intro: pruned_trans pruned_clean dest: pruned_link)
  have c2: "clean t2 p" "\<not> is_link t2 p" using p2 Dir.prems by (auto intro: pruned_clean dest: pruned_link)
  obtain r3 t3 where r3: "remove_entries k p es t2 = (r3, t3)" by fastforce
  have "pruned p t2 (snd (remove_entries k p es t2))"
  proof (rule entries_pruned [where rm = "remove_rec k"])
    show "\<forall>e \<in> set es. fst e \<noteq> ''..'' \<and> dirs_solid t2 (p @ [fst e]) (snd e)"
      using Dir.prems(2) p2 by (auto intro: pruned_solid)
    show "pruned (p @ [c]) t (snd (remove_rec k (p @ [c]) n t))"
      if "(c, n) \<in> set es" "clean t (p @ [c])" "dirs_solid t (p @ [c]) n" for c n t
      using Dir.IH [of "(c, n)" n] that by (auto simp: snds.simps)
  qed (use c2 in auto)
  with r3 p2 have p3: "pruned p t t3" by (auto intro: pruned_trans)
  moreover from this have "pruned p t (snd (remove_dir k p t3))"
    using Dir.prems by (auto intro: pruned_then_dir)
  moreover have "snd (remove_rec k p (Dir m es) t) \<in> {t1, t2, t3, snd (remove_dir k p t3)}"
    using d r3 by (cases r; cases r3) (auto simp: t2_def split: bool.splits)
  ultimately show ?case using p1 p2 by auto
qed (auto intro: pruned_file)

lemma remove_dir_all_pruned: "clean t p \<Longrightarrow> dirs_solid t p n \<Longrightarrow> pruned p t (snd (remove_dir_all k p n t))"
proof (induction n arbitrary: p t)
  case (Dir m es)
  obtain r t1 where r: "remove_dir_entries k p es t = (r, t1)" by fastforce
  have "pruned p t (snd (remove_dir_entries k p es t))"
  proof (rule entries_pruned [where rm = "remove_dir_all k"])
    show "pruned (p @ [c]) t (snd (remove_dir_all k (p @ [c]) n t))"
      if "(c, n) \<in> set es" "clean t (p @ [c])" "dirs_solid t (p @ [c]) n" for c n t
      using Dir.IH [of "(c, n)" n] that by (auto simp: snds.simps)
  qed (use Dir.prems in auto)
  with r have p1: "pruned p t t1" by simp
  moreover from this have "pruned p t (snd (remove_dir k p t1))"
    using Dir.prems by (auto intro: pruned_then_dir)
  moreover have "snd (remove_dir_all k p (Dir m es) t) \<in> {t, t1, snd (remove_dir k p t1)}"
    using r by (cases r) auto
  ultimately show ?case by auto
qed (auto intro: pruned_file)

lemma remove_at_pruned: "wf_node t \<Longrightarrow> clean t p \<Longrightarrow> pruned p t (snd (remove_at k p t))"
  by (auto simp: remove_at_def intro!: remove_rec_pruned dirs_solid_node dest: lstat_clean split: sum.splits)

lemma remove_quiet_pruned: "wf_node t \<Longrightarrow> clean t p \<Longrightarrow> pruned p t (remove_dir_all_quiet k p t)"
  by (simp add: remove_dir_all_quiet_def remove_at_pruned)

section \<open>A copy is exact\<close>

definition rooted :: "fnode \<Rightarrow> path \<Rightarrow> bool" where
  "rooted t p \<longleftrightarrow> p \<noteq> [] \<and> ''..'' \<notin> set p \<and> (\<forall>q. strict_prefix q p \<longrightarrow> is_dir_at t q)"

lemma rooted_clean: "rooted t p \<Longrightarrow> clean t p"
  by (auto simp: rooted_def clean_def dest: is_dir_not_link)

lemma rooted_parent: "rooted t p \<Longrightarrow> is_dir_at t (butlast p)"
  unfolding rooted_def by (metis append_butlast_last_id append_self_conv not_Cons_self2 prefixeq_butlast strict_prefix_def)

lemma rooted_snoc: "rooted t p \<Longrightarrow> is_dir_at t p \<Longrightarrow> c \<noteq> ''..'' \<Longrightarrow> rooted t (p @ [c])"
  unfolding rooted_def by (auto simp: strict_prefix_def)

lemma rooted_touched: "touches p t t' \<Longrightarrow> rooted t p \<Longrightarrow> rooted t' p"
  by (auto simp: rooted_def is_dir_at_def touches_strict)

lemma locate_rooted: "rooted t p \<Longrightarrow> locate t False p = Inr p"
  using walk_dirs [of p t "[]" False 40] by (simp add: rooted_def)

lemma locate_rooted_follow: "rooted t p \<Longrightarrow> \<not> is_link t p \<Longrightarrow> locate t True p = Inr p"
  using walk_dirs [of p t "[]" True 40] by (simp add: rooted_def)

lemma node_store_same: "rooted t p \<Longrightarrow> node_at (store_at v p t) p = v"
  using node_store_at [OF rooted_parent, of t p v "last p" "[]"] by (cases v) (auto simp: rooted_def)

lemma store_store: "store_at v p (store_at (Some w) p t) = store_at v p t"
proof (induction p arbitrary: t)
  case (Cons c p)
  have up: "AList.update c x (AList.update c y es) = AList.update c x es" for x y :: fnode and es
    by (induction es) auto
  have del: "AList.delete c (AList.update c y es) = AList.delete c es" for y :: fnode and es by (induction es) auto
  show ?case
    using Cons by (cases t; cases v) (auto simp: update_conv' up del split: option.splits)
qed simp

lemma store_below:
  assumes "p \<noteq> []" and "is_dir_at t (butlast p)"
  shows "store_at (Some n) (p @ [c]) (store_at (Some (Dir m es)) p t) = store_at (Some (Dir m (AList.update c n es))) p t"
  using assms
proof (induction p arbitrary: t)
  case (Cons d p)
  show ?case
  proof (cases "p = []")
    case True
    with Cons.prems show ?thesis by (cases t) (auto simp: is_dir_at_def info_def update_conv')
  next
    case False
    with Cons.prems obtain m0 es0 k where t: "t = Dir m0 es0" "map_of es0 d = Some k" "is_dir_at k (butlast p)"
      by (cases t) (auto simp: is_dir_at_def info_def split: option.splits)
    with False Cons.IH [of k] show ?thesis by (simp add: update_conv')
  qed
qed simp

text \<open>What a copy of a tree looks like: special files are left out, modes keep twelve bits.\<close>

fun copied :: "fnode \<Rightarrow> fnode option" where
  "copied (Dir m es) = Some (Dir (mode_bits m) (concat (map (\<lambda>(c, n). case copied n of None \<Rightarrow> [] | Some n' \<Rightarrow> [(c, n')]) es)))"
| "copied (File m d) = Some (File (mode_bits m) d)"
| "copied (Link l) = Some (Link l)"
| "copied _ = None"

definition copied_entries :: "(string \<times> fnode) list \<Rightarrow> (string \<times> fnode) list" where
  "copied_entries es = concat (map (\<lambda>(c, n). case copied n of None \<Rightarrow> [] | Some n' \<Rightarrow> [(c, n')]) es)"

lemma copied_entries_simps [simp]:
  "copied_entries [] = []"
  "copied_entries ((c, n) # es) = (case copied n of None \<Rightarrow> [] | Some n' \<Rightarrow> [(c, n')]) @ copied_entries es"
  by (simp_all add: copied_entries_def)

lemma copied_Dir: "copied (Dir m es) = Some (Dir (mode_bits m) (copied_entries es))"
  by (simp add: copied_entries_def)

definition permissive :: "kernel \<Rightarrow> bool" where
  "permissive k \<longleftrightarrow> (\<forall>op p. k_allow k op p)"

lemma change_permissive: "permissive k \<Longrightarrow> change k op v p t = (Inr (), store_at v p t)"
  by (simp add: change_def permissive_def)

lemma lstat_missing: "rooted t p \<Longrightarrow> node_at t p = None \<Longrightarrow> lstat t p = Inl NotFound"
  by (simp add: lstat_def locate_rooted)

lemma prepare_missing: "rooted t p \<Longrightarrow> node_at t p = None \<Longrightarrow> prepare_destination k p w t = (Inr (), t)"
  by (simp add: prepare_destination_def lstat_missing)

lemma iof_simps [simp]: "iof (Inr x, t) = (Inr x, t)" "iof (Inl e, t) = (Inl (CopyIo e), t)" "snd (iof m) = snd m"
  by (simp_all add: iof_def)

lemma bindf_simps [simp]: "bindf (Inr x, t) f = f x t" "bindf (Inl e, t) f = (Inl e, t)"
  by (simp_all add: bindf_def)

lemma rooted_store: "rooted t p \<Longrightarrow> rooted (store_at v p t) p"
  by (rule rooted_touched [OF touches_store])

lemma not_link_node: "node_at t p = Some n \<Longrightarrow> (\<And>l. n \<noteq> Link l) \<Longrightarrow> \<not> is_link t p"
  by (cases n) (auto simp: is_link_def info_def)

lemma set_permissions_rooted:
  assumes "permissive k" and "rooted t p" and "\<And>l. n \<noteq> Link l"
  shows "set_permissions k m p (store_at (Some n) p t) = (Inr (), store_at (Some (with_mode m n)) p t)"
proof -
  have n: "node_at (store_at (Some n) p t) p = Some n" using assms(2) by (rule node_store_same)
  have "locate (store_at (Some n) p t) True p = Inr p"
    using locate_rooted_follow [OF rooted_store [OF assms(2)] not_link_node [OF n assms(3)]] .
  with n assms(1) show ?thesis by (simp add: set_permissions_def change_permissive store_store)
qed

lemma create_dir_rooted:
  assumes "permissive k" and "rooted t p" and "node_at t p = None"
  shows "create_dir_all k p t = (Inr (), store_at (Some (Dir (k_dir_mode k) [])) p t)"
  using assms by (simp add: create_dir_all.simps [of k p] mkdir_def locate_rooted change_permissive rooted_def [of t p])

lemma copy_file_missing:
  assumes "permissive k" and "rooted t p" and "node_at t p = None"
  shows "copy_file k src (File m d) p t = (Inr (), store_at (Some (File (mode_bits m) d)) p t)"
proof -
  have "k_allow k Read src" using assms(1) by (simp add: permissive_def)
  with assms show ?thesis
    by (simp add: copy_file_def prepare_missing write_new_def locate_rooted change_permissive set_permissions_rooted)
qed

lemma copy_link_missing:
  assumes "permissive k" and "rooted t p" and "node_at t p = None"
  shows "copy_link k src l p t = (Inr (), store_at (Some (Link l)) p t)"
proof -
  have "k_allow k Read src" using assms(1) by (simp add: permissive_def)
  with assms show ?thesis by (simp add: copy_link_def prepare_missing symlink_def locate_rooted change_permissive)
qed

lemma update_new: "c \<notin> fst ` set es \<Longrightarrow> AList.update c n es = es @ [(c, n)]"
  by (induction es) auto

lemma copy_entries_exact:
  assumes "permissive k" and "rooted t p"
    and "\<And>c n t. (c, n) \<in> set es \<Longrightarrow> rooted t (p @ [c]) \<Longrightarrow> node_at t (p @ [c]) = None \<Longrightarrow> (\<exists>m es. n = Dir m es) \<Longrightarrow>
      copy_dir_all k (src @ [c]) n (p @ [c]) t = (Inr (), store_at (copied n) (p @ [c]) t)"
    and "distinct (map fst (old @ es))" and "''..'' \<notin> fst ` set es"
  shows "copy_entries k src es p (store_at (Some (Dir m old)) p t) = (Inr (), store_at (Some (Dir m (old @ copied_entries es))) p t)"
  using assms(3-5)
proof (induction es arbitrary: old)
  case (Cons e es)
  obtain c n where e: "e = (c, n)" by fastforce
  let ?t = "store_at (Some (Dir m old)) p t"
  have new: "c \<notin> fst ` set old" "c \<notin> fst ` set es" "c \<noteq> ''..''" using Cons.prems e by auto
  have at: "node_at ?t p = Some (Dir m old)" by (rule node_store_same [OF assms(2)])
  then have d: "is_dir_at ?t p" by (simp add: is_dir_at_def info_def)
  have r: "rooted ?t (p @ [c])" by (rule rooted_snoc [OF rooted_store [OF assms(2)] d new(3)])
  have "map_of old c = None" using new(1) by (simp add: map_of_eq_None_iff)
  then have none: "node_at ?t (p @ [c]) = None" using at by (simp add: node_at_append)
  have below: "store_at (Some n') (p @ [c]) ?t = store_at (Some (Dir m (old @ [(c, n')]))) p t" for n'
    using store_below [of p t n' c m old] rooted_parent [OF assms(2)] assms(2) new(1) by (simp add: rooted_def update_new)
  have ih: "copy_entries k src es p (store_at (Some (Dir m old')) p t) = (Inr (), store_at (Some (Dir m (old' @ copied_entries es))) p t)"
    if "old' = old \<or> (\<exists>n'. old' = old @ [(c, n')])" for old'
  proof (rule Cons.IH)
    show "distinct (map fst (old' @ es))"
    proof (cases "old' = old")
      case False
      with that have "map fst (old' @ es) = map fst (old @ e # es)" by (auto simp: e)
      with Cons.prems(2) show ?thesis by (simp only:)
    qed (use Cons.prems(2) in auto)
  qed (use Cons.prems in auto)
  show ?case
  proof (cases n)
    case (Dir m' es')
    have "copy_dir_all k (src @ [c]) n (p @ [c]) ?t = (Inr (), store_at (copied n) (p @ [c]) ?t)"
      using Cons.prems(1) [of c n ?t] e r none Dir by auto
    then show ?thesis using ih e Dir below by (simp add: copied_Dir del: copied.simps)
  next
    case (File m' d)
    then show ?thesis using ih e below copy_file_missing [OF assms(1) r none] by simp
  next
    case (Link l)
    then show ?thesis using ih e below copy_link_missing [OF assms(1) r none] by simp
  qed (use ih e in simp_all)
qed simp

lemma copy_dir_all_exact:
  assumes "permissive k"
  shows "wf_node n \<Longrightarrow> (\<exists>m es. n = Dir m es) \<Longrightarrow> rooted t p \<Longrightarrow> node_at t p = None \<Longrightarrow>
    copy_dir_all k src n p t = (Inr (), store_at (copied n) p t)"
proof (induction n arbitrary: src p t)
  case (Dir m es)
  have a: "k_allow k Readdir src" using assms by (simp add: permissive_def)
  have "copy_entries k src es p (store_at (Some (Dir (mode_bits m) [])) p t) =
      (Inr (), store_at (Some (Dir (mode_bits m) ([] @ copied_entries es))) p t)"
  proof (rule copy_entries_exact [OF assms Dir.prems(3)])
    show "copy_dir_all k (src @ [c]) n (p @ [c]) t = (Inr (), store_at (copied n) (p @ [c]) t)"
      if "(c, n) \<in> set es" "rooted t (p @ [c])" "node_at t (p @ [c]) = None" "\<exists>m es. n = Dir m es" for c n t
      using Dir.IH [of "(c, n)" n] that Dir.prems(1) by (auto simp: snds.simps)
  qed (use Dir.prems(1) in auto)
  then show ?case
    using a Dir.prems assms
    by (simp add: prepare_missing create_dir_rooted set_permissions_rooted copied_Dir del: copied.simps)
qed auto

section \<open>A removal is complete\<close>

lemma store_id: "node_at t p = Some n \<Longrightarrow> store_at (Some n) p t = t"
  by (induction p arbitrary: t) (auto simp: update_triv split: fnode.splits option.splits)

lemma store_below_none:
  assumes "p \<noteq> []" and "is_dir_at t (butlast p)"
  shows "store_at None (p @ [c]) (store_at (Some (Dir m es)) p t) = store_at (Some (Dir m (AList.delete c es))) p t"
  using assms
proof (induction p arbitrary: t)
  case (Cons d p)
  show ?case
  proof (cases "p = []")
    case True
    with Cons.prems show ?thesis by (cases t) (auto simp: is_dir_at_def info_def update_conv')
  next
    case False
    with Cons.prems obtain m0 es0 k where t: "t = Dir m0 es0" "map_of es0 d = Some k" "is_dir_at k (butlast p)"
      by (cases t) (auto simp: is_dir_at_def info_def split: option.splits)
    with False Cons.IH [of k] show ?thesis by (simp add: update_conv')
  qed
qed simp

text \<open>A directory at \<open>p\<close> with the entries \<open>es\<close>: how its entries are found, stored and removed.\<close>

abbreviation dir_with :: "nat \<Rightarrow> (string \<times> fnode) list \<Rightarrow> path \<Rightarrow> fnode \<Rightarrow> fnode" where
  "dir_with m es p t \<equiv> store_at (Some (Dir m es)) p t"

lemma dir_with_rooted: "rooted t p \<Longrightarrow> c \<noteq> ''..'' \<Longrightarrow> rooted (dir_with m es p t) (p @ [c])"
  using rooted_snoc [OF rooted_store] node_store_same by (fastforce simp: is_dir_at_def info_def)

lemma dir_with_node: "rooted t p \<Longrightarrow> node_at (dir_with m es p t) (p @ [c]) = map_of es c"
  using node_store_same [of t p "Some (Dir m es)"] by (simp add: node_at_append split: option.splits)

lemma dir_with_store: "rooted t p \<Longrightarrow> store_at (Some n) (p @ [c]) (dir_with m es p t) = dir_with m (AList.update c n es) p t"
  using store_below [of p t n c m es] rooted_parent [of t p] by (simp add: rooted_def)

lemma dir_with_remove: "rooted t p \<Longrightarrow> store_at None (p @ [c]) (dir_with m es p t) = dir_with m (AList.delete c es) p t"
  using store_below_none [of p t c m es] rooted_parent [of t p] by (simp add: rooted_def)

lemma remove_file_exact:
  assumes "permissive k" and "rooted t p" and "node_at t p = Some n" and "\<And>m es. n \<noteq> Dir m es"
  shows "remove_file k p t = (Inr (), store_at None p t)"
  using assms by (cases n) (auto simp: remove_file_def locate_rooted change_permissive)

lemma remove_file_missing: "rooted t p \<Longrightarrow> node_at t p = None \<Longrightarrow> remove_file k p t = (Inl NotFound, t)"
  by (simp add: remove_file_def locate_rooted)

lemma remove_dir_exact:
  "permissive k \<Longrightarrow> rooted t p \<Longrightarrow> remove_dir k p (dir_with m es p t) = (if es = [] then (Inr (), store_at None p t) else (Inl NotEmpty, dir_with m es p t))"
  using node_store_same [of t p "Some (Dir m es)"]
  by (simp add: remove_dir_def locate_rooted rooted_store change_permissive store_store)

lemma remove_entries_exact:
  assumes "permissive k" and "rooted t p"
    and "\<And>c n t. (c, n) \<in> set es \<Longrightarrow> rooted t (p @ [c]) \<Longrightarrow> node_at t (p @ [c]) = Some n \<Longrightarrow>
      remove_rec k (p @ [c]) n t = (Inr (), store_at None (p @ [c]) t)"
    and "distinct (map fst es)" and "''..'' \<notin> fst ` set es"
  shows "remove_entries k p es (dir_with m es p t) = (Inr (), dir_with m [] p t)"
  using assms(3-5)
proof (induction es)
  case (Cons e es)
  obtain c n where e: "e = (c, n)" by fastforce
  have "remove_rec k (p @ [c]) n (dir_with m (e # es) p t) = (Inr (), dir_with m es p t)"
    using Cons.prems assms(2) e by (subst Cons.prems(1)) (auto simp: dir_with_rooted dir_with_node dir_with_remove)
  with Cons e show ?case by simp
qed simp

lemma remove_rec_exact:
  assumes "permissive k"
  shows "wf_node n \<Longrightarrow> rooted t p \<Longrightarrow> node_at t p = Some n \<Longrightarrow> remove_rec k p n t = (Inr (), store_at None p t)"
proof (induction n arbitrary: p t)
  case (Dir m es)
  have t: "dir_with m es p t = t" by (rule store_id [OF Dir.prems(3)])
  have r: "k_allow k Readdir p" using assms by (simp add: permissive_def)
  have "remove_entries k p es (dir_with m es p t) = (Inr (), dir_with m [] p t)"
  proof (rule remove_entries_exact [OF assms Dir.prems(2)])
    show "remove_rec k (p @ [c]) n t = (Inr (), store_at None (p @ [c]) t)"
      if "(c, n) \<in> set es" "rooted t (p @ [c])" "node_at t (p @ [c]) = Some n" for c n t
      using Dir.IH [of "(c, n)" n] that Dir.prems(1) by (auto simp: snds.simps)
  qed (use Dir.prems(1) in auto)
  with remove_dir_exact [OF assms Dir.prems(2), of m es] remove_dir_exact [OF assms Dir.prems(2), of m "[]"] r show ?case
    unfolding t by (cases "es = []") simp_all
qed (use remove_file_exact [OF assms] in simp_all)

lemma remove_quiet_exact:
  assumes "permissive k" and "rooted t p" and "wf_node t"
  shows "remove_dir_all_quiet k p t = (if node_at t p = None then t else store_at None p t)"
proof (cases "node_at t p")
  case (Some n)
  with assms have "lstat t p = Inr n" by (simp add: lstat_def locate_rooted)
  with remove_rec_exact [OF assms(1) wf_node_at [OF assms(3) Some] assms(2) Some] Some show ?thesis
    by (simp add: remove_dir_all_quiet_def remove_at_def)
qed (use assms(2) in \<open>simp add: remove_dir_all_quiet_def remove_at_def lstat_missing\<close>)

end
