(* ===== verification/Unpack.thy ===== *)
theory Unpack
  imports Fsutil
begin

text \<open>
  Layer application (src/image/unpack.rs): the entries of a layer archive are applied below a root directory, with white-outs, and
  every path is resolved inside that root.

  The tar reader is a library: an archive is the list of the entries it yields (\<open>None\<close>: it cannot be read on), with what the
  reader says of each. \<open>lossy\<close> is \<open>to_string_lossy\<close> on a file name; it adds no slash.
\<close>

section \<open>Paths\<close>

datatype component = RootDir | CurDir | ParentDir | Normal string

definition component_of :: "string \<Rightarrow> component" where
  "component_of c = (if c = ''..'' then ParentDir else Normal c)"

text \<open>\<open>Path::components\<close>: a dot is kept in the first place of a relative path only.\<close>

definition components :: "string \<Rightarrow> component list" where
  "components s =
     (if starts_with s ''/'' then RootDir # map component_of (path_parts s)
      else (case filter (\<lambda>c. c \<noteq> []) (split_on (CHR ''/'') s) of
          [] \<Rightarrow> []
        | c # _ \<Rightarrow> (if c = ''.'' then [CurDir] else []) @ map component_of (path_parts s)))"

fun sanitize_components :: "component list \<Rightarrow> string list \<Rightarrow> string list option" where
  "sanitize_components [] out = Some out"
| "sanitize_components (Normal c # cs) out = sanitize_components cs (out @ [c])"
| "sanitize_components (CurDir # cs) out = sanitize_components cs out"
| "sanitize_components (_ # cs) out = None"

definition sanitize_rel_path :: "string \<Rightarrow> string list option" where
  "sanitize_rel_path p = (case sanitize_components (components p) [] of
      None \<Rightarrow> None
    | Some out \<Rightarrow> if out = [] then None else Some out)"

text \<open>\<open>parent.join(name)\<close> for a name without slash.\<close>

definition join_name :: "string list \<Rightarrow> string \<Rightarrow> component list" where
  "join_name parent name =
     map Normal parent @ (if name = ''.'' then (if parent = [] then [CurDir] else []) else [component_of name])"

datatype unpack_error =
    TarStream
  | TarEntry
  | TarPath
  | UnsafePath string
  | UnsafeComponent
  | TooDeep
  | LinkUnreadable path
  | Escapes path
  | ParentFailed path io_error
  | MkdirFailed path io_error
  | CreateFailed path io_error
  | WriteFailed path
  | BadMode
  | BadTarget "string list"
  | NoTarget "string list"
  | LinkFailed path io_error

text \<open>The stack of names: a parent step at the root is an escape.\<close>

fun push_component :: "component \<Rightarrow> string list \<Rightarrow> string list option" where
  "push_component RootDir stack = Some []"
| "push_component CurDir stack = Some stack"
| "push_component ParentDir stack = (if stack = [] then None else Some (butlast stack))"
| "push_component (Normal c) stack = Some (stack @ [c])"

fun push_components :: "component list \<Rightarrow> string list \<Rightarrow> string list option" where
  "push_components [] stack = Some stack"
| "push_components (c # cs) stack = Option.bind (push_component c stack) (push_components cs)"

definition strip_path :: "path \<Rightarrow> path \<Rightarrow> path option" where
  "strip_path root p = (if prefix root p then Some (drop (length root) p) else None)"

definition normalize_under :: "path \<Rightarrow> path \<Rightarrow> string \<Rightarrow> path option" where
  "normalize_under root base target =
     Option.bind (strip_path root base) (\<lambda>base_rel.
     Option.bind (push_components (map component_of base_rel) []) (\<lambda>stack.
     map_option (\<lambda>stack. root @ stack) (push_components (components target) stack)))"

section \<open>Resolution inside the root\<close>

definition MAX_SYMLINK_DEPTH :: nat where
  "MAX_SYMLINK_DEPTH = 64"

definition canonical_root :: "fnode \<Rightarrow> path \<Rightarrow> path" where
  "canonical_root t root = (case canonicalize t root of None \<Rightarrow> root | Some q \<Rightarrow> q)"

function safe_walk :: "kernel \<Rightarrow> fnode \<Rightarrow> path \<Rightarrow> component list \<Rightarrow> bool \<Rightarrow> nat \<Rightarrow> unpack_error + path"
  and safe_steps :: "kernel \<Rightarrow> fnode \<Rightarrow> path \<Rightarrow> component list \<Rightarrow> bool \<Rightarrow> nat \<Rightarrow> path \<Rightarrow> unpack_error + path"
  and resolve_component :: "kernel \<Rightarrow> fnode \<Rightarrow> path \<Rightarrow> path \<Rightarrow> nat \<Rightarrow> unpack_error + path" where
  "safe_walk k t root rel resolve_last depth =
     (if depth > MAX_SYMLINK_DEPTH then Inl TooDeep
      else safe_steps k t (canonical_root t root) rel resolve_last depth (canonical_root t root))"
| "safe_steps k t root [] resolve_last depth cur = Inr cur"
| "safe_steps k t root (cm # comps) resolve_last depth cur =
     (case cm of
        Normal c \<Rightarrow>
          and_then (if comps = [] \<and> \<not> resolve_last then Inr (cur @ [c]) else resolve_component k t root (cur @ [c]) depth)
            (\<lambda>cur. safe_steps k t root comps resolve_last depth cur)
      | CurDir \<Rightarrow> safe_steps k t root comps resolve_last depth cur
      | _ \<Rightarrow> Inl UnsafeComponent)"
| "resolve_component k t root p depth =
     (case lstat t p of
        Inr (Link target) \<Rightarrow>
          if depth \<ge> MAX_SYMLINK_DEPTH then Inl TooDeep
          else if \<not> k_allow k Read p then Inl (LinkUnreadable p)
          else (case normalize_under root (if starts_with target ''/'' then root else butlast p) target of
              None \<Rightarrow> Inl (Escapes p)
            | Some joined \<Rightarrow> (case strip_path root joined of
                  None \<Rightarrow> Inl (Escapes p)
                | Some target_rel \<Rightarrow> safe_walk k t root (map component_of target_rel) True (depth + 1)))
      | _ \<Rightarrow> Inr p)"
  by pat_completeness auto
termination
  by (relation "measures
      [\<lambda>x. case x of Inl (k, t, root, rel, l, depth) \<Rightarrow> 65 - depth
         | Inr (Inl (k, t, root, rel, l, depth, cur)) \<Rightarrow> 65 - depth | Inr (Inr (k, t, root, p, depth)) \<Rightarrow> 65 - depth,
       \<lambda>x. case x of Inl (k, t, root, rel, l, depth) \<Rightarrow> Suc (length rel)
         | Inr (Inl (k, t, root, rel, l, depth, cur)) \<Rightarrow> length rel | Inr (Inr (k, t, root, p, depth)) \<Rightarrow> 0]")
    (auto simp: MAX_SYMLINK_DEPTH_def)

definition safe_join :: "kernel \<Rightarrow> fnode \<Rightarrow> path \<Rightarrow> component list \<Rightarrow> unpack_error + path" where
  "safe_join k t root rel = safe_walk k t root rel True 0"

definition safe_join_leaf :: "kernel \<Rightarrow> fnode \<Rightarrow> path \<Rightarrow> component list \<Rightarrow> unpack_error + path" where
  "safe_join_leaf k t root rel = safe_walk k t root rel False 0"

section \<open>Entries\<close>

datatype entry_kind = TDirectory | TRegular | TContinuous | TSymlink | TLink | TSpecial

record tar_entry =
  te_path :: "string option"
  te_kind :: entry_kind
  te_mode :: "nat option"
  te_link :: "unit + string option"
  te_data :: string
  te_complete :: bool

text \<open>\<open>let _ = f\<close>: the result is dropped.\<close>

definition set_mode_if_possible :: "kernel \<Rightarrow> path \<Rightarrow> nat \<Rightarrow> fnode \<Rightarrow> fnode" where
  "set_mode_if_possible k p mode t = snd (set_permissions k (mode_bits mode) p t)"

definition replace_dest :: "kernel \<Rightarrow> path \<Rightarrow> fnode \<Rightarrow> fnode" where
  "replace_dest k dest t = (case lstat t dest of
      Inl _ \<Rightarrow> t
    | Inr (Dir _ _) \<Rightarrow> remove_dir_all_quiet k dest t
    | Inr _ \<Rightarrow> snd (remove_file k dest t))"

definition shadow_file :: "kernel \<Rightarrow> path \<Rightarrow> fnode \<Rightarrow> fnode" where
  "shadow_file k dest t = (case lstat t dest of
      Inl _ \<Rightarrow> t
    | Inr (Dir _ _) \<Rightarrow> t
    | Inr _ \<Rightarrow> snd (remove_file k dest t))"

text \<open>The mode of an entry, set last.\<close>

definition finish_mode :: "kernel \<Rightarrow> tar_entry \<Rightarrow> path \<Rightarrow> fnode \<Rightarrow> (unpack_error + unit) \<times> fnode" where
  "finish_mode k e dest t = (case te_mode e of
      None \<Rightarrow> (Inl BadMode, t)
    | Some m \<Rightarrow> (Inr (), set_mode_if_possible k dest m t))"

definition lift_io :: "(io_error \<Rightarrow> unpack_error) \<Rightarrow> 'a fs_result \<Rightarrow> (unpack_error + 'a) \<times> fnode" where
  "lift_io f m = (map_err f (fst m), snd m)"

definition apply_kind :: "kernel \<Rightarrow> tar_entry \<Rightarrow> path \<Rightarrow> string list \<Rightarrow> path \<Rightarrow> fnode \<Rightarrow> (unpack_error + unit) \<times> fnode" where
  "apply_kind k e root rel dest t = (case te_kind e of
      TDirectory \<Rightarrow>
        bindf (lift_io (MkdirFailed dest) (create_dir_all k dest (shadow_file k dest t))) (\<lambda>_ t. finish_mode k e dest t)
    | TRegular \<Rightarrow>
        bindf (lift_io (CreateFailed dest) (write_new k dest (te_data e) (replace_dest k dest t))) (\<lambda>_ t.
        if te_complete e then finish_mode k e dest t else (Inl (WriteFailed dest), t))
    | TContinuous \<Rightarrow>
        bindf (lift_io (CreateFailed dest) (write_new k dest (te_data e) (replace_dest k dest t))) (\<lambda>_ t.
        if te_complete e then finish_mode k e dest t else (Inl (WriteFailed dest), t))
    | TSymlink \<Rightarrow>
        (let t = replace_dest k dest t in
         (case te_link e of
            Inl _ \<Rightarrow> (Inl (BadTarget rel), t)
          | Inr None \<Rightarrow> (Inl (NoTarget rel), t)
          | Inr (Some target) \<Rightarrow> lift_io (LinkFailed dest) (symlink k target dest t)))
    | TLink \<Rightarrow>
        (case te_link e of
           Inl _ \<Rightarrow> (Inl (BadTarget rel), t)
         | Inr None \<Rightarrow> (Inl (NoTarget rel), t)
         | Inr (Some target) \<Rightarrow>
             (case safe_join k t root (components target) of
                Inl err \<Rightarrow> (Inl err, t)
              | Inr target_abs \<Rightarrow> lift_io (LinkFailed dest) (hard_link k target_abs dest (replace_dest k dest t))))
    | TSpecial \<Rightarrow> (Inr (), t))"

definition apply_entry ::
  "kernel \<Rightarrow> tar_entry \<Rightarrow> path \<Rightarrow> string list \<Rightarrow> path \<Rightarrow> fnode \<Rightarrow> (unpack_error + unit) \<times> fnode" where
  "apply_entry k e root rel parent_abs t = (case safe_join_leaf k t root (map Normal rel) of
      Inl err \<Rightarrow> (Inl err, t)
    | Inr dest \<Rightarrow>
        bindf (lift_io (ParentFailed parent_abs) (create_dir_all k parent_abs t)) (\<lambda>_ t. apply_kind k e root rel dest t))"

section \<open>Layers\<close>

definition WHITEOUT_PREFIX :: string where "WHITEOUT_PREFIX = ''.wh.''"
definition OPAQUE_WHITEOUT :: string where "OPAQUE_WHITEOUT = ''.wh..wh..opq''"

definition remove_all_children :: "kernel \<Rightarrow> path \<Rightarrow> fnode \<Rightarrow> fnode" where
  "remove_all_children k dir t = (case stat t dir of
      Inr (Dir m es) \<Rightarrow>
        if k_allow k Readdir dir then
          fold (\<lambda>(c, n) t. case n of
              Dir _ _ \<Rightarrow> remove_dir_all_quiet k (dir @ [c]) t
            | _ \<Rightarrow> snd (remove_file k (dir @ [c]) t)) es t
        else t
    | _ \<Rightarrow> t)"

definition unpack_entry ::
  "kernel \<Rightarrow> (string \<Rightarrow> string) \<Rightarrow> path \<Rightarrow> tar_entry \<Rightarrow> fnode \<Rightarrow> (unpack_error + unit) \<times> fnode" where
  "unpack_entry k lossy root e t = (case te_path e of
      None \<Rightarrow> (Inl TarPath, t)
    | Some raw_path \<Rightarrow> (case sanitize_rel_path raw_path of
        None \<Rightarrow> (Inl (UnsafePath raw_path), t)
      | Some rel \<Rightarrow>
          if rel = [] then (Inr (), t)
          else (let name = lossy (last rel); parent_rel = butlast rel in
            (case safe_join k t root (map Normal parent_rel) of
               Inl err \<Rightarrow> (Inl err, t)
             | Inr parent_abs \<Rightarrow>
                 if name = OPAQUE_WHITEOUT then (Inr (), remove_all_children k parent_abs t)
                 else if starts_with name ''.wh..wh..'' then (Inr (), t)
                 else (case strip_prefix WHITEOUT_PREFIX name of
                     Some rest \<Rightarrow>
                       if rest = [] then (Inr (), t)
                       else (case safe_join_leaf k t root (join_name parent_rel rest) of
                           Inl err \<Rightarrow> (Inl err, t)
                         | Inr victim \<Rightarrow> (Inr (), snd (remove_file k victim (remove_dir_all_quiet k victim t))))
                   | None \<Rightarrow> apply_entry k e root rel parent_abs t)))))"

fun unpack_entries ::
  "kernel \<Rightarrow> (string \<Rightarrow> string) \<Rightarrow> path \<Rightarrow> tar_entry option list \<Rightarrow> fnode \<Rightarrow> (unpack_error + unit) \<times> fnode" where
  "unpack_entries k lossy root [] t = (Inr (), t)"
| "unpack_entries k lossy root (None # es) t = (Inl TarEntry, t)"
| "unpack_entries k lossy root (Some e # es) t = bindf (unpack_entry k lossy root e t) (\<lambda>_ t. unpack_entries k lossy root es t)"

definition unpack_layer ::
  "kernel \<Rightarrow> (string \<Rightarrow> string) \<Rightarrow> path \<Rightarrow> tar_entry option list option \<Rightarrow> fnode \<Rightarrow> (unpack_error + unit) \<times> fnode" where
  "unpack_layer k lossy root archive t = (case archive of
      None \<Rightarrow> (Inl TarStream, t)
    | Some es \<Rightarrow> unpack_entries k lossy root es t)"

declare safe_walk.simps [simp del] safe_steps.simps [simp del] resolve_component.simps [simp del]

end
