(* ===== verification/Unpack_Facts.thy ===== *)
theory Unpack_Facts
  imports Unpack Fsutil_Facts
begin

text \<open>
  Where the paths of a layer lead, and that applying its entries stays below the root.
\<close>

section \<open>Where a path leads\<close>

text \<open>A root whose parents are directories; it may itself be missing.\<close>

definition root_ok :: "fnode \<Rightarrow> path \<Rightarrow> bool" where
  "root_ok t root \<longleftrightarrow> ''..'' \<notin> set root \<and> (\<forall>q. strict_prefix q root \<longrightarrow> is_dir_at t q) \<and> \<not> is_link t root"

lemma canonical_root_ok: "root_ok t root \<Longrightarrow> canonical_root t root = root"
  using walk_dirs [of root t "[]" True 40]
  by (auto simp: root_ok_def canonical_root_def canonicalize_def split: option.splits)

lemma root_clean: "root_ok t root \<Longrightarrow> clean t root"
  by (auto simp: root_ok_def clean_def dest: is_dir_not_link)

lemma node_parents: "node_at t p = Some n \<Longrightarrow> strict_prefix q p \<Longrightarrow> is_dir_at t q"
proof -
  assume n: "node_at t p = Some n" and "strict_prefix q p"
  then obtain c r where "p = q @ c # r" by (auto elim: strict_prefixE')
  then have "node_at t p = Option.bind (node_at t (q @ [c])) (\<lambda>n. node_at n r)" using node_at_append [of t "q @ [c]" r] by simp
  with n obtain m where "node_at t (q @ [c]) = Some m" by (auto simp: Option.bind_eq_Some_conv)
  then show ?thesis by (rule node_at_snoc_dir)
qed

lemma lstat_node: "clean t p \<Longrightarrow> node_at t p = Some n \<Longrightarrow> lstat t p = Inr n"
  using walk_dirs [of p t "[]" False 40] node_parents [of t p n] by (auto simp: lstat_def clean_def)

lemma link_lstat: "clean t p \<Longrightarrow> is_link t p \<Longrightarrow> \<exists>l. lstat t p = Inr (Link l)"
proof -
  assume c: "clean t p" and "is_link t p"
  then obtain n l where "node_at t p = Some n" "inode_of n = ILink l" by (auto simp: is_link_def info_def)
  with lstat_node [OF c] show ?thesis by (cases n) auto
qed

definition ok_comps :: "component list \<Rightarrow> bool" where
  "ok_comps cs \<longleftrightarrow> Normal ''..'' \<notin> set cs"

lemma component_of_ok [simp]: "component_of c \<noteq> Normal ''..''"
  by (simp add: component_of_def)

lemma ok_comps_simps [simp]:
  "ok_comps []" "ok_comps (c # cs) \<longleftrightarrow> c \<noteq> Normal ''..'' \<and> ok_comps cs" "ok_comps (a @ b) \<longleftrightarrow> ok_comps a \<and> ok_comps b"
  "ok_comps (map component_of ns)"
  by (auto simp: ok_comps_def component_of_def split: if_splits)

lemma safe_paths:
  "root_ok t root \<Longrightarrow> ok_comps rel \<Longrightarrow> safe_walk k t root rel l d = Inr p \<Longrightarrow> prefix root p \<and> clean t p \<and> (l \<longrightarrow> \<not> is_link t p)"
  "root_ok t root \<Longrightarrow> ok_comps rel \<Longrightarrow> prefix root cur \<Longrightarrow> clean t cur \<Longrightarrow> rel = [] \<and> \<not> l \<or> \<not> is_link t cur \<Longrightarrow>
     safe_steps k t root rel l d cur = Inr p \<Longrightarrow> prefix root p \<and> clean t p \<and> (l \<longrightarrow> \<not> is_link t p)"
  "root_ok t root \<Longrightarrow> prefix root q \<Longrightarrow> clean t q \<Longrightarrow> resolve_component k t root q d = Inr p \<Longrightarrow>
     prefix root p \<and> clean t p \<and> \<not> is_link t p"
proof (induction k t root rel l d and k t root rel l d cur and k t root q d arbitrary: p and p and p
    rule: safe_walk_safe_steps_resolve_component.induct)
  case (1 k t root rel l d)
  note c = canonical_root_ok [OF "1.prems"(1)]
  have d: "\<not> MAX_SYMLINK_DEPTH < d" and s: "safe_steps k t root rel l d root = Inr p"
    using "1.prems"(3) unfolding safe_walk.simps [of k t root rel l d] c by (auto split: if_splits)
  have "\<not> is_link t root" using "1.prems"(1) by (simp add: root_ok_def)
  then show ?case
    by (intro "1.IH" [OF d, unfolded c, OF "1.prems"(1,2) _ root_clean [OF "1.prems"(1)] _ s] disjI2) (rule prefix_order.refl, assumption)
next
  case (2 k t root l d cur)
  then show ?case by (auto simp: safe_steps.simps)
next
  case (3 k t root cm cs l d cur)
  show ?case
  proof (cases cm)
    case CurDir
    have s: "safe_steps k t root cs l d cur = Inr p" using "3.prems"(6) unfolding CurDir safe_steps.simps(2) by simp
    have "\<not> is_link t cur" "ok_comps cs" using "3.prems"(2,5) by simp_all
    then show ?thesis using "3.IH"(1) [OF CurDir "3.prems"(1) _ "3.prems"(3,4) _ s] by blast
  next
    case (Normal c)
    then have cl: "clean t (cur @ [c])" using "3.prems" by (simp add: clean_snoc)
    have pr: "prefix root (cur @ [c])" using "3.prems"(3) by simp
    obtain cur' where r: "(if cs = [] \<and> \<not> l then Inr (cur @ [c]) else resolve_component k t root (cur @ [c]) d) = Inr cur'"
      and s: "safe_steps k t root cs l d cur' = Inr p"
      using "3.prems"(6) unfolding Normal safe_steps.simps(2) component.case and_then_eq_Inr_iff by blast
    have c': "prefix root cur' \<and> clean t cur' \<and> (cs = [] \<and> \<not> l \<or> \<not> is_link t cur')"
    proof (cases "cs = [] \<and> \<not> l")
      case True
      with r cl pr show ?thesis by simp
    next
      case False
      with r have "resolve_component k t root (cur @ [c]) d = Inr cur'" by (simp split: if_splits)
      with "3.IH"(2) [OF Normal False "3.prems"(1) pr cl] show ?thesis by blast
    qed
    have "ok_comps cs" using "3.prems"(2) by simp
    then show ?thesis
      using "3.IH"(3) [OF Normal r "3.prems"(1) _ _ _ _ s] c' by blast
  qed (use "3.prems"(6) in \<open>simp_all only: safe_steps.simps(2) component.case sum.distinct\<close>)
next
  case (4 k t root q d)
  show ?case
  proof (cases "is_link t q")
    case True
    then obtain target where l: "lstat t q = Inr (Link target)" using link_lstat 4 by blast
    from 4 l show ?thesis
      by (auto simp: resolve_component.simps [of k t root q] split: if_splits option.splits)
  next
    case False
    then have "\<nexists>l. lstat t q = Inr (Link l)" using lstat_clean [OF "4.prems"(3)] by (auto simp: is_link_def info_def)
    then have "p = q" using "4.prems"(4) by (auto simp: resolve_component.simps [of k t root q] split: sum.splits fnode.splits)
    with False "4.prems" show ?thesis by simp
  qed
qed

lemma safe_steps_leaf:
  "safe_steps k t root (cs @ [Normal c]) False d cur = and_then (safe_steps k t root cs True d cur) (\<lambda>p. Inr (p @ [c]))"
proof (induction cs arbitrary: cur)
  case Nil
  then show ?case by (simp add: safe_steps.simps)
next
  case (Cons cm cs)
  show ?case
  proof (cases cm)
    case (Normal x)
    show ?thesis
    proof (cases "resolve_component k t root (cur @ [x]) d")
      case (Inr p)
      then show ?thesis unfolding append_Cons safe_steps.simps(2) Normal using Cons.IH [of p] by simp
    qed (simp add: safe_steps.simps(2) Normal)
  next
    case CurDir
    show ?thesis unfolding append_Cons safe_steps.simps(2) CurDir component.case by (rule Cons.IH)
  qed (simp_all only: append_Cons safe_steps.simps(2) component.case and_then_simps)
qed

lemma safe_join_leaf_parent:
  "rel \<noteq> [] \<Longrightarrow> safe_join_leaf k t root (map Normal rel) =
     and_then (safe_join k t root (map Normal (butlast rel))) (\<lambda>p. Inr (p @ [last rel]))"
proof -
  assume "rel \<noteq> []"
  then have "map Normal rel = map Normal (butlast rel) @ [Normal (last rel)]" by (metis append_butlast_last_id list.simps(8,9) map_append)
  then show ?thesis by (simp add: safe_join_leaf_def safe_join_def safe_walk.simps safe_steps_leaf)
qed

lemma sanitize_components_ok:
  "sanitize_components cs out = Some ns \<Longrightarrow> ok_comps cs \<Longrightarrow> ok_comps (map Normal out) \<Longrightarrow> ok_comps (map Normal ns)"
  by (induction cs out rule: sanitize_components.induct) auto

lemma components_ok: "ok_comps (components s)"
  by (simp add: components_def split: list.splits)

lemma sanitize_ok: "sanitize_rel_path p = Some rel \<Longrightarrow> ok_comps (map Normal rel) \<and> rel \<noteq> []"
  using sanitize_components_ok [of "components p" "[]" rel] components_ok [of p]
  by (auto simp: sanitize_rel_path_def split: option.splits if_splits)

lemma ok_comps_butlast: "ok_comps (map Normal rel) \<Longrightarrow> ok_comps (map Normal (butlast rel))"
  by (auto simp: ok_comps_def dest: in_set_butlastD)

lemma ok_comps_last: "ok_comps (map Normal rel) \<Longrightarrow> rel \<noteq> [] \<Longrightarrow> last rel \<noteq> ''..''"
  unfolding ok_comps_def by (metis image_eqI last_in_set list.set_map)

lemma join_name_ok: "ok_comps (map Normal parent) \<Longrightarrow> ok_comps (join_name parent name)"
  by (simp add: join_name_def)

section \<open>Everything stays below the root\<close>

definition held :: "path \<Rightarrow> fnode \<Rightarrow> fnode \<Rightarrow> bool" where
  "held root t0 t \<longleftrightarrow> root_ok t0 root \<and> touches root t0 t \<and> wf_node t \<and> \<not> is_link t root"

lemma held_root: "held root t0 t \<Longrightarrow> root_ok t root"
proof -
  assume h: "held root t0 t"
  then have "info t q = info t0 q" if "strict_prefix q root" for q using that touches_strict by (auto simp: held_def)
  with h show ?thesis by (auto simp: held_def root_ok_def is_dir_at_def)
qed

lemma held_below: "held root t0 t \<Longrightarrow> touches p t t' \<Longrightarrow> strict_prefix root p \<Longrightarrow> wf_node t' \<Longrightarrow> held root t0 t'"
  unfolding held_def using touches_strict touches_trans touches_weaken
  by (metis is_link_def strict_prefix_def)

lemma held_pruned: "held root t0 t \<Longrightarrow> pruned p t t' \<Longrightarrow> prefix root p \<Longrightarrow> held root t0 t'"
  unfolding held_def pruned_def fewer_links_def using touches_trans touches_weaken by blast

lemma wf_create_dir_all: "wf_node t \<Longrightarrow> wf_node (snd (create_dir_all k p t))"
proof (induction k p t rule: create_dir_all.induct)
  case (1 k p t)
  obtain r t1 where m: "mkdir k p t = (r, t1)" by fastforce
  have w1: "wf_node t1" using wf_ops(1) [OF "1.prems", of k p] m by simp
  show ?case
  proof (cases "p \<noteq> [] \<and> r = Inl NotFound")
    case True
    obtain r2 t2 where a: "create_dir_all k (butlast p) t1 = (r2, t2)" by fastforce
    have w2: "wf_node t2" using "1.IH" [OF _ m [symmetric] _ refl w1] True a by simp
    have w3: "wf_node (snd (mkdir k p t2))" by (rule wf_ops(1) [OF w2])
    show ?thesis
      using create_dir_all.simps [of k p t] True m a w2 w3 by (cases r2; cases "mkdir k p t2") (auto split: sum.splits)
  next
    case False
    then show ?thesis using create_dir_all.simps [of k p t] m w1 "1.prems" by (cases "p = []"; cases r) auto
  qed
qed

lemma held_create_dir_all:
  assumes "held root t0 t" and "clean t p" and "prefix root p"
  shows "held root t0 (snd (create_dir_all k p t))"
proof -
  have "info t0 q \<noteq> None" if "strict_prefix q root" for q
    using assms(1) that by (auto simp: held_def root_ok_def is_dir_at_def)
  with create_dir_all_confined [OF assms(2) _ assms(3), of t0] assms(1) create_dir_all_frame [OF assms(2)] show ?thesis
    by (auto simp: held_def wf_create_dir_all)
qed

lemma held_op:
  assumes "held root t0 t" and "clean t p" and "strict_prefix root p"
  shows "held root t0 (snd (write_new k p d t))" "held root t0 (snd (symlink k l p t))" "held root t0 (snd (hard_link k s p t))"
    "\<not> is_link t p \<Longrightarrow> held root t0 (snd (set_permissions k m p t))"
proof -
  have w: "wf_node t" using assms(1) by (simp add: held_def)
  note below = held_below [OF assms(1) _ assms(3)]
  show "held root t0 (snd (write_new k p d t))" by (rule below [OF write_new.op_touches [OF assms(2)] wf_ops(4) [OF w]])
  show "held root t0 (snd (symlink k l p t))" by (rule below [OF symlink.op_touches [OF assms(2)] wf_ops(5) [OF w]])
  show "held root t0 (snd (hard_link k s p t))" by (rule below [OF hard_link.op_touches [OF assms(2)] wf_ops(6) [OF w]])
  show "held root t0 (snd (set_permissions k m p t))" if "\<not> is_link t p"
    by (rule below [OF set_permissions_touches [OF assms(2) that] wf_ops(7) [OF w]])
qed

lemma strict_snoc: "prefix root p \<Longrightarrow> strict_prefix root (p @ [c])"
  by (auto simp: strict_prefix_def prefix_def)

lemma removed_link:
  assumes "clean t (p @ [c])" and "lstat t (p @ [c]) = Inr n" and "k_allow k Unlink (p @ [c])" and "\<And>m es. n \<noteq> Dir m es"
  shows "\<not> is_link (snd (remove_file k (p @ [c]) t)) (p @ [c])"
proof -
  from assms(1,2) have n: "node_at t (p @ [c]) = Some n" by (rule lstat_clean)
  have "remove_file k (p @ [c]) t = change k Unlink None (p @ [c]) t"
    using assms(2,4) n locate_clean [OF assms(1)]
    by (cases n) (auto simp: remove_file_def lstat_def and_then_eq_Inr_iff ok_or_eq_Inr_iff split: sum.splits)
  with assms(3) info_store_at [OF node_at_snoc_dir [OF n], of None c] show ?thesis by (simp add: change_def is_link_def)
qed

lemma shadow_no_link:
  assumes "clean t (p @ [c])" and "k_allow k Unlink (p @ [c])"
  shows "\<not> is_link (shadow_file k (p @ [c]) t) (p @ [c])"
proof (cases "is_link t (p @ [c])")
  case True
  with link_lstat [OF assms(1)] obtain l where l: "lstat t (p @ [c]) = Inr (Link l)" by blast
  with removed_link [OF assms(1) l assms(2)] show ?thesis by (simp add: shadow_file_def)
next
  case False
  then show ?thesis using fewer_ops(1) [of t k "p @ [c]"]
    by (auto simp: shadow_file_def fewer_links_def split: sum.splits fnode.splits)
qed

lemma shadow_pruned: "clean t p \<Longrightarrow> pruned p t (shadow_file k p t)"
  by (auto simp: shadow_file_def intro: pruned_file split: sum.splits fnode.splits)

lemma replace_pruned: "wf_node t \<Longrightarrow> clean t p \<Longrightarrow> pruned p t (replace_dest k p t)"
  by (auto simp: replace_dest_def intro: pruned_file remove_quiet_pruned split: sum.splits fnode.splits)

lemma write_new_no_link: "clean t p \<Longrightarrow> write_new k p d t = (Inr u, t') \<Longrightarrow> \<not> is_link t' p"
proof -
  assume c: "clean t p" and w: "write_new k p d t = (Inr u, t')"
  have no: "\<not> is_link (store_at (Some (File m d)) p t) p \<or> store_at (Some (File m d)) p t = t" for m
    using info_store_same [of "Some (File m d)" p t] by (auto simp: is_link_def)
  have "\<not> is_link t p" if "\<nexists>l. node_at t p = Some (Link l)"
  proof
    assume "is_link t p"
    then obtain n l where "node_at t p = Some n" "inode_of n = ILink l" by (auto simp: is_link_def info_def)
    with that show False by (cases n) auto
  qed
  with c w no show ?thesis
    by (auto simp: write_new_def change_def dest!: locate_clean split: sum.splits option.splits fnode.splits if_splits) metis+
qed

lemma held_finish_mode:
  "held root t0 t \<Longrightarrow> clean t p \<Longrightarrow> strict_prefix root p \<Longrightarrow> \<not> is_link t p \<Longrightarrow> held root t0 (snd (finish_mode k e p t))"
  by (simp add: finish_mode_def set_mode_if_possible_def held_op(4) split: option.splits)

lemma held_bindf:
  assumes "held root t0 (snd m)" and "\<And>x t. m = (Inr x, t) \<Longrightarrow> held root t0 t \<Longrightarrow> held root t0 (snd (f x t))"
  shows "held root t0 (snd (bindf m f))"
  using assms by (cases m) (auto simp: bindf_def split: sum.splits)

lemma lift_io_Inr: "lift_io f m = (Inr x, t) \<longleftrightarrow> m = (Inr x, t)"
  by (cases m; cases "fst m") (auto simp: lift_io_def)

lemma snd_lift_io [simp]: "snd (lift_io f m) = snd m"
  by (simp add: lift_io_def)

lemma held_write:
  assumes "held root t0 t" and "clean t p" and "strict_prefix root p"
  shows "held root t0 (snd (bindf (lift_io g (write_new k p d (replace_dest k p t)))
    (\<lambda>_ t. if b then finish_mode k e p t else (Inl x, t))))"
proof -
  have w: "wf_node t" using assms(1) by (simp add: held_def)
  note pr = replace_pruned [OF w assms(2), of k]
  have h: "held root t0 (replace_dest k p t)" using held_pruned [OF assms(1) pr] assms(3) by (simp add: strict_prefix_def)
  have c: "clean (replace_dest k p t) p" by (rule pruned_clean [OF pr assms(2)])
  show ?thesis
  proof (rule held_bindf)
    fix u t'
    assume "lift_io g (write_new k p d (replace_dest k p t)) = (Inr u, t')" and h': "held root t0 t'"
    then have wr: "write_new k p d (replace_dest k p t) = (Inr u, t')" by (simp add: lift_io_Inr)
    have "clean t' p" using write_new.op_clean [OF c, of k d] wr by simp
    with h' assms(3) write_new_no_link [OF c wr] show "held root t0 (snd (if b then finish_mode k e p t' else (Inl x, t')))"
      by (simp add: held_finish_mode)
  qed (simp add: held_op(1) [OF h c assms(3)])
qed

lemma held_apply_kind:
  assumes "held root t0 t" and "clean t (p @ [c])" and "prefix root p" and "k_allow k Unlink (p @ [c])"
  shows "held root t0 (snd (apply_kind k e root rel (p @ [c]) t))"
proof -
  let ?d = "p @ [c]"
  have st: "strict_prefix root ?d" using assms(3) by (rule strict_snoc)
  then have pre: "prefix root ?d" by (auto simp: strict_prefix_def)
  have w: "wf_node t" using assms(1) by (simp add: held_def)
  note rp = replace_pruned [OF w assms(2), of k] and sp = shadow_pruned [OF assms(2), of k]
  note rh = held_pruned [OF assms(1) rp pre] and rc = pruned_clean [OF rp assms(2)]
  note sh = held_pruned [OF assms(1) sp pre] and sc = pruned_clean [OF sp assms(2)]
  have dir: "held root t0 (snd (bindf (lift_io (MkdirFailed ?d) (create_dir_all k ?d (shadow_file k ?d t))) (\<lambda>_ t. finish_mode k e ?d t)))"
  proof (rule held_bindf)
    fix u t'
    assume "lift_io (MkdirFailed ?d) (create_dir_all k ?d (shadow_file k ?d t)) = (Inr u, t')" and h': "held root t0 t'"
    then have m: "t' = snd (create_dir_all k ?d (shadow_file k ?d t))" by (simp add: lift_io_Inr)
    show "held root t0 (snd (finish_mode k e ?d t'))"
      using held_finish_mode [OF h' _ st] create_dir_all_clean [OF sc] create_dir_all_frame [OF sc] sc
        shadow_no_link [OF assms(2,4)] by (simp add: m)
  qed (simp add: held_create_dir_all [OF sh sc pre])
  show ?thesis
    using dir held_write [OF assms(1,2) st] held_op(2,3) [OF rh rc st] assms(1) rh
    by (auto simp: apply_kind_def Let_def split: entry_kind.splits sum.splits option.splits)
qed

lemma held_children:
  assumes "held root t0 t" and "clean t p" and "\<not> is_link t p" and "prefix root p"
  shows "held root t0 (remove_all_children k p t)"
proof (cases "\<exists>m es. stat t p = Inr (Dir m es) \<and> k_allow k Readdir p")
  case True
  then obtain m es where s: "stat t p = Inr (Dir m es)" and r: "k_allow k Readdir p" by blast
  let ?f = "\<lambda>(c, n) t. case n of Dir _ _ \<Rightarrow> remove_dir_all_quiet k (p @ [c]) t | _ \<Rightarrow> snd (remove_file k (p @ [c]) t)"
  have "node_at t p = Some (Dir m es)"
    using s locate_clean_follow [OF assms(2,3)] by (auto simp: stat_def and_then_eq_Inr_iff ok_or_eq_Inr_iff)
  then have "wf_node (Dir m es)" using assms(1) wf_node_at unfolding held_def by blast
  then have names: "\<forall>e \<in> set es. fst e \<noteq> ''..''" by simp
  have "held root t0 (fold ?f es t)" using assms names
  proof (induction es arbitrary: t)
    case (Cons e es)
    obtain c n where e: "e = (c, n)" by fastforce
    have c: "clean t (p @ [c])" using Cons.prems e by (auto intro: clean_entry)
    have pr: "pruned (p @ [c]) t (?f e t)"
      using c Cons.prems(1) e by (auto simp: held_def intro: pruned_file remove_quiet_pruned split: fnode.splits)
    have "held root t0 (fold ?f es (?f e t))"
    proof (rule Cons.IH)
      show "held root t0 (?f e t)" using held_pruned [OF Cons.prems(1) pr] Cons.prems(4) by simp
      show "clean (?f e t) p" by (rule pruned_clean [OF pr Cons.prems(2)])
      show "\<not> is_link (?f e t) p" by (rule pruned_link [OF pr Cons.prems(3)])
    qed (use Cons.prems in auto)
    then show ?case by simp
  qed simp
  with s r show ?thesis by (simp add: remove_all_children_def)
qed (use assms(1) in \<open>auto simp: remove_all_children_def split: sum.splits fnode.splits\<close>)

lemma held_victim:
  assumes "held root t0 t" and "clean t p" and "prefix root p"
  shows "held root t0 (snd (remove_file k p (remove_dir_all_quiet k p t)))"
proof -
  have w: "wf_node t" using assms(1) by (simp add: held_def)
  note q = remove_quiet_pruned [OF w assms(2), of k]
  show ?thesis
    by (rule held_pruned [OF assms(1) pruned_trans [OF q pruned_file [OF pruned_clean [OF q assms(2)]]] assms(3)])
qed

lemma held_apply_entry:
  assumes "held root t0 t" and "safe_join k t root (map Normal (butlast rel)) = Inr parent"
    and "ok_comps (map Normal rel)" and "rel \<noteq> []" and "\<And>p. k_allow k Unlink p"
  shows "held root t0 (snd (apply_entry k e root rel parent t))"
proof -
  have p: "prefix root parent" "clean t parent" "\<not> is_link t parent"
    using safe_paths(1) [OF held_root [OF assms(1)] ok_comps_butlast [OF assms(3)] assms(2) [unfolded safe_join_def]] by simp_all
  let ?d = "parent @ [last rel]"
  have c: "clean t ?d" using p ok_comps_last [OF assms(3,4)] by (simp add: clean_snoc)
  have leaf: "safe_join_leaf k t root (map Normal rel) = Inr ?d" using assms(2,4) by (simp add: safe_join_leaf_parent)
  have "held root t0 (snd (bindf (lift_io (ParentFailed parent) (create_dir_all k parent t)) (\<lambda>_ t. apply_kind k e root rel ?d t)))"
  proof (rule held_bindf)
    fix u t'
    assume "lift_io (ParentFailed parent) (create_dir_all k parent t) = (Inr u, t')" and h': "held root t0 t'"
    then have "clean t' ?d" using create_dir_all_clean [OF p(2), of k] c by (metis lift_io_Inr snd_conv)
    with h' p(1) assms(5) show "held root t0 (snd (apply_kind k e root rel ?d t'))" by (intro held_apply_kind)
  qed (simp add: held_create_dir_all [OF assms(1) p(2,1)])
  with leaf show ?thesis by (simp add: apply_entry_def)
qed

lemma held_unpack_entry:
  assumes "held root t0 t" and "\<And>p. k_allow k Unlink p"
  shows "held root t0 (snd (unpack_entry k lossy root e t))"
proof (cases "Option.bind (te_path e) sanitize_rel_path")
  case None
  with assms(1) show ?thesis by (cases "te_path e") (auto simp: unpack_entry_def)
next
  case (Some rel)
  then obtain raw where raw: "te_path e = Some raw" "sanitize_rel_path raw = Some rel" by (auto simp: Option.bind_eq_Some_conv)
  note ok = sanitize_ok [OF raw(2)]
  note root = held_root [OF assms(1)]
  show ?thesis
  proof (cases "safe_join k t root (map Normal (butlast rel))")
    case (Inl err)
    with raw ok assms(1) show ?thesis by (simp add: unpack_entry_def Let_def)
  next
    case (Inr parent)
    have p: "prefix root parent" "clean t parent" "\<not> is_link t parent"
      using safe_paths(1) [OF root ok_comps_butlast Inr [unfolded safe_join_def]] ok by simp_all
    have victim: "held root t0 (snd (remove_file k v (remove_dir_all_quiet k v t)))"
      if "safe_join_leaf k t root (join_name (butlast rel) rest) = Inr v" for rest v
      using safe_paths(1) [OF root join_name_ok [OF ok_comps_butlast] that [unfolded safe_join_leaf_def]] ok
      by (intro held_victim [OF assms(1)]) simp_all
    have entry: "held root t0 (snd (apply_entry k e root rel parent t))"
      using held_apply_entry [OF assms(1) Inr] ok assms(2) by blast
    show ?thesis
      using raw ok Inr assms(1) victim entry held_children [OF assms(1) p(2,3,1)]
      by (auto simp: unpack_entry_def Let_def split: option.splits sum.splits)
  qed
qed

lemma held_unpack:
  "held root t0 t \<Longrightarrow> (\<And>p. k_allow k Unlink p) \<Longrightarrow> held root t0 (snd (unpack_layer k lossy root archive t))"
proof -
  assume h: "held root t0 t" and u: "\<And>p. k_allow k Unlink p"
  have "held root t0 (snd (unpack_entries k lossy root es t))" for es
    using h u
  proof (induction es arbitrary: t)
    case (Cons e es)
    then show ?case by (cases e) (auto intro!: held_bindf held_unpack_entry)
  qed simp
  with h show ?thesis by (simp add: unpack_layer_def split: option.splits)
qed

end
