(* ===== verification/Commit.thy ===== *)
theory Commit
  imports Unpack
begin

text \<open>
  Rebuilding the root file system of an exited container for \<open>commit\<close> (src/image/commit.rs): a copy of the base, then the upper
  layer of the overlay on top of it. The trees at the base and the upper layer are arguments, as they are when they are read.
\<close>

datatype commit_error =
    BaseCopy copy_error
  | MergedRoot path io_error
  | UpperUnreadable path
  | UpperDir path io_error
  | UpperLink path io_error
  | UpperFile path io_error

definition remove_children :: "kernel \<Rightarrow> path \<Rightarrow> fnode \<Rightarrow> fnode" where
  "remove_children k dir t = remove_all_children k dir t"

definition copy_dir_mode :: "kernel \<Rightarrow> fnode \<Rightarrow> path \<Rightarrow> fnode \<Rightarrow> fnode" where
  "copy_dir_mode k source to t = (case source of
      Dir m _ \<Rightarrow> snd (set_permissions k (mode_bits m) to t)
    | File m _ \<Rightarrow> snd (set_permissions k (mode_bits m) to t)
    | _ \<Rightarrow> t)"

text \<open>\<open>fs::copy\<close> of a file: the target is followed, created or truncated, and gets the source's mode.\<close>

definition fs_copy :: "kernel \<Rightarrow> path \<Rightarrow> nat \<Rightarrow> string \<Rightarrow> path \<Rightarrow> fnode \<Rightarrow> unit fs_result" where
  "fs_copy k source m data to t =
     (if \<not> k_allow k Read source then (Inl PermissionDenied, t)
      else (case locate t True to of
          Inl e \<Rightarrow> (Inl e, t)
        | Inr q \<Rightarrow> (case node_at t q of
              None \<Rightarrow> change k Create (Some (File m data)) q t
            | Some (File _ _) \<Rightarrow> change k Write (Some (File m data)) q t
            | Some (Dir _ _) \<Rightarrow> (Inl IsADirectory, t)
            | Some _ \<Rightarrow> (if k_allow k Write q then Inr () else Inl PermissionDenied, t))))"

text \<open>\<open>root.join(name)\<close> for a name without slash.\<close>

definition join_victim :: "path \<Rightarrow> string \<Rightarrow> path" where
  "join_victim root name = (if name = [] \<or> name = ''.'' then root else root @ [name])"

definition clear_target :: "kernel \<Rightarrow> path \<Rightarrow> fnode \<Rightarrow> fnode" where
  "clear_target k to t = snd (remove_file k to (if is_dir t to then remove_dir_all_quiet k to t else t))"

definition is_device :: "fnode \<Rightarrow> bool" where
  "is_device n = (case n of Device _ \<Rightarrow> True | _ \<Rightarrow> False)"

definition lift_commit :: "(io_error \<Rightarrow> commit_error) \<Rightarrow> 'a fs_result \<Rightarrow> (commit_error + 'a) \<times> fnode" where
  "lift_commit f m = (map_err f (fst m), snd m)"

definition is_opaque :: "(string \<Rightarrow> string) \<Rightarrow> (string \<times> fnode) list \<Rightarrow> bool" where
  "is_opaque lossy es \<longleftrightarrow> list_ex (\<lambda>(c, n). lossy c = OPAQUE_WHITEOUT \<and> is_device n) es"

text \<open>The size of a tree, for termination.\<close>

fun node_size :: "fnode \<Rightarrow> nat" where
  "node_size (Dir m es) = Suc (sum_list (map (\<lambda>(c, n). node_size n + 2) es))"
| "node_size _ = 1"

lemma node_size_entries:
  "sum_list (map (\<lambda>(c, n). 2 * node_size n + 2) es) < 2 * node_size (Dir m es)"
  by (induction es) auto

function (sequential) apply_overlay_upper ::
    "kernel \<Rightarrow> (string \<Rightarrow> string) \<Rightarrow> path \<Rightarrow> path \<Rightarrow> fnode \<Rightarrow> fnode \<Rightarrow> (commit_error + unit) \<times> fnode"
  and apply_upper_entries ::
    "kernel \<Rightarrow> (string \<Rightarrow> string) \<Rightarrow> path \<Rightarrow> path \<Rightarrow> (string \<times> fnode) list \<Rightarrow> fnode \<Rightarrow> (commit_error + unit) \<times> fnode"
  and apply_upper_entry ::
    "kernel \<Rightarrow> (string \<Rightarrow> string) \<Rightarrow> path \<Rightarrow> path \<Rightarrow> string \<times> fnode \<Rightarrow> fnode \<Rightarrow> (commit_error + unit) \<times> fnode" where
  "apply_overlay_upper k lossy root up (Dir m es) t =
     bindf (lift_commit (MergedRoot root) (create_dir_all k root t)) (\<lambda>_ t.
     if \<not> k_allow k Readdir up then (Inl (UpperUnreadable up), t)
     else apply_upper_entries k lossy root up es (if is_opaque lossy es then remove_children k root t else t))"
| "apply_overlay_upper k lossy root up n t =
     bindf (lift_commit (MergedRoot root) (create_dir_all k root t)) (\<lambda>_ t. (Inl (UpperUnreadable up), t))"
| "apply_upper_entries k lossy root up [] t = (Inr (), t)"
| "apply_upper_entries k lossy root up (e # es) t =
     bindf (apply_upper_entry k lossy root up e t) (\<lambda>_ t. apply_upper_entries k lossy root up es t)"
| "apply_upper_entry k lossy root up (c, n) t =
     (let name = lossy c; to = root @ [c]; source = up @ [c] in
      if is_device n \<and> starts_with name ''.wh.'' then
        (let victim = join_victim root (drop 4 name) in
         (Inr (), snd (remove_file k victim (remove_dir_all_quiet k victim t))))
      else if starts_with name ''.wh..wh..'' then (Inr (), t)
      else (case n of
          Dir _ _ \<Rightarrow>
            bindf (lift_commit (UpperDir to) (create_dir_all k to t)) (\<lambda>_ t.
            bindf (apply_overlay_upper k lossy to source n t) (\<lambda>_ t.
            (Inr (), copy_dir_mode k n to t)))
        | Link target \<Rightarrow>
            (let t = clear_target k to t in
             if \<not> k_allow k Read source then (Inl (UpperLink source PermissionDenied), t)
             else lift_commit (UpperLink to) (symlink k target to t))
        | File m d \<Rightarrow>
            bindf (lift_commit (UpperFile source) (fs_copy k source (mode_bits m) d to (clear_target k to t))) (\<lambda>_ t.
            (Inr (), copy_dir_mode k n to t))
        | _ \<Rightarrow> (Inr (), t)))"
  by pat_completeness auto
termination
  by (relation "measure (\<lambda>x. case x of Inl (k, lossy, root, up, n, t) \<Rightarrow> 2 * node_size n
      | Inr (Inl (k, lossy, root, up, es, t)) \<Rightarrow> sum_list (map (\<lambda>(c, n). 2 * node_size n + 2) es)
      | Inr (Inr (k, lossy, root, up, e, t)) \<Rightarrow> 2 * node_size (snd e) + 1)")
    (use node_size_entries in auto)

definition rebuild_rootfs ::
  "kernel \<Rightarrow> (string \<Rightarrow> string) \<Rightarrow> path \<Rightarrow> fnode \<Rightarrow> path \<Rightarrow> fnode \<Rightarrow> path \<Rightarrow> fnode \<Rightarrow> (commit_error + path) \<times> fnode" where
  "rebuild_rootfs k lossy base b up u staging t =
     (case (case copy_dir_all k base b staging (remove_dir_all_quiet k staging t) of
              (Inl e, t) \<Rightarrow> (Inl (BaseCopy e), t)
            | (Inr _, t) \<Rightarrow> apply_overlay_upper k lossy staging up u t) of
        (Inl e, t) \<Rightarrow> (Inl e, remove_dir_all_quiet k staging t)
      | (Inr _, t) \<Rightarrow> (Inr staging, t))"

end
