(* ===== verification/Commit_Facts.thy ===== *)
theory Commit_Facts
  imports Commit Fsutil_Facts
begin

text \<open>
  The tree a rebuild produces, as a function of the two trees, and that the operations on the file system produce it.
\<close>

section \<open>The merged tree\<close>

text \<open>The entries of a directory after an upper directory is applied to it; \<open>None\<close> when a directory of the upper layer meets
  something else, or a marker names no entry of the directory.\<close>

function (sequential) merge_dir :: "(string \<Rightarrow> string) \<Rightarrow> (string \<times> fnode) list \<Rightarrow> (string \<times> fnode) list \<Rightarrow> (string \<times> fnode) list option"
  and merge_entries :: "(string \<Rightarrow> string) \<Rightarrow> (string \<times> fnode) list \<Rightarrow> (string \<times> fnode) list \<Rightarrow> (string \<times> fnode) list option"
  and merge_entry :: "(string \<Rightarrow> string) \<Rightarrow> (string \<times> fnode) list \<Rightarrow> string \<times> fnode \<Rightarrow> (string \<times> fnode) list option" where
  "merge_dir lossy low es = merge_entries lossy (if is_opaque lossy es then [] else low) es"
| "merge_entries lossy low [] = Some low"
| "merge_entries lossy low (e # es) = Option.bind (merge_entry lossy low e) (\<lambda>low. merge_entries lossy low es)"
| "merge_entry lossy low (c, n) =
     (if is_device n \<and> starts_with (lossy c) ''.wh.'' then
        (if drop 4 (lossy c) \<in> {[], ''.'', ''..''} then None else Some (AList.delete (drop 4 (lossy c)) low))
      else if starts_with (lossy c) ''.wh..wh..'' then Some low
      else (case n of
          Dir m es \<Rightarrow>
            Option.bind (case map_of low c of None \<Rightarrow> Some [] | Some (Dir _ old) \<Rightarrow> Some old | _ \<Rightarrow> None) (\<lambda>old.
              map_option (\<lambda>es. AList.update c (Dir (mode_bits m) es) low) (merge_dir lossy old es))
        | File m d \<Rightarrow> Some (AList.update c (File (mode_bits m) d) (AList.delete c low))
        | Link l \<Rightarrow> Some (AList.update c (Link l) (AList.delete c low))
        | _ \<Rightarrow> Some low))"
  by pat_completeness auto
termination
  by (relation "measure (\<lambda>x. case x of Inl (lossy, low, es) \<Rightarrow> sum_list (map (\<lambda>(c, n). 2 * node_size n + 2) es) + 1
      | Inr (Inl (lossy, low, es)) \<Rightarrow> sum_list (map (\<lambda>(c, n). 2 * node_size n + 2) es)
      | Inr (Inr (lossy, low, e)) \<Rightarrow> 2 * node_size (snd e) + 1)")
    (use node_size_entries in auto)

lemma create_dir_existing:
  assumes "rooted t p" and "node_at t p = Some (Dir m es)"
  shows "create_dir_all k p t = (Inr (), t)"
proof -
  have "stat t p = Inr (Dir m es)"
    using assms not_link_node [OF assms(2)] by (simp add: stat_def locate_rooted_follow)
  with assms show ?thesis
    by (simp add: create_dir_all.simps [of k p] mkdir_def locate_rooted is_dir_def rooted_def [of t p])
qed

lemma wf_dir_with: "wf_node t \<Longrightarrow> rooted t p \<Longrightarrow> wf_node (Dir m es) \<Longrightarrow> wf_node (dir_with m es p t)"
  by (rule wf_store) (auto simp: rooted_def)

lemma remove_quiet_entry:
  assumes "permissive k" and "rooted t p" and "wf_node t" and "wf_node (Dir m es)" and "c \<noteq> ''..''"
  shows "remove_dir_all_quiet k (p @ [c]) (dir_with m es p t) = dir_with m (AList.delete c es) p t"
  using remove_quiet_exact [OF assms(1) dir_with_rooted [OF assms(2,5)] wf_dir_with [OF assms(3,2,4)]]
  by (simp add: dir_with_node [OF assms(2)] dir_with_remove [OF assms(2)] map_of_eq_None_iff)

lemma remove_file_entry:
  assumes "permissive k" and "rooted t p" and "c \<noteq> ''..''" and "\<nexists>m' es'. map_of es c = Some (Dir m' es')"
  shows "snd (remove_file k (p @ [c]) (dir_with m es p t)) = dir_with m (AList.delete c es) p t"
proof (cases "map_of es c")
  case None
  then show ?thesis
    using remove_file_missing [OF dir_with_rooted [OF assms(2,3)]] by (simp add: dir_with_node [OF assms(2)] map_of_eq_None_iff)
next
  case (Some n)
  with remove_file_exact [OF assms(1) dir_with_rooted [OF assms(2,3)], of m es n] assms(4) show ?thesis
    by (simp add: dir_with_node [OF assms(2)] dir_with_remove [OF assms(2)])
qed

lemma remove_entry:
  assumes "permissive k" and "rooted t p" and "wf_node t" and "wf_node (Dir m es)" and "c \<noteq> ''..''"
  shows "snd (remove_file k (p @ [c]) (remove_dir_all_quiet k (p @ [c]) (dir_with m es p t))) = dir_with m (AList.delete c es) p t"
  unfolding remove_quiet_entry [OF assms] using remove_file_entry [OF assms(1,2,5), of "AList.delete c es"]
  by (simp add: delete_conv' delete_idem)

lemma clear_target_exact:
  assumes "permissive k" and "rooted t p" and "wf_node t" and "wf_node (Dir m es)" and "c \<noteq> ''..''"
  shows "clear_target k (p @ [c]) (dir_with m es p t) = dir_with m (AList.delete c es) p t"
proof (cases "\<exists>m' es'. map_of es c = Some (Dir m' es')")
  case True
  then obtain m' es' where d: "node_at (dir_with m es p t) (p @ [c]) = Some (Dir m' es')" by (auto simp: dir_with_node [OF assms(2)])
  then have "is_dir (dir_with m es p t) (p @ [c])"
    using locate_rooted_follow [OF dir_with_rooted [OF assms(2,5)] not_link_node [OF d]] by (simp add: is_dir_def stat_def)
  with remove_entry [OF assms] show ?thesis by (simp add: clear_target_def)
next
  case False
  with remove_entry [OF assms] remove_file_entry [OF assms(1,2,5)] show ?thesis by (simp add: clear_target_def)
qed

lemma remove_children_exact:
  assumes "permissive k" and "rooted t p" and "wf_node t" and "wf_node (Dir m es)"
  shows "remove_children k p (dir_with m es p t) = dir_with m [] p t"
proof -
  let ?f = "\<lambda>(c, n) t. case n of Dir _ _ \<Rightarrow> remove_dir_all_quiet k (p @ [c]) t | _ \<Rightarrow> snd (remove_file k (p @ [c]) t)"
  have at: "node_at (dir_with m es p t) p = Some (Dir m es)" by (rule node_store_same [OF assms(2)])
  then have "stat (dir_with m es p t) p = Inr (Dir m es)"
    using locate_rooted_follow [OF rooted_store [OF assms(2)] not_link_node [OF at]] by (simp add: stat_def)
  moreover have "fold ?f es (dir_with m es p t) = dir_with m [] p t" using assms(4)
  proof (induction es)
    case (Cons e es)
    obtain c n where e: "e = (c, n)" by fastforce
    have del: "AList.delete c (e # es) = es" using Cons.prems e by (simp add: delete_id)
    have c: "c \<noteq> ''..''" using Cons.prems e by simp
    have "?f e (dir_with m (e # es) p t) = dir_with m es p t"
      using remove_quiet_entry [OF assms(1-3) Cons.prems c] remove_file_entry [OF assms(1,2) c, of "e # es" m] del e
      by (cases n) simp_all
    with Cons show ?case by simp
  qed simp
  moreover have "k_allow k Readdir p" using assms(1) by (simp add: permissive_def)
  ultimately show ?thesis by (simp add: remove_children_def remove_all_children_def)
qed

lemma lift_commit_simps [simp]: "lift_commit f (Inr x, t) = (Inr x, t)" "snd (lift_commit f m) = snd m"
  by (simp_all add: lift_commit_def)

lemma fs_copy_missing:
  assumes "permissive k" and "rooted t p" and "node_at t p = None"
  shows "fs_copy k src m d p t = (Inr (), store_at (Some (File m d)) p t)"
proof -
  have "k_allow k Read src" using assms(1) by (simp add: permissive_def)
  moreover have "\<not> is_link t p" using assms(3) by (simp add: is_link_def info_def)
  ultimately show ?thesis using assms by (simp add: fs_copy_def locate_rooted_follow change_permissive)
qed

text \<open>An upper directory \<open>es\<close> over a directory that exists or is made.\<close>

lemma upper_dir_step:
  assumes k: "permissive k" and t: "wf_node t" and r: "rooted t root" and low: "wf_node (Dir m low)" and c: "c \<noteq> ''..''"
    and old: "map_of low c = (if fresh then None else Some (Dir m0 old))" "fresh \<Longrightarrow> old = []"
    and step: "\<And>m' t up. wf_node t \<Longrightarrow> rooted t (root @ [c]) \<Longrightarrow> wf_node (Dir m' old) \<Longrightarrow>
      apply_overlay_upper k lossy (root @ [c]) up (Dir mu es) (dir_with m' old (root @ [c]) t) = (Inr (), dir_with m' out (root @ [c]) t) \<and>
      wf_node (Dir m' out)"
    and plain: "\<not> starts_with (lossy c) ''.wh..wh..''"
  shows "apply_upper_entry k lossy root up (c, Dir mu es) (dir_with m low root t) =
      (Inr (), dir_with m (AList.update c (Dir (mode_bits mu) out) low) root t) \<and>
    wf_node (Dir m (AList.update c (Dir (mode_bits mu) out) low))"
proof -
  let ?T = "dir_with m low root t" and ?to = "root @ [c]" and ?m = "if fresh then k_dir_mode k else m0"
  have rt: "rooted ?T ?to" by (rule dir_with_rooted [OF r c])
  have wt: "wf_node ?T" by (rule wf_dir_with [OF t r low])
  have at: "node_at ?T ?to = map_of low c" by (rule dir_with_node [OF r])
  have mk: "create_dir_all k ?to ?T = (Inr (), dir_with ?m old ?to ?T)"
    using create_dir_rooted [OF k rt] create_dir_existing [OF rt, of m0 old k] store_id [of ?T ?to "Dir m0 old"] at old
    by (cases fresh) simp_all
  have "wf_node (Dir ?m old)" using old wf_node_at [OF wt, of ?to "Dir m0 old"] at by (cases fresh) simp_all
  from step [OF wt rt this] have ap: "\<And>up. apply_overlay_upper k lossy ?to up (Dir mu es) (dir_with ?m old ?to ?T) = (Inr (), dir_with ?m out ?to ?T)"
    and wo: "wf_node (Dir ?m out)" by blast+
  have md: "copy_dir_mode k (Dir mu es) ?to (dir_with ?m out ?to ?T) = dir_with (mode_bits mu) out ?to ?T"
    using set_permissions_rooted [OF k rt, of "Dir ?m out"] by (simp add: copy_dir_mode_def)
  have "apply_upper_entry k lossy root up (c, Dir mu es) ?T = (Inr (), dir_with (mode_bits mu) out ?to ?T)"
    using mk ap md plain by (simp add: Let_def is_device_def)
  moreover have "wf_node (Dir m (AList.update c (Dir (mode_bits mu) out) low))" by (rule wf_update [OF low c]) (use wo in simp)
  ultimately show ?thesis unfolding dir_with_store [OF r] by blast
qed

text \<open>A marker of the upper layer.\<close>

lemma upper_marker_step:
  assumes k: "permissive k" and t: "wf_node t" and r: "rooted t root" and low: "wf_node (Dir m low)"
    and merge: "merge_entry lossy low (c, n) = Some out"
    and marker: "is_device n \<and> starts_with (lossy c) ''.wh.'' \<or> starts_with (lossy c) ''.wh..wh..''"
  shows "apply_upper_entry k lossy root up (c, n) (dir_with m low root t) = (Inr (), dir_with m out root t) \<and> wf_node (Dir m out)"
proof (cases "is_device n \<and> starts_with (lossy c) ''.wh.''")
  case True
  let ?v = "drop 4 (lossy c)"
  have v: "?v \<notin> {[], ''.'', ''..''}" "out = AList.delete ?v low" using merge True by (auto split: if_splits)
  then have "?v \<noteq> ''..''" "join_victim root ?v = root @ [?v]" by (auto simp: join_victim_def)
  with True v(2) remove_entry [OF k r t low] wf_delete [OF low] show ?thesis by (simp add: Let_def)
qed (use merge marker low in \<open>auto simp: Let_def\<close>)

text \<open>A file or a link of the upper layer replaces what is there.\<close>

lemma upper_leaf_step:
  assumes k: "permissive k" and t: "wf_node t" and r: "rooted t root" and low: "wf_node (Dir m low)" and c: "c \<noteq> ''..''"
    and leaf: "(\<exists>mf d. n = File mf d) \<or> (\<exists>l. n = Link l)" and plain: "\<not> starts_with (lossy c) ''.wh..wh..''"
    and n': "n' = with_mode (case n of File mf _ \<Rightarrow> mode_bits mf | _ \<Rightarrow> 0) n"
  shows "apply_upper_entry k lossy root up (c, n) (dir_with m low root t) = (Inr (), dir_with m (AList.update c n' (AList.delete c low)) root t) \<and>
    wf_node (Dir m (AList.update c n' (AList.delete c low)))"
proof -
  let ?to = "root @ [c]" and ?T = "dir_with m (AList.delete c low) root t"
  have rt: "rooted ?T ?to" by (rule dir_with_rooted [OF r c])
  have none: "node_at ?T ?to = None" by (simp add: dir_with_node [OF r] delete_conv')
  have cl: "clear_target k ?to (dir_with m low root t) = ?T" by (rule clear_target_exact [OF k r t low c])
  have rd: "k_allow k Read p" for p using k by (simp add: permissive_def)
  have "apply_upper_entry k lossy root up (c, n) (dir_with m low root t) = (Inr (), store_at (Some n') ?to ?T)"
  proof (cases n)
    case (File mf d)
    have "copy_dir_mode k n ?to (store_at (Some n') ?to ?T) = store_at (Some n') ?to ?T"
      using set_permissions_rooted [OF k rt, of n'] File n' by (simp add: copy_dir_mode_def)
    with File n' cl plain fs_copy_missing [OF k rt none] show ?thesis by (simp add: Let_def is_device_def)
  next
    case (Link l)
    have "symlink k l ?to ?T = (Inr (), store_at (Some n') ?to ?T)"
      using Link n' none by (simp add: symlink_def locate_rooted [OF rt] change_permissive [OF k])
    with Link cl plain rd show ?thesis by (simp add: Let_def is_device_def)
  qed (use leaf in auto)
  moreover have "wf_node (Dir m (AList.update c n' (AList.delete c low)))"
    by (rule wf_update [OF wf_delete [OF low] c]) (use leaf n' in auto)
  ultimately show ?thesis unfolding dir_with_store [OF r] by blast
qed

lemma merge_entry_dir:
  assumes "merge_entry lossy low (c, Dir mu es) = Some out" and "\<not> starts_with (lossy c) ''.wh..wh..''"
  obtains fresh m0 old out' where "map_of low c = (if fresh then None else Some (Dir m0 old))" "fresh \<Longrightarrow> old = []"
    "(case map_of low c of None \<Rightarrow> Some [] | Some (Dir _ old) \<Rightarrow> Some old | _ \<Rightarrow> None) = Some old"
    "merge_dir lossy old es = Some out'" "out = AList.update c (Dir (mode_bits mu) out') low"
proof -
  obtain old out' where o: "(case map_of low c of None \<Rightarrow> Some [] | Some (Dir _ old) \<Rightarrow> Some old | _ \<Rightarrow> None) = Some old"
    "merge_dir lossy old es = Some out'" "out = AList.update c (Dir (mode_bits mu) out') low"
    using assms by (auto simp: is_device_def Option.bind_eq_Some_conv simp del: merge_dir.simps)
  then show ?thesis
    by (cases "map_of low c") (auto intro: that [where fresh = True] that [where fresh = False] split: fnode.splits)
qed

lemma upper_merge:
  assumes k: "permissive k"
  shows "merge_dir lossy low es = Some out \<Longrightarrow> wf_node t \<Longrightarrow> rooted t root \<Longrightarrow> wf_node (Dir m low) \<Longrightarrow> wf_node (Dir mu es) \<Longrightarrow>
      apply_overlay_upper k lossy root up (Dir mu es) (dir_with m low root t) = (Inr (), dir_with m out root t) \<and> wf_node (Dir m out)"
    "merge_entries lossy low es = Some out \<Longrightarrow> wf_node t \<Longrightarrow> rooted t root \<Longrightarrow> wf_node (Dir m low) \<Longrightarrow> wf_node (Dir mu es) \<Longrightarrow>
      apply_upper_entries k lossy root up es (dir_with m low root t) = (Inr (), dir_with m out root t) \<and> wf_node (Dir m out)"
    "merge_entry lossy low e = Some out \<Longrightarrow> wf_node t \<Longrightarrow> rooted t root \<Longrightarrow> wf_node (Dir m low) \<Longrightarrow> fst e \<noteq> ''..'' \<Longrightarrow> wf_node (snd e) \<Longrightarrow>
      apply_upper_entry k lossy root up e (dir_with m low root t) = (Inr (), dir_with m out root t) \<and> wf_node (Dir m out)"
proof (induction lossy low es and lossy low es and lossy low e arbitrary: out t root m mu up and out t root m mu up and out t root m up
    rule: merge_dir_merge_entries_merge_entry.induct)
  case (1 lossy low es)
  have r: "k_allow k Readdir up" using k by (simp add: permissive_def)
  have "create_dir_all k root (dir_with m low root t) = (Inr (), dir_with m low root t)"
    using create_dir_existing [OF rooted_store node_store_same] "1.prems"(3) by blast
  moreover have "(if is_opaque lossy es then remove_children k root (dir_with m low root t) else dir_with m low root t) =
      dir_with m (if is_opaque lossy es then [] else low) root t"
    using remove_children_exact [OF k "1.prems"(3,2,4)] by simp
  moreover have "apply_upper_entries k lossy root up es (dir_with m (if is_opaque lossy es then [] else low) root t) =
      (Inr (), dir_with m out root t) \<and> wf_node (Dir m out)"
    by (rule "1.IH") (use "1.prems" in auto)
  ultimately show ?case using r by simp
next
  case (3 lossy low e es)
  obtain low' where e: "merge_entry lossy low e = Some low'" and es: "merge_entries lossy low' es = Some out"
    using "3.prems"(1) by (auto simp: Option.bind_eq_Some_conv simp del: merge_entry.simps)
  have 1: "apply_upper_entry k lossy root up e (dir_with m low root t) = (Inr (), dir_with m low' root t)" "wf_node (Dir m low')"
    using "3.IH"(1) [OF e "3.prems"(2-4), of up] "3.prems"(5) by auto
  have "wf_node (Dir mu es)" using "3.prems"(5) by simp
  with "3.IH"(2) [OF e es "3.prems"(2,3) 1(2), of mu up] 1 show ?case by simp
next
  case (4 lossy low c n)
  note P = "4.prems"
  have c: "c \<noteq> ''..''" using P(5) by simp
  show ?case
  proof (cases "is_device n \<and> starts_with (lossy c) ''.wh.'' \<or> starts_with (lossy c) ''.wh..wh..''")
    case True
    with upper_marker_step [OF k P(2,3,4) P(1)] show ?thesis by blast
  next
    case plain: False
    show ?thesis
    proof (cases n)
      case (Dir mu es)
      obtain fresh m0 old out' where o: "map_of low c = (if fresh then None else Some (Dir m0 old))" "fresh \<Longrightarrow> old = []"
        "(case map_of low c of None \<Rightarrow> Some [] | Some (Dir _ old) \<Rightarrow> Some old | _ \<Rightarrow> None) = Some old"
        "merge_dir lossy old es = Some out'" "out = AList.update c (Dir (mode_bits mu) out') low"
        by (rule merge_entry_dir [OF P(1) [unfolded Dir]]) (use plain in auto)
      show ?thesis
        unfolding Dir o(5)
        by (rule upper_dir_step [OF k P(2,3,4) c o(1,2)], assumption, rule "4.IH" [OF _ _ Dir o(3,4)])
          (use plain P(6) Dir in auto)
    next
      case (File mf d)
      with P(1) plain have "out = AList.update c (File (mode_bits mf) d) (AList.delete c low)" by (auto split: if_splits)
      with upper_leaf_step [where lossy = lossy and n = n and up = up, OF k P(2,3,4) c _ _ refl] plain File show ?thesis
        by (simp del: apply_upper_entry.simps wf_node.simps)
    next
      case (Link l)
      with P(1) plain have "out = AList.update c (Link l) (AList.delete c low)" by (auto split: if_splits)
      with upper_leaf_step [where lossy = lossy and n = n and up = up, OF k P(2,3,4) c _ _ refl] plain Link show ?thesis
        by (simp del: apply_upper_entry.simps wf_node.simps)
    qed (use P plain in \<open>auto simp: is_device_def Let_def\<close>)
  qed
qed simp

lemma wf_copied: "wf_node n \<Longrightarrow> copied n = Some n' \<Longrightarrow> wf_node n'"
proof (induction n arbitrary: n')
  case (Dir m es)
  have names: "map fst (copied_entries es) = map fst (filter (\<lambda>(c, n). copied n \<noteq> None) es)" for es
    by (induction es) (auto split: option.splits)
  have "distinct (map fst (copied_entries es))" using Dir.prems(1) by (simp add: names distinct_map_filter)
  moreover have "fst e \<noteq> ''..'' \<and> wf_node (snd e)" if "e \<in> set (copied_entries es)" for e
  proof -
    have "\<exists>n. (fst e, n) \<in> set es \<and> copied n = Some (snd e)" if "e \<in> set (copied_entries es)" for es
      using that by (induction es) (auto split: option.splits, blast+)
    with that obtain n where "(fst e, n) \<in> set es" "copied n = Some (snd e)" by blast
    with Dir.IH [of "(fst e, n)" n "snd e"] Dir.prems(1) show ?thesis by (auto simp: snds.simps)
  qed
  ultimately show ?case using Dir.prems(2) by (auto simp: copied_Dir simp del: copied.simps)
qed auto

lemma wf_quiet: "wf_node t \<Longrightarrow> rooted t p \<Longrightarrow> permissive k \<Longrightarrow> wf_node (remove_dir_all_quiet k p t) \<and> rooted (remove_dir_all_quiet k p t) p \<and>
    node_at (remove_dir_all_quiet k p t) p = None \<and> touches p t (remove_dir_all_quiet k p t)"
  using wf_store [of t p None] node_store_same [of t p None]
  by (auto simp: remove_quiet_exact rooted_store rooted_def [of t p, THEN iffD1])

end
