(* ===== verification/Container_Diff.thy ===== *)
theory Container_Diff
  imports Commit "HOL-Library.List_Lexorder" "HOL-Library.Char_ord"
begin

text \<open>
  File-system changes of a container (src/containerdiff.rs): the upper layer of the overlay against the materialised lower root.

  The tree of the upper layer is an argument; the lower root is looked up in the host's tree, as the source does. Names are valid
  UTF-8. A change is a path relative to the root; the printed path has a leading slash.
\<close>

datatype ChangeKind = Added | Changed | Deleted

definition label :: "ChangeKind \<Rightarrow> char" where
  "label kd = (case kd of Added \<Rightarrow> CHR ''A'' | Changed \<Rightarrow> CHR ''C'' | Deleted \<Rightarrow> CHR ''D'')"

datatype diff_error = LowerNotDir path | UpperNotDir path | ReadFailed path

definition is_whiteout :: "string \<Rightarrow> fnode \<Rightarrow> bool" where
  "is_whiteout name n = (case n of Device rdev \<Rightarrow> starts_with name WHITEOUT_PREFIX \<or> rdev = 0 | _ \<Rightarrow> False)"

definition victim_name :: "string \<Rightarrow> string" where
  "victim_name name = (case strip_prefix WHITEOUT_PREFIX name of None \<Rightarrow> name | Some v \<Rightarrow> v)"

definition read_lower_entries :: "kernel \<Rightarrow> fnode \<Rightarrow> path \<Rightarrow> diff_error + string list" where
  "read_lower_entries k t dir = (case stat t dir of
      Inr (Dir _ es) \<Rightarrow> if k_allow k Readdir dir then Inr (map fst es) else Inl (ReadFailed dir)
    | _ \<Rightarrow> Inl (ReadFailed dir))"

definition lower_has :: "fnode \<Rightarrow> path \<Rightarrow> string \<Rightarrow> bool" where
  "lower_has t dir name = (case lstat t (if name = ''.'' then dir else dir @ [name]) of Inr _ \<Rightarrow> True | Inl _ \<Rightarrow> False)"

type_synonym changes = "(path \<times> ChangeKind) list"

text \<open>A directory of the upper layer that is still to be read: where it is, its counterpart below, its path, its entries.\<close>

record todo =
  td_upper :: path
  td_lower :: path
  td_rel :: path
  td_entries :: "(string \<times> fnode) list"

definition opaque_changes :: "kernel \<Rightarrow> fnode \<Rightarrow> todo \<Rightarrow> changes \<Rightarrow> diff_error + changes" where
  "opaque_changes k t d ch =
     (if OPAQUE_WHITEOUT \<notin> fst ` set (td_entries d) then Inr ch
      else map_sum id (\<lambda>names. fold (\<lambda>c ch. if c \<in> fst ` set (td_entries d) then ch else AList.update (td_rel d @ [c]) Deleted ch) names ch)
        (read_lower_entries k t (td_lower d)))"

definition entry_change :: "fnode \<Rightarrow> todo \<Rightarrow> string \<times> fnode \<Rightarrow> changes \<Rightarrow> changes" where
  "entry_change t d e ch = (case e of (c, n) \<Rightarrow>
     if c = OPAQUE_WHITEOUT then ch
     else if is_whiteout c n then
       (let v = victim_name c in
        if v \<noteq> [] \<and> lower_has t (td_lower d) v then AList.update (td_rel d @ [v]) Deleted ch else ch)
     else AList.update (td_rel d @ [c]) (if lower_has t (td_lower d) c then Changed else Added) ch)"

definition entry_dirs :: "todo \<Rightarrow> string \<times> fnode \<Rightarrow> todo list" where
  "entry_dirs d e = (case e of (c, n) \<Rightarrow>
     if c = OPAQUE_WHITEOUT then []
     else (case n of
         Dir _ es \<Rightarrow> [\<lparr>td_upper = td_upper d @ [c], td_lower = td_lower d @ [c], td_rel = td_rel d @ [c], td_entries = es\<rparr>]
       | _ \<Rightarrow> []))"

abbreviation entries_size :: "(string \<times> fnode) list \<Rightarrow> nat" where
  "entries_size es \<equiv> Suc (sum_list (map (\<lambda>(c, n). node_size n + 2) es))"

lemma entry_dirs_size: "sum_list (map (\<lambda>d. entries_size (td_entries d)) (concat (map (entry_dirs d) es))) < entries_size es"
proof (induction es)
  case (Cons e es)
  obtain c n where e: "e = (c, n)" by fastforce
  have "sum_list (map (\<lambda>d. entries_size (td_entries d)) (entry_dirs d e)) \<le> node_size n"
    by (cases n) (auto simp: e entry_dirs_def)
  with Cons e show ?case by simp
qed simp

text \<open>The directories found last are read first.\<close>

function diff_loop :: "kernel \<Rightarrow> fnode \<Rightarrow> todo list \<Rightarrow> changes \<Rightarrow> diff_error + changes" where
  "diff_loop k t [] ch = Inr ch"
| "diff_loop k t (d # stack) ch =
     (if \<not> k_allow k Readdir (td_upper d) then Inl (ReadFailed (td_upper d))
      else and_then (opaque_changes k t d ch) (\<lambda>ch.
        diff_loop k t (rev (concat (map (entry_dirs d) (td_entries d))) @ stack) (fold (entry_change t d) (td_entries d) ch)))"
  by pat_completeness auto
termination
proof (relation "measure (\<lambda>(k, t, stack, ch). sum_list (map (\<lambda>d. entries_size (td_entries d)) stack))")
  show "((k, t, rev (concat (map (entry_dirs d) (td_entries d))) @ stack, fold (entry_change t d) (td_entries d) x), k, t, d # stack, ch)
    \<in> measure (\<lambda>(k, t, stack, ch). sum_list (map (\<lambda>d. entries_size (td_entries d)) stack))" for k t d stack ch x
    using entry_dirs_size [of d "td_entries d"] by (simp only: in_measure prod.case map_append rev_map [symmetric] sum_list_append sum_list_rev list.map sum_list.Cons)
qed simp

definition diff_roots :: "kernel \<Rightarrow> fnode \<Rightarrow> path \<Rightarrow> path \<Rightarrow> fnode \<Rightarrow> diff_error + changes" where
  "diff_roots k t lower up u =
     (if \<not> is_dir t lower then Inl (LowerNotDir lower)
      else (case u of
          Dir _ es \<Rightarrow>
            map_sum id (sort_key fst)
              (diff_loop k t [\<lparr>td_upper = up, td_lower = lower, td_rel = [], td_entries = es\<rparr>] [])
        | _ \<Rightarrow> Inl (UpperNotDir up)))"

end
