(* ===== verification/Container_Diff_Facts.thy ===== *)
theory Container_Diff_Facts
  imports Container_Diff
begin

text \<open>
  Which changes a diff reports: the change a path stands for, and that the loop over the directories reports these and no
  others.
\<close>

section \<open>What is reported\<close>

text \<open>The change a path of the upper layer stands for.\<close>

inductive change_at :: "fnode \<Rightarrow> path \<Rightarrow> path \<Rightarrow> (string \<times> fnode) list \<Rightarrow> path \<Rightarrow> ChangeKind \<Rightarrow> bool" for t where
  hidden: "OPAQUE_WHITEOUT \<in> fst ` set es \<Longrightarrow> stat t lower = Inr (Dir m ls) \<Longrightarrow> c \<in> fst ` set ls \<Longrightarrow> c \<notin> fst ` set es \<Longrightarrow>
    change_at t lower rel es (rel @ [c]) Deleted"
| whiteout: "(c, n) \<in> set es \<Longrightarrow> c \<noteq> OPAQUE_WHITEOUT \<Longrightarrow> is_whiteout c n \<Longrightarrow> victim_name c \<noteq> [] \<Longrightarrow> lower_has t lower (victim_name c) \<Longrightarrow>
    change_at t lower rel es (rel @ [victim_name c]) Deleted"
| changed: "(c, n) \<in> set es \<Longrightarrow> c \<noteq> OPAQUE_WHITEOUT \<Longrightarrow> \<not> is_whiteout c n \<Longrightarrow> lower_has t lower c \<Longrightarrow> change_at t lower rel es (rel @ [c]) Changed"
| added: "(c, n) \<in> set es \<Longrightarrow> c \<noteq> OPAQUE_WHITEOUT \<Longrightarrow> \<not> is_whiteout c n \<Longrightarrow> \<not> lower_has t lower c \<Longrightarrow> change_at t lower rel es (rel @ [c]) Added"
| inside: "(c, Dir m es') \<in> set es \<Longrightarrow> c \<noteq> OPAQUE_WHITEOUT \<Longrightarrow> change_at t (lower @ [c]) (rel @ [c]) es' p kd \<Longrightarrow> change_at t lower rel es p kd"

abbreviation todo_change :: "fnode \<Rightarrow> todo \<Rightarrow> path \<Rightarrow> ChangeKind \<Rightarrow> bool" where
  "todo_change t d \<equiv> change_at t (td_lower d) (td_rel d) (td_entries d)"

text \<open>Recording what every element reports.\<close>

definition record_change :: "(path \<times> ChangeKind) option \<Rightarrow> changes \<Rightarrow> changes" where
  "record_change r ch = (case r of None \<Rightarrow> ch | Some (p, kd) \<Rightarrow> AList.update p kd ch)"

lemma fold_sound: "map_of (fold (\<lambda>x. record_change (r x)) xs ch) p = Some kd \<Longrightarrow> map_of ch p = Some kd \<or> (\<exists>x \<in> set xs. r x = Some (p, kd))"
proof (induction xs arbitrary: ch)
  case (Cons x xs)
  from Cons.IH [of "record_change (r x) ch"] Cons.prems show ?case
    by (auto simp: record_change_def update_conv' split: option.splits if_splits)
qed simp

lemma fold_complete: "map_of (fold (\<lambda>x. record_change (r x)) xs ch) p \<noteq> None \<longleftrightarrow> map_of ch p \<noteq> None \<or> (\<exists>x \<in> set xs. \<exists>kd. r x = Some (p, kd))"
proof (induction xs arbitrary: ch)
  case (Cons x xs)
  have "map_of (record_change (r x) ch) p \<noteq> None \<longleftrightarrow> map_of ch p \<noteq> None \<or> (\<exists>kd. r x = Some (p, kd))"
    by (auto simp: record_change_def update_conv' split: option.splits)
  with Cons.IH [of "record_change (r x) ch"] show ?case by auto
qed simp

definition entry_report :: "fnode \<Rightarrow> todo \<Rightarrow> string \<times> fnode \<Rightarrow> (path \<times> ChangeKind) option" where
  "entry_report t d e = (case e of (c, n) \<Rightarrow>
     if c = OPAQUE_WHITEOUT then None
     else if is_whiteout c n then
       (if victim_name c \<noteq> [] \<and> lower_has t (td_lower d) (victim_name c) then Some (td_rel d @ [victim_name c], Deleted) else None)
     else Some (td_rel d @ [c], if lower_has t (td_lower d) c then Changed else Added))"

lemma entry_change_report: "entry_change t d = (\<lambda>e. record_change (entry_report t d e))"
  by (auto simp: fun_eq_iff entry_change_def entry_report_def record_change_def Let_def)

definition hidden_report :: "todo \<Rightarrow> string \<Rightarrow> (path \<times> ChangeKind) option" where
  "hidden_report d c = (if c \<in> fst ` set (td_entries d) then None else Some (td_rel d @ [c], Deleted))"

lemma opaque_changes_report:
  assumes "opaque_changes k t d ch = Inr ch'"
  obtains names where "ch' = fold (\<lambda>c. record_change (hidden_report d c)) names ch"
    "set names = {c. OPAQUE_WHITEOUT \<in> fst ` set (td_entries d) \<and> (\<exists>m ls. stat t (td_lower d) = Inr (Dir m ls) \<and> c \<in> fst ` set ls)}"
proof (cases "OPAQUE_WHITEOUT \<in> fst ` set (td_entries d)")
  case True
  then obtain names where n: "read_lower_entries k t (td_lower d) = Inr names"
    "ch' = fold (\<lambda>c ch. if c \<in> fst ` set (td_entries d) then ch else AList.update (td_rel d @ [c]) Deleted ch) names ch"
    using assms by (cases "read_lower_entries k t (td_lower d)") (auto simp: opaque_changes_def)
  moreover have "(\<lambda>c ch. if c \<in> fst ` set (td_entries d) then ch else AList.update (td_rel d @ [c]) Deleted ch) =
      (\<lambda>c. record_change (hidden_report d c))"
    by (simp add: fun_eq_iff record_change_def hidden_report_def)
  moreover obtain m ls where "stat t (td_lower d) = Inr (Dir m ls)" "names = map fst ls"
    using n(1) by (auto simp: read_lower_entries_def split: sum.splits fnode.splits if_splits)
  ultimately show ?thesis using that [of names] True by auto
qed (use assms that [of "[]"] in \<open>auto simp: opaque_changes_def\<close>)

lemma entry_report_change: "e \<in> set (td_entries d) \<Longrightarrow> entry_report t d e = Some (p, kd) \<Longrightarrow> todo_change t d p kd"
  by (cases e) (auto simp: entry_report_def intro: change_at.intros split: if_splits)

lemma inside_todo: "d' \<in> set (concat (map (entry_dirs d) (td_entries d))) \<Longrightarrow> todo_change t d' p kd \<Longrightarrow> todo_change t d p kd"
  by (auto simp: entry_dirs_def intro: change_at.inside split: if_splits fnode.splits)

lemma diff_loop_sound:
  "diff_loop k t stack ch = Inr out \<Longrightarrow> map_of out p = Some kd \<Longrightarrow> map_of ch p = Some kd \<or> (\<exists>d \<in> set stack. todo_change t d p kd)"
proof (induction k t stack ch rule: diff_loop.induct)
  case (2 k t d stack ch)
  then obtain ch1 where o: "opaque_changes k t d ch = Inr ch1" and allowed: "k_allow k Readdir (td_upper d)"
    and l: "diff_loop k t (rev (concat (map (entry_dirs d) (td_entries d))) @ stack) (fold (entry_change t d) (td_entries d) ch1) = Inr out"
    by (auto simp: and_then_eq_Inr_iff split: if_splits)
  obtain names where n: "ch1 = fold (\<lambda>c. record_change (hidden_report d c)) names ch"
    "set names = {c. OPAQUE_WHITEOUT \<in> fst ` set (td_entries d) \<and> (\<exists>m ls. stat t (td_lower d) = Inr (Dir m ls) \<and> c \<in> fst ` set ls)}"
    by (rule opaque_changes_report [OF o])
  have "todo_change t d p kd" if "x \<in> set names" "hidden_report d x = Some (p, kd)" for x
    using that n(2) by (auto simp: hidden_report_def intro: change_at.hidden split: if_splits)
  then have "map_of ch1 p = Some kd \<Longrightarrow> map_of ch p = Some kd \<or> todo_change t d p kd"
    using fold_sound [of "hidden_report d" names ch p kd] n(1) by blast
  moreover have "map_of (fold (entry_change t d) (td_entries d) ch1) p = Some kd \<Longrightarrow> map_of ch1 p = Some kd \<or> todo_change t d p kd"
    unfolding entry_change_report using fold_sound entry_report_change by blast
  moreover have "map_of (fold (entry_change t d) (td_entries d) ch1) p = Some kd \<or>
      (\<exists>d' \<in> set (rev (concat (map (entry_dirs d) (td_entries d))) @ stack). todo_change t d' p kd)"
    using "2.IH" [OF _ o l "2.prems"(2)] allowed by blast
  ultimately show ?case using inside_todo by (fastforce simp del: set_concat)
qed simp

lemma change_at_split:
  assumes "todo_change t d p kd"
  shows "(\<exists>c m ls. OPAQUE_WHITEOUT \<in> fst ` set (td_entries d) \<and> stat t (td_lower d) = Inr (Dir m ls) \<and> c \<in> fst ` set ls \<and> hidden_report d c = Some (p, kd)) \<or>
    (\<exists>e \<in> set (td_entries d). entry_report t d e = Some (p, kd)) \<or>
    (\<exists>d' \<in> set (concat (map (entry_dirs d) (td_entries d))). todo_change t d' p kd)"
  using assms
proof cases
  case (inside c m es')
  let ?d = "\<lparr>td_upper = td_upper d @ [c], td_lower = td_lower d @ [c], td_rel = td_rel d @ [c], td_entries = es'\<rparr>"
  have "?d \<in> set (entry_dirs d (c, Dir m es'))" using inside(2) by (simp add: entry_dirs_def)
  then have "?d \<in> set (concat (map (entry_dirs d) (td_entries d)))" using inside(1) by force
  with inside(3) show ?thesis by (metis todo.select_convs(2-4))
next
  case (hidden m ls c)
  then have "hidden_report d c = Some (p, kd)" by (simp add: hidden_report_def)
  with hidden show ?thesis by blast
next
  case (whiteout c n)
  then have "entry_report t d (c, n) = Some (p, kd)" by (simp add: entry_report_def)
  with whiteout(3) show ?thesis by blast
next
  case (changed c n)
  then have "entry_report t d (c, n) = Some (p, kd)" by (simp add: entry_report_def)
  with changed(3) show ?thesis by blast
next
  case (added c n)
  then have "entry_report t d (c, n) = Some (p, kd)" by (simp add: entry_report_def)
  with added(3) show ?thesis by blast
qed

lemma diff_loop_complete:
  "diff_loop k t stack ch = Inr out \<Longrightarrow> map_of ch p \<noteq> None \<or> (\<exists>d \<in> set stack. todo_change t d p kd) \<Longrightarrow> map_of out p \<noteq> None"
proof (induction k t stack ch rule: diff_loop.induct)
  case (2 k t d stack ch)
  then obtain ch1 where o: "opaque_changes k t d ch = Inr ch1" and allowed: "k_allow k Readdir (td_upper d)"
    and l: "diff_loop k t (rev (concat (map (entry_dirs d) (td_entries d))) @ stack) (fold (entry_change t d) (td_entries d) ch1) = Inr out"
    by (auto simp: and_then_eq_Inr_iff split: if_splits)
  obtain names where n: "ch1 = fold (\<lambda>c. record_change (hidden_report d c)) names ch"
    "set names = {c. OPAQUE_WHITEOUT \<in> fst ` set (td_entries d) \<and> (\<exists>m ls. stat t (td_lower d) = Inr (Dir m ls) \<and> c \<in> fst ` set ls)}"
    by (rule opaque_changes_report [OF o])
  have 1: "map_of ch1 p \<noteq> None" if "map_of ch p \<noteq> None \<or> (\<exists>c \<in> set names. hidden_report d c = Some (p, kd))"
    using that fold_complete [of "hidden_report d" names ch p] n(1) by blast
  have 2: "map_of (fold (entry_change t d) (td_entries d) ch1) p \<noteq> None"
    if "map_of ch1 p \<noteq> None \<or> (\<exists>e \<in> set (td_entries d). entry_report t d e = Some (p, kd))"
    unfolding entry_change_report using that fold_complete [of "entry_report t d" "td_entries d" ch1 p] by blast
  have "map_of (fold (entry_change t d) (td_entries d) ch1) p \<noteq> None \<or>
      (\<exists>d' \<in> set (rev (concat (map (entry_dirs d) (td_entries d))) @ stack). todo_change t d' p kd)"
  proof (cases "todo_change t d p kd")
    case True
    then consider (h) "\<exists>c \<in> set names. hidden_report d c = Some (p, kd)" | (e) "\<exists>e \<in> set (td_entries d). entry_report t d e = Some (p, kd)"
      | (i) "\<exists>d' \<in> set (concat (map (entry_dirs d) (td_entries d))). todo_change t d' p kd"
      using change_at_split n(2) by blast
    then show ?thesis by cases (use 1 2 in \<open>auto simp del: set_concat\<close>)
  next
    case False
    then consider "map_of ch p \<noteq> None" | "\<exists>d' \<in> set stack. todo_change t d' p kd" using "2.prems"(2) by auto
    then show ?thesis by cases (use 1 2 in auto)
  qed
  with "2.IH" [OF _ o l] allowed show ?case by blast
qed simp

lemma fold_distinct: "distinct (map fst ch) \<Longrightarrow> distinct (map fst (fold (\<lambda>x. record_change (r x)) xs ch))"
  by (induction xs arbitrary: ch) (auto simp: record_change_def distinct_update split: option.splits)

lemma diff_loop_distinct: "diff_loop k t stack ch = Inr out \<Longrightarrow> distinct (map fst ch) \<Longrightarrow> distinct (map fst out)"
proof (induction k t stack ch rule: diff_loop.induct)
  case (2 k t d stack ch)
  then obtain ch1 where o: "opaque_changes k t d ch = Inr ch1" and allowed: "k_allow k Readdir (td_upper d)"
    and l: "diff_loop k t (rev (concat (map (entry_dirs d) (td_entries d))) @ stack) (fold (entry_change t d) (td_entries d) ch1) = Inr out"
    by (auto simp: and_then_eq_Inr_iff split: if_splits)
  obtain names where "ch1 = fold (\<lambda>c. record_change (hidden_report d c)) names ch" by (rule opaque_changes_report [OF o])
  then have "distinct (map fst (fold (entry_change t d) (td_entries d) ch1))"
    unfolding entry_change_report using "2.prems"(2) by (simp add: fold_distinct)
  with "2.IH" [OF _ o l] allowed show ?case by blast
qed simp

end
