(* ===== verification/File_Props.thy ===== *)
theory File_Props
  imports Unpack_Facts Commit_Facts Container_Diff_Facts
begin

text \<open>
  The properties of layers, commits and diffs on the file system, with a small host to try them on.
\<close>

section \<open>Samples\<close>

definition open_kernel :: kernel where
  "open_kernel = \<lparr>k_allow = (\<lambda>_ _. True), k_dir_mode = 493, k_file_mode = 420\<rparr>"

text \<open>The host: a configuration directory, and a store that holds the staging directory.\<close>

definition sample_tree :: fnode where
  "sample_tree = Dir 493 [(''etc'', Dir 493 [(''passwd'', File 420 ''root'')]), (''s'', Dir 493 [])]"

lemmas rebuild_eval = rebuild_rootfs_def open_kernel_def sample_tree_def remove_dir_all_quiet_def remove_at_def lstat_def stat_def
  prepare_destination_def create_dir_all.simps mkdir_def change_def set_permissions_def is_dir_def copy_link_def copy_file_def symlink_def
  write_new_def remove_file_def remove_dir_def is_opaque_def is_device_def OPAQUE_WHITEOUT_def clear_target_def fs_copy_def copy_dir_mode_def starts_with_def Let_def
  join_victim_def info_def path_parts_def remove_children_def remove_all_children_def

section \<open>Layers\<close>

definition plain_entry :: "string \<Rightarrow> entry_kind \<Rightarrow> string option \<Rightarrow> string \<Rightarrow> tar_entry" where
  "plain_entry p kd l d = \<lparr>te_path = Some p, te_kind = kd, te_mode = Some 420, te_link = Inr l, te_data = d, te_complete = True\<rparr>"

text \<open>A link to the host's \<open>/etc\<close>, then a file below it: the file lands inside the root.\<close>

definition hostile_layer :: "tar_entry option list" where
  "hostile_layer = [Some (plain_entry ''x'' TSymlink (Some ''/etc'') []), Some (plain_entry ''x/passwd'' TRegular None ''evil'')]"

lemmas unpack_eval = unpack_layer_def hostile_layer_def plain_entry_def unpack_entry_def sanitize_rel_path_def components_def component_of_def
  safe_join_def safe_join_leaf_def safe_walk.simps safe_steps.simps resolve_component.simps MAX_SYMLINK_DEPTH_def canonical_root_def canonicalize_def
  normalize_under_def strip_path_def apply_entry_def apply_kind_def finish_mode_def set_mode_if_possible_def lift_io_def replace_dest_def shadow_file_def
  WHITEOUT_PREFIX_def strip_prefix_def join_name_def

text \<open>C13: Whatever a layer archive contains (links to the host, parent steps, absolute names, white-outs, hard links) and
  wherever the unpacking stops, nothing outside the root directory changes, as long as the kernel lets links be removed.\<close>

theorem unpack_confined:
  assumes "wf_node t" and "root_ok t root" and "\<And>p. k_allow k Unlink p"
  shows "\<forall>q. \<not> prefix root q \<longrightarrow> info (snd (unpack_layer k lossy root archive t)) q = info t q"
proof -
  have "held root t t" using assms by (simp add: held_def root_ok_def)
  from held_unpack [OF this assms(3)] show ?thesis by (auto simp: held_def touches_def)
qed

theorem unpack_confined_witness:
  "info (snd (unpack_layer open_kernel (\<lambda>n. n) [''s''] (Some hostile_layer) sample_tree)) [''etc'', ''passwd''] = Some (IFile 420 ''root'') \<and>
   info (snd (unpack_layer open_kernel (\<lambda>n. n) [''s''] (Some hostile_layer) sample_tree)) [''s'', ''etc'', ''passwd''] = Some (IFile 420 ''evil'')"
proof
  have w: "wf_node sample_tree" by (simp add: sample_tree_def)
  have r: "root_ok sample_tree [''s'']"
    by (auto simp: root_ok_def strict_prefix_def prefix_Cons is_dir_at_def is_link_def info_def sample_tree_def)
  have "info (snd (unpack_layer open_kernel (\<lambda>n. n) [''s''] (Some hostile_layer) sample_tree)) [''etc'', ''passwd''] =
      info sample_tree [''etc'', ''passwd'']"
    using unpack_confined [OF w r, of open_kernel] by (simp add: open_kernel_def)
  then show "info (snd (unpack_layer open_kernel (\<lambda>n. n) [''s''] (Some hostile_layer) sample_tree)) [''etc'', ''passwd''] = Some (IFile 420 ''root'')"
    by (simp add: info_def sample_tree_def)
  show "info (snd (unpack_layer open_kernel (\<lambda>n. n) [''s''] (Some hostile_layer) sample_tree)) [''s'', ''etc'', ''passwd''] = Some (IFile 420 ''evil'')"
    by (simp add: unpack_eval rebuild_eval)
qed

text \<open>The entry of the archive root itself is refused, though the code after the check means to skip it.\<close>

lemma archive_root_refused: "fst (unpack_layer open_kernel (\<lambda>n. n) [''s''] (Some [Some (plain_entry ''./'' TDirectory None [])]) sample_tree) = Inl (UnsafePath ''./'')"
  by (simp add: unpack_eval path_parts_def starts_with_def)

text \<open>A marker named after the directory itself removes the root.\<close>

lemma marker_removes_root: "node_at (snd (unpack_layer open_kernel (\<lambda>n. n) [''s''] (Some [Some (plain_entry ''.wh..'' TRegular None [])]) sample_tree)) [''s''] = None"
  by (simp add: unpack_eval rebuild_eval)

section \<open>Commits\<close>



text \<open>A directory of the upper layer over a link of the base is followed on the host: committing such a container writes outside
  the staging directory.\<close>

lemma rebuild_escapes:
  "info (snd (rebuild_rootfs open_kernel (\<lambda>n. n) [''b''] (Dir 493 [(''data'', Link ''/etc'')])
     [''u''] (Dir 493 [(''data'', Dir 493 [(''passwd'', File 420 ''evil'')])]) [''s'', ''w''] sample_tree)) [''etc'', ''passwd''] =
   Some (IFile 420 ''evil'')"
  by (simp add: rebuild_eval)

text \<open>A white-out of the kernel, a device 0 with the name of its victim, is passed over: the file is back.\<close>

lemma kernel_whiteout_ignored:
  "node_at (snd (rebuild_rootfs open_kernel (\<lambda>n. n) [''b''] (Dir 493 [(''a'', File 420 ''1'')])
     [''u''] (Dir 493 [(''a'', Device 0)]) [''s'', ''w''] sample_tree)) [''s'', ''w'', ''a''] = Some (File 420 ''1'')"
  by (simp add: rebuild_eval)

text \<open>A marker that names the parent directory removes the neighbours of the staging directory.\<close>

lemma marker_removes_parent:
  "node_at (snd (rebuild_rootfs open_kernel (\<lambda>n. n) [''b''] (Dir 493 [])
     [''u''] (Dir 493 [(''.wh...'', Device 259)]) [''s'', ''w''] (Dir 493 [(''s'', Dir 493 [(''image'', File 420 ''1'')])]))) [''s'', ''image''] = None"
  by (simp add: rebuild_eval)

section \<open>Diffs\<close>



end
