(* ===== verification/Service.thy ===== *)
theory Service
  imports Run_Args
begin

text \<open>
  systemd units (src/service.rs): the arguments of the supervised \<open>run\<close>, their quoting, and the text of the unit.

  \<open>canon\<close> resolves the root file system's path, \<open>env\<close> is the environment of the calling process; the text of a float comes from
  the context, as for \<open>run\<close>.
\<close>

datatype service_error =
    SvDetach
  | SvRm
  | SvTerminal
  | SvTwoSources
  | SvOverlay
  | SvPublish
  | SvDns
  | SvEnv
  | SvEntrypoint
  | SvPull
  | SvWorkdir
  | SvLogs
  | SvNoSource
  | SvName string
  | SvRootfs string
  | SvControl
  | SvUtf8 string

definition name_char :: "char \<Rightarrow> bool" where
  "name_char c \<longleftrightarrow> is_ascii_alphanumeric c \<or> c \<in> set ''_.-''"

definition validate :: "RunArgs \<Rightarrow> service_error + unit" where
  "validate a =
     (if ra_detach a then Inl SvDetach
      else if ra_rm a then Inl SvRm
      else if ra_tty a \<or> ra_interactive a then Inl SvTerminal
      else if ra_rootfs a \<noteq> None \<and> ra_image a \<noteq> None then Inl SvTwoSources
      else if ra_no_overlay a \<and> ra_tmpfs_upper a then Inl SvOverlay
      else if ra_ports a \<noteq> [] \<and> ra_net a \<noteq> NetBridge then Inl SvPublish
      else if ra_dns a \<noteq> [] \<and> ra_net a \<noteq> NetBridge then Inl SvDns
      else if ra_rootfs a \<noteq> None \<and> ra_env a \<noteq> [] then Inl SvEnv
      else if ra_rootfs a \<noteq> None \<and> ra_entrypoint a \<noteq> None then Inl SvEntrypoint
      else if ra_rootfs a \<noteq> None \<and> ra_pull a \<noteq> Missing then Inl SvPull
      else if ra_workdir a = Some [] then Inl SvWorkdir
      else if ra_log_options_set a then Inl SvLogs
      else if ra_rootfs a = None \<and> ra_image a = None then Inl SvNoSource
      else (case ra_name a of
          None \<Rightarrow> Inr ()
        | Some n \<Rightarrow>
            if n \<noteq> [] \<and> is_ascii_alphanumeric (hd n) \<and> list_all name_char n then Inr () else Inl (SvName n)))"

text \<open>A character that is not ASCII becomes one dash: its first byte does, the bytes after it go.\<close>

definition sanitize :: "string \<Rightarrow> string" where
  "sanitize value =
     (let out = concat (map (\<lambda>c. if name_char c then [c] else if 128 \<le> code c \<and> code c < 192 then [] else ''-'') value);
          out = dropWhile (\<lambda>c. c = CHR ''-'') (rev (dropWhile (\<lambda>c. c = CHR ''-'') (rev out))) in
      if out = [] \<or> out = ''.'' \<or> out = ''..'' then ''container'' else out)"

definition source_label :: "string option \<Rightarrow> string option \<Rightarrow> string" where
  "source_label rootfs img = (case (rootfs, img) of
      (_, Some img) \<Rightarrow> sanitize img
    | (Some rootfs, None) \<Rightarrow>
        (if path_parts rootfs = [] \<or> last (path_parts rootfs) = ''..'' then ''container'' else sanitize (last (path_parts rootfs)))
    | (None, None) \<Rightarrow> ''container'')"

definition container_name :: "RunArgs \<Rightarrow> string" where
  "container_name a = (case ra_name a of Some n \<Rightarrow> n | None \<Rightarrow> source_label (ra_rootfs a) (ra_image a))"

text \<open>The arguments of the supervised command. \<open>rootfs\<close>: the canonical path of the root file system, when there is one.\<close>

definition service_options :: "run_ctx \<Rightarrow> RunArgs \<Rightarrow> string option \<Rightarrow> string list" where
  "service_options ctx a rootfs =
     [''run'', ''--name'', container_name a]
     @ opt_args ''--rootfs'' (\<lambda>v. v) rootfs
     @ opt_args ''--memory'' (\<lambda>v. v) (ra_memory a)
     @ opt_args ''--memory-reservation'' (\<lambda>v. v) (ra_memory_reservation a)
     @ opt_args ''--memory-swap'' (\<lambda>v. if v < 0 then ''-1'' else show_int v) (ra_memory_swap a)
     @ opt_args ''--cpus'' (c_show_f64 ctx) (ra_cpus a)
     @ opt_args ''--cpuset-cpus'' (\<lambda>v. v) (ra_cpuset_cpus a)
     @ opt_args ''--cpuset-mems'' (\<lambda>v. v) (ra_cpuset_mems a)
     @ opt_args ''--pids'' show_int (ra_pids a)
     @ flag_args ''--oom-group'' (ra_oom_group a)
     @ io_args ''--device-read-bps'' read_bps (ra_device_read_bps a)
     @ io_args ''--device-write-bps'' write_bps (ra_device_write_bps a)
     @ io_args ''--device-read-iops'' read_iops (ra_device_read_iops a)
     @ io_args ''--device-write-iops'' write_iops (ra_device_write_iops a)
     @ opt_args ''--hostname'' (\<lambda>v. v) (ra_hostname a)
     @ opt_args ''--user'' (\<lambda>v. v) (ra_user a)
     @ (if ra_net a \<noteq> NetNone then [''--net'', net_label (ra_net a)] else [])
     @ flag_args ''--init'' (ra_use_init a)
     @ (if ra_seccomp a = Unconfined then [''--seccomp'', ''unconfined''] else [])
     @ list_args ''--cap-add'' (\<lambda>v. v) (ra_cap_add a)
     @ list_args ''--cap-drop'' (\<lambda>v. v) (ra_cap_drop a)
     @ flag_args ''--no-overlay'' (ra_no_overlay a)
     @ flag_args ''--tmpfs-upper'' (ra_tmpfs_upper a)
     @ flag_args ''--read-only'' (ra_readonly a)
     @ list_args ''--tmpfs'' tm_raw (ra_tmpfs a)
     @ opt_args ''--platform'' (\<lambda>v. v) (ra_platform a)
     @ opt_args ''--entrypoint'' (\<lambda>v. v) (ra_entrypoint a)
     @ opt_args ''--workdir'' (\<lambda>v. v) (ra_workdir a)
     @ (if ra_pull a \<noteq> Missing then [''--pull'', PullPolicy_label (ra_pull a)] else [])
     @ list_args ''--env'' (\<lambda>v. v) (ra_env a)
     @ list_args ''--publish'' (\<lambda>p. show_nat (host_port p) @ '':'' @ show_nat (container_port p)) (ra_ports a)
     @ list_args ''--dns'' (\<lambda>v. v) (ra_dns a)
     @ list_args ''--label'' (\<lambda>(k, v). k @ ''='' @ v) (ra_labels a)
     @ (case ra_image a of None \<Rightarrow> [] | Some img \<Rightarrow> [img])"

definition service_args :: "run_ctx \<Rightarrow> RunArgs \<Rightarrow> string option \<Rightarrow> string list" where
  "service_args ctx a rootfs =
     (let args = service_options ctx a rootfs in
      if ra_argv a = [] then args
      else if ra_rootfs a = None then
        (if args \<noteq> [] \<and> last args \<noteq> ''--'' then args @ [''--''] else args) @ ra_argv a
      else args @ [''--''] @ ra_argv a)"

section \<open>Quoting\<close>

definition quote_char :: "char \<Rightarrow> string" where
  "quote_char c =
     (if c = CHR 0x5C then [CHR 0x5C, CHR 0x5C]
      else if c = CHR 0x22 then [CHR 0x5C, CHR 0x22]
      else if c = CHR ''$'' then ''$$''
      else if c = CHR ''%'' then ''%%''
      else [c])"

definition control_char :: "char \<Rightarrow> bool" where
  "control_char c \<longleftrightarrow> c = CHR 0x0A \<or> c = CHR 0x0D \<or> c = CHR 0x00"

definition quote_systemd :: "string \<Rightarrow> service_error + string" where
  "quote_systemd value =
     (if list_ex control_char value then Inl SvControl
      else if value = [] then Inr [CHR 0x22, CHR 0x22]
      else if \<not> list_ex (\<lambda>c. c \<in> {CHR '' '', CHR 0x09, CHR 0x22, CHR 0x5C, CHR ''$'', CHR ''%''}) value then Inr value
      else Inr ([CHR 0x22] @ concat (map quote_char value) @ [CHR 0x22]))"

definition quote_environment :: "string \<Rightarrow> service_error + string" where
  "quote_environment value =
     (if list_ex control_char value then Inl SvControl else Inr (concat (map quote_char value)))"

section \<open>The unit\<close>

abbreviation unit_line :: "string \<Rightarrow> string" where
  "unit_line s \<equiv> s @ [CHR 0x0A]"

text \<open>\<open>env\<close>: \<open>None\<close> is not set, \<open>Some (Inl _)\<close> not UTF-8.\<close>

definition environment_line :: "(string \<Rightarrow> (unit + string) option) \<Rightarrow> string \<Rightarrow> service_error + string" where
  "environment_line env key = (case env key of
      None \<Rightarrow> Inr []
    | Some (Inl _) \<Rightarrow> Inl (SvUtf8 key)
    | Some (Inr v) \<Rightarrow>
        and_then (quote_environment v) (\<lambda>v. Inr (unit_line (''Environment='' @ [CHR 0x22] @ key @ ''='' @ v @ [CHR 0x22]))))"

definition canonical_rootfs :: "(string \<Rightarrow> string option) \<Rightarrow> RunArgs \<Rightarrow> service_error + string option" where
  "canonical_rootfs canon a = (case ra_rootfs a of
      None \<Rightarrow> Inr None
    | Some r \<Rightarrow> (case canon r of None \<Rightarrow> Inl (SvRootfs r) | Some p \<Rightarrow> Inr (Some p)))"

definition unit_head :: "string \<Rightarrow> bool \<Rightarrow> string" where
  "unit_head name rootful =
     unit_line ''# Generated by zerun generate-service; edit run arguments with care.''
     @ unit_line ''[Unit]''
     @ unit_line (''Description=Zerun container '' @ name)
     @ (if rootful then unit_line ''After=network-online.target'' @ unit_line ''Wants=network-online.target''
        else unit_line ''# Install as a user unit (systemctl --user) to preserve rootless semantics.'')
     @ unit_line []
     @ unit_line ''[Service]''
     @ unit_line ''Type=simple''"

definition unit_tail :: "string \<Rightarrow> bool \<Rightarrow> string" where
  "unit_tail environment rootful =
     environment
     @ unit_line ''Restart=on-failure''
     @ unit_line ''RestartSec=2s''
     @ unit_line ''KillMode=mixed''
     @ unit_line ''KillSignal=SIGTERM''
     @ unit_line ''TimeoutStopSec=15s''
     @ unit_line ''NoNewPrivileges=true''
     @ unit_line ''SuccessExitStatus=143''
     @ unit_line ''StandardOutput=journal''
     @ unit_line ''StandardError=journal''
     @ unit_line []
     @ unit_line ''[Install]''
     @ unit_line (if rootful then ''WantedBy=multi-user.target'' else ''WantedBy=default.target'')"

definition render ::
  "run_ctx \<Rightarrow> (string \<Rightarrow> string option) \<Rightarrow> (string \<Rightarrow> (unit + string) option) \<Rightarrow> string \<Rightarrow> RunArgs \<Rightarrow> bool \<Rightarrow> service_error + string" where
  "render ctx canon env binary a rootful =
     and_then (validate a) (\<lambda>_.
     and_then (canonical_rootfs canon a) (\<lambda>rootfs.
     and_then (map_result quote_systemd (binary # service_args ctx a rootfs)) (\<lambda>words.
     and_then (quote_systemd (container_name a)) (\<lambda>name.
     and_then (environment_line env ''ZERUN_DATA_ROOT'') (\<lambda>data.
     and_then (environment_line env ''ZERUN_RUNTIME_ROOT'') (\<lambda>runtime.
     Inr (unit_head name rootful @ unit_line (''ExecStart='' @ join '' '' words) @ unit_tail (data @ runtime) rootful)))))))"

end
