(* ===== verification/Service_Facts.thy ===== *)
theory Service_Facts
  imports Service
begin

text \<open>
  Reading the generated unit back: the interface \<open>exec_grammar\<close> holds what the manual of systemd says of a command line, and
  a command that is quoted by \<open>quote_systemd\<close> is read as it was.
\<close>

section \<open>How the unit is read\<close>

text \<open>The command line of a unit, as the manual of systemd describes it: words between blanks, a word in double quotes as a whole
  with backslashes for a quote and a backslash, \<open>$$\<close> and \<open>%%\<close> for a dollar and a percent sign. A client of the interface
  relies on these laws only.\<close>

definition plain_word :: "string \<Rightarrow> bool" where
  "plain_word w \<longleftrightarrow> w \<noteq> [] \<and> hd w \<noteq> CHR 0x27 \<and> w \<noteq> '';'' \<and>
     \<not> list_ex (\<lambda>c. c \<in> {CHR '' '', CHR 0x09, CHR 0x22, CHR 0x5C, CHR ''$'', CHR ''%''}) w"

text \<open>The words that need no more than the quotes they get: systemd would take a lone semicolon for the end of the command and a
  leading apostrophe for a quote.\<close>

definition readable :: "string \<Rightarrow> bool" where
  "readable w \<longleftrightarrow> w \<noteq> '';'' \<and> (w = [] \<or> hd w \<noteq> CHR 0x27)"

locale exec_grammar =
  fixes exec_words :: "string \<Rightarrow> string list option"
  assumes words_end: "exec_words [] = Some []"
    and words_blank: "exec_words (CHR '' '' # s) = exec_words s"
    and words_plain: "plain_word w \<Longrightarrow> rest = [] \<or> hd rest = CHR '' '' \<Longrightarrow> exec_words (w @ rest) = map_option (Cons w) (exec_words rest)"
    and words_quoted: "rest = [] \<or> hd rest = CHR '' '' \<Longrightarrow>
      exec_words ([CHR 0x22] @ concat (map quote_char w) @ [CHR 0x22] @ rest) = map_option (Cons w) (exec_words rest)"
begin

lemma words_quote:
  assumes "quote_systemd w = Inr q" and "readable w" and "rest = [] \<or> hd rest = CHR '' ''"
  shows "exec_words (q @ rest) = map_option (Cons w) (exec_words rest)"
proof (cases "w = []")
  case True
  with assms words_quoted [of rest "[]"] show ?thesis by (auto simp: quote_systemd_def)
next
  case False
  with assms words_plain [of w rest] words_quoted [of rest w] show ?thesis
    by (auto simp: quote_systemd_def plain_word_def readable_def split: if_splits)
qed

lemma words_join:
  "map_result quote_systemd ws = Inr qs \<Longrightarrow> list_all readable ws \<Longrightarrow> exec_words (join '' '' qs) = Some ws"
proof (induction ws arbitrary: qs)
  case Nil
  then show ?case by (simp add: words_end)
next
  case (Cons w ws)
  then obtain q qs' where q: "quote_systemd w = Inr q" "map_result quote_systemd ws = Inr qs'" "qs = q # qs'"
    by (auto simp: and_then_eq_Inr_iff)
  show ?case
  proof (cases "qs' = []")
    case True
    with q have "ws = []" by (cases ws) (auto simp: and_then_eq_Inr_iff)
    with True q Cons.prems words_quote [OF q(1), of "[]"] show ?thesis by (simp add: words_end)
  next
    case False
    then have "join '' '' qs = q @ CHR '' '' # join '' '' qs'" using q(3) by (cases qs') simp_all
    with q Cons words_quote [OF q(1), of "CHR '' '' # join '' '' qs'"] words_blank show ?thesis by simp
  qed
qed

end

fun unquote :: "string \<Rightarrow> (string \<times> string) option" where
  "unquote [] = None"
| "unquote (c # s) =
     (if c = CHR 0x22 then Some ([], s)
      else if c = CHR 0x5C then
        (case s of
           [] \<Rightarrow> None
         | d # s' \<Rightarrow> if d = CHR 0x5C \<or> d = CHR 0x22 then map_option (apfst (Cons d)) (unquote s') else None)
      else map_option (apfst (Cons c)) (unquote s))"

fun expand :: "string \<Rightarrow> string option" where
  "expand [] = Some []"
| "expand (c # s) =
     (if c = CHR ''$'' \<or> c = CHR ''%'' then
        (case s of [] \<Rightarrow> None | d # s' \<Rightarrow> if d = c then map_option (Cons c) (expand s') else None)
      else map_option (Cons c) (expand s))"

definition blank :: "char \<Rightarrow> bool" where
  "blank c \<longleftrightarrow> c = CHR '' '' \<or> c = CHR 0x09"

lemma unquote_shorter: "unquote s = Some (w, rest) \<Longrightarrow> length rest < length s"
proof (induction s arbitrary: w rest rule: unquote.induct)
  case (2 c s)
  then show ?case by (force split: if_splits list.splits)
qed simp

function exec_words :: "string \<Rightarrow> string list option" where
  "exec_words s = (case dropWhile blank s of
      [] \<Rightarrow> Some []
    | c # r \<Rightarrow>
        if c = CHR 0x22 then
          (case unquote r of
             None \<Rightarrow> None
           | Some (w, rest) \<Rightarrow>
               if rest = [] \<or> blank (hd rest) then Option.bind (expand w) (\<lambda>w. map_option (Cons w) (exec_words rest)) else None)
        else if c = CHR 0x27 then None
        else (let w = takeWhile (\<lambda>c. \<not> blank c) (c # r) in
          if w = '';'' \<or> CHR 0x22 \<in> set w \<or> CHR 0x5C \<in> set w then None
          else Option.bind (expand w) (\<lambda>w. map_option (Cons w) (exec_words (dropWhile (\<lambda>c. \<not> blank c) (c # r))))))"
  by pat_completeness auto
termination
proof (relation "measure length")
  fix s c r x w rest
  assume s: "dropWhile blank s = c # r" and u: "unquote r = Some x" "(w, rest) = x"
  have "length (dropWhile blank s) \<le> length s" by (rule length_dropWhile_le)
  with unquote_shorter [of r w rest] u s show "(rest, s) \<in> measure length" by auto
next
  fix s c r
  assume s: "dropWhile blank s = c # r"
  have "length (dropWhile blank s) \<le> length s" by (rule length_dropWhile_le)
  moreover have "\<not> blank c" using s by (metis hd_dropWhile list.sel(1) list.distinct(1))
  then have "length (dropWhile (\<lambda>c. \<not> blank c) (c # r)) < length (c # r)" by (simp add: le_imp_less_Suc length_dropWhile_le)
  ultimately show "(dropWhile (\<lambda>c. \<not> blank c) (c # r), s) \<in> measure length" using s by simp
qed simp

declare exec_words.simps [simp del]

text \<open>What is left of a quoted word once the quotes are gone.\<close>

definition doubled :: "char \<Rightarrow> string" where
  "doubled c = (if c = CHR ''$'' \<or> c = CHR ''%'' then [c, c] else [c])"

lemma unquote_quoted: "unquote (concat (map quote_char w) @ CHR 0x22 # rest) = Some (concat (map doubled w), rest)"
  by (induction w) (auto simp: quote_char_def doubled_def)

lemma expand_doubled: "expand (concat (map doubled w)) = Some w"
  by (induction w) (auto simp: doubled_def)

lemma expand_plain: "CHR ''$'' \<notin> set w \<Longrightarrow> CHR ''%'' \<notin> set w \<Longrightarrow> expand w = Some w"
  by (induction w) auto

lemma blank_end: "rest = [] \<or> hd rest = CHR '' '' \<Longrightarrow> rest = [] \<or> blank (hd rest)"
  by (auto simp: blank_def)

lemma plain_split:
  assumes "plain_word w" and "rest = [] \<or> hd rest = CHR '' ''"
  shows "takeWhile (\<lambda>c. \<not> blank c) (w @ rest) = w" "dropWhile (\<lambda>c. \<not> blank c) (w @ rest) = rest"
proof -
  have w: "\<not> blank c" if "c \<in> set w" for c using assms(1) that by (auto simp: plain_word_def blank_def list_ex_iff)
  show "takeWhile (\<lambda>c. \<not> blank c) (w @ rest) = w"
    using w blank_end [OF assms(2)] by (cases rest) (simp_all add: takeWhile_append2)
  show "dropWhile (\<lambda>c. \<not> blank c) (w @ rest) = rest"
    using w blank_end [OF assms(2)] by (cases rest) (simp_all add: dropWhile_append2)
qed

interpretation systemd: exec_grammar exec_words
proof
  show "exec_words [] = Some []" by (simp add: exec_words.simps)
  show "exec_words (CHR '' '' # s) = exec_words s" for s
    by (subst (1 2) exec_words.simps) (simp add: blank_def)
  show "exec_words (w @ rest) = map_option (Cons w) (exec_words rest)" if w: "plain_word w" and r: "rest = [] \<or> hd rest = CHR '' ''" for w rest
  proof -
    from w obtain c u where cu: "w = c # u" by (cases w) (auto simp: plain_word_def)
    have b: "\<not> blank c" "c \<noteq> CHR 0x22" "c \<noteq> CHR 0x27" using w cu by (auto simp: plain_word_def blank_def)
    have chars: "CHR 0x22 \<notin> set w" "CHR 0x5C \<notin> set w" "CHR ''$'' \<notin> set w" "CHR ''%'' \<notin> set w" "w \<noteq> '';''"
      using w by (auto simp: plain_word_def list_ex_iff)
    show ?thesis
      using b chars plain_split [OF w r] expand_plain [OF chars(3,4)] cu by (subst exec_words.simps) (auto simp: Let_def)
  qed
  show "exec_words ([CHR 0x22] @ concat (map quote_char w) @ [CHR 0x22] @ rest) = map_option (Cons w) (exec_words rest)"
    if "rest = [] \<or> hd rest = CHR '' ''" for w rest
    using unquote_quoted [of w rest] expand_doubled [of w] blank_end [OF that]
    by (subst exec_words.simps) (simp add: blank_def)
qed

lemma quote_one_line: "quote_systemd w = Inr q \<Longrightarrow> CHR 0x0A \<notin> set q"
proof -
  assume q: "quote_systemd w = Inr q"
  then have "CHR 0x0A \<notin> set w" by (auto simp: quote_systemd_def list_ex_iff control_char_def split: if_splits)
  moreover have "c = CHR 0x0A" if "CHR 0x0A \<in> set (quote_char c)" for c using that by (simp add: quote_char_def split: if_splits)
  ultimately have "CHR 0x0A \<notin> set (concat (map quote_char w))" by auto
  with q \<open>CHR 0x0A \<notin> set w\<close> show ?thesis unfolding quote_systemd_def by (auto split: if_splits)
qed

lemma quoted_one_line: "map_result quote_systemd ws = Inr qs \<Longrightarrow> CHR 0x0A \<notin> set (join '' '' qs)"
proof (induction ws arbitrary: qs)
  case (Cons w ws)
  then obtain q qs' where q: "quote_systemd w = Inr q" "map_result quote_systemd ws = Inr qs'" "qs = q # qs'"
    by (auto simp: and_then_eq_Inr_iff)
  then have "CHR 0x0A \<notin> set q" by (simp add: quote_one_line)
  with Cons.IH [OF q(2)] q(3) show ?case by (cases qs') auto
qed simp



text \<open>The command does not say on which address and with which protocol a port is published, nor which volumes are mounted.\<close>

lemma service_forgets:
  assumes "map (\<lambda>p. (host_port p, container_port p)) ps = map (\<lambda>p. (host_port p, container_port p)) (ra_ports a)"
  shows "service_args ctx (a\<lparr>ra_ports := ps, ra_volumes := vs\<rparr>) rootfs = service_args ctx a rootfs"
proof -
  have pub: "list_args ''--publish'' (\<lambda>p. show_nat (host_port p) @ '':'' @ show_nat (container_port p)) qs =
      concat (map (\<lambda>(h, c). [''--publish'', show_nat h @ '':'' @ show_nat c]) (map (\<lambda>p. (host_port p, container_port p)) qs))" for qs
    by (simp add: list_args_def comp_def)
  have name: "container_name (a\<lparr>ra_ports := ps, ra_volumes := vs\<rparr>) = container_name a"
    by (simp add: container_name_def split: option.splits)
  have same: "list_args ''--publish'' (\<lambda>p. show_nat (host_port p) @ '':'' @ show_nat (container_port p)) ps =
      list_args ''--publish'' (\<lambda>p. show_nat (host_port p) @ '':'' @ show_nat (container_port p)) (ra_ports a)"
    unfolding pub assms ..
  have "service_options ctx (a\<lparr>ra_ports := ps, ra_volumes := vs\<rparr>) rootfs = service_options ctx a rootfs"
    by (simp add: service_options_def name same [simplified])
  then show ?thesis by (simp add: service_args_def Let_def)
qed

text \<open>Nor does it say that a container has no network.\<close>

lemma service_forgets_none: "''--net'' \<in> set (service_options ctx (RunArgs_default\<lparr>ra_image := Some ''alpine'', ra_net := n\<rparr>) None) \<longleftrightarrow> n \<noteq> NetNone"
  by (simp add: service_options_def RunArgs_default_def opt_args_def list_args_def flag_args_def io_args_def
    container_name_def source_label_def sanitize_def name_char_def ascii_class_defs)

end
