(* ===== verification/Auth.thy ===== *)
theory Auth
  imports Image_Name Byte_Codec
begin

text \<open>
  Registry credentials (src/image/auth.rs): base64, the credential file with its atomic, owner-only writer, and registry host
  names. JSON goes through a library: \<open>to_json\<close> and \<open>from_json\<close> are parameters. The file system is a record of its answers.
\<close>

section \<open>Base64\<close>

unbundle bit_operations_syntax

definition BASE64 :: string where
  "BASE64 = ''ABCDEFGHIJKLMNOPQRSTUVWXYZabcdefghijklmnopqrstuvwxyz0123456789+/''"

text \<open>\<open>slice::chunks\<close>.\<close>

function chunks :: "nat \<Rightarrow> 'a list \<Rightarrow> 'a list list" where
  "chunks k xs = (if k = 0 \<or> xs = [] then [] else take k xs # chunks k (drop k xs))"
  by pat_completeness auto
termination by (relation "measure (\<lambda>(k, xs). length xs)") auto

declare chunks.simps [simp del]

definition u32_of :: "char \<Rightarrow> 32 word" where
  "u32_of c = word_of_nat (code c)"

definition as_u8 :: "32 word \<Rightarrow> char" where
  "as_u8 n = char_of (unat (ucast n :: 8 word))"

definition base64_digit :: "32 word \<Rightarrow> char" where
  "base64_digit n = BASE64 ! unat (n AND 63)"

definition encode_chunk :: "string \<Rightarrow> string" where
  "encode_chunk chunk =
     (let b0 = chunk ! 0;
          b1 = (if 1 < length chunk then chunk ! 1 else CHR 0x00);
          b2 = (if 2 < length chunk then chunk ! 2 else CHR 0x00);
          n = push_bit 16 (u32_of b0) OR push_bit 8 (u32_of b1) OR u32_of b2 in
      [base64_digit (drop_bit 18 n), base64_digit (drop_bit 12 n),
       if length chunk > 1 then base64_digit (drop_bit 6 n) else CHR ''='',
       if length chunk > 2 then base64_digit n else CHR ''=''])"

definition base64_encode :: "string \<Rightarrow> string" where
  "base64_encode input = concat (map encode_chunk (chunks 3 input))"

definition base64_value :: "char \<Rightarrow> 32 word option" where
  "base64_value b =
     (if is_ascii_uppercase b then Some (word_of_nat (code b - 65))
      else if is_ascii_lowercase b then Some (word_of_nat (code b - 97 + 26))
      else if is_ascii_digit b then Some (word_of_nat (code b - 48 + 52))
      else if b = CHR ''+'' then Some 62
      else if b = CHR ''/'' then Some 63
      else None)"

fun chunk_bits :: "nat \<Rightarrow> string \<Rightarrow> 32 word \<Rightarrow> 32 word option" where
  "chunk_bits i [] n = Some n"
| "chunk_bits i (b # bs) n = (case base64_value b of
      None \<Rightarrow> None
    | Some v \<Rightarrow> chunk_bits (Suc i) bs (n OR push_bit (18 - 6 * i) v))"

definition decode_chunk :: "string \<Rightarrow> string option" where
  "decode_chunk chunk =
     (if length chunk = 1 then None
      else (case chunk_bits 0 chunk 0 of
          None \<Rightarrow> None
        | Some n \<Rightarrow> Some ([as_u8 (drop_bit 16 n)]
            @ (if length chunk > 2 then [as_u8 (drop_bit 8 n)] else [])
            @ (if length chunk > 3 then [as_u8 n] else []))))"

definition base64_decode :: "string \<Rightarrow> string option" where
  "base64_decode input =
     (let bytes = filter (\<lambda>b. \<not> is_ascii_whitespace b \<and> b \<noteq> CHR ''='') input in
      map_option concat (those (map decode_chunk (chunks 4 bytes))))"

section \<open>Credentials\<close>

record Credential =
  cr_username :: string
  cr_password :: string

datatype auth_error =
    NoCredentialPath
  | ReadFailed
  | ParseFailed
  | UnsupportedVersion nat
  | InvalidAuth string
  | NotUtf8 string
  | NoUsername string
  | InsecureRegistry string
  | RegistryRequired
  | InvalidHostname string
  | BadUsername
  | BadPassword
  | SerializeFailed
  | NoParent
  | CreateDirFailed
  | StatDirFailed
  | DirWritable
  | TempFailed
  | InstallFailed
  | TightenFailed

definition joined :: "Credential \<Rightarrow> string" where
  "joined c = cr_username c @ '':'' @ cr_password c"

definition authorization :: "Credential \<Rightarrow> string" where
  "authorization c = ''Basic '' @ base64_encode (joined c)"

record StoredCredential = sc_auth :: string

record CredentialFile =
  cf_version :: nat
  cf_auths :: "(string \<times> StoredCredential) list"

text \<open>The path of the store. A path is joined by \<open>/\<close>; the variables are the arguments.\<close>

definition open_store :: "string option \<Rightarrow> string option \<Rightarrow> string option \<Rightarrow> auth_error + string" where
  "open_store zerun_credentials xdg_config_home home = (case zerun_credentials of
      Some v \<Rightarrow> Inr v
    | None \<Rightarrow> (case xdg_config_home of
          Some (c # xdg) \<Rightarrow> Inr ((c # xdg) @ ''/zerun/credentials.json'')
        | _ \<Rightarrow> (case home of
              None \<Rightarrow> Inl NoCredentialPath
            | Some h \<Rightarrow> Inr (h @ ''/.config/zerun/credentials.json''))))"

text \<open>The files the store touches: the credential file and the temporary file beside it, each with its bytes and its mode.\<close>

record cred_files =
  kf_file :: "(string \<times> nat) option"
  kf_tmp :: "(string \<times> nat) option"

definition load_entry :: "string \<Rightarrow> StoredCredential \<Rightarrow> auth_error + Credential" where
  "load_entry host stored = (case base64_decode (sc_auth stored) of
      None \<Rightarrow> Inl (InvalidAuth host)
    | Some decoded \<Rightarrow>
        if \<not> valid_utf8 decoded then Inl (NotUtf8 host)
        else (case split_once (CHR '':'') decoded of
            None \<Rightarrow> Inl (NoUsername host)
          | Some (username, password) \<Rightarrow> Inr \<lparr>cr_username = username, cr_password = password\<rparr>))"

fun load_auths :: "(string \<times> StoredCredential) list \<Rightarrow> (string \<times> Credential) list \<Rightarrow> auth_error + (string \<times> Credential) list" where
  "load_auths [] out = Inr out"
| "load_auths ((host, stored) # auths) out =
     and_then (load_entry host stored) (\<lambda>c. load_auths auths (btree_insert host c out))"

text \<open>\<open>readable\<close>: whether the file can be read.\<close>

definition all_credentials :: "(string \<Rightarrow> CredentialFile option) \<Rightarrow> bool \<Rightarrow> cred_files \<Rightarrow> auth_error + (string \<times> Credential) list" where
  "all_credentials from_json readable fs = (case kf_file fs of
      None \<Rightarrow> Inr []
    | Some (bytes, _) \<Rightarrow>
        if \<not> readable then Inl ReadFailed
        else (case from_json bytes of
            None \<Rightarrow> Inl ParseFailed
          | Some f \<Rightarrow>
              if cf_version f \<noteq> 1 then Inl (UnsupportedVersion (cf_version f)) else load_auths (cf_auths f) []))"

text \<open>\<open>char::is_whitespace\<close> and \<open>char::is_control\<close> of a character of a string, on its UTF-8 bytes: U+0000..U+001F, U+007F..U+009F.\<close>

fun has_whitespace :: "string \<Rightarrow> bool" where
  "has_whitespace [] = False"
| "has_whitespace (c # s) \<longleftrightarrow> leading_seq ws_seqs (c # s) \<noteq> None \<or> has_whitespace s"

fun has_control :: "string \<Rightarrow> bool" where
  "has_control [] = False"
| "has_control (c # s) \<longleftrightarrow> is_ascii_control c \<or> (code c = 0xC2 \<and> s \<noteq> [] \<and> within 0x80 0x9F (hd s)) \<or> has_control s"

definition trim_end_slashes :: "string \<Rightarrow> string" where
  "trim_end_slashes s = rev (dropWhile (\<lambda>c. c = CHR ''/'') (rev s))"

definition normalize_registry :: "(string \<Rightarrow> string) \<Rightarrow> string \<Rightarrow> auth_error + string" where
  "normalize_registry ul input =
     (let value = trim input in
      (case (case strip_prefix ''https://'' value of
              Some rest \<Rightarrow> Inr rest
            | None \<Rightarrow> (case strip_prefix ''http://'' value of
                  Some rest \<Rightarrow> Inl (InsecureRegistry rest)
                | None \<Rightarrow> Inr value)) of
         Inl e \<Rightarrow> Inl e
       | Inr value \<Rightarrow>
           (let value = trim_end_slashes value in
            if value = [] then Inl RegistryRequired
            else if has_whitespace value \<or> has_control value \<or> CHR ''/'' \<in> set value \<or> CHR ''@'' \<in> set value
            then Inl (InvalidHostname input)
            else (let host = to_lowercase ul value in
              if host = ''index.docker.io'' \<or> host = ''registry-1.docker.io'' then Inr ''docker.io'' else Inr host))))"

definition validate_credential :: "Credential \<Rightarrow> auth_error + unit" where
  "validate_credential c =
     (if cr_username c = [] \<or> has_control (cr_username c) then Inl BadUsername
      else if cr_password c = [] \<or> has_control (cr_password c) then Inl BadPassword
      else Inr ())"

text \<open>What the kernel answers to \<open>atomic_write_private\<close>: whether the path has a parent, whether each call succeeds, the mode of the
  directory, the bits the umask clears, and what a failed write has written. A temporary file that is there keeps its mode.\<close>

record write_io =
  wi_parent :: bool
  wi_mkdir :: bool
  wi_dir_mode :: "nat option"
  wi_umask :: nat
  wi_open :: bool
  wi_written :: "string option"
  wi_sync :: bool
  wi_rename :: bool
  wi_reopen :: bool
  wi_chmod :: bool
  wi_unlink :: bool

definition opened_tmp :: "write_io \<Rightarrow> cred_files \<Rightarrow> string \<Rightarrow> cred_files" where
  "opened_tmp io fs content = fs\<lparr>kf_tmp := Some (content,
     case kf_tmp fs of Some (_, m) \<Rightarrow> m | None \<Rightarrow> 0x180 - (0x180 AND wi_umask io))\<rparr>"

definition drop_tmp :: "write_io \<Rightarrow> cred_files \<Rightarrow> cred_files" where
  "drop_tmp io fs = (if wi_unlink io then fs\<lparr>kf_tmp := None\<rparr> else fs)"

definition write_tmp :: "write_io \<Rightarrow> string \<Rightarrow> cred_files \<Rightarrow> (auth_error + unit) \<times> cred_files" where
  "write_tmp io bytes fs =
     (if \<not> wi_open io then (Inl TempFailed, fs)
      else (case wi_written io of
          Some part \<Rightarrow> (Inl TempFailed, opened_tmp io fs part)
        | None \<Rightarrow>
            (let fs = opened_tmp io fs bytes in
             if \<not> wi_sync io then (Inl TempFailed, fs)
             else if \<not> wi_rename io then (Inl InstallFailed, fs)
             else (let fs = \<lparr>kf_file = kf_tmp fs, kf_tmp = None\<rparr> in
               if \<not> wi_reopen io \<or> \<not> wi_chmod io then (Inl TightenFailed, fs)
               else (Inr (), fs\<lparr>kf_file := map_option (\<lambda>(b, _). (b, 0x180)) (kf_file fs)\<rparr>)))))"

definition atomic_write_private :: "write_io \<Rightarrow> string \<Rightarrow> cred_files \<Rightarrow> (auth_error + unit) \<times> cred_files" where
  "atomic_write_private io bytes fs =
     (if \<not> wi_parent io then (Inl NoParent, fs)
      else if \<not> wi_mkdir io then (Inl CreateDirFailed, fs)
      else (case wi_dir_mode io of
          None \<Rightarrow> (Inl StatDirFailed, fs)
        | Some mode \<Rightarrow>
            if mode AND 0x12 \<noteq> 0 then (Inl DirWritable, fs)
            else (case write_tmp io bytes fs of
                (Inl e, fs) \<Rightarrow> (Inl e, drop_tmp io fs)
              | (Inr _, fs) \<Rightarrow> (Inr (), fs))))"

definition write_credentials ::
  "(CredentialFile \<Rightarrow> string option) \<Rightarrow> write_io \<Rightarrow> (string \<times> Credential) list \<Rightarrow> cred_files \<Rightarrow> (auth_error + unit) \<times> cred_files" where
  "write_credentials to_json io credentials fs =
     (let auths = fold (\<lambda>(host, c). btree_insert host \<lparr>sc_auth = base64_encode (joined c)\<rparr>) credentials [] in
      (case to_json \<lparr>cf_version = 1, cf_auths = auths\<rparr> of
         None \<Rightarrow> (Inl SerializeFailed, fs)
       | Some bytes \<Rightarrow> atomic_write_private io bytes fs))"

definition set_credential ::
  "(string \<Rightarrow> string) \<Rightarrow> (string \<Rightarrow> CredentialFile option) \<Rightarrow> (CredentialFile \<Rightarrow> string option) \<Rightarrow> bool \<Rightarrow> write_io \<Rightarrow> string \<Rightarrow> Credential \<Rightarrow>
   cred_files \<Rightarrow> (auth_error + unit) \<times> cred_files" where
  "set_credential ul from_json to_json readable io input c fs = (case normalize_registry ul input of
      Inl e \<Rightarrow> (Inl e, fs)
    | Inr host \<Rightarrow> (case validate_credential c of
          Inl e \<Rightarrow> (Inl e, fs)
        | Inr _ \<Rightarrow> (case all_credentials from_json readable fs of
              Inl e \<Rightarrow> (Inl e, fs)
            | Inr existing \<Rightarrow> write_credentials to_json io (btree_insert host c existing) fs)))"

definition remove_credential ::
  "(string \<Rightarrow> string) \<Rightarrow> (string \<Rightarrow> CredentialFile option) \<Rightarrow> (CredentialFile \<Rightarrow> string option) \<Rightarrow> bool \<Rightarrow> write_io \<Rightarrow> string \<Rightarrow>
   cred_files \<Rightarrow> (auth_error + bool) \<times> cred_files" where
  "remove_credential ul from_json to_json readable io input fs = (case normalize_registry ul input of
      Inl e \<Rightarrow> (Inl e, fs)
    | Inr host \<Rightarrow> (case all_credentials from_json readable fs of
          Inl e \<Rightarrow> (Inl e, fs)
        | Inr existing \<Rightarrow>
            if map_of existing host = None then (Inr False, fs)
            else (case write_credentials to_json io (btree_remove host existing) fs of
                (Inl e, fs) \<Rightarrow> (Inl e, fs)
              | (Inr _, fs) \<Rightarrow> (Inr True, fs))))"

end
