(* ===== verification/Auth_Facts.thy ===== *)
theory Auth_Facts
  imports Auth
begin

text \<open>
  Facts about registry credentials: base64 decodes what it encoded, and the credential file gives back what was stored in it.
\<close>

unbundle bit_operations_syntax

section \<open>Facts about base64\<close>

lemma base64_digits: "i < 64 \<Longrightarrow> base64_value (BASE64 ! i) = Some (word_of_nat i) \<and>
   \<not> is_ascii_whitespace (BASE64 ! i) \<and> BASE64 ! i \<noteq> CHR ''=''"
proof -
  have "list_all (\<lambda>i. base64_value (BASE64 ! i) = Some (word_of_nat i) \<and>
     \<not> is_ascii_whitespace (BASE64 ! i) \<and> BASE64 ! i \<noteq> CHR ''='') [0..<64]"
    by code_simp
  then show "i < 64 \<Longrightarrow> ?thesis" by (simp add: list_all_iff)
qed

lemma base64_value_digit: "base64_value (base64_digit n) = Some (n AND mask 6)"
  and base64_digit_plain: "\<not> is_ascii_whitespace (base64_digit n)" "base64_digit n \<noteq> CHR ''=''"
proof -
  have m: "n AND 63 = n AND mask 6" by (simp add: mask_numeral)
  have "n AND mask 6 < 2 ^ 6" by (rule and_mask_less') simp
  then have "unat (n AND 63) < 64" by (simp add: m word_less_nat_alt)
  from base64_digits [OF this] show "base64_value (base64_digit n) = Some (n AND mask 6)"
    "\<not> is_ascii_whitespace (base64_digit n)" "base64_digit n \<noteq> CHR ''=''"
    by (simp_all add: base64_digit_def m)
qed

definition byte :: "char \<Rightarrow> 8 word" where "byte c = word_of_nat (code c)"

lemma u32_of_byte: "u32_of c = ucast (byte c)"
  by (simp add: u32_of_def byte_def unsigned_of_nat take_bit_nat_eq_self)

lemma char_byte: "char_of (unat (byte c)) = c"
  by (simp add: byte_def unat_of_nat)

lemma as_u8_byte: "(ucast n :: 8 word) = byte c \<Longrightarrow> as_u8 n = c"
  by (simp add: as_u8_def char_byte)

lemma byte_Nul [simp]: "byte (CHR 0x00) = 0"
  by (simp add: byte_def)

text \<open>The four digits of a word put its lower 24 bits together again; with fewer digits the lower bits are missing.\<close>

lemma sextet_bit: "bit (push_bit i (drop_bit i n AND mask 6) :: 32 word) k \<longleftrightarrow> i \<le> k \<and> k < i + 6 \<and> k < 32 \<and> bit n k"
  by (auto simp: bit_simps)

lemma sextets:
  fixes n :: "32 word"
  shows "bit (push_bit 18 (drop_bit 18 n AND mask 6) OR push_bit 12 (drop_bit 12 n AND mask 6)) k \<longleftrightarrow> 12 \<le> k \<and> k < 24 \<and> bit n k"
    and "bit (push_bit 18 (drop_bit 18 n AND mask 6) OR push_bit 12 (drop_bit 12 n AND mask 6) OR push_bit 6 (drop_bit 6 n AND mask 6)) k
       \<longleftrightarrow> 6 \<le> k \<and> k < 24 \<and> bit n k"
    and "bit (push_bit 18 (drop_bit 18 n AND mask 6) OR push_bit 12 (drop_bit 12 n AND mask 6) OR push_bit 6 (drop_bit 6 n AND mask 6) OR (n AND mask 6)) k
       \<longleftrightarrow> k < 24 \<and> bit n k"
proof -
  have *: "bit (n AND mask 6) k \<longleftrightarrow> k < 6 \<and> bit n k" by (auto simp: bit_simps)
  show "bit (push_bit 18 (drop_bit 18 n AND mask 6) OR push_bit 12 (drop_bit 12 n AND mask 6)) k \<longleftrightarrow> 12 \<le> k \<and> k < 24 \<and> bit n k"
    unfolding bit_or_iff sextet_bit by auto
  show "bit (push_bit 18 (drop_bit 18 n AND mask 6) OR push_bit 12 (drop_bit 12 n AND mask 6) OR push_bit 6 (drop_bit 6 n AND mask 6)) k
       \<longleftrightarrow> 6 \<le> k \<and> k < 24 \<and> bit n k"
    unfolding bit_or_iff sextet_bit by auto
  show "bit (push_bit 18 (drop_bit 18 n AND mask 6) OR push_bit 12 (drop_bit 12 n AND mask 6) OR push_bit 6 (drop_bit 6 n AND mask 6) OR (n AND mask 6)) k
       \<longleftrightarrow> k < 24 \<and> bit n k"
    unfolding bit_or_iff sextet_bit * by auto
qed

lemma byte_of_bits:
  assumes "\<And>k. k < 8 \<Longrightarrow> bit n (i + k) \<longleftrightarrow> bit (byte c) k"
  shows "as_u8 (drop_bit i n) = c"
  by (rule as_u8_byte, rule bit_word_eqI) (use assms in \<open>auto simp: bit_simps\<close>)

lemma triple_bits:
  assumes "n = push_bit 16 (u32_of a) OR push_bit 8 (u32_of b) OR u32_of c" "k < 8"
  shows "bit n k \<longleftrightarrow> bit (byte c) k" "bit n (8 + k) \<longleftrightarrow> bit (byte b) k" "bit n (16 + k) \<longleftrightarrow> bit (byte a) k"
proof -
  have *: "bit (ucast (byte x) :: 32 word) j \<longleftrightarrow> j < 8 \<and> bit (byte x) j" for x j
    using bit_imp_le_length [of "byte x" j] by (auto simp: bit_simps)
  show "bit n k \<longleftrightarrow> bit (byte c) k" "bit n (8 + k) \<longleftrightarrow> bit (byte b) k" "bit n (16 + k) \<longleftrightarrow> bit (byte a) k"
    using assms(2) unfolding assms(1) bit_or_iff u32_of_byte * bit_push_bit_iff by auto
qed

abbreviation significant :: "string \<Rightarrow> string" where
  "significant s \<equiv> filter (\<lambda>b. \<not> is_ascii_whitespace b \<and> b \<noteq> CHR ''='') s"

lemma encode_chunk_cases:
  "n = push_bit 16 (u32_of a) OR push_bit 8 (u32_of (CHR 0x00)) OR u32_of (CHR 0x00) \<Longrightarrow>
    encode_chunk [a] = [base64_digit (drop_bit 18 n), base64_digit (drop_bit 12 n), CHR ''='', CHR ''='']"
  "n = push_bit 16 (u32_of a) OR push_bit 8 (u32_of b) OR u32_of (CHR 0x00) \<Longrightarrow>
    encode_chunk [a, b] = [base64_digit (drop_bit 18 n), base64_digit (drop_bit 12 n), base64_digit (drop_bit 6 n), CHR ''='']"
  "n = push_bit 16 (u32_of a) OR push_bit 8 (u32_of b) OR u32_of c \<Longrightarrow>
    encode_chunk [a, b, c] = [base64_digit (drop_bit 18 n), base64_digit (drop_bit 12 n), base64_digit (drop_bit 6 n), base64_digit n]"
  by (simp_all add: encode_chunk_def Let_def)

lemma decode_encode_chunk:
  assumes "bs \<noteq> []" "length bs \<le> 3"
  shows "decode_chunk (significant (encode_chunk bs)) = Some bs"
    and "length (significant (encode_chunk bs)) = length bs + 1"
proof -
  consider a where "bs = [a]" | a b where "bs = [a, b]" | a b c where "bs = [a, b, c]"
    using assms by (cases bs; cases "tl bs"; cases "tl (tl bs)") auto
  then have "decode_chunk (significant (encode_chunk bs)) = Some bs \<and> length (significant (encode_chunk bs)) = length bs + 1"
  proof cases
    case 1
    define n where "n = push_bit 16 (u32_of a) OR push_bit 8 (u32_of (CHR 0x00)) OR u32_of (CHR 0x00)"
    have e: "significant (encode_chunk bs) = [base64_digit (drop_bit 18 n), base64_digit (drop_bit 12 n)]"
      by (simp add: 1 encode_chunk_cases(1) [OF n_def] base64_digit_plain)
    have "as_u8 (drop_bit 16 (push_bit 18 (drop_bit 18 n AND mask 6) OR push_bit 12 (drop_bit 12 n AND mask 6))) = a"
      by (rule byte_of_bits, unfold sextets, simp add: triple_bits [OF n_def])
    with e show ?thesis by (simp add: decode_chunk_def base64_value_digit 1)
  next
    case 2
    define n where "n = push_bit 16 (u32_of a) OR push_bit 8 (u32_of b) OR u32_of (CHR 0x00)"
    have e: "significant (encode_chunk bs) = [base64_digit (drop_bit 18 n), base64_digit (drop_bit 12 n), base64_digit (drop_bit 6 n)]"
      by (simp add: 2 encode_chunk_cases(2) [OF n_def] base64_digit_plain)
    let ?m = "push_bit 18 (drop_bit 18 n AND mask 6) OR push_bit 12 (drop_bit 12 n AND mask 6) OR push_bit 6 (drop_bit 6 n AND mask 6)"
    have "as_u8 (drop_bit 16 ?m) = a" "as_u8 (drop_bit 8 ?m) = b"
      by (rule byte_of_bits, unfold sextets, simp add: triple_bits [OF n_def])+
    with e show ?thesis by (simp add: decode_chunk_def base64_value_digit 2 or.assoc)
  next
    case 3
    define n where "n = push_bit 16 (u32_of a) OR push_bit 8 (u32_of b) OR u32_of c"
    have e: "significant (encode_chunk bs) =
        [base64_digit (drop_bit 18 n), base64_digit (drop_bit 12 n), base64_digit (drop_bit 6 n), base64_digit n]"
      by (simp add: 3 encode_chunk_cases(3) [OF n_def] base64_digit_plain)
    let ?m = "push_bit 18 (drop_bit 18 n AND mask 6) OR push_bit 12 (drop_bit 12 n AND mask 6) OR push_bit 6 (drop_bit 6 n AND mask 6) OR (n AND mask 6)"
    have "as_u8 (drop_bit 16 ?m) = a" "as_u8 (drop_bit 8 ?m) = b" "as_u8 (drop_bit 0 ?m) = c"
      by (rule byte_of_bits, unfold sextets, simp add: triple_bits [OF n_def])+
    with e show ?thesis by (simp add: decode_chunk_def base64_value_digit 3 or.assoc)
  qed
  then show "decode_chunk (significant (encode_chunk bs)) = Some bs" "length (significant (encode_chunk bs)) = length bs + 1" by auto
qed

lemma chunks_Nil [simp]: "chunks k [] = []"
  by (simp add: chunks.simps)

lemma chunks_first: "xs \<noteq> [] \<Longrightarrow> length xs \<le> k \<Longrightarrow> chunks k xs = [xs]"
  by (subst chunks.simps) (cases k; simp)

lemma chunks_append: "length xs = k \<Longrightarrow> 0 < k \<Longrightarrow> chunks k (xs @ ys) = xs # chunks k ys"
  by (subst chunks.simps) auto

lemma base64_encode_unfold: "bs \<noteq> [] \<Longrightarrow> base64_encode bs = encode_chunk (take 3 bs) @ base64_encode (drop 3 bs)"
  unfolding base64_encode_def by (subst chunks.simps) simp

lemma base64_decode_parts: "base64_decode s = map_option concat (those (map decode_chunk (chunks 4 (significant s))))"
  by (simp add: base64_decode_def Let_def)

lemma base64_roundtrip: "base64_decode (base64_encode bs) = Some bs"
proof (induction "length bs" arbitrary: bs rule: less_induct)
  case less
  show ?case
  proof (cases "length bs < 3")
    case True
    then show ?thesis
    proof (cases "bs = []")
      case False
      with True have "base64_encode bs = encode_chunk bs" by (simp add: base64_encode_unfold) (simp add: base64_encode_def)
      with False True decode_encode_chunk [OF False] show ?thesis
        by (simp add: base64_decode_parts chunks_first flip: length_greater_0_conv del: length_greater_0_conv)
    qed (simp add: base64_encode_def base64_decode_def)
  next
    case False
    then have "bs \<noteq> []" by auto
    from less [of "drop 3 bs"] False have "base64_decode (base64_encode (drop 3 bs)) = Some (drop 3 bs)" by simp
    moreover have "take 3 bs \<noteq> []" "length (take 3 bs) = 3" using False \<open>bs \<noteq> []\<close> by auto
    ultimately show ?thesis using decode_encode_chunk [of "take 3 bs"]
      by (auto simp: base64_encode_unfold [OF \<open>bs \<noteq> []\<close>] base64_decode_parts chunks_append)
  qed
qed

lemma length_base64_encode: "length (base64_encode bs) = 4 * ((length bs + 2) div 3)"
proof (induction "length bs" arbitrary: bs rule: less_induct)
  case less
  show ?case
  proof (cases "bs = []")
    case False
    then have "length (base64_encode bs) = 4 + length (base64_encode (drop 3 bs))"
      by (simp add: base64_encode_unfold encode_chunk_def Let_def)
    also have "\<dots> = 4 + 4 * ((length (drop 3 bs) + 2) div 3)" using less [of "drop 3 bs"] False by simp
    also have "\<dots> = 4 * ((length bs + 2) div 3)" using False by (cases bs; cases "tl bs"; cases "tl (tl bs)") (auto, presburger)
    finally show ?thesis .
  qed (simp add: base64_encode_def)
qed

section \<open>Facts about the store\<close>

text \<open>A credential as it is read back: the password begins after the first colon of the joined text.\<close>

definition reread :: "Credential \<Rightarrow> Credential" where
  "reread c = (case split_once (CHR '':'') (joined c) of
      None \<Rightarrow> c | Some (u, p) \<Rightarrow> \<lparr>cr_username = u, cr_password = p\<rparr>)"

lemma joined_reread: "joined (reread c) = joined c"
  by (auto simp: reread_def joined_def split: option.splits dest!: split_once_SomeD)

lemma authorization_reread: "authorization (reread c) = authorization c"
  by (simp add: authorization_def joined_reread)

lemma reread_id: "CHR '':'' \<notin> set (cr_username c) \<Longrightarrow> reread c = c"
  by (simp add: reread_def joined_def split_once_append)

lemma load_entry_stored: "valid_utf8 (joined c) \<Longrightarrow> load_entry host \<lparr>sc_auth = base64_encode (joined c)\<rparr> = Inr (reread c)"
  by (auto simp: load_entry_def base64_roundtrip reread_def joined_def split_once_None_iff split: option.splits)

lemma load_entry_SomeD: "load_entry host st = Inr c \<Longrightarrow> valid_utf8 (joined c) \<and> reread c = c"
  by (auto simp: load_entry_def joined_def intro!: reread_id split: option.splits if_splits dest!: split_once_SomeD)

lemma valid_utf8_append: "valid_utf8 s \<Longrightarrow> valid_utf8 t \<Longrightarrow> valid_utf8 (s @ t)"
proof (induction s rule: valid_utf8.induct)
  case (2 a s)
  show ?case
  proof (cases "code a < 128")
    case False
    from 2 False obtain b s2 where s: "s = b # s2" by (cases s) auto
    show ?thesis
    proof (cases "within 0xC2 0xDF a")
      case F2: False
      from 2 False s F2 obtain c s3 where s2: "s2 = c # s3" by (cases s2) auto
      show ?thesis
      proof (cases "within 0xE0 0xEF a")
        case F3: False
        from 2 False s F2 s2 F3 obtain d s4 where "s3 = d # s4" by (cases s3) auto
        with 2 False s F2 s2 F3 show ?thesis by auto
      qed (use 2 False s F2 s2 in auto)
    qed (use 2 False s in auto)
  qed (use 2 in auto)
qed simp

lemma valid_joined: "valid_utf8 (cr_username c) \<Longrightarrow> valid_utf8 (cr_password c) \<Longrightarrow> valid_utf8 (joined c)"
  unfolding joined_def by (intro valid_utf8_append) simp_all

lemma store_auths:
  assumes "is_btree_map (out @ map (map_prod id f) cs)"
  shows "fold (\<lambda>(host, c). btree_insert host (f c)) cs out = out @ map (map_prod id f) cs"
  using assms
proof (induction cs arbitrary: out)
  case (Cons p cs)
  obtain host c where p: "p = (host, c)" by force
  from Cons.prems have "is_btree_map (out @ [(host, f c)])" by (auto simp: is_btree_map_def sorted_wrt_append p)
  then have "btree_insert host (f c) out = out @ [(host, f c)]" by (rule btree_insert_last)
  with Cons p show ?case by simp
qed simp

lemma load_auths_stored:
  assumes "is_btree_map (out @ map (map_prod id reread) cs)" and "\<And>host c. (host, c) \<in> set cs \<Longrightarrow> valid_utf8 (joined c)"
  shows "load_auths (map (map_prod id (\<lambda>c. \<lparr>sc_auth = base64_encode (joined c)\<rparr>)) cs) out = Inr (out @ map (map_prod id reread) cs)"
  using assms
proof (induction cs arbitrary: out)
  case (Cons p cs)
  obtain host c where p: "p = (host, c)" by force
  from Cons.prems(1) have "is_btree_map (out @ [(host, reread c)])" by (auto simp: is_btree_map_def sorted_wrt_append p)
  then have "btree_insert host (reread c) out = out @ [(host, reread c)]" by (rule btree_insert_last)
  moreover have "load_entry host \<lparr>sc_auth = base64_encode (joined c)\<rparr> = Inr (reread c)"
    by (rule load_entry_stored, rule Cons.prems(2) [of host]) (simp add: p)
  ultimately show ?case using Cons.IH [of "out @ [(host, reread c)]"] Cons.prems by (auto simp: p)
qed simp

text \<open>What is loaded is a map of credentials that are stored as they are.\<close>

definition storable :: "(string \<times> Credential) list \<Rightarrow> bool" where
  "storable cs \<longleftrightarrow> is_btree_map cs \<and> (\<forall>(host, c) \<in> set cs. valid_utf8 (joined c) \<and> reread c = c)"

lemma load_auths_storable: "load_auths as out = Inr cs \<Longrightarrow> storable out \<Longrightarrow> storable cs"
proof (induction as out rule: load_auths.induct)
  case (2 host st as out)
  then obtain c where c: "load_entry host st = Inr c" "load_auths as (btree_insert host c out) = Inr cs"
    by (auto simp: and_then_eq_Inr_iff)
  with 2 load_entry_SomeD [OF c(1)] set_btree_insert_subset [of host c out] show ?case
    by (fastforce simp: storable_def)
qed simp

lemma all_storable: "all_credentials from_json readable fs = Inr cs \<Longrightarrow> storable cs"
  by (auto simp: all_credentials_def split: option.splits if_splits elim!: load_auths_storable) (simp_all add: storable_def is_btree_map_def)

lemma atomic_write_Inr: "atomic_write_private io bytes fs = (Inr (), fs') \<Longrightarrow> kf_file fs' = Some (bytes, 0x180)"
  by (auto simp: atomic_write_private_def write_tmp_def opened_tmp_def Let_def split: option.splits if_splits)

lemma atomic_write_Inl:
  "atomic_write_private io bytes fs = (Inl e, fs') \<Longrightarrow> e \<noteq> TightenFailed \<Longrightarrow> kf_file fs' = kf_file fs"
  by (auto simp: atomic_write_private_def write_tmp_def opened_tmp_def drop_tmp_def Let_def split: option.splits if_splits)

lemma is_btree_map_map_prod: "is_btree_map (map (map_prod id f) cs) \<longleftrightarrow> is_btree_map cs"
  by (simp add: is_btree_map_def comp_def)

lemma write_then_all:
  assumes w: "write_credentials to_json io cs fs = (Inr (), fs')" and cs: "is_btree_map cs" "\<And>host c. (host, c) \<in> set cs \<Longrightarrow> valid_utf8 (joined c)"
    and json: "\<And>f b. to_json f = Some b \<Longrightarrow> from_json b = Some f"
  shows "(\<exists>b. kf_file fs' = Some (b, 0x180)) \<and> all_credentials from_json True fs' = Inr (map (map_prod id reread) cs)"
proof -
  let ?auths = "map (map_prod id (\<lambda>c. \<lparr>sc_auth = base64_encode (joined c)\<rparr>)) cs"
  from store_auths [of "[]" "\<lambda>c. \<lparr>sc_auth = base64_encode (joined c)\<rparr>" cs] cs(1)
  have "fold (\<lambda>(host, c). btree_insert host \<lparr>sc_auth = base64_encode (joined c)\<rparr>) cs [] = ?auths"
    by (simp add: is_btree_map_map_prod)
  with w obtain b where b: "to_json \<lparr>cf_version = 1, cf_auths = ?auths\<rparr> = Some b" "atomic_write_private io b fs = (Inr (), fs')"
    by (auto simp: write_credentials_def split: option.splits)
  with json [OF b(1)] atomic_write_Inr [OF b(2)] load_auths_stored [of "[]" cs] cs show ?thesis
    by (simp add: all_credentials_def is_btree_map_map_prod)
qed

text \<open>C35: A registry login that was stored is read back from the credential file under the normalised name of the registry, the other
  logins are unchanged, and the file is readable by its owner only. The user name comes back as it was if it has no colon; the
  authorization it yields is the same in any case. When storing fails, the file is as it was, unless only the final change of its mode
  failed. The JSON library is assumed to parse what it wrote.\<close>

theorem credentials_roundtrip:
  assumes "set_credential ul from_json to_json readable io input c fs = (r, fs')"
    and "valid_utf8 (cr_username c)" and "valid_utf8 (cr_password c)" and "\<And>f b. to_json f = Some b \<Longrightarrow> from_json b = Some f"
  shows "case r of
      Inr _ \<Rightarrow> (\<exists>host old b new. normalize_registry ul input = Inr host \<and> all_credentials from_json readable fs = Inr old \<and>
        kf_file fs' = Some (b, 0x180) \<and> all_credentials from_json True fs' = Inr new \<and> map_of new = (map_of old)(host \<mapsto> reread c) \<and>
        authorization (reread c) = authorization c \<and> (CHR '':'' \<notin> set (cr_username c) \<longrightarrow> reread c = c))
    | Inl e \<Rightarrow> e \<noteq> TightenFailed \<longrightarrow> kf_file fs' = kf_file fs"
proof (cases r)
  case (Inl e)
  with assms(1) show ?thesis
    by (auto simp: set_credential_def write_credentials_def Let_def split: sum.splits option.splits dest: atomic_write_Inl)
next
  case (Inr u)
  with assms(1) obtain host old where n: "normalize_registry ul input = Inr host" and old: "all_credentials from_json readable fs = Inr old"
    and w: "write_credentials to_json io (btree_insert host c old) fs = (Inr (), fs')"
    by (auto simp: set_credential_def split: sum.splits)
  from all_storable [OF old] have st: "storable old" .
  have "map (map_prod id reread) (btree_insert host c old) = btree_insert host (reread c) (map (map_prod id reread) old)"
    by (induction host c old rule: btree_insert.induct) auto
  moreover from st have "map (map_prod id reread) old = old" by (intro map_idI) (auto simp: storable_def)
  moreover have "valid_utf8 (joined d)" if "(h, d) \<in> set (btree_insert host c old)" for h d
    using that st set_btree_insert_subset [of host c old] valid_joined [OF assms(2,3)] by (auto simp: storable_def)
  ultimately have "(\<exists>b. kf_file fs' = Some (b, 0x180)) \<and> all_credentials from_json True fs' = Inr (btree_insert host (reread c) old)"
    using write_then_all [OF w _ _ assms(4)] st by (simp add: storable_def)
  with n old Inr show ?thesis by (auto simp: authorization_reread reread_id)
qed

definition sample_file :: CredentialFile where
  "sample_file = \<lparr>cf_version = 1, cf_auths = [(''ghcr.io'', \<lparr>sc_auth = ''YTpi''\<rparr>)]\<rparr>"

definition sample_io :: write_io where
  "sample_io = \<lparr>wi_parent = True, wi_mkdir = True, wi_dir_mode = Some 0x1C0, wi_umask = 18, wi_open = True, wi_written = None, wi_sync = True,
     wi_rename = True, wi_reopen = True, wi_chmod = True, wi_unlink = True\<rparr>"

theorem credentials_roundtrip_witness:
  "\<exists>fs' new. set_credential id (\<lambda>b. if b = ''A'' then Some sample_file else None) (\<lambda>f. if f = sample_file then Some ''A'' else None)
      True sample_io ''https://GHCR.io/'' \<lparr>cr_username = ''a'', cr_password = ''b''\<rparr> \<lparr>kf_file = None, kf_tmp = None\<rparr> = (Inr (), fs') \<and>
    all_credentials (\<lambda>b. if b = ''A'' then Some sample_file else None) True fs' = Inr new \<and>
    map_of new ''ghcr.io'' = Some \<lparr>cr_username = ''a'', cr_password = ''b''\<rparr>"
proof -
  let ?from = "\<lambda>b. if b = ''A'' then Some sample_file else None" and ?to = "\<lambda>f. if f = sample_file then Some ''A'' else None"
  let ?c = "\<lparr>cr_username = ''a'', cr_password = ''b''\<rparr>" and ?fs = "\<lparr>kf_file = None, kf_tmp = None\<rparr>"
  let ?fs' = "\<lparr>kf_file = Some (''A'', 0x180), kf_tmp = None\<rparr>"
  have n: "normalize_registry id ''https://GHCR.io/'' = Inr ''ghcr.io''" by code_simp
  have e: "base64_encode (joined ?c) = ''YTpi''" by code_simp
  have s: "set_credential id ?from ?to True sample_io ''https://GHCR.io/'' ?c ?fs = (Inr (), ?fs')"
    by (simp add: set_credential_def n validate_credential_def ascii_class_defs all_credentials_def write_credentials_def e
      atomic_write_private_def write_tmp_def opened_tmp_def sample_io_def sample_file_def)
  have j: "?to f = Some b \<Longrightarrow> ?from b = Some f" for f b by (simp split: if_splits)
  have "valid_utf8 (cr_username ?c)" "valid_utf8 (cr_password ?c)" by simp_all
  from credentials_roundtrip [OF s this j] show ?thesis using s by (fastforce simp: n)
qed

text \<open>A user name with a colon is accepted and read back as a shorter one.\<close>

lemma colon_moves:
  "validate_credential \<lparr>cr_username = ''a:b'', cr_password = ''c''\<rparr> = Inr () \<and>
   reread \<lparr>cr_username = ''a:b'', cr_password = ''c''\<rparr> = \<lparr>cr_username = ''a'', cr_password = ''b:c''\<rparr>"
  by code_simp

lemma remove_then_all:
  assumes "remove_credential ul from_json to_json readable io input fs = (Inr True, fs')" and "\<And>f b. to_json f = Some b \<Longrightarrow> from_json b = Some f"
  shows "\<exists>host old new. normalize_registry ul input = Inr host \<and> all_credentials from_json readable fs = Inr old \<and>
    all_credentials from_json True fs' = Inr new \<and> map_of new = (map_of old)(host := None)"
proof -
  from assms(1) obtain host old where n: "normalize_registry ul input = Inr host" and old: "all_credentials from_json readable fs = Inr old"
    and w: "write_credentials to_json io (btree_remove host old) fs = (Inr (), fs')"
    by (auto simp: remove_credential_def split: sum.splits prod.splits if_splits)
  have st: "storable old" by (rule all_storable [OF old])
  then have "map (map_prod id reread) (btree_remove host old) = btree_remove host old"
    by (intro map_idI) (auto simp: storable_def btree_remove_def)
  moreover have "(\<exists>b. kf_file fs' = Some (b, 0x180)) \<and> all_credentials from_json True fs' = Inr (map (map_prod id reread) (btree_remove host old))"
    by (rule write_then_all [OF w _ _ assms(2)]) (use st in \<open>auto simp: storable_def btree_remove_def is_btree_map_remove [unfolded btree_remove_def]\<close>)
  ultimately have "all_credentials from_json True fs' = Inr (btree_remove host old)" by simp
  with n old show ?thesis by auto
qed

end
