(* ===== verification/Registry.thy ===== *)
theory Registry
  imports Auth
begin

text \<open>
  The registry client (src/image/registry.rs): mirrors and endpoints, the challenge of a registry, tokens and their cache, the request
  loop with its retries, and the requests pull, push and login make.

  HTTP goes through a library: \<open>ureq\<close> is the answer to the last request of a history. The agent is what it has sent, how long the
  client has slept (in milliseconds), and how often it has read the clock.
\<close>

section \<open>The connection\<close>

datatype Method = Get | Head | Post | Put

definition method_str :: "Method \<Rightarrow> string" where
  "method_str m = (case m of Get \<Rightarrow> ''GET'' | Head \<Rightarrow> ''HEAD'' | Post \<Rightarrow> ''POST'' | Put \<Rightarrow> ''PUT'')"

datatype RequestBody = NoBody | Bytes string | FileBody string nat

record http_request =
  hq_method :: string
  hq_url :: string
  hq_headers :: "(string \<times> string) list"
  hq_body :: RequestBody

record response =
  re_status :: nat
  re_header :: "string \<Rightarrow> string option"
  re_text :: "string + string"
  re_reader :: "string option list"

datatype http_answer = Answered response | Status nat response | Transport string

datatype json_field = Absent | NotText | Text string

record token_view =
  tv_token :: json_field
  tv_access_token :: json_field

record http_env =
  ureq :: "http_request list \<Rightarrow> http_answer"
  clock :: "nat \<Rightarrow> nat"
  file_error :: "string \<Rightarrow> string option"
  token_json :: "string \<Rightarrow> string + token_view"
  lower_rest :: "string \<Rightarrow> string"

record agent =
  ag_sent :: "http_request list"
  ag_slept :: "nat list"
  ag_reads :: nat

definition new_agent :: agent where
  "new_agent = \<lparr>ag_sent = [], ag_slept = [], ag_reads = 0\<rparr>"

definition send :: "http_env \<Rightarrow> http_request \<Rightarrow> agent \<Rightarrow> http_answer \<times> agent" where
  "send env q a = (let sent = ag_sent a @ [q] in (ureq env sent, a\<lparr>ag_sent := sent\<rparr>))"

definition sleep :: "nat \<Rightarrow> agent \<Rightarrow> agent" where
  "sleep ms a = a\<lparr>ag_slept := ag_slept a @ [ms]\<rparr>"

definition now :: "http_env \<Rightarrow> agent \<Rightarrow> nat \<times> agent" where
  "now env a = (clock env (ag_reads a), a\<lparr>ag_reads := Suc (ag_reads a)\<rparr>)"

section \<open>Errors\<close>

datatype reg_error =
    RequestStatus string nat string
  | RequestTransport string string
  | AuthFailed string string
  | OpenBlob string string
  | BasicRequired
  | UnsupportedAuth string
  | TokenStatus string nat string
  | TokenTransport string string
  | TokenExhausted string
  | TokenRead string
  | TokenParse string
  | NoToken
  | LoginHost auth_error
  | NoEndpoint
  | UploadStatus string nat string
  | NoUploadLocation string
  | BaseNotHttp string
  | BaseNoHost string
  | StatBlob string

text \<open>The text of an error, as far as a request can fail with it.\<close>

definition error_text :: "reg_error \<Rightarrow> string" where
  "error_text e = (case e of
      RequestStatus url c body \<Rightarrow> ''registry request failed: '' @ url @ '': HTTP '' @ show_nat c @ '': '' @ body
    | RequestTransport url t \<Rightarrow> ''registry request failed: '' @ url @ '': '' @ t
    | AuthFailed url reg \<Rightarrow> ''registry request failed: '' @ url @ '': authentication failed; check '' @ [CHR 0x27] @ ''zerun login '' @ reg @ [CHR 0x27]
    | OpenBlob p t \<Rightarrow> ''open blob '' @ p @ '': '' @ t
    | BasicRequired \<Rightarrow> ''registry requires Basic authentication; run '' @ [CHR 0x27] @ ''zerun login <REGISTRY>'' @ [CHR 0x27]
    | UnsupportedAuth c \<Rightarrow> ''registry requires unsupported authentication: '' @ [CHR 0x27] @ c @ [CHR 0x27]
        @ '' (standard Basic and Bearer token flows are supported)''
    | TokenStatus url c body \<Rightarrow> ''token endpoint '' @ url @ '': HTTP '' @ show_nat c @ '': '' @ body
    | TokenTransport url t \<Rightarrow> ''token endpoint '' @ url @ '': '' @ t
    | TokenExhausted url \<Rightarrow> ''token endpoint retry loop exhausted: '' @ url
    | TokenRead t \<Rightarrow> ''read token response: '' @ t
    | TokenParse t \<Rightarrow> ''parse token response: '' @ t
    | NoToken \<Rightarrow> ''token endpoint returned no token''
    | _ \<Rightarrow> [])"

definition contains_str :: "string \<Rightarrow> string \<Rightarrow> bool" where
  "contains_str s p \<longleftrightarrow> list_ex (\<lambda>i. starts_with (drop i s) p) [0..<Suc (length s)]"

section \<open>Mirrors and endpoints\<close>

definition DOCKER_HUB_API :: string where "DOCKER_HUB_API = ''https://registry-1.docker.io''"
definition USER_AGENT :: string where "USER_AGENT = ''zerun/0.2.0''"

definition normalize_mirror :: "string \<Rightarrow> string" where
  "normalize_mirror m =
     (let m = trim_end_slashes (trim m) in
      if starts_with m ''http://'' \<or> starts_with m ''https://'' then m else ''https://'' @ m)"

definition push_unique :: "string list \<Rightarrow> string \<Rightarrow> string list" where
  "push_unique out mirror = (if mirror \<in> set out then out else out @ [mirror])"

definition env_mirrors :: "string option \<Rightarrow> string list" where
  "env_mirrors var = (case var of None \<Rightarrow> []
     | Some v \<Rightarrow> map normalize_mirror (filter (\<lambda>s. s \<noteq> []) (map trim (split_on (CHR '','') v))))"

definition config_file_candidates :: "string option \<Rightarrow> string option \<Rightarrow> string option \<Rightarrow> string list" where
  "config_file_candidates zerun_config xdg home =
     (case zerun_config of
        Some (c # p) \<Rightarrow> [c # p]
      | _ \<Rightarrow>
          (case (case xdg of Some x \<Rightarrow> Some (x @ ''/zerun/config.toml'')
                | None \<Rightarrow> map_option (\<lambda>h. h @ ''/.config/zerun/config.toml'') home) of
             Some p \<Rightarrow> [p] | None \<Rightarrow> []) @ [''/etc/zerun/config.toml''])"

text \<open>\<open>mirrors_in\<close>: what the TOML library reads as the mirrors of a configuration file, nothing for a file that cannot be read or
  parsed; \<open>daemon\<close>: the strings of Docker's \<open>registry-mirrors\<close>.\<close>

definition discover_mirrors ::
  "string option \<Rightarrow> string option \<Rightarrow> string option \<Rightarrow> string option \<Rightarrow> (string \<Rightarrow> string list) \<Rightarrow> string list \<Rightarrow> string list" where
  "discover_mirrors var zerun_config xdg home mirrors_in daemon =
     (let out = fold (\<lambda>m out. push_unique out m) (env_mirrors var) [];
          out = fold (\<lambda>path out. fold (\<lambda>m out. push_unique out (normalize_mirror m)) (mirrors_in path) out)
                  (config_file_candidates zerun_config xdg home) out in
      fold (\<lambda>m out. push_unique out (normalize_mirror m)) daemon out)"

record CachedToken =
  ct_authorization :: string
  ct_expires_at :: nat

record RegistryClient =
  rc_agent :: agent
  rc_mirrors :: "string list"
  rc_credentials :: "(string \<times> Credential) list"
  rc_tokens :: "string \<Rightarrow> CachedToken option"

definition with_credentials :: "string list \<Rightarrow> (string \<times> Credential) list \<Rightarrow> RegistryClient" where
  "with_credentials mirrors credentials =
     \<lparr>rc_agent = new_agent, rc_mirrors = mirrors, rc_credentials = credentials, rc_tokens = (\<lambda>_. None)\<rparr>"

definition load_credentials :: "auth_error + (string \<times> Credential) list \<Rightarrow> (string \<times> Credential) list" where
  "load_credentials loaded = (case loaded of Inr cs \<Rightarrow> cs | Inl _ \<Rightarrow> [])"

definition endpoints :: "RegistryClient \<Rightarrow> string \<Rightarrow> string list" where
  "endpoints c reg =
     (if reg = ''docker.io'' then rc_mirrors c @ [DOCKER_HUB_API]
      else if reg = ''localhost'' \<or> starts_with reg ''localhost:'' then [''http://'' @ reg, ''https://'' @ reg]
      else [''https://'' @ reg])"

section \<open>Challenges and tokens\<close>

record BearerChallenge =
  bc_realm :: string
  bc_service :: string
  bc_scope :: "string option"

definition trim_quotes :: "string \<Rightarrow> string" where
  "trim_quotes s = rev (dropWhile (\<lambda>c. c = CHR 0x22) (rev (dropWhile (\<lambda>c. c = CHR 0x22) s)))"

definition split_kv :: "string \<Rightarrow> (string \<times> string) option" where
  "split_kv s = (case split_once (CHR ''='') s of
      None \<Rightarrow> None
    | Some (k, v) \<Rightarrow> Some (trim k, trim_quotes (trim v)))"

definition insert_kv :: "string \<Rightarrow> (string \<Rightarrow> string option) \<Rightarrow> string \<Rightarrow> string option" where
  "insert_kv cur flds = (case split_kv cur of None \<Rightarrow> flds | Some (k, v) \<Rightarrow> flds(k \<mapsto> v))"

fun challenge_fields :: "string \<Rightarrow> string \<Rightarrow> bool \<Rightarrow> (string \<Rightarrow> string option) \<Rightarrow> string \<Rightarrow> string option" where
  "challenge_fields [] cur in_quotes flds = insert_kv cur flds"
| "challenge_fields (c # cs) cur in_quotes flds =
     (if c = CHR 0x22 then challenge_fields cs cur (\<not> in_quotes) flds
      else if c = CHR '','' \<and> \<not> in_quotes then challenge_fields cs [] in_quotes (insert_kv cur flds)
      else challenge_fields cs (cur @ [c]) in_quotes flds)"

definition parse_bearer_challenge :: "string \<Rightarrow> BearerChallenge option" where
  "parse_bearer_challenge h = (case strip_prefix ''Bearer '' (trim h) of
      None \<Rightarrow> None
    | Some rest \<Rightarrow>
        (let flds = challenge_fields rest [] False (\<lambda>_. None) in
         (case flds ''realm'' of
            None \<Rightarrow> None
          | Some realm \<Rightarrow> Some \<lparr>bc_realm = realm,
              bc_service = (case flds ''service'' of None \<Rightarrow> [] | Some s \<Rightarrow> s), bc_scope = flds ''scope''\<rparr>)))"

definition hex_digit_upper :: "nat \<Rightarrow> char" where
  "hex_digit_upper n = (if n < 10 then char_of (48 + n) else char_of (55 + n))"

definition encode_query :: "string \<Rightarrow> string" where
  "encode_query s = concat (map (\<lambda>b.
     if is_ascii_alphanumeric b \<or> b \<in> {CHR ''-'', CHR ''_'', CHR ''.'', CHR 0x7E} then [b]
     else [CHR 0x25, hex_digit_upper (code b div 16), hex_digit_upper (code b mod 16)]) s)"

definition is_retryable_status :: "nat \<Rightarrow> bool" where
  "is_retryable_status c \<longleftrightarrow> c = 408 \<or> c = 429 \<or> (500 \<le> c \<and> c < 600)"

definition retry_after :: "response \<Rightarrow> nat option" where
  "retry_after resp = (case re_header resp ''retry-after'' of
      None \<Rightarrow> None | Some v \<Rightarrow> parse_uint U64_MAX (trim v))"

definition retry_delay :: "nat \<Rightarrow> nat option \<Rightarrow> nat" where
  "retry_delay attempt after =
     (let delay = 250 * 2 ^ attempt;
          delay = (case after of None \<Rightarrow> delay | Some wait \<Rightarrow> max delay (min (1000 * wait) 5000)) in
      min delay 5000)"

text \<open>The first \<open>n\<close> characters of a string, each with its continuation bytes.\<close>

fun take_chars :: "nat \<Rightarrow> string \<Rightarrow> string" where
  "take_chars n [] = []"
| "take_chars n (c # s) =
     (if cont c then c # take_chars n s
      else (case n of 0 \<Rightarrow> [] | Suc n \<Rightarrow> c # take_chars n s))"

definition body_or_empty :: "response \<Rightarrow> string" where
  "body_or_empty resp = (case re_text resp of Inl _ \<Rightarrow> [] | Inr b \<Rightarrow> b)"

definition response_snippet :: "response \<Rightarrow> string" where
  "response_snippet resp = take_chars 300 (body_or_empty resp)"

definition token_url :: "BearerChallenge \<Rightarrow> string \<Rightarrow> string" where
  "token_url ch default_scope =
     (let scope = (case bc_scope ch of None \<Rightarrow> [] | Some s \<Rightarrow> s) in
      bc_realm ch @ [if CHR ''?'' \<in> set (bc_realm ch) then CHR ''&'' else CHR ''?''] @ ''service='' @ encode_query (bc_service ch)
      @ (if scope \<noteq> [] then ''&scope='' @ encode_query scope
         else if default_scope \<noteq> [] then ''&scope='' @ encode_query default_scope
         else []))"

definition token_request :: "string \<Rightarrow> Credential option \<Rightarrow> http_request" where
  "token_request url credential = \<lparr>hq_method = ''GET'', hq_url = url,
     hq_headers = [(''User-Agent'', USER_AGENT)] @ (case credential of None \<Rightarrow> [] | Some c \<Rightarrow> [(''Authorization'', authorization c)]),
     hq_body = NoBody\<rparr>"

fun token_attempts :: "http_env \<Rightarrow> string \<Rightarrow> Credential option \<Rightarrow> nat list \<Rightarrow> agent \<Rightarrow> (reg_error + response) \<times> agent" where
  "token_attempts env url credential [] a = (Inl (TokenExhausted url), a)"
| "token_attempts env url credential (attempt # attempts) a =
     (case send env (token_request url credential) a of
        (Answered resp, a) \<Rightarrow> (Inr resp, a)
      | (Status c resp, a) \<Rightarrow>
          if is_retryable_status c \<and> attempt < 2
          then token_attempts env url credential attempts (sleep (retry_delay attempt (retry_after resp)) a)
          else (Inl (TokenStatus url c (body_or_empty resp)), a)
      | (Transport t, a) \<Rightarrow>
          if attempt < 2 then token_attempts env url credential attempts (sleep (retry_delay attempt None) a)
          else (Inl (TokenTransport url t), a))"

definition obtain_token ::
  "http_env \<Rightarrow> string \<Rightarrow> string \<Rightarrow> Credential option \<Rightarrow> agent \<Rightarrow> (reg_error + string) \<times> agent" where
  "obtain_token env challenge default_scope credential a = (case parse_bearer_challenge challenge of
      None \<Rightarrow> (Inl (UnsupportedAuth challenge), a)
    | Some ch \<Rightarrow>
        (case token_attempts env (token_url ch default_scope) credential [0, 1, 2] a of
           (Inl e, a) \<Rightarrow> (Inl e, a)
         | (Inr resp, a) \<Rightarrow>
             (case re_text resp of
                Inl t \<Rightarrow> (Inl (TokenRead t), a)
              | Inr body \<Rightarrow> (case token_json env body of
                    Inl t \<Rightarrow> (Inl (TokenParse t), a)
                  | Inr v \<Rightarrow>
                      (case (case tv_token v of Absent \<Rightarrow> tv_access_token v | f \<Rightarrow> f) of
                         Text t \<Rightarrow> (Inr t, a) | _ \<Rightarrow> (Inl NoToken, a))))))"

definition is_basic :: "http_env \<Rightarrow> string \<Rightarrow> bool" where
  "is_basic env challenge \<longleftrightarrow>
     to_ascii_lowercase (trim challenge) = ''basic'' \<or> starts_with (to_lowercase (lower_rest env) (trim_start challenge)) ''basic ''"

definition authorization_for_challenge ::
  "http_env \<Rightarrow> string \<Rightarrow> string \<Rightarrow> Credential option \<Rightarrow> agent \<Rightarrow> (reg_error + string) \<times> agent" where
  "authorization_for_challenge env challenge default_scope credential a =
     (if is_basic env challenge then (case credential of
          None \<Rightarrow> (Inl BasicRequired, a)
        | Some c \<Rightarrow> (Inr (authorization c), a))
      else (case obtain_token env challenge default_scope credential a of
          (Inl e, a) \<Rightarrow> (Inl e, a)
        | (Inr token, a) \<Rightarrow> (Inr (''Bearer '' @ token), a)))"

definition credential_for :: "RegistryClient \<Rightarrow> string \<Rightarrow> string \<Rightarrow> Credential option" where
  "credential_for c reg url =
     (if reg = ''docker.io'' then
        (if starts_with url DOCKER_HUB_API then map_of (rc_credentials c) reg else None)
      else if starts_with url (''https://'' @ reg @ ''/'') \<or> starts_with url (''http://'' @ reg @ ''/'')
      then map_of (rc_credentials c) reg
      else None)"

section \<open>Requests\<close>

record RequestOptions =
  ro_registry :: string
  ro_scope :: string
  ro_headers :: "(string \<times> string) list"
  ro_body :: RequestBody

definition build_request :: "Method \<Rightarrow> string \<Rightarrow> RequestOptions \<Rightarrow> string option \<Rightarrow> http_request" where
  "build_request m url opts auth = \<lparr>hq_method = method_str m, hq_url = url,
     hq_headers = [(''User-Agent'', USER_AGENT)] @ (case auth of None \<Rightarrow> [] | Some a \<Rightarrow> [(''Authorization'', a)]) @ ro_headers opts
       @ (case ro_body opts of FileBody _ n \<Rightarrow> [(''Content-Length'', show_nat n)] | _ \<Rightarrow> []),
     hq_body = ro_body opts\<rparr>"

definition usable_token :: "http_env \<Rightarrow> CachedToken option \<Rightarrow> agent \<Rightarrow> string option \<times> agent" where
  "usable_token env cached a = (case cached of
      None \<Rightarrow> (None, a)
    | Some t \<Rightarrow> (case now env a of (n, a) \<Rightarrow> (if n < ct_expires_at t then Some (ct_authorization t) else None, a)))"

definition body_error :: "http_env \<Rightarrow> RequestBody \<Rightarrow> reg_error option" where
  "body_error env b = (case b of FileBody p _ \<Rightarrow> map_option (OpenBlob p) (file_error env p) | _ \<Rightarrow> None)"

text \<open>A 401: the token of the scope is dropped and replaced by what the challenge gives. \<open>None\<close> is the \<open>break\<close> of the first round.\<close>

definition on_challenge ::
  "http_env \<Rightarrow> string \<Rightarrow> RequestOptions \<Rightarrow> nat \<Rightarrow> response \<Rightarrow> RegistryClient \<Rightarrow> (reg_error + response) option \<times> RegistryClient" where
  "on_challenge env url opts auth_round resp c =
     (let challenge = (case re_header resp ''www-authenticate'' of None \<Rightarrow> [] | Some h \<Rightarrow> h);
          c = c\<lparr>rc_tokens := (rc_tokens c)(ro_scope opts := None)\<rparr> in
      (case authorization_for_challenge env challenge (ro_scope opts) (credential_for c (ro_registry opts) url) (rc_agent c) of
         (Inl e, a) \<Rightarrow> (Some (Inl e), c\<lparr>rc_agent := a\<rparr>)
       | (Inr auth, a) \<Rightarrow>
           (case now env a of (n, a) \<Rightarrow>
             (let c = c\<lparr>rc_agent := a, rc_tokens := (rc_tokens c)(ro_scope opts \<mapsto> \<lparr>ct_authorization = auth, ct_expires_at = n + 55\<rparr>)\<rparr> in
              (if auth_round = 0 then None else Some (Inl (AuthFailed url (ro_registry opts))), c)))))"

fun request_attempts ::
  "http_env \<Rightarrow> Method \<Rightarrow> string \<Rightarrow> RequestOptions \<Rightarrow> CachedToken option \<Rightarrow> nat \<Rightarrow> nat list \<Rightarrow> RegistryClient \<Rightarrow>
   (reg_error + response) option \<times> RegistryClient" where
  "request_attempts env m url opts cached auth_round [] c = (None, c)"
| "request_attempts env m url opts cached auth_round (attempt # attempts) c =
     (case usable_token env cached (rc_agent c) of (auth, a) \<Rightarrow>
       (case body_error env (ro_body opts) of
          Some e \<Rightarrow> (Some (Inl e), c\<lparr>rc_agent := a\<rparr>)
        | None \<Rightarrow> (case send env (build_request m url opts auth) a of
           (Answered resp, a) \<Rightarrow> (Some (Inr resp), c\<lparr>rc_agent := a\<rparr>)
         | (Status s resp, a) \<Rightarrow>
             if s = 401 then on_challenge env url opts auth_round resp (c\<lparr>rc_agent := a\<rparr>)
             else if is_retryable_status s \<and> attempt < 2
             then request_attempts env m url opts cached auth_round attempts
               (c\<lparr>rc_agent := sleep (retry_delay attempt (retry_after resp)) a\<rparr>)
             else (Some (Inl (RequestStatus url s (response_snippet resp))), c\<lparr>rc_agent := a\<rparr>)
         | (Transport t, a) \<Rightarrow>
             if attempt < 2
             then request_attempts env m url opts cached auth_round attempts (c\<lparr>rc_agent := sleep (retry_delay attempt None) a\<rparr>)
             else (Some (Inl (RequestTransport url t)), c\<lparr>rc_agent := a\<rparr>))))"

fun request_rounds ::
  "http_env \<Rightarrow> Method \<Rightarrow> string \<Rightarrow> RequestOptions \<Rightarrow> nat list \<Rightarrow> RegistryClient \<Rightarrow> (reg_error + response) \<times> RegistryClient" where
  "request_rounds env m url opts [] c = (Inl (AuthFailed url (ro_registry opts)), c)"
| "request_rounds env m url opts (r # rs) c =
     (case request_attempts env m url opts (rc_tokens c (ro_scope opts)) r [0, 1, 2] c of
        (Some res, c) \<Rightarrow> (res, c)
      | (None, c) \<Rightarrow> request_rounds env m url opts rs c)"

definition request ::
  "http_env \<Rightarrow> Method \<Rightarrow> string \<Rightarrow> RequestOptions \<Rightarrow> RegistryClient \<Rightarrow> (reg_error + response) \<times> RegistryClient" where
  "request env m url opts c = request_rounds env m url opts [0, 1] c"

definition get ::
  "http_env \<Rightarrow> string \<Rightarrow> string option \<Rightarrow> string \<Rightarrow> string \<Rightarrow> RegistryClient \<Rightarrow> (reg_error + response) \<times> RegistryClient" where
  "get env url accept reg repo c = request env Get url
     \<lparr>ro_registry = reg, ro_scope = ''repository:'' @ repo @ '':pull'',
      ro_headers = (case accept of None \<Rightarrow> [] | Some a \<Rightarrow> [(''Accept'', a)]), ro_body = NoBody\<rparr> c"

definition push_options :: "string \<Rightarrow> string \<Rightarrow> (string \<times> string) list \<Rightarrow> RequestBody \<Rightarrow> RequestOptions" where
  "push_options reg repo headers body =
     \<lparr>ro_registry = reg, ro_scope = ''repository:'' @ repo @ '':pull,push'', ro_headers = headers, ro_body = body\<rparr>"

definition head ::
  "http_env \<Rightarrow> string \<Rightarrow> string \<Rightarrow> string \<Rightarrow> RegistryClient \<Rightarrow> (reg_error + response option) \<times> RegistryClient" where
  "head env url reg repo c = (case request env Head url (push_options reg repo [] NoBody) c of
      (Inr resp, c) \<Rightarrow> (Inr (Some resp), c)
    | (Inl e, c) \<Rightarrow> (if contains_str (error_text e) ''HTTP 404:'' then Inr None else Inl e, c))"

definition absolute_url :: "string \<Rightarrow> string \<Rightarrow> string" where
  "absolute_url base location =
     (if starts_with location ''http://'' \<or> starts_with location ''https://'' then location
      else if starts_with location ''/'' then base @ location
      else base @ ''/'' @ location)"

definition registry_from_base :: "string \<Rightarrow> reg_error + string" where
  "registry_from_base base =
     (case (case strip_prefix ''https://'' base of Some r \<Rightarrow> Some r | None \<Rightarrow> strip_prefix ''http://'' base) of
        None \<Rightarrow> Inl (BaseNotHttp base)
      | Some rest \<Rightarrow>
          (let host = hd (split_on (CHR ''/'') rest) in
           if host = [] then Inl (BaseNoHost base)
           else Inr (if host = ''registry-1.docker.io'' then ''docker.io'' else host)))"

definition start_blob_upload ::
  "http_env \<Rightarrow> string \<Rightarrow> string \<Rightarrow> string \<Rightarrow> RegistryClient \<Rightarrow> (reg_error + string option) \<times> RegistryClient" where
  "start_blob_upload env base repo dig c =
     (let url = base @ ''/v2/'' @ repo @ ''/blobs/uploads/?digest='' @ dig in
      (case registry_from_base base of
         Inl e \<Rightarrow> (Inl e, c)
       | Inr reg \<Rightarrow> (case request env Post url (push_options reg repo [] NoBody) c of
             (Inl e, c) \<Rightarrow> (Inl e, c)
           | (Inr resp, c) \<Rightarrow>
               if re_status resp = 201 then (Inr None, c)
               else if re_status resp \<noteq> 202 then (Inl (UploadStatus dig (re_status resp) (response_snippet resp)), c)
               else (case re_header resp ''location'' of
                   None \<Rightarrow> (Inl (NoUploadLocation dig), c)
                 | Some loc \<Rightarrow> (Inr (Some (absolute_url base loc)), c)))))"

definition put_blob_bytes ::
  "http_env \<Rightarrow> string \<Rightarrow> string \<Rightarrow> string \<Rightarrow> string \<Rightarrow> RegistryClient \<Rightarrow> (reg_error + response) \<times> RegistryClient" where
  "put_blob_bytes env url reg repo bytes c = request env Put url (push_options reg repo [] (Bytes bytes)) c"

text \<open>\<open>size_of\<close>: the size of the file, \<open>None\<close> when it cannot be read.\<close>

definition put_blob_file ::
  "http_env \<Rightarrow> (string \<Rightarrow> nat option) \<Rightarrow> string \<Rightarrow> string \<Rightarrow> string \<Rightarrow> string \<Rightarrow> RegistryClient \<Rightarrow> (reg_error + response) \<times> RegistryClient" where
  "put_blob_file env size_of url reg repo path c = (case size_of path of
      None \<Rightarrow> (Inl (StatBlob path), c)
    | Some n \<Rightarrow> request env Put url (push_options reg repo [] (FileBody path n)) c)"

definition put_manifest ::
  "http_env \<Rightarrow> string \<Rightarrow> string \<Rightarrow> string \<Rightarrow> string \<Rightarrow> string \<Rightarrow> RegistryClient \<Rightarrow> (reg_error + response) \<times> RegistryClient" where
  "put_manifest env url reg repo media_type bytes c =
     request env Put url (push_options reg repo [(''Content-Type'', media_type)] (Bytes bytes)) c"

fun login_hosts :: "http_env \<Rightarrow> string \<Rightarrow> string list \<Rightarrow> reg_error option \<Rightarrow> RegistryClient \<Rightarrow> (reg_error + unit) \<times> RegistryClient" where
  "login_hosts env reg [] last_error probe = (Inl (case last_error of Some e \<Rightarrow> e | None \<Rightarrow> NoEndpoint), probe)"
| "login_hosts env reg (host # hosts) last_error probe = (case get env (host @ ''/v2/'') None reg [] probe of
      (Inr _, probe) \<Rightarrow> (Inr (), probe)
    | (Inl e, probe) \<Rightarrow> login_hosts env reg hosts (Some e) probe)"

text \<open>\<open>mirrors\<close>: what \<open>discover_mirrors\<close> finds for the new client.\<close>

definition verify_login ::
  "http_env \<Rightarrow> string list \<Rightarrow> string \<Rightarrow> Credential \<Rightarrow> (reg_error + unit) \<times> RegistryClient" where
  "verify_login env mirrors input credential = (case normalize_registry (lower_rest env) input of
      Inl e \<Rightarrow> (Inl (LoginHost e), with_credentials mirrors [])
    | Inr reg \<Rightarrow>
        (let probe = with_credentials mirrors [(reg, credential)] in
         login_hosts env reg (endpoints probe reg) None probe))"

end
