(* ===== verification/Registry_Facts.thy ===== *)
theory Registry_Facts
  imports Registry
begin

text \<open>
  Facts about the registry client: how much it sends and sleeps, which requests carry the login, and which answer a request returns.
\<close>

declare token_attempts.simps [simp del] request_attempts.simps [simp del] request_rounds.simps [simp del]

section \<open>Traffic\<close>

text \<open>From \<open>a\<close> to \<open>b\<close> the agent has sent at most \<open>n\<close> requests, all of the kind \<open>P\<close>, and slept at most \<open>k\<close> times, five seconds at most.\<close>

definition traffic :: "(http_request \<Rightarrow> bool) \<Rightarrow> nat \<Rightarrow> nat \<Rightarrow> agent \<Rightarrow> agent \<Rightarrow> bool" where
  "traffic P n k a b \<longleftrightarrow> (\<exists>qs ss. ag_sent b = ag_sent a @ qs \<and> ag_slept b = ag_slept a @ ss \<and>
     length qs \<le> n \<and> length ss \<le> k \<and> (\<forall>q \<in> set qs. P q) \<and> (\<forall>s \<in> set ss. s \<le> 5000))"

lemma traffic_refl: "traffic P n k a a"
  by (auto simp: traffic_def)

lemma traffic_trans: "traffic P n k a b \<Longrightarrow> traffic P m l b c \<Longrightarrow> traffic P (n + m) (k + l) a c"
proof -
  assume "traffic P n k a b" and *: "traffic P m l b c"
  then obtain qs ss where ab: "ag_sent b = ag_sent a @ qs" "ag_slept b = ag_slept a @ ss" "length qs \<le> n" "length ss \<le> k"
    "\<forall>q \<in> set qs. P q" "\<forall>s \<in> set ss. s \<le> 5000"
    unfolding traffic_def by blast
  from * obtain qs' ss' where "ag_sent c = ag_sent b @ qs'" "ag_slept c = ag_slept b @ ss'" "length qs' \<le> m" "length ss' \<le> l"
    "\<forall>q \<in> set qs'. P q" "\<forall>s \<in> set ss'. s \<le> 5000"
    unfolding traffic_def by blast
  with ab show ?thesis unfolding traffic_def by (intro exI [of _ "qs @ qs'"] exI [of _ "ss @ ss'"]) auto
qed

lemma traffic_mono: "traffic P n k a b \<Longrightarrow> n \<le> m \<Longrightarrow> k \<le> l \<Longrightarrow> (\<And>q. P q \<Longrightarrow> Q q) \<Longrightarrow> traffic Q m l a b"
  unfolding traffic_def by (meson order_trans)

lemma traffic_send: "send env q a = (r, b) \<Longrightarrow> P q \<Longrightarrow> traffic P 1 0 a b"
  by (auto simp: send_def traffic_def Let_def)

lemma traffic_now: "now env a = (t, b) \<Longrightarrow> traffic P 0 0 a b"
  by (auto simp: now_def traffic_def)

lemma retry_delay_bounds: "250 \<le> retry_delay i w \<and> retry_delay i w \<le> 5000"
proof -
  have "(250 :: nat) * 1 \<le> 250 * 2 ^ i" by (intro mult_left_mono) simp_all
  then show ?thesis by (auto simp: retry_delay_def Let_def le_max_iff_disj split: option.splits)
qed

lemma traffic_sleep: "traffic P 0 1 a (sleep (retry_delay i w) a)"
  using retry_delay_bounds by (auto simp: traffic_def sleep_def)

lemma usable_token_cases:
  "usable_token env cached a = (auth, b) \<Longrightarrow> traffic P 0 0 a b \<and> (auth = None \<or> (\<exists>t. cached = Some t \<and> auth = Some (ct_authorization t)))"
  by (auto simp: usable_token_def traffic_refl intro: traffic_now split: option.splits prod.splits if_splits)

section \<open>Tokens\<close>

abbreviation retries :: "nat list \<Rightarrow> nat" where
  "retries attempts \<equiv> length (filter (\<lambda>i. i < 2) attempts)"

lemma token_attempts_traffic:
  "token_attempts env url cr attempts a = (r, b) \<Longrightarrow> traffic (\<lambda>q. q = token_request url cr) (length attempts) (retries attempts) a b"
proof (induction attempts arbitrary: a)
  case (Cons i attempts)
  obtain ans a1 where s: "send env (token_request url cr) a = (ans, a1)" by force
  note t = traffic_send [OF s, of "\<lambda>q. q = token_request url cr", OF refl]
  from Cons.prems s consider "b = a1" | w where "token_attempts env url cr attempts (sleep (retry_delay i w) a1) = (r, b)" "i < 2"
    by (auto simp: token_attempts.simps split: http_answer.splits if_splits)
  then show ?case
  proof cases
    case 1
    with t show ?thesis by (auto elim!: traffic_mono)
  next
    case 2
    from traffic_trans [OF traffic_trans [OF t traffic_sleep] Cons.IH [OF 2(1)]] 2(2) show ?thesis by simp
  qed
qed (simp add: token_attempts.simps traffic_refl)

lemma obtain_token_traffic:
  assumes "obtain_token env ch scope cr a = (r, b)"
  shows "traffic (\<lambda>q. \<exists>u. q = token_request u cr) 3 2 a b"
proof -
  have "traffic (\<lambda>q. \<exists>u. q = token_request u cr) 3 2 a b'" if "token_attempts env u cr [0, 1, 2] a = (x, b')" for u x b'
    by (rule traffic_mono [OF token_attempts_traffic [OF that]]) auto
  with assms show ?thesis
    by (auto simp: obtain_token_def traffic_refl split: option.splits prod.splits sum.splits json_field.splits)
qed

lemma authorization_for_challenge_cases:
  assumes "authorization_for_challenge env ch scope cr a = (r, b)"
  shows "traffic (\<lambda>q. \<exists>u. q = token_request u cr) 3 2 a b"
    and "r = Inr v \<Longrightarrow> (\<exists>c. cr = Some c \<and> v = authorization c) \<or> starts_with v ''Bearer ''"
  using assms by (auto simp: authorization_for_challenge_def traffic_refl starts_with_def intro: obtain_token_traffic split: option.splits prod.splits sum.splits if_splits)

section \<open>Requests\<close>

text \<open>What a request may send: itself, with the token of the cache, and requests for a token with the login that is meant for the
  registry.\<close>

definition may_send :: "Method \<Rightarrow> string \<Rightarrow> RequestOptions \<Rightarrow> (string \<Rightarrow> bool) \<Rightarrow> Credential option \<Rightarrow> http_request \<Rightarrow> bool" where
  "may_send m url opts good cr q \<longleftrightarrow>
     (\<exists>auth. q = build_request m url opts auth \<and> (\<forall>v. auth = Some v \<longrightarrow> good v)) \<or> (\<exists>u. q = token_request u cr)"

definition good_token :: "(string \<Rightarrow> bool) \<Rightarrow> CachedToken option \<Rightarrow> bool" where
  "good_token good t \<longleftrightarrow> (\<forall>x. t = Some x \<longrightarrow> good (ct_authorization x))"

definition answers :: "http_env \<Rightarrow> Method \<Rightarrow> string \<Rightarrow> RequestOptions \<Rightarrow> response \<Rightarrow> agent \<Rightarrow> bool" where
  "answers env m url opts resp a \<longleftrightarrow>
     (\<exists>pre auth. ag_sent a = pre @ [build_request m url opts auth] \<and> ureq env (ag_sent a) = Answered resp)"

text \<open>What a round of a request leaves of the client.\<close>

definition round_ok ::
  "http_env \<Rightarrow> Method \<Rightarrow> string \<Rightarrow> RequestOptions \<Rightarrow> (string \<Rightarrow> bool) \<Rightarrow> nat \<Rightarrow> nat \<Rightarrow> RegistryClient \<Rightarrow>
   (reg_error + response) option \<Rightarrow> RegistryClient \<Rightarrow> bool" where
  "round_ok env m url opts good n k c res d \<longleftrightarrow>
     traffic (may_send m url opts good (credential_for c (ro_registry opts) url)) n k (rc_agent c) (rc_agent d) \<and>
     rc_credentials d = rc_credentials c \<and> rc_mirrors d = rc_mirrors c \<and>
     good_token good (rc_tokens d (ro_scope opts)) \<and>
     (\<forall>s. s \<noteq> ro_scope opts \<longrightarrow> rc_tokens d s = rc_tokens c s) \<and>
     (\<forall>resp. res = Some (Inr resp) \<longrightarrow> answers env m url opts resp (rc_agent d))"

lemma credential_for_frame: "rc_credentials d = rc_credentials c \<Longrightarrow> credential_for d reg url = credential_for c reg url"
  by (simp add: credential_for_def)

lemma credential_for_agent [simp]: "credential_for (c\<lparr>rc_agent := x\<rparr>) reg url = credential_for c reg url"
  by (rule credential_for_frame) simp

lemma round_ok_after:
  assumes "traffic (may_send m url opts good (credential_for c (ro_registry opts) url)) n k (rc_agent c) a"
    and "round_ok env m url opts good n' k' (c\<lparr>rc_agent := a\<rparr>) res d" and "n + n' \<le> n2" "k + k' \<le> k2"
  shows "round_ok env m url opts good n2 k2 c res d"
proof -
  from assms(2) have "traffic (may_send m url opts good (credential_for c (ro_registry opts) url)) n' k' a (rc_agent d)"
    by (simp add: round_ok_def)
  with assms(1) have "traffic (may_send m url opts good (credential_for c (ro_registry opts) url)) (n + n') (k + k') (rc_agent c) (rc_agent d)"
    by (rule traffic_trans)
  then have "traffic (may_send m url opts good (credential_for c (ro_registry opts) url)) n2 k2 (rc_agent c) (rc_agent d)"
    by (rule traffic_mono) (use assms in auto)
  with assms(2) show ?thesis by (simp add: round_ok_def)
qed

lemma on_challenge_ok:
  assumes "on_challenge env url opts i resp c = (res, d)"
    and good: "\<And>v. (\<exists>cr. credential_for c (ro_registry opts) url = Some cr \<and> v = authorization cr) \<or> starts_with v ''Bearer '' \<Longrightarrow> good v"
  shows "round_ok env m url opts good 3 2 c res d"
proof -
  let ?cr = "credential_for c (ro_registry opts) url"
  let ?ch = "case re_header resp ''www-authenticate'' of None \<Rightarrow> [] | Some h \<Rightarrow> h"
  obtain r a where au: "authorization_for_challenge env ?ch (ro_scope opts) ?cr (rc_agent c) = (r, a)" by force
  have cr: "credential_for (c\<lparr>rc_tokens := x\<rparr>) reg url = credential_for c reg url" for x reg by (rule credential_for_frame) simp
  have t: "traffic (may_send m url opts good ?cr) 3 2 (rc_agent c) a"
    by (rule traffic_mono [OF authorization_for_challenge_cases(1) [OF au]]) (auto simp: may_send_def)
  obtain n a' where n: "now env a = (n, a')" by force
  have t': "traffic (may_send m url opts good ?cr) 3 2 (rc_agent c) a'"
    using traffic_trans [OF t traffic_now [OF n]] by simp
  show ?thesis
    using assms(1) au n t t' good authorization_for_challenge_cases(2) [OF au]
    by (cases r) (auto simp: on_challenge_def Let_def cr round_ok_def good_token_def split: if_splits)
qed

lemma request_attempts_ok:
  assumes "request_attempts env m url opts cached i attempts c = (res, d)"
    and cached: "good_token good cached" "good_token good (rc_tokens c (ro_scope opts))"
    and good: "\<And>v. (\<exists>cr. credential_for c (ro_registry opts) url = Some cr \<and> v = authorization cr) \<or> starts_with v ''Bearer '' \<Longrightarrow> good v"
  shows "round_ok env m url opts good (length attempts + 3) (retries attempts + 2) c res d"
  using assms(1,3,4)
proof (induction attempts arbitrary: c)
  case Nil
  then show ?case by (simp add: request_attempts.simps round_ok_def traffic_refl)
next
  case (Cons j attempts)
  let ?P = "may_send m url opts good (credential_for c (ro_registry opts) url)"
  obtain auth a where u: "usable_token env cached (rc_agent c) = (auth, a)" by force
  note ut = usable_token_cases [OF u, of ?P]
  obtain ans a1 where s: "send env (build_request m url opts auth) a = (ans, a1)" by force
  have P: "?P (build_request m url opts auth)" using ut cached by (auto simp: may_send_def good_token_def)
  note t = traffic_trans [OF conjunct1 [OF ut] traffic_send [OF s, of ?P, OF P]]
  from Cons.prems(1) consider e where "res = Some (Inl e)" "d = c\<lparr>rc_agent := a\<rparr>"
    | resp where "ans = Answered resp" "res = Some (Inr resp)" "d = c\<lparr>rc_agent := a1\<rparr>"
    | resp where "on_challenge env url opts i resp (c\<lparr>rc_agent := a1\<rparr>) = (res, d)"
    | w where "j < 2" "request_attempts env m url opts cached i attempts (c\<lparr>rc_agent := sleep (retry_delay j w) a1\<rparr>) = (res, d)"
    | e where "res = Some (Inl e)" "d = c\<lparr>rc_agent := a1\<rparr>"
    unfolding request_attempts.simps u s prod.case
    by (cases "body_error env (ro_body opts)"; cases ans; simp only: option.case http_answer.case prod.case prod.inject split: if_splits; blast)
  then show ?case
  proof cases
    case 1
    with ut Cons.prems show ?thesis by (auto simp: round_ok_def elim!: traffic_mono)
  next
    case 2
    with t s Cons.prems show ?thesis
      by (auto simp: round_ok_def answers_def send_def Let_def elim!: traffic_mono)
  next
    case 3
    have "round_ok env m url opts good 3 2 (c\<lparr>rc_agent := a1\<rparr>) res d"
      by (rule on_challenge_ok [OF 3]) (use Cons.prems(3) in simp)
    with t show ?thesis by (rule round_ok_after) simp_all
  next
    case 4
    have "round_ok env m url opts good (length attempts + 3) (retries attempts + 2) (c\<lparr>rc_agent := sleep (retry_delay j w) a1\<rparr>) res d"
      by (rule Cons.IH [OF 4(2)]) (use Cons.prems in simp_all)
    with traffic_trans [OF t traffic_sleep [of _ _ j w]] show ?thesis by (rule round_ok_after) (use 4(1) in simp_all)
  next
    case 5
    with t Cons.prems show ?thesis by (auto simp: round_ok_def elim!: traffic_mono)
  qed
qed

definition own_value :: "RegistryClient \<Rightarrow> string \<Rightarrow> RequestOptions \<Rightarrow> string \<Rightarrow> bool" where
  "own_value c url opts v \<longleftrightarrow>
     (\<exists>cr. credential_for c (ro_registry opts) url = Some cr \<and> v = authorization cr) \<or> starts_with v ''Bearer '' \<or>
     (\<exists>t. rc_tokens c (ro_scope opts) = Some t \<and> v = ct_authorization t)"

lemma request_ok:
  assumes "request env m url opts c = (r, d)"
  shows "round_ok env m url opts (own_value c url opts) 12 8 c (Some r) d"
proof -
  let ?good = "own_value c url opts"
  have good: "?good v" if "(\<exists>cr. credential_for c (ro_registry opts) url = Some cr \<and> v = authorization cr) \<or> starts_with v ''Bearer ''" for v
    using that by (auto simp: own_value_def)
  have g0: "good_token ?good (rc_tokens c (ro_scope opts))" by (auto simp: good_token_def own_value_def)
  obtain r1 c1 where 1: "request_attempts env m url opts (rc_tokens c (ro_scope opts)) 0 [0, 1, 2] c = (r1, c1)" by force
  have ok1: "round_ok env m url opts ?good 6 4 c r1 c1"
    using request_attempts_ok [where good = ?good, OF 1 g0 g0 good] by (simp add: eval_nat_numeral)
  obtain r2 c2 where 2: "request_attempts env m url opts (rc_tokens c1 (ro_scope opts)) 1 [0, 1, 2] c1 = (r2, c2)" by force
  from ok1 have g1: "good_token ?good (rc_tokens c1 (ro_scope opts))" and cr: "rc_credentials c1 = rc_credentials c" by (auto simp: round_ok_def)
  have "round_ok env m url opts ?good 6 4 c1 r2 c2"
    using request_attempts_ok [where good = ?good, OF 2 g1 g1] good credential_for_frame [OF cr] by (simp add: eval_nat_numeral)
  then have ok2: "round_ok env m url opts ?good 12 8 c r2 c2"
    using ok1 traffic_trans [of "may_send m url opts ?good (credential_for c (ro_registry opts) url)" 6 4 "rc_agent c" "rc_agent c1" 6 4 "rc_agent c2"]
    by (auto simp: round_ok_def credential_for_frame [OF cr])
  show ?thesis
  proof (cases r1)
    case (Some x)
    with assms 1 ok1 show ?thesis
      by (auto simp: request_def request_rounds.simps round_ok_def elim!: traffic_mono)
  next
    case None
    with assms 1 2 ok2 show ?thesis
      by (cases r2) (auto simp: request_def request_rounds.simps round_ok_def)
  qed
qed

lemma not_basic_bearer: "starts_with v ''Basic '' \<Longrightarrow> \<not> starts_with v ''Bearer ''"
  by (auto simp: starts_with_iff)

lemma authorization_header:
  "(''Authorization'', v) \<in> set (hq_headers (build_request m url opts auth)) \<Longrightarrow> ''Authorization'' \<notin> fst ` set (ro_headers opts) \<Longrightarrow> auth = Some v"
  "(''Authorization'', v) \<in> set (hq_headers (token_request u cr)) \<Longrightarrow> \<exists>c. cr = Some c \<and> v = authorization c"
  by (auto simp: build_request_def token_request_def image_iff split: option.splits RequestBody.splits)

section \<open>A sample registry\<close>

definition plain_response :: response where
  "plain_response = \<lparr>re_status = 200, re_header = (\<lambda>_. None), re_text = Inr [], re_reader = []\<rparr>"

definition basic_challenge :: response where
  "basic_challenge = \<lparr>re_status = 401, re_header = (\<lambda>h. if h = ''www-authenticate'' then Some ''Basic realm=x'' else None), re_text = Inr [], re_reader = []\<rparr>"

text \<open>Docker Hub asks for a login, every other host answers.\<close>

definition hub_env :: http_env where
  "hub_env = \<lparr>ureq = (\<lambda>sent. let q = last sent in
       if starts_with (hq_url q) DOCKER_HUB_API \<and> map_of (hq_headers q) ''Authorization'' = None then Status 401 basic_challenge
       else Answered plain_response),
     clock = (\<lambda>n. n), file_error = (\<lambda>_. None), token_json = (\<lambda>_. Inl []), lower_rest = id\<rparr>"

definition hub_login :: Credential where
  "hub_login = \<lparr>cr_username = ''u'', cr_password = ''p''\<rparr>"

definition hub_client :: RegistryClient where
  "hub_client = with_credentials [''https://mirror''] [(''docker.io'', hub_login)]"

definition pull_options :: RequestOptions where
  "pull_options = \<lparr>ro_registry = ''docker.io'', ro_scope = ''repository:r:pull'', ro_headers = [], ro_body = NoBody\<rparr>"

abbreviation hub_url :: string where "hub_url \<equiv> ''https://registry-1.docker.io/v2/r/blobs/x''"

lemma hub_run:
  "map (\<lambda>q. (hq_url q, map_of (hq_headers q) ''Authorization'')) (ag_sent (rc_agent (snd (request hub_env Get hub_url pull_options hub_client)))) =
     [(hub_url, None), (hub_url, Some ''Basic dTpw'')]"
  "is_ok (fst (request hub_env Get hub_url pull_options hub_client))"
  by code_simp+

section \<open>Properties\<close>

text \<open>C36: A request of the registry client ends after at most twelve HTTP requests and eight pauses of at most five seconds each,
  whatever the registry, its token server and the clock do. The answer it returns is the answer to the last request it sent, which
  went to the URL asked for with the method asked for. It leaves the tokens of other scopes, the credentials and the mirrors alone.\<close>

theorem request_bounded:
  assumes "request env m url opts c = (r, d)"
  shows "\<exists>qs ss. ag_sent (rc_agent d) = ag_sent (rc_agent c) @ qs \<and> ag_slept (rc_agent d) = ag_slept (rc_agent c) @ ss \<and>
    length qs \<le> 12 \<and> length ss \<le> 8 \<and> (\<forall>ms \<in> set ss. ms \<le> 5000) \<and>
    (\<forall>resp. r = Inr resp \<longrightarrow> ureq env (ag_sent (rc_agent d)) = Answered resp \<and>
      hq_url (last (ag_sent (rc_agent d))) = url \<and> hq_method (last (ag_sent (rc_agent d))) = method_str m) \<and>
    (\<forall>scope. scope \<noteq> ro_scope opts \<longrightarrow> rc_tokens d scope = rc_tokens c scope) \<and>
    rc_credentials d = rc_credentials c \<and> rc_mirrors d = rc_mirrors c"
proof -
  have "round_ok env m url opts (own_value c url opts) 12 8 c (Some r) d" using assms by (rule request_ok)
  then show ?thesis unfolding round_ok_def traffic_def answers_def
    by (auto simp: build_request_def)
qed

theorem request_bounded_witness:
  "\<exists>qs. ag_sent (rc_agent (snd (request hub_env Get hub_url pull_options hub_client))) = qs \<and> length qs \<le> 12 \<and> hq_url (last qs) = hub_url"
  using request_bounded [of hub_env Get hub_url pull_options hub_client, OF prod.collapse [symmetric]] hub_run(2)
  by (auto simp: hub_client_def with_credentials_def new_agent_def is_ok_iff)

text \<open>C16: In a request for a registry, a login (a Basic authorization) is put into a message only if it is the one stored for that
  registry and the URL of the request begins with the address of that registry, or if it is in the token cache under the scope of
  the request.\<close>

theorem login_confined:
  assumes "request env m url opts c = (r, d)" and "''Authorization'' \<notin> fst ` set (ro_headers opts)"
    and "ag_sent (rc_agent d) = ag_sent (rc_agent c) @ qs" and "q \<in> set qs"
    and "(''Authorization'', v) \<in> set (hq_headers q)" and "starts_with v ''Basic ''"
  shows "(\<exists>cr. map_of (rc_credentials c) (ro_registry opts) = Some cr \<and> v = authorization cr \<and>
      (if ro_registry opts = ''docker.io'' then starts_with url ''https://registry-1.docker.io''
       else starts_with url (''https://'' @ ro_registry opts @ ''/'') \<or> starts_with url (''http://'' @ ro_registry opts @ ''/''))) \<or>
    (\<exists>t. rc_tokens c (ro_scope opts) = Some t \<and> v = ct_authorization t)"
proof -
  let ?cr = "credential_for c (ro_registry opts) url"
  have "round_ok env m url opts (own_value c url opts) 12 8 c (Some r) d" using assms(1) by (rule request_ok)
  with assms(3,4) have "may_send m url opts (own_value c url opts) ?cr q" by (auto simp: round_ok_def traffic_def)
  then have "(\<exists>cr. ?cr = Some cr \<and> v = authorization cr) \<or> (\<exists>t. rc_tokens c (ro_scope opts) = Some t \<and> v = ct_authorization t)"
    unfolding may_send_def using assms(2,5,6) not_basic_bearer
    by (auto simp: own_value_def dest: authorization_header)
  then show ?thesis by (auto simp: credential_for_def DOCKER_HUB_API_def split: if_splits)
qed

theorem login_confined_witness:
  "\<exists>q v cr. q \<in> set (ag_sent (rc_agent (snd (request hub_env Get hub_url pull_options hub_client)))) \<and>
    (''Authorization'', v) \<in> set (hq_headers q) \<and> map_of (rc_credentials hub_client) ''docker.io'' = Some cr \<and> v = authorization cr"
proof -
  let ?sent = "ag_sent (rc_agent (snd (request hub_env Get hub_url pull_options hub_client)))"
  have "(hub_url, Some ''Basic dTpw'') \<in> set (map (\<lambda>q. (hq_url q, map_of (hq_headers q) ''Authorization'')) ?sent)"
    unfolding hub_run(1) by simp
  then obtain q where q: "q \<in> set ?sent" "map_of (hq_headers q) ''Authorization'' = Some ''Basic dTpw''" by (auto simp del: list.set_map simp: in_set_conv_nth)
  then have h: "(''Authorization'', ''Basic dTpw'') \<in> set (hq_headers q)" by (simp add: map_of_SomeD)
  have "ag_sent (rc_agent hub_client) = []" "rc_tokens hub_client (ro_scope pull_options) = None" "ro_registry pull_options = ''docker.io''"
    "''Authorization'' \<notin> fst ` set (ro_headers pull_options)" "starts_with ''Basic dTpw'' ''Basic ''"
    by (simp_all add: hub_client_def with_credentials_def new_agent_def pull_options_def starts_with_def)
  with login_confined [of hub_env Get hub_url pull_options hub_client _ _ ?sent q "''Basic dTpw''", OF prod.collapse [symmetric]] q(1) h
  show ?thesis by (metis append_Nil option.distinct(1))
qed

section \<open>Where the login goes nevertheless\<close>

text \<open>The token cache is keyed by the scope alone: after Docker Hub has been given the login, the next request of the same scope
  sends it to a mirror.\<close>

lemma mirror_gets_login:
  "map (\<lambda>q. (hq_url q, map_of (hq_headers q) ''Authorization'')) (ag_sent (rc_agent (snd
     (request hub_env Get ''https://mirror/v2/r/blobs/y'' pull_options (snd (request hub_env Get hub_url pull_options hub_client)))))) =
   [(hub_url, None), (hub_url, Some (authorization hub_login)), (''https://mirror/v2/r/blobs/y'', Some (authorization hub_login))]"
  by code_simp

text \<open>The address of Docker Hub is compared as a prefix, without the slash after it.\<close>

lemma hub_prefix: "credential_for hub_client ''docker.io'' ''https://registry-1.docker.io.example/v2/'' = Some hub_login"
  by code_simp

text \<open>A mirror that answers makes any Docker Hub login succeed: it is asked first, and never for a login.\<close>

lemma login_unchecked:
  assumes "ureq env [build_request Get (mirror @ ''/v2/'') \<lparr>ro_registry = ''docker.io'', ro_scope = ''repository::pull'', ro_headers = [], ro_body = NoBody\<rparr> None] = Answered resp"
  shows "fst (verify_login env (mirror # mirrors) ''docker.io'' credential) = Inr ()"
proof -
  have n: "normalize_registry (lower_rest env) ''docker.io'' = Inr ''docker.io''"
    by (simp add: normalize_registry_def Let_def str_eval trim_end_slashes_def to_lowercase_def is_ascii_def within_def)
  from assms show ?thesis
    by (simp add: verify_login_def n endpoints_def with_credentials_def get_def request_def request_rounds.simps request_attempts.simps
      usable_token_def body_error_def send_def new_agent_def)
qed

end
