(* ===== verification/Rootfs.thy ===== *)
theory Rootfs
  imports Unpack Image_Store
begin

text \<open>
  Materialising the root file system of an image (src/image/pull.rs, src/image/config.rs): the layers of a manifest are decompressed
  into a spool file, checked against the digests of the configuration, and unpacked in order into a staging directory that is renamed
  into place.

  Decompression, the tar reader and SHA-256 are parameters. The blobs come from the image store; the directory of the root file
  systems is part of a file tree. \<open>le_untar_gz\<close> is what the tar reader yields of a gzip stream.
\<close>

record ConfigSection =
  cc_env :: "string list"
  cc_entrypoint :: "string list"
  cc_cmd :: "string list"
  cc_working_dir :: string
  cc_user :: string
  cc_labels :: "(string \<times> string) list"

record ImageConfig =
  ic_architecture :: string
  ic_os :: string
  ic_config :: ConfigSection
  ic_diff_ids :: "string list"

record layer_env =
  le_sha :: "string \<Rightarrow> string"
  le_readable :: "string \<Rightarrow> bool"
  le_gunzip :: "string \<Rightarrow> string option"
  le_unzstd :: "string \<Rightarrow> string option"
  le_untar :: "string \<Rightarrow> tar_entry option list option"
  le_untar_gz :: "string \<Rightarrow> tar_entry option list option"
  le_lossy :: "string \<Rightarrow> string"
  le_pid :: nat
  le_kernel :: kernel

datatype rootfs_error =
    BadDigest store_error
  | LayerOpen
  | LayerChunked string
  | LayerDecompress
  | SpoolCreate io_error
  | SpoolWrite
  | SpoolOpen
  | LayerCount nat nat
  | StagingDir io_error
  | LayerUnpack unpack_error
  | DiffMismatch nat string string
  | InstallRootfs io_error

datatype layer_codec = Zstd | Gzip | PlainTar

text \<open>The choice of the decoder: by the media type, else by the first bytes.\<close>

definition has_part :: "string \<Rightarrow> string \<Rightarrow> bool" where
  "has_part s p \<longleftrightarrow> list_ex (\<lambda>i. starts_with (drop i s) p) [0..<Suc (length s)]"

definition layer_format :: "string \<Rightarrow> string \<Rightarrow> rootfs_error + layer_codec" where
  "layer_format media_type head =
     (if has_part media_type ''chunked'' then Inl (LayerChunked media_type)
      else if has_part media_type ''zstd'' then Inr Zstd
      else if has_part media_type ''gzip'' then Inr Gzip
      else if starts_with head [CHR 0x28, CHR 0xB5, CHR 0x2F, CHR 0xFD] then Inr Zstd
      else if starts_with head [CHR 0x1F, CHR 0x8B] then Inr Gzip
      else Inr PlainTar)"

definition decode_layer :: "layer_env \<Rightarrow> layer_codec \<Rightarrow> string \<Rightarrow> string option" where
  "decode_layer env fmt bytes = (case fmt of Zstd \<Rightarrow> le_unzstd env bytes | Gzip \<Rightarrow> le_gunzip env bytes | PlainTar \<Rightarrow> Some bytes)"

text \<open>What is read from an open layer: everything, or \<open>None\<close> when the reader fails.\<close>

definition open_layer_reader :: "layer_env \<Rightarrow> image_store \<Rightarrow> string \<Rightarrow> string \<Rightarrow> rootfs_error + string option" where
  "open_layer_reader env s hex media_type = (case map_of (is_blobs s) hex of
      Some (BlobFile bytes) \<Rightarrow>
        if \<not> le_readable env hex then Inl LayerOpen
        else and_then (layer_format media_type (take 8192 bytes)) (\<lambda>fmt. Inr (decode_layer env fmt bytes))
    | _ \<Rightarrow> Inl LayerOpen)"

definition spool_path :: "layer_env \<Rightarrow> path \<Rightarrow> nat \<Rightarrow> path" where
  "spool_path env dir i = dir @ [''.tmp-spool-'' @ show_nat (le_pid env) @ ''-'' @ show_nat i]"

text \<open>A guard removes the spool file on every error.\<close>

definition spool_layer ::
  "layer_env \<Rightarrow> image_store \<Rightarrow> path \<Rightarrow> string \<Rightarrow> string \<Rightarrow> nat \<Rightarrow> fnode \<Rightarrow> (rootfs_error + path \<times> string) \<times> fnode" where
  "spool_layer env s dir hex media_type i t = (case open_layer_reader env s hex media_type of
      Inl e \<Rightarrow> (Inl e, t)
    | Inr stream \<Rightarrow>
        (let k = le_kernel env; spool = spool_path env dir i; t = remove_dir_all_quiet k spool t in
         (case stream of
            None \<Rightarrow> (case create_new k spool [] t of
                (Inl e, t) \<Rightarrow> (Inl (SpoolCreate e), snd (remove_file k spool t))
              | (Inr _, t) \<Rightarrow> (Inl LayerDecompress, snd (remove_file k spool t)))
          | Some data \<Rightarrow> (case create_new k spool data t of
                (Inl e, t) \<Rightarrow> (Inl (SpoolCreate e), snd (remove_file k spool t))
              | (Inr _, t) \<Rightarrow>
                  if k_allow k Write spool then (Inr (spool, le_sha env data), t)
                  else (Inl SpoolWrite, snd (remove_file k spool t))))))"

definition unpack_spool :: "layer_env \<Rightarrow> path \<Rightarrow> path \<Rightarrow> fnode \<Rightarrow> (rootfs_error + unit) \<times> fnode" where
  "unpack_spool env spool tmp t = (case stat t spool of
      Inr (File m data) \<Rightarrow>
        if k_allow (le_kernel env) Read spool
        then (case unpack_layer (le_kernel env) (le_lossy env) tmp (le_untar env data) t of
            (Inl e, t) \<Rightarrow> (Inl (LayerUnpack e), t) | (Inr _, t) \<Rightarrow> (Inr (), t))
        else (Inl SpoolOpen, t)
    | _ \<Rightarrow> (Inl SpoolOpen, t))"

fun apply_layers ::
  "layer_env \<Rightarrow> image_store \<Rightarrow> path \<Rightarrow> path \<Rightarrow> nat \<Rightarrow> (Descriptor \<times> string) list \<Rightarrow> fnode \<Rightarrow> (rootfs_error + unit) \<times> fnode" where
  "apply_layers env s dir tmp i [] t = (Inr (), t)"
| "apply_layers env s dir tmp i ((layer, expected_diff) # rest) t = (case digest_hex (d_digest layer) of
      Inl e \<Rightarrow> (Inl (BadDigest e), t)
    | Inr hex \<Rightarrow>
        (let quiet = remove_dir_all_quiet (le_kernel env) in
         (case spool_layer env s dir hex (d_media_type layer) i t of
            (Inl e, t) \<Rightarrow> (Inl e, quiet tmp t)
          | (Inr (spool, actual_diff), t) \<Rightarrow>
              if ''sha256:'' @ actual_diff = expected_diff then
                (case unpack_spool env spool tmp t of
                   (Inl e, t) \<Rightarrow> (Inl e, quiet tmp (quiet spool t))
                 | (Inr _, t) \<Rightarrow> apply_layers env s dir tmp (Suc i) rest (quiet spool t))
              else (Inl (DiffMismatch i expected_diff actual_diff), quiet tmp (quiet spool t)))))"

definition rootfs_tmp :: "layer_env \<Rightarrow> path \<Rightarrow> string \<Rightarrow> path" where
  "rootfs_tmp env dir hex = dir @ [''.tmp-'' @ show_nat (le_pid env) @ ''-'' @ take 8 hex]"

text \<open>The rename into place; when it fails because another process was faster, the copy is dropped.\<close>

definition install_rootfs :: "layer_env \<Rightarrow> path \<Rightarrow> path \<Rightarrow> fnode \<Rightarrow> (rootfs_error + path) \<times> fnode" where
  "install_rootfs env tmp final_dir t = (case rename (le_kernel env) tmp final_dir t of
      (Inr _, t) \<Rightarrow> (Inr final_dir, t)
    | (Inl e, t) \<Rightarrow>
        (if is_dir t final_dir then Inr final_dir else Inl (InstallRootfs e), remove_dir_all_quiet (le_kernel env) tmp t))"

definition materialize_local_rootfs ::
  "layer_env \<Rightarrow> image_store \<Rightarrow> path \<Rightarrow> Manifest \<Rightarrow> ImageConfig \<Rightarrow> fnode \<Rightarrow> (rootfs_error + path) \<times> fnode" where
  "materialize_local_rootfs env s dir m cfg t = (case digest_hex (d_digest (m_config m)) of
      Inl e \<Rightarrow> (Inl (BadDigest e), t)
    | Inr hex \<Rightarrow>
        (let final_dir = dir @ [hex]; k = le_kernel env in
         if is_dir t final_dir then (Inr final_dir, t)
         else if length (ic_diff_ids cfg) \<noteq> length (m_layers m) then (Inl (LayerCount (length (ic_diff_ids cfg)) (length (m_layers m))), t)
         else
           (let tmp = rootfs_tmp env dir hex in
            (case create_dir_all k tmp (remove_dir_all_quiet k tmp t) of
               (Inl e, t) \<Rightarrow> (Inl (StagingDir e), t)
             | (Inr _, t) \<Rightarrow> (case apply_layers env s dir tmp 0 (zip (m_layers m) (ic_diff_ids cfg)) t of
                   (Inl e, t) \<Rightarrow> (Inl e, t)
                 | (Inr _, t) \<Rightarrow> install_rootfs env tmp final_dir t)))))"

text \<open>The single layer of a committed image (src/image/commit.rs). It is gzip-compressed by the commit itself.\<close>

definition materialize_committed ::
  "layer_env \<Rightarrow> image_store \<Rightarrow> path \<Rightarrow> string \<Rightarrow> string \<Rightarrow> fnode \<Rightarrow> (rootfs_error + unit) \<times> fnode" where
  "materialize_committed env s dir config_digest layer_digest t = (case digest_hex config_digest of
      Inl e \<Rightarrow> (Inl (BadDigest e), t)
    | Inr hex \<Rightarrow>
        (let final_dir = dir @ [hex]; k = le_kernel env; tmp = rootfs_tmp env dir hex in
         if is_dir t final_dir then (Inr (), t)
         else (case create_dir_all k tmp (remove_dir_all_quiet k tmp t) of
             (Inl e, t) \<Rightarrow> (Inl (StagingDir e), t)
           | (Inr _, t) \<Rightarrow> (case digest_hex layer_digest of
                 Inl e \<Rightarrow> (Inl (BadDigest e), t)
               | Inr layer \<Rightarrow>
                   (case (case map_of (is_blobs s) layer of
                        Some (BlobFile bytes) \<Rightarrow>
                          if le_readable env layer
                          then (case unpack_layer k (le_lossy env) tmp (le_untar_gz env bytes) t of
                              (Inl e, t) \<Rightarrow> (Inl (LayerUnpack e), t) | (Inr _, t) \<Rightarrow> (Inr (), t))
                          else (Inl LayerOpen, t)
                      | _ \<Rightarrow> (Inl LayerOpen, t)) of
                      (Inl e, t) \<Rightarrow> (Inl e, remove_dir_all_quiet k tmp t)
                    | (Inr _, t) \<Rightarrow> (case install_rootfs env tmp final_dir t of
                          (Inl e, t) \<Rightarrow> (Inl e, t) | (Inr _, t) \<Rightarrow> (Inr (), t)))))))"

end
