(* ===== verification/Rootfs_Facts.thy ===== *)
theory Rootfs_Facts
  imports Rootfs Unpack_Facts
begin

text \<open>
  Facts about materialising a root file system: nothing outside the directory of the root file systems changes, and every layer that
  is unpacked has the digest the configuration gives it.
\<close>

section \<open>Below the directory of the root file systems\<close>

definition solid :: "fnode \<Rightarrow> path \<Rightarrow> bool" where
  "solid t dir \<longleftrightarrow> ''..'' \<notin> set dir \<and> (\<forall>q. prefix q dir \<longrightarrow> is_dir_at t q)"

definition kept :: "path \<Rightarrow> fnode \<Rightarrow> fnode \<Rightarrow> bool" where
  "kept dir t0 t \<longleftrightarrow> wf_node t \<and> (\<forall>q. \<not> strict_prefix dir q \<longrightarrow> info t q = info t0 q)"

lemma solid_kept: "solid t0 dir \<Longrightarrow> kept dir t0 t \<Longrightarrow> solid t dir"
  by (auto simp: solid_def kept_def is_dir_at_def dest: prefix_order.leD)

lemma solid_clean: "solid t dir \<Longrightarrow> c \<noteq> ''..'' \<Longrightarrow> clean t (dir @ [c])"
  by (auto simp: solid_def clean_snoc clean_def strict_prefix_def dest: is_dir_not_link)

lemma kept_step: "kept dir t0 t \<Longrightarrow> touches (dir @ [c]) t t' \<Longrightarrow> wf_node t' \<Longrightarrow> kept dir t0 t'"
  unfolding kept_def touches_def using strict_snoc [of dir dir c] by (metis prefix_order.order_refl prefix_order.less_le_trans)

lemma kept_refl: "wf_node t \<Longrightarrow> kept dir t t"
  by (simp add: kept_def)

lemma other_entry: "touches (dir @ [c]) t t' \<Longrightarrow> d \<noteq> c \<Longrightarrow> info t' (dir @ [d]) = info t (dir @ [d])"
  by (auto simp: touches_def)

interpretation create_new: mutator "\<lambda>p. create_new k p data"
  by unfold_locales (auto simp: create_new_def dest!: locate_clean split: sum.splits)

lemma wf_create_new: "wf_node t \<Longrightarrow> wf_node (snd (create_new k p data t))"
  using walk_names [of t 40 False "[]" p] by (auto simp: create_new_def intro!: wf_change split: sum.splits)

text \<open>A step at an entry of the directory.\<close>

definition at_entry :: "path \<Rightarrow> string \<Rightarrow> fnode \<Rightarrow> fnode \<Rightarrow> bool" where
  "at_entry dir c t t' \<longleftrightarrow> touches (dir @ [c]) t t' \<and> (wf_node t \<longrightarrow> wf_node t')"

lemma at_entry_trans: "at_entry dir c t t1 \<Longrightarrow> at_entry dir c t1 t2 \<Longrightarrow> at_entry dir c t t2"
  by (auto simp: at_entry_def intro: touches_trans)

lemma kept_entry: "kept dir t0 t \<Longrightarrow> at_entry dir c t t' \<Longrightarrow> kept dir t0 t'"
  by (rule kept_step [of dir t0 t c]) (simp_all add: at_entry_def kept_def)

lemma entry_ops:
  assumes "solid t dir" and "c \<noteq> ''..''" and "wf_node t"
  shows "at_entry dir c t (remove_dir_all_quiet k (dir @ [c]) t)" "at_entry dir c t (snd (remove_file k (dir @ [c]) t))"
    "at_entry dir c t (snd (create_new k (dir @ [c]) data t))" "at_entry dir c t (snd (create_dir_all k (dir @ [c]) t))"
proof -
  note cl = solid_clean [OF assms(1,2)]
  show "at_entry dir c t (remove_dir_all_quiet k (dir @ [c]) t)"
    using remove_quiet_pruned [OF assms(3) cl] by (auto simp: at_entry_def pruned_def)
  show "at_entry dir c t (snd (remove_file k (dir @ [c]) t))"
    using remove_file.op_touches [OF cl] wf_ops(2) by (auto simp: at_entry_def)
  show "at_entry dir c t (snd (create_new k (dir @ [c]) data t))"
    using create_new.op_touches [OF cl] wf_create_new by (auto simp: at_entry_def)
  have "info (snd (create_dir_all k (dir @ [c]) t)) q = info t q" if "\<not> prefix (dir @ [c]) q" for q
  proof -
    have "info t q \<noteq> None" if "prefix q (dir @ [c])"
      using assms(1) that \<open>\<not> prefix (dir @ [c]) q\<close> by (auto simp: solid_def is_dir_at_def)
    then show ?thesis using create_dir_all_frame [OF cl] by blast
  qed
  then show "at_entry dir c t (snd (create_dir_all k (dir @ [c]) t))"
    using wf_create_dir_all by (auto simp: at_entry_def touches_def)
qed

lemma removed_no_link:
  assumes "clean t (p @ [c])" and "wf_node t" and "k_allow k Unlink (p @ [c])"
  shows "\<not> is_link (remove_dir_all_quiet k (p @ [c]) t) (p @ [c])"
proof (cases "is_link t (p @ [c])")
  case True
  with link_lstat [OF assms(1)] obtain l where l: "lstat t (p @ [c]) = Inr (Link l)" by blast
  with removed_link [OF assms(1) l assms(3)] show ?thesis by (simp add: remove_dir_all_quiet_def remove_at_def)
next
  case False
  with remove_quiet_pruned [OF assms(2,1)] show ?thesis by (auto simp: pruned_def fewer_links_def)
qed

lemma unpack_entry_dir:
  assumes "solid t dir" and "c \<noteq> ''..''" and "wf_node t" and "\<not> is_link t (dir @ [c])" and "\<And>p. k_allow k Unlink p"
  shows "at_entry dir c t (snd (unpack_layer k lossy (dir @ [c]) archive t))"
    and "\<not> is_link (snd (unpack_layer k lossy (dir @ [c]) archive t)) (dir @ [c])"
proof -
  have "held (dir @ [c]) t t" using assms by (auto simp: held_def root_ok_def solid_def strict_prefix_def)
  from held_unpack [OF this assms(5)] show "at_entry dir c t (snd (unpack_layer k lossy (dir @ [c]) archive t))"
    "\<not> is_link (snd (unpack_layer k lossy (dir @ [c]) archive t)) (dir @ [c])"
    by (simp_all add: held_def at_entry_def)
qed

lemma wf_rename: "wf_node t \<Longrightarrow> wf_node (snd (rename k p p' t))"
  using walk_names [of t 40 False "[]" p] walk_names [of t 40 False "[]" p']
  by (auto simp: rename_def Let_def intro!: wf_store dest: wf_node_at split: sum.splits option.splits fnode.splits)

lemma rename_kept:
  assumes "solid t dir" and "kept dir t0 t" and "c \<noteq> ''..''" and "d \<noteq> ''..''"
  shows "kept dir t0 (snd (rename k (dir @ [c]) (dir @ [d]) t))"
proof -
  have "touches (dir @ [c]) t (store_at None (dir @ [c]) t)" for t by simp
  have "info (store_at (Some n) (dir @ [d]) (store_at None (dir @ [c]) t)) q = info t q" if "\<not> strict_prefix dir q" for n q
    using that by (metis info_store_other strict_snoc prefix_order.less_le_trans prefix_order.order_refl)
  then have "info (snd (rename k (dir @ [c]) (dir @ [d]) t)) q = info t q" if "\<not> strict_prefix dir q" for q
    using that locate_clean [OF solid_clean [OF assms(1,3)]] locate_clean [OF solid_clean [OF assms(1,4)]]
    by (auto simp: rename_def Let_def split: sum.splits option.splits fnode.splits)
  with assms(2) wf_rename show ?thesis by (auto simp: kept_def)
qed

section \<open>The layers\<close>

text \<open>While layers are applied: the host is untouched and the staging directory is not a link.\<close>

definition staged :: "path \<Rightarrow> string \<Rightarrow> fnode \<Rightarrow> fnode \<Rightarrow> bool" where
  "staged dir tmp t0 t \<longleftrightarrow> kept dir t0 t \<and> \<not> is_link t (dir @ [tmp])"

lemma staged_other: "staged dir tmp t0 t \<Longrightarrow> at_entry dir c t t' \<Longrightarrow> c \<noteq> tmp \<Longrightarrow> staged dir tmp t0 t'"
  using other_entry [of dir c t t' tmp] kept_entry [of dir t0 t c t'] by (auto simp: staged_def at_entry_def is_link_def)

definition spool_name :: "layer_env \<Rightarrow> nat \<Rightarrow> string" where
  "spool_name env i = ''.tmp-spool-'' @ show_nat (le_pid env) @ ''-'' @ show_nat i"

definition tmp_name :: "layer_env \<Rightarrow> string \<Rightarrow> string" where
  "tmp_name env hex = ''.tmp-'' @ show_nat (le_pid env) @ ''-'' @ take 8 hex"

lemma spool_not_tmp: "spool_name env i \<noteq> tmp_name env hex"
proof
  assume "spool_name env i = tmp_name env hex"
  then have e: "CHR ''s'' # ''pool-'' @ show_nat (le_pid env) @ ''-'' @ show_nat i = show_nat (le_pid env) @ ''-'' @ take 8 hex"
    by (simp add: spool_name_def tmp_name_def)
  have "hd (show_nat (le_pid env) @ ''-'' @ take 8 hex) = CHR ''s''" unfolding e [symmetric] by simp
  then have "CHR ''s'' \<in> set (show_nat (le_pid env))" by (metis hd_append2 hd_in_set show_nat_not_Nil)
  then show False by (auto dest: show_nat_is_digit simp: ascii_class_defs)
qed

lemma staged_quiet:
  assumes "solid t0 dir" and "staged dir tmp t0 t" and "c \<noteq> ''..''"
  shows "staged dir tmp t0 (remove_dir_all_quiet k (dir @ [c]) t)"
proof -
  have s: "solid t dir" "wf_node t" using assms(2) solid_kept [OF assms(1)] by (auto simp: staged_def kept_def)
  have "pruned (dir @ [c]) t (remove_dir_all_quiet k (dir @ [c]) t)" by (rule remove_quiet_pruned [OF s(2) solid_clean [OF s(1) assms(3)]])
  with assms(2) kept_entry [OF _ entry_ops(1) [OF s(1) assms(3) s(2)]] show ?thesis by (auto simp: staged_def pruned_def fewer_links_def)
qed

lemma names [simp]: "spool_path env dir i = dir @ [spool_name env i]" "rootfs_tmp env dir hex = dir @ [tmp_name env hex]"
  "spool_name env i \<noteq> ''..''" "tmp_name env hex \<noteq> ''..''"
  by (simp_all add: spool_path_def rootfs_tmp_def spool_name_def tmp_name_def)

lemma spool_layer_entry:
  assumes "solid t dir" and "wf_node t" and "spool_layer env s dir hex mt i t = (r, t')"
  shows "at_entry dir (spool_name env i) t t' \<and>
    (\<forall>p h. r = Inr (p, h) \<longrightarrow> p = dir @ [spool_name env i] \<and> (\<exists>data. open_layer_reader env s hex mt = Inr (Some data) \<and> h = le_sha env data))"
proof -
  let ?c = "spool_name env i" and ?k = "le_kernel env"
  let ?t = "remove_dir_all_quiet ?k (dir @ [?c]) t"
  have e1: "at_entry dir ?c t ?t" using assms by (intro entry_ops) simp_all
  have k1: "kept dir t ?t" by (rule kept_entry [OF kept_refl [OF assms(2)] e1])
  have s1: "solid ?t dir" "wf_node ?t" using solid_kept [OF assms(1) k1] k1 by (auto simp: kept_def)
  have e2: "at_entry dir ?c t (snd (create_new ?k (dir @ [?c]) d ?t))" for d
    by (rule at_entry_trans [OF e1]) (rule entry_ops [OF s1(1) _ s1(2)], simp)
  have e3: "at_entry dir ?c t (snd (remove_file ?k (dir @ [?c]) (snd (create_new ?k (dir @ [?c]) d ?t))))" for d
  proof (rule at_entry_trans [OF e2 [of d]])
    have k2: "kept dir t (snd (create_new ?k (dir @ [?c]) d ?t))" by (rule kept_entry [OF kept_refl [OF assms(2)] e2])
    show "at_entry dir ?c (snd (create_new ?k (dir @ [?c]) d ?t)) (snd (remove_file ?k (dir @ [?c]) (snd (create_new ?k (dir @ [?c]) d ?t))))"
      using solid_kept [OF assms(1) k2] k2 by (intro entry_ops) (simp_all add: kept_def)
  qed
  have pair: "create_new ?k (dir @ [?c]) d ?t = (x, t2) \<Longrightarrow> at_entry dir ?c t t2 \<and> at_entry dir ?c t (snd (remove_file ?k (dir @ [?c]) t2))" for d x t2
    using e2 [of d] e3 [of d] by simp
  have "at_entry dir ?c t t" by (simp add: at_entry_def)
  then show ?thesis using assms(3)
    by (auto simp: spool_layer_def Let_def dest!: pair split: sum.splits option.splits prod.splits if_splits)
qed

lemma unpack_spool_staged:
  assumes "solid t0 dir" and "staged dir tmp t0 t" and "tmp \<noteq> ''..''" and "\<And>p. k_allow (le_kernel env) Unlink p"
    and "unpack_spool env spool (dir @ [tmp]) t = (r, t')"
  shows "staged dir tmp t0 t'"
proof -
  have s: "solid t dir" "wf_node t" "\<not> is_link t (dir @ [tmp])"
    using assms(2) solid_kept [OF assms(1)] by (auto simp: staged_def kept_def)
  have "staged dir tmp t0 (snd (unpack_layer (le_kernel env) (le_lossy env) (dir @ [tmp]) a t))" for a
    using unpack_entry_dir [OF s(1) assms(3) s(2,3), where k = "le_kernel env" and lossy = "le_lossy env" and archive = a] assms(2,4) kept_entry
    by (auto simp: staged_def)
  with assms(2,5) show ?thesis
    by (auto simp: unpack_spool_def split: sum.splits fnode.splits if_splits prod.splits) (metis snd_conv)+
qed

definition layer_checked :: "layer_env \<Rightarrow> image_store \<Rightarrow> Descriptor \<Rightarrow> string \<Rightarrow> bool" where
  "layer_checked env s layer diff_id \<longleftrightarrow> (\<exists>hex data. digest_hex (d_digest layer) = Inr hex \<and>
     open_layer_reader env s hex (d_media_type layer) = Inr (Some data) \<and> diff_id = ''sha256:'' @ le_sha env data)"

lemma apply_layers_staged:
  assumes "solid t0 dir" and "staged dir (tmp_name env h) t0 t" and "\<And>p. k_allow (le_kernel env) Unlink p"
    and "apply_layers env s dir (dir @ [tmp_name env h]) i ls t = (r, t')"
  shows "staged dir (tmp_name env h) t0 t' \<and> (r = Inr () \<longrightarrow> (\<forall>(l, d) \<in> set ls. layer_checked env s l d))"
  using assms(2,4)
proof (induction ls arbitrary: i t)
  case (Cons p ls)
  let ?tmp = "tmp_name env h" and ?k = "le_kernel env"
  obtain layer diff where p: "p = (layer, diff)" by force
  show ?case
  proof (cases "digest_hex (d_digest layer)")
    case (Inl e)
    with Cons.prems p show ?thesis by auto
  next
    case (Inr hex)
    obtain r1 t1 where sp: "spool_layer env s dir hex (d_media_type layer) i t = (r1, t1)" by force
    have "solid t dir" "wf_node t" using Cons.prems(1) solid_kept [OF assms(1)] by (auto simp: staged_def kept_def)
    note spool = spool_layer_entry [OF this sp]
    have s1: "staged dir ?tmp t0 t1" by (rule staged_other [OF Cons.prems(1) conjunct1 [OF spool] spool_not_tmp])
    note quiet = staged_quiet [OF assms(1), where k = ?k]
    show ?thesis
    proof (cases "\<exists>spool actual. r1 = Inr (spool, actual) \<and> ''sha256:'' @ actual = diff")
      case True
      then obtain spool actual where r1: "r1 = Inr (spool, actual)" "''sha256:'' @ actual = diff" by blast
      with spool have sn: "spool = dir @ [spool_name env i]" and ck: "layer_checked env s layer diff" using Inr by (auto simp: layer_checked_def)
      obtain r2 t2 where u: "unpack_spool env spool (dir @ [?tmp]) t1 = (r2, t2)" by force
      have s2: "staged dir ?tmp t0 t2" by (rule unpack_spool_staged [OF assms(1) s1 _ assms(3) u]) simp
      have s3: "staged dir ?tmp t0 (remove_dir_all_quiet ?k spool t2)" unfolding sn by (rule quiet [OF s2]) simp
      show ?thesis
      proof (cases r2)
        case (Inl e)
        with Cons.prems(2) p Inr sp r1 u quiet [OF s3] show ?thesis by (auto simp: Let_def)
      next
        case i2: (Inr x)
        with Cons.prems(2) p Inr sp r1 u have "apply_layers env s dir (dir @ [?tmp]) (Suc i) ls (remove_dir_all_quiet ?k spool t2) = (r, t')"
          by (simp add: Let_def)
        from Cons.IH [OF s3 this] ck p show ?thesis by auto
      qed
    next
      case False
      from s1 have s3: "staged dir ?tmp t0 (remove_dir_all_quiet ?k (dir @ [spool_name env i]) t1)" by (rule quiet) simp
      have "r \<noteq> Inr () \<and> staged dir ?tmp t0 t'"
        using False Cons.prems(2) p Inr sp quiet [OF s1] quiet [OF s3] conjunct2 [OF spool]
        by (cases r1) (auto simp: Let_def split: if_splits)
      then show ?thesis by simp
    qed
  qed
qed simp

lemma install_kept:
  assumes "solid t0 dir" and "staged dir tmp t0 t" and "tmp \<noteq> ''..''" and "c \<noteq> ''..''" and "install_rootfs env (dir @ [tmp]) (dir @ [c]) t = (r, t')"
  shows "kept dir t0 t' \<and> (\<forall>p. r = Inr p \<longrightarrow> p = dir @ [c])"
proof -
  obtain x t1 where n: "rename (le_kernel env) (dir @ [tmp]) (dir @ [c]) t = (x, t1)" by force
  have k: "kept dir t0 t" using assms(2) by (simp add: staged_def)
  have k1: "kept dir t0 t1" using rename_kept [OF solid_kept [OF assms(1) k] k assms(3,4), of "le_kernel env"] n by simp
  have "kept dir t0 (remove_dir_all_quiet (le_kernel env) (dir @ [tmp]) t1)"
    by (rule kept_entry [OF k1 entry_ops(1) [OF solid_kept [OF assms(1) k1] assms(3)]]) (use k1 in \<open>simp add: kept_def\<close>)
  with k1 n assms(5) show ?thesis by (cases x) (auto simp: install_rootfs_def split: if_splits)
qed

lemma hex_not_dots: "digest_hex d = Inr hex \<Longrightarrow> hex \<noteq> ''..''"
  by (auto simp: digest_hex_def split: option.splits if_splits)

lemma staging_begins:
  assumes "solid t dir" and "wf_node t" and "c \<noteq> ''..''" and "k_allow k Unlink (dir @ [c])"
  shows "staged dir c t (snd (create_dir_all k (dir @ [c]) (remove_dir_all_quiet k (dir @ [c]) t)))"
proof -
  let ?t = "remove_dir_all_quiet k (dir @ [c]) t"
  have k: "kept dir t ?t" by (rule kept_entry [OF kept_refl [OF assms(2)] entry_ops(1) [OF assms(1,3,2)]])
  then have s: "solid ?t dir" "wf_node ?t" using solid_kept [OF assms(1)] by (auto simp: kept_def)
  have "\<not> is_link ?t (dir @ [c])" by (rule removed_no_link [OF solid_clean [OF assms(1,3)] assms(2,4)])
  with create_dir_all_frame [OF solid_clean [OF s(1) assms(3)]] kept_entry [OF k entry_ops(4) [OF s(1) assms(3) s(2)]]
  show ?thesis by (auto simp: staged_def)
qed

lemma zip_checked: "length xs = length ys \<Longrightarrow> (\<forall>(x, y) \<in> set (zip xs ys). P x y) \<longleftrightarrow> list_all2 P xs ys"
  by (auto simp: list_all2_iff)

lemma materialize_cases:
  assumes "solid t dir" and "wf_node t" and "\<And>p. k_allow (le_kernel env) Unlink p" and "materialize_local_rootfs env s dir m cfg t = (r, t')"
  shows "kept dir t t' \<and> (\<forall>p. r = Inr p \<longrightarrow> (\<exists>hex. digest_hex (d_digest (m_config m)) = Inr hex \<and> p = dir @ [hex]) \<and>
    (is_dir t p \<or> list_all2 (layer_checked env s) (m_layers m) (ic_diff_ids cfg)))"
proof (cases "digest_hex (d_digest (m_config m))")
  case (Inl e)
  with assms(2,4) show ?thesis by (auto simp: materialize_local_rootfs_def kept_refl)
next
  case (Inr hex)
  let ?k = "le_kernel env" and ?tmp = "tmp_name env hex"
  obtain x t1 where c: "create_dir_all ?k (dir @ [?tmp]) (remove_dir_all_quiet ?k (dir @ [?tmp]) t) = (x, t1)" by force
  have s1: "staged dir ?tmp t t1" using staging_begins [OF assms(1,2) _ assms(3), of ?tmp] c by simp
  obtain y t2 where l: "apply_layers env s dir (dir @ [?tmp]) 0 (zip (m_layers m) (ic_diff_ids cfg)) t1 = (y, t2)" by force
  note al = apply_layers_staged [OF assms(1) s1 assms(3) l]
  obtain z t3 where i: "install_rootfs env (dir @ [?tmp]) (dir @ [hex]) t2 = (z, t3)" by force
  note ik = install_kept [OF assms(1) conjunct1 [OF al] _ hex_not_dots [OF Inr] i]
  consider "is_dir t (dir @ [hex])" "r = Inr (dir @ [hex])" "t' = t" | e where "r = Inl e" "t' = t" | e where "r = Inl e" "t' = t1"
    | e where "r = Inl e" "t' = t2"
    | "length (ic_diff_ids cfg) = length (m_layers m)" "y = Inr ()" "r = z" "t' = t3"
    using assms(4) Inr c l i unfolding materialize_local_rootfs_def
    by (cases "is_dir t (dir @ [hex])"; cases "length (ic_diff_ids cfg) = length (m_layers m)"; cases x; cases y) (auto simp: Let_def)
  then show ?thesis
  proof cases
    case 5
    with al zip_checked [of "m_layers m" "ic_diff_ids cfg"] ik Inr show ?thesis by auto
  qed (use assms(2) s1 al Inr in \<open>auto simp: kept_refl staged_def\<close>)
qed

end
