(* ===== verification/Rootfs_Props.thy ===== *)
theory Rootfs_Props
  imports Rootfs_Facts File_Props Image_Store_Props
begin

text \<open>
  The property of materialised root file systems, with a small image to try it on.
\<close>

text \<open>The image of the sample store with a plain layer; the digest of everything is that of the layer.\<close>

definition layer_host :: layer_env where
  "layer_host = \<lparr>le_sha = (\<lambda>_. hex_of CHR ''c''), le_readable = (\<lambda>_. True), le_gunzip = (\<lambda>_. None), le_unzstd = (\<lambda>_. None),
     le_untar = (\<lambda>_. Some hostile_layer), le_untar_gz = (\<lambda>_. None), le_lossy = (\<lambda>n. n), le_pid = 7, le_kernel = open_kernel\<rparr>"

definition layer_manifest :: Manifest where
  "layer_manifest = \<lparr>m_config = desc CHR ''b'', m_layers = [desc CHR ''c'']\<rparr>"

definition layer_config :: ImageConfig where
  "layer_config = \<lparr>ic_architecture = [], ic_os = [],
     ic_config = \<lparr>cc_env = [], cc_entrypoint = [], cc_cmd = [], cc_working_dir = [], cc_user = [], cc_labels = []\<rparr>, ic_diff_ids = [dig CHR ''c'']\<rparr>"

text \<open>C17: Materialising the root file system of an image, whatever the layers contain, changes nothing outside the directory of the
  root file systems, as long as the kernel lets links be removed. When it succeeds, the directory it returns is the one named after
  the configuration, and it was there before or the configuration lists one digest per layer and every layer, decompressed as its
  media type or its first bytes say, has the digest listed for it.\<close>

theorem rootfs_checked:
  assumes "solid t dir" and "wf_node t" and "\<And>p. k_allow (le_kernel env) Unlink p"
    and "materialize_local_rootfs env s dir m cfg t = (r, t')"
  shows "(\<forall>q. \<not> strict_prefix dir q \<longrightarrow> info t' q = info t q) \<and>
    (\<forall>p. r = Inr p \<longrightarrow> (\<exists>hex. d_digest (m_config m) = ''sha256:'' @ hex \<and> p = dir @ [hex]) \<and>
      (is_dir t p \<or> list_all2 (layer_checked env s) (m_layers m) (ic_diff_ids cfg)))"
proof -
  from materialize_cases [OF assms] have *: "kept dir t t'"
    "\<And>p. r = Inr p \<Longrightarrow> (\<exists>hex. digest_hex (d_digest (m_config m)) = Inr hex \<and> p = dir @ [hex]) \<and>
      (is_dir t p \<or> list_all2 (layer_checked env s) (m_layers m) (ic_diff_ids cfg))"
    by blast+
  from *(1) have "\<forall>q. \<not> strict_prefix dir q \<longrightarrow> info t' q = info t q" by (simp add: kept_def)
  with *(2) show ?thesis by (fastforce simp: digest_hex_Inr)
qed

theorem rootfs_checked_witness:
  "\<exists>t'. materialize_local_rootfs layer_host sample_store [''s''] layer_manifest layer_config sample_tree = (Inr [''s'', hex_of CHR ''b''], t') \<and>
    info t' [''etc'', ''passwd''] = Some (IFile 420 ''root'') \<and> layer_checked layer_host sample_store (desc CHR ''c'') (dig CHR ''c'')"
proof -
  obtain r t' where r: "materialize_local_rootfs layer_host sample_store [''s''] layer_manifest layer_config sample_tree = (r, t')" by fastforce
  have d: "digest_hex (dig CHR ''c'') = Inr (hex_of CHR ''c'')" "digest_hex (dig CHR ''b'') = Inr (hex_of CHR ''b'')" by (simp_all)
  have so: "solid sample_tree [''s'']" by (auto simp: solid_def prefix_Cons is_dir_at_def info_def sample_tree_def)
  have w: "wf_node sample_tree" by (simp add: sample_tree_def)
  have nd: "\<not> is_dir sample_tree [''s'', hex_of CHR ''b'']" by code_simp
  note ck = rootfs_checked [OF so w _ r]
  have k: "k_allow (le_kernel layer_host) Unlink p" for p by (simp add: layer_host_def open_kernel_def)
  have "fst (materialize_local_rootfs layer_host sample_store [''s''] layer_manifest layer_config sample_tree) = Inr [''s'', hex_of CHR ''b'']"
    by code_simp
  with r have ok: "r = Inr [''s'', hex_of CHR ''b'']" by simp
  have "info t' [''etc'', ''passwd''] = info sample_tree [''etc'', ''passwd'']" using ck [OF k] by simp
  moreover have "info sample_tree [''etc'', ''passwd''] = Some (IFile 420 ''root'')" by (simp add: sample_tree_def info_def)
  moreover have "layer_checked layer_host sample_store (desc CHR ''c'') (dig CHR ''c'')"
    using ck [OF k] ok nd by (simp add: layer_manifest_def layer_config_def)
  ultimately show ?thesis using r ok by simp
qed

end
