(* ===== verification/Pull.thy ===== *)
theory Pull
  imports Registry Rootfs Run_Args
begin

text \<open>
  Pulling an image (src/image/pull.rs) and choosing the image of a run (src/main.rs): a reference is resolved to one manifest on the
  first endpoint that answers, its blobs are downloaded and verified, the root file system is materialised, and the tag is recorded.

  The state is the registry client, the image store and the file tree with the root file systems. JSON is a parameter, as are the
  answers of the file system (\<open>pe_io\<close>, by digest).
\<close>

record pull_env =
  pe_http :: http_env
  pe_layers :: layer_env
  pe_json :: "string \<Rightarrow> json_view option"
  pe_config :: "string \<Rightarrow> ImageConfig option"
  pe_io :: "string \<Rightarrow> blob_io"
  pe_host :: Platform
  pe_dir :: path
  pe_same_root :: bool
  pe_lock :: bool
  pe_written :: bool
  pe_now :: nat

record pull_state =
  pl_client :: RegistryClient
  pl_store :: image_store
  pl_fs :: fnode

datatype pull_error =
    FromRegistry reg_error
  | FromStore store_error
  | FromManifest manifest_error
  | FromRootfs rootfs_error
  | ReadManifest string
  | SaidDigest string string
  | NoChildManifest
  | NoEndpointReachable string
  | NoEndpointServed string
  | ConfigGone
  | ConfigJson
  | WrongPlatform string string
  | OtherDataRoot
  | RootfsMissing
  | ConfigCorrupt
  | LocalPlatform string string
  | NotLocal

abbreviation pe_sha :: "pull_env \<Rightarrow> string \<Rightarrow> string" where "pe_sha env \<equiv> le_sha (pe_layers env)"
abbreviation pe_readable :: "pull_env \<Rightarrow> string \<Rightarrow> bool" where "pe_readable env \<equiv> le_readable (pe_layers env)"

definition ACCEPT_MANIFEST :: string where
  "ACCEPT_MANIFEST = ''application/vnd.docker.distribution.manifest.v2+json, application/vnd.docker.distribution.manifest.list.v2+json, ''
     @ ''application/vnd.oci.image.manifest.v1+json, application/vnd.oci.image.index.v1+json''"

section \<open>Manifests\<close>

definition store_manifest :: "pull_env \<Rightarrow> string option \<Rightarrow> string \<Rightarrow> image_store \<Rightarrow> (pull_error + string) \<times> image_store" where
  "store_manifest env dig bytes s =
     (let actual = ''sha256:'' @ pe_sha env bytes in
      (case (case dig of Some d \<Rightarrow> if d \<noteq> actual then Inl (SaidDigest d actual) else Inr d | None \<Rightarrow> Inr actual) of
         Inl e \<Rightarrow> (Inl e, s)
       | Inr d \<Rightarrow> (case write_blob (pe_sha env) (pe_readable env) (pe_io env d) d bytes s of
             (Inl e, s) \<Rightarrow> (Inl (FromStore e), s) | (Inr _, s) \<Rightarrow> (Inr d, s))))"

text \<open>A GET, with the client of the state.\<close>

definition fetch :: "pull_env \<Rightarrow> string \<Rightarrow> string option \<Rightarrow> string \<Rightarrow> string \<Rightarrow> pull_state \<Rightarrow> (pull_error + response) \<times> pull_state" where
  "fetch env url accept reg repo st = (case get (pe_http env) url accept reg repo (pl_client st) of
      (Inl e, c) \<Rightarrow> (Inl (FromRegistry e), st\<lparr>pl_client := c\<rparr>)
    | (Inr resp, c) \<Rightarrow> (Inr resp, st\<lparr>pl_client := c\<rparr>))"

definition manifest_url :: "string \<Rightarrow> string \<Rightarrow> string \<Rightarrow> string" where
  "manifest_url base repo req_ref = base @ ''/v2/'' @ repo @ ''/manifests/'' @ req_ref"

definition keep_manifest :: "pull_env \<Rightarrow> string option \<Rightarrow> string \<Rightarrow> pull_state \<Rightarrow> (pull_error + string) \<times> pull_state" where
  "keep_manifest env dig bytes st = (case store_manifest env dig bytes (pl_store st) of (r, s) \<Rightarrow> (r, st\<lparr>pl_store := s\<rparr>))"

text \<open>The attempt at one endpoint: the digest and the bytes of the single manifest, and the digest of the index it came from.\<close>

definition resolve_child ::
  "pull_env \<Rightarrow> string \<Rightarrow> string \<Rightarrow> Platform \<Rightarrow> string \<Rightarrow> Index \<Rightarrow> string \<Rightarrow> pull_state \<Rightarrow> (pull_error + string \<times> string \<times> string option) \<times> pull_state" where
  "resolve_child env reg repo want base index index_digest st = (case ImageDoc_select (DocIndex index) want of
      Inl e \<Rightarrow> (Inl (FromManifest e), st)
    | Inr None \<Rightarrow> (Inl NoChildManifest, st)
    | Inr (Some child) \<Rightarrow>
        (case fetch env (manifest_url base repo (d_digest child)) (Some ACCEPT_MANIFEST) reg repo st of
           (Inl e, st) \<Rightarrow> (Inl e, st)
         | (Inr resp, st) \<Rightarrow> (case re_text resp of
               Inl t \<Rightarrow> (Inl (ReadManifest t), st)
             | Inr child_bytes \<Rightarrow> (case keep_manifest env (Some (d_digest child)) child_bytes st of
                   (Inl e, st) \<Rightarrow> (Inl e, st)
                 | (Inr d, st) \<Rightarrow> (Inr (d, child_bytes, Some index_digest), st)))))"

definition resolve_at ::
  "pull_env \<Rightarrow> string \<Rightarrow> string \<Rightarrow> string \<Rightarrow> Platform \<Rightarrow> string \<Rightarrow> pull_state \<Rightarrow> (pull_error + string \<times> string \<times> string option) \<times> pull_state" where
  "resolve_at env reg repo req_ref want base st =
     (case fetch env (manifest_url base repo req_ref) (Some ACCEPT_MANIFEST) reg repo st of
        (Inl e, st) \<Rightarrow> (Inl e, st)
      | (Inr resp, st) \<Rightarrow> (case re_text resp of
            Inl t \<Rightarrow> (Inl (ReadManifest t), st)
          | Inr bytes \<Rightarrow> (case classify (pe_json env) bytes of
                Inl e \<Rightarrow> (Inl (FromManifest e), st)
              | Inr (DocManifest _) \<Rightarrow> (case keep_manifest env (re_header resp ''docker-content-digest'') bytes st of
                    (Inl e, st) \<Rightarrow> (Inl e, st) | (Inr d, st) \<Rightarrow> (Inr (d, bytes, None), st))
              | Inr (DocIndex index) \<Rightarrow> (case keep_manifest env (re_header resp ''docker-content-digest'') bytes st of
                    (Inl e, st) \<Rightarrow> (Inl e, st)
                  | (Inr index_digest, st) \<Rightarrow> resolve_child env reg repo want base index index_digest st))))"

fun resolve_single_manifest ::
  "pull_env \<Rightarrow> string \<Rightarrow> string \<Rightarrow> string \<Rightarrow> Platform \<Rightarrow> pull_error option \<Rightarrow> string list \<Rightarrow> pull_state \<Rightarrow>
   (pull_error + string \<times> string \<times> string option) \<times> pull_state" where
  "resolve_single_manifest env reg repo req_ref want last_err [] st =
     (Inl (case last_err of Some e \<Rightarrow> e | None \<Rightarrow> NoEndpointReachable repo), st)"
| "resolve_single_manifest env reg repo req_ref want last_err (base # eps) st =
     (case resolve_at env reg repo req_ref want base st of
        (Inr v, st) \<Rightarrow> (Inr v, st)
      | (Inl e, st) \<Rightarrow> resolve_single_manifest env reg repo req_ref want (Some e) eps st)"

section \<open>Blobs\<close>

fun blob_from ::
  "pull_env \<Rightarrow> string \<Rightarrow> string \<Rightarrow> string \<Rightarrow> pull_error option \<Rightarrow> string list \<Rightarrow> pull_state \<Rightarrow> (pull_error + unit) \<times> pull_state" where
  "blob_from env reg repo dig last_err [] st = (Inl (case last_err of Some e \<Rightarrow> e | None \<Rightarrow> NoEndpointServed dig), st)"
| "blob_from env reg repo dig last_err (base # eps) st =
     (case fetch env (base @ ''/v2/'' @ repo @ ''/blobs/'' @ dig) None reg repo st of
        (Inl e, st) \<Rightarrow> blob_from env reg repo dig (Some e) eps st
      | (Inr resp, st) \<Rightarrow>
          (case store_blob_stream (pe_sha env) (pe_readable env) (pe_io env dig) dig (re_reader resp) (pl_store st) of
             (Inr _, s) \<Rightarrow> (Inr (), st\<lparr>pl_store := s\<rparr>)
           | (Inl e, s) \<Rightarrow> blob_from env reg repo dig (Some (FromStore e)) eps (st\<lparr>pl_store := s\<rparr>)))"

definition ensure_blob ::
  "pull_env \<Rightarrow> string list \<Rightarrow> string \<Rightarrow> string \<Rightarrow> string \<Rightarrow> pull_state \<Rightarrow> (pull_error + unit) \<times> pull_state" where
  "ensure_blob env eps reg repo dig st = (case verify_blob (pe_sha env) (pe_readable env) dig (pl_store st) of
      Inl e \<Rightarrow> (Inl (FromStore e), st)
    | Inr True \<Rightarrow> (Inr (), st)
    | Inr False \<Rightarrow> blob_from env reg repo dig None eps st)"

fun ensure_layers ::
  "pull_env \<Rightarrow> string list \<Rightarrow> string \<Rightarrow> string \<Rightarrow> Descriptor list \<Rightarrow> pull_state \<Rightarrow> (pull_error + unit) \<times> pull_state" where
  "ensure_layers env eps reg repo [] st = (Inr (), st)"
| "ensure_layers env eps reg repo (layer # layers) st = (case ensure_blob env eps reg repo (d_digest layer) st of
      (Inl e, st) \<Rightarrow> (Inl e, st)
    | (Inr _, st) \<Rightarrow> ensure_layers env eps reg repo layers st)"

definition materialize_rootfs ::
  "pull_env \<Rightarrow> string list \<Rightarrow> string \<Rightarrow> string \<Rightarrow> Manifest \<Rightarrow> ImageConfig \<Rightarrow> pull_state \<Rightarrow> (pull_error + path) \<times> pull_state" where
  "materialize_rootfs env eps reg repo m cfg st = (case ensure_layers env eps reg repo (m_layers m) st of
      (Inl e, st) \<Rightarrow> (Inl e, st)
    | (Inr _, st) \<Rightarrow> (case materialize_local_rootfs (pe_layers env) (pl_store st) (pe_dir env) m cfg (pl_fs st) of
          (Inl e, t) \<Rightarrow> (Inl (FromRootfs e), st\<lparr>pl_fs := t\<rparr>)
        | (Inr p, t) \<Rightarrow> (Inr p, st\<lparr>pl_fs := t\<rparr>)))"

section \<open>The pull\<close>

record PulledImage =
  pi_rootfs :: path
  pi_config :: ImageConfig
  pi_size :: nat

text \<open>\<open>Panics\<close>: the \<open>unreachable!\<close> of the source.\<close>

datatype 'a outcome = Panics | Returns "pull_error + 'a"

definition wanted_platform :: "pull_env \<Rightarrow> string option \<Rightarrow> pull_error + Platform" where
  "wanted_platform env platform = (case platform of
      None \<Rightarrow> Inr (pe_host env) | Some p \<Rightarrow> map_err FromManifest (Platform_parse p))"

definition config_matches :: "ImageConfig \<Rightarrow> Platform \<Rightarrow> bool" where
  "config_matches cfg want \<longleftrightarrow> ic_architecture cfg = [] \<or> ic_os cfg = [] \<or> (ic_architecture cfg = p_architecture want \<and> ic_os cfg = p_os want)"

text \<open>The sum of the advertised sizes wraps, as \<open>u64\<close> does in a release build.\<close>

definition layer_bytes :: "Manifest \<Rightarrow> nat" where
  "layer_bytes m = sum_list (map d_size (m_layers m)) mod 2 ^ 64"

text \<open>What follows the resolution of the manifest: configuration, platform, root file system, index.\<close>

definition pull_manifest ::
  "pull_env \<Rightarrow> Reference \<Rightarrow> Platform \<Rightarrow> string list \<Rightarrow> string \<Rightarrow> Manifest \<Rightarrow> string option \<Rightarrow> pull_state \<Rightarrow> (pull_error + PulledImage) \<times> pull_state" where
  "pull_manifest env reference want eps manifest_digest m index_digest st =
     (let reg = registry reference; repo = repository reference; cdig = d_digest (m_config m) in
      (case ensure_blob env eps reg repo cdig st of
         (Inl e, st) \<Rightarrow> (Inl e, st)
       | (Inr _, st) \<Rightarrow> (case read_blob (pe_readable env) cdig (pl_store st) of
             Inl e \<Rightarrow> (Inl (FromStore e), st)
           | Inr None \<Rightarrow> (Inl ConfigGone, st)
           | Inr (Some bytes) \<Rightarrow> (case pe_config env bytes of
                 None \<Rightarrow> (Inl ConfigJson, st)
               | Some cfg \<Rightarrow>
                   if \<not> config_matches cfg want then (Inl (WrongPlatform (ic_os cfg) (ic_architecture cfg)), st)
                   else (case materialize_rootfs env eps reg repo m cfg st of
                       (Inl e, st) \<Rightarrow> (Inl e, st)
                     | (Inr rootfs, st) \<Rightarrow>
                         (let tg = (case digest reference of Some _ \<Rightarrow> None
                               | None \<Rightarrow> Some (case tag reference of Some t \<Rightarrow> t | None \<Rightarrow> ''latest'')) in
                          (case add_index_image (pe_lock env) (pe_written env) (pe_now env) (reg @ ''/'' @ repo) tg manifest_digest cdig
                                  (layer_bytes m) index_digest (pl_store st) of
                             (Inl e, s) \<Rightarrow> (Inl (FromStore e), st\<lparr>pl_store := s\<rparr>)
                           | (Inr _, s) \<Rightarrow> (Inr \<lparr>pi_rootfs = rootfs, pi_config = cfg, pi_size = layer_bytes m\<rparr>, st\<lparr>pl_store := s\<rparr>))))))))"

definition requested_ref :: "Reference \<Rightarrow> string" where
  "requested_ref reference = (case digest reference of
      Some d \<Rightarrow> d | None \<Rightarrow> (case tag reference of Some t \<Rightarrow> t | None \<Rightarrow> ''latest''))"

definition pull_image_with_lease ::
  "pull_env \<Rightarrow> Reference \<Rightarrow> string option \<Rightarrow> pull_state \<Rightarrow> PulledImage outcome \<times> pull_state" where
  "pull_image_with_lease env reference platform st =
     (if \<not> pe_same_root env then (Returns (Inl OtherDataRoot), st)
      else (case wanted_platform env platform of
          Inl e \<Rightarrow> (Returns (Inl e), st)
        | Inr want \<Rightarrow>
            (let eps = endpoints (pl_client st) (registry reference) in
             (case resolve_single_manifest env (registry reference) (repository reference) (requested_ref reference) want None eps st of
                (Inl e, st) \<Rightarrow> (Returns (Inl e), st)
              | (Inr (manifest_digest, bytes, index_digest), st) \<Rightarrow> (case classify (pe_json env) bytes of
                    Inl e \<Rightarrow> (Returns (Inl (FromManifest e)), st)
                  | Inr (DocIndex _) \<Rightarrow> (Panics, st)
                  | Inr (DocManifest m) \<Rightarrow>
                      (case pull_manifest env reference want eps manifest_digest m index_digest st of (r, st) \<Rightarrow> (Returns r, st)))))))"

definition pull_image :: "bool \<Rightarrow> pull_env \<Rightarrow> Reference \<Rightarrow> string option \<Rightarrow> pull_state \<Rightarrow> PulledImage outcome \<times> pull_state" where
  "pull_image operation env reference platform st =
     (if \<not> operation then (Returns (Inl (FromStore OperationLock)), st)
      else pull_image_with_lease (env\<lparr>pe_same_root := True\<rparr>) reference platform st)"

section \<open>The image of a run\<close>

definition local_image :: "pull_env \<Rightarrow> Reference \<Rightarrow> pull_state \<Rightarrow> pull_error + (path \<times> ImageConfig) option" where
  "local_image env reference st =
     (let name = registry reference @ ''/'' @ repository reference; s = pl_store st in
      and_then (map_err FromStore (find_record name (tag reference) (digest reference) s)) (\<lambda>found. case found of
          None \<Rightarrow> Inr None
        | Some rec \<Rightarrow>
            and_then (map_err FromStore (digest_hex (ir_config rec))) (\<lambda>hex.
            let rootfs = pe_dir env @ [hex] in
            if \<not> is_dir (pl_fs st) rootfs then Inl RootfsMissing
            else and_then (map_err FromStore (verify_blob (pe_sha env) (pe_readable env) (ir_config rec) s)) (\<lambda>ok.
            if \<not> ok then Inl ConfigCorrupt
            else and_then (map_err FromStore (read_blob (pe_readable env) (ir_config rec) s)) (\<lambda>b. case b of
                None \<Rightarrow> Inl ConfigGone
              | Some bytes \<Rightarrow> (case pe_config env bytes of None \<Rightarrow> Inl ConfigJson | Some cfg \<Rightarrow> Inr (Some (rootfs, cfg))))))))"

definition local_image_matches_platform :: "ImageConfig \<Rightarrow> Platform \<Rightarrow> bool" where
  "local_image_matches_platform cfg requested \<longleftrightarrow>
     (ic_os cfg = [] \<or> ic_os cfg = p_os requested) \<and> (ic_architecture cfg = [] \<or> ic_architecture cfg = p_architecture requested)"

text \<open>The store of the state is the one \<open>ImageStore::open\<close> returns, the client the one \<open>RegistryClient::new\<close> makes.\<close>

definition resolve_run_image ::
  "pull_env \<Rightarrow> Reference \<Rightarrow> string option \<Rightarrow> PullPolicy \<Rightarrow> pull_state \<Rightarrow> (path \<times> ImageConfig) outcome \<times> pull_state" where
  "resolve_run_image env reference platform pull st = (case wanted_platform env platform of
      Inl e \<Rightarrow> (Returns (Inl e), st)
    | Inr requested \<Rightarrow>
        (let fresh = (case pull_image_with_lease env reference platform st of
              (Panics, st) \<Rightarrow> (Panics, st)
            | (Returns (Inl e), st) \<Rightarrow> (Returns (Inl e), st)
            | (Returns (Inr p), st) \<Rightarrow> (Returns (Inr (pi_rootfs p, pi_config p)), st)) in
         if pull = Always then fresh
         else (case local_image env reference st of
             Inl e \<Rightarrow> (Returns (Inl e), st)
           | Inr (Some (rootfs, cfg)) \<Rightarrow>
               if local_image_matches_platform cfg requested then (Returns (Inr (rootfs, cfg)), st)
               else if pull = Never then (Returns (Inl (LocalPlatform (ic_os cfg) (ic_architecture cfg))), st)
               else fresh
           | Inr None \<Rightarrow> if pull = Never then (Returns (Inl NotLocal), st) else fresh)))"

end
