(* ===== verification/Pull_Facts.thy ===== *)
theory Pull_Facts
  imports Pull Image_Store_Facts Registry_Facts Rootfs_Facts
begin

text \<open>
  Facts about pulls: blobs that were stored stay stored, and a pull that succeeds has stored the manifest, the configuration and every
  layer under their digests.
\<close>

section \<open>Stored blobs\<close>

definition stored :: "(string \<Rightarrow> string) \<Rightarrow> image_store \<Rightarrow> string \<Rightarrow> bool" where
  "stored sha s d \<longleftrightarrow> (\<exists>hex b. digest_hex d = Inr hex \<and> map_of (is_blobs s) hex = Some (BlobFile b) \<and> sha b = hex)"

text \<open>The store has grown from \<open>s\<close> to \<open>s'\<close>: nothing that was stored is gone, the index is as it was.\<close>

definition grown :: "(string \<Rightarrow> string) \<Rightarrow> image_store \<Rightarrow> image_store \<Rightarrow> bool" where
  "grown sha s s' \<longleftrightarrow> (\<forall>d. stored sha s d \<longrightarrow> stored sha s' d) \<and> is_index s' = is_index s"

lemma grown_refl [simp]: "grown sha s s"
  by (simp add: grown_def)

lemma grown_trans [trans]: "grown sha a b \<Longrightarrow> grown sha b c \<Longrightarrow> grown sha a c"
  by (simp add: grown_def)

lemma grown_stored: "grown sha s s' \<Longrightarrow> stored sha s d \<Longrightarrow> stored sha s' d"
  by (simp add: grown_def)

text \<open>What a user of the store relies on: an operation keeps what is stored, and when it succeeds its own blob is stored.\<close>

locale blob_writer =
  fixes sha :: "string \<Rightarrow> string"
    and op :: "string \<Rightarrow> image_store \<Rightarrow> (store_error + unit) \<times> image_store"
    and good :: "string \<Rightarrow> bool"
  assumes keeps: "good d' \<Longrightarrow> stored sha s d \<Longrightarrow> stored sha (snd (op d' s)) d"
    and adds: "op d s = (Inr x, s') \<Longrightarrow> stored sha s' d"
    and index: "is_index (snd (op d s)) = is_index s"
begin

lemma op_grown: "good d \<Longrightarrow> op d s = (r, s') \<Longrightarrow> grown sha s s' \<and> (r = Inr () \<longrightarrow> stored sha s' d)"
proof -
  assume g: "good d" and o: "op d s = (r, s')"
  have 1: "stored sha s' e" if "stored sha s e" for e using keeps [OF g that] by (simp add: o)
  have 2: "is_index s' = is_index s" using index [of d s] by (simp add: o)
  have 3: "stored sha s' d" if "r = Inr ()" using adds [of d s "()" s'] by (simp add: o that)
  show ?thesis unfolding grown_def by (intro conjI allI impI 1 2 3)
qed

end

lemma stored_update: "stored sha s d \<Longrightarrow> \<not> is_config_name k \<or> sha b = k \<Longrightarrow> stored sha (set_blobs (AList.update k (BlobFile b) (is_blobs s)) s) d"
proof -
  assume "stored sha s d" and k: "\<not> is_config_name k \<or> sha b = k"
  then obtain hex b' where h: "digest_hex d = Inr hex" "map_of (is_blobs s) hex = Some (BlobFile b')" "sha b' = hex"
    unfolding stored_def by blast
  show ?thesis
  proof (cases "hex = k")
    case True
    with h(1) k have "sha b = k" by (simp add: digest_hex_Inr)
    with h(1) True show ?thesis unfolding stored_def set_blobs_def by (intro exI [of _ hex] exI [of _ b]) (simp add: update_conv')
  next
    case False
    with h show ?thesis unfolding stored_def set_blobs_def by (intro exI [of _ hex] exI [of _ b']) (simp add: update_conv')
  qed
qed

lemma stored_give_up: "stored sha s d \<Longrightarrow> tmp_ok io \<Longrightarrow> stored sha (give_up io s) d"
  using tmp_not_config by (auto simp: give_up_def tmp_ok_def intro: stored_update split: option.splits)

lemma stored_install: "stored sha s d \<Longrightarrow> tmp_ok io \<Longrightarrow> sha b = hex \<Longrightarrow> stored sha (snd (install_blob_temp io hex b d' s)) d"
  by (auto simp: install_blob_temp_def intro: stored_update stored_give_up)

lemma installed: "install_blob_temp io hex b d s = (Inr x, s') \<Longrightarrow> digest_hex d = Inr hex \<Longrightarrow> sha b = hex \<Longrightarrow> stored sha s' d"
  by (auto simp: install_blob_temp_def stored_def set_blobs_def update_conv' split: if_splits)

lemma verified_stored: "verify_blob sha readable d s = Inr True \<Longrightarrow> stored sha s d"
  by (cases "digest_hex d") (auto simp: verify_blob_def stored_def split: option.splits blob_entry.splits if_splits)

interpretation manifest_writer: blob_writer sha "\<lambda>d. write_blob sha readable (io d) d (content d)" "\<lambda>d. tmp_ok (io d)" for sha readable io content
proof (unfold_locales, goal_cases)
  case (1 d' s d)
  then show ?case by (auto simp: write_blob_def intro: stored_install stored_give_up split: sum.splits bool.splits)
next
  case (2 d s x s')
  then show ?case by (auto simp: write_blob_def intro: installed verified_stored split: sum.splits bool.splits if_splits)
next
  case (3 d s)
  then show ?case by simp
qed

interpretation layer_writer: blob_writer sha "\<lambda>d. store_blob_stream sha readable (io d) d reader" "\<lambda>d. tmp_ok (io d)" for sha readable io reader
proof (unfold_locales, goal_cases)
  case (1 d' s d)
  then show ?case by (auto simp: store_blob_stream_def intro: stored_install stored_give_up split: sum.splits bool.splits option.splits)
next
  case (2 d s x s')
  then show ?case by (auto simp: store_blob_stream_def intro: installed verified_stored split: sum.splits bool.splits option.splits if_splits)
next
  case (3 d s)
  then show ?case by simp
qed

section \<open>The steps of a pull\<close>

definition io_ok :: "pull_env \<Rightarrow> bool" where
  "io_ok env \<longleftrightarrow> (\<forall>d. tmp_ok (pe_io env d))"

text \<open>What every step before the root file system leaves: a store that has grown, the same file tree.\<close>

definition advanced :: "pull_env \<Rightarrow> pull_state \<Rightarrow> pull_state \<Rightarrow> bool" where
  "advanced env st st' \<longleftrightarrow> grown (pe_sha env) (pl_store st) (pl_store st') \<and> pl_fs st' = pl_fs st"

lemma advanced_refl [simp]: "advanced env st st"
  by (simp add: advanced_def)

lemma advanced_trans [trans]: "advanced env a b \<Longrightarrow> advanced env b c \<Longrightarrow> advanced env a c"
  by (auto simp: advanced_def intro: grown_trans)

lemma advanced_stored: "advanced env st st' \<Longrightarrow> stored (pe_sha env) (pl_store st) d \<Longrightarrow> stored (pe_sha env) (pl_store st') d"
  by (auto simp: advanced_def grown_stored)

lemma fetch_advanced: "fetch env url accept reg repo st = (r, st') \<Longrightarrow> advanced env st st'"
  by (auto simp: fetch_def advanced_def split: sum.splits prod.splits)

lemma keep_manifest_advanced:
  assumes "io_ok env" and "keep_manifest env dig bytes st = (r, st')"
  shows "advanced env st st' \<and> (\<forall>d. r = Inr d \<longrightarrow> d = ''sha256:'' @ pe_sha env bytes \<and> stored (pe_sha env) (pl_store st') d)"
proof -
  let ?d = "''sha256:'' @ pe_sha env bytes"
  obtain w s' where w: "write_blob (pe_sha env) (pe_readable env) (pe_io env ?d) ?d bytes (pl_store st) = (w, s')" by force
  have "grown (pe_sha env) (pl_store st) s' \<and> (w = Inr () \<longrightarrow> stored (pe_sha env) s' ?d)"
    by (rule manifest_writer.op_grown [where io = "pe_io env" and content = "\<lambda>_. bytes" and readable = "pe_readable env"])
      (use assms(1) w in \<open>simp_all add: io_ok_def\<close>)
  with assms(2) w show ?thesis
    by (auto simp: keep_manifest_def store_manifest_def Let_def advanced_def split: option.splits if_splits sum.splits prod.splits)
qed

definition manifest_result :: "pull_env \<Rightarrow> pull_state \<Rightarrow> pull_error + string \<times> string \<times> string option \<Rightarrow> bool" where
  "manifest_result env st r \<longleftrightarrow> (\<forall>d b i. r = Inr (d, b, i) \<longrightarrow> d = ''sha256:'' @ pe_sha env b \<and> stored (pe_sha env) (pl_store st) d)"

lemma resolve_child_advanced:
  assumes "io_ok env" and "resolve_child env reg repo want base idx idig st = (r, st')"
  shows "advanced env st st' \<and> manifest_result env st' r"
  using assms(2)
  by (auto simp: resolve_child_def manifest_result_def split: sum.splits option.splits prod.splits
    dest!: fetch_advanced keep_manifest_advanced [OF assms(1)] intro: advanced_trans)

lemma resolve_at_advanced:
  assumes "io_ok env" and "resolve_at env reg repo req want base st = (r, st')"
  shows "advanced env st st' \<and> manifest_result env st' r"
proof -
  obtain f st1 where f: "fetch env (manifest_url base repo req) (Some ACCEPT_MANIFEST) reg repo st = (f, st1)" by force
  note a1 = fetch_advanced [OF f]
  have k: "advanced env st st2 \<and> (\<forall>d. k = Inr d \<longrightarrow> d = ''sha256:'' @ pe_sha env b \<and> stored (pe_sha env) (pl_store st2) d)"
    if "keep_manifest env x b st1 = (k, st2)" for x b k st2
    using keep_manifest_advanced [OF assms(1) that] advanced_trans [OF a1] by blast
  have c: "advanced env st st' \<and> manifest_result env st' r"
    if "keep_manifest env x b st1 = (k, st2)" "resolve_child env reg repo want base idx id st2 = (r, st')" for x b k st2 idx id
    using resolve_child_advanced [OF assms(1) that(2)] k [OF that(1)] advanced_trans by blast
  show ?thesis using assms(2) a1 f
    by (auto simp: resolve_at_def manifest_result_def split: sum.splits ImageDoc.splits prod.splits
      dest: k c [unfolded manifest_result_def])
qed

lemma resolve_advanced:
  "io_ok env \<Longrightarrow> resolve_single_manifest env reg repo req want le eps st = (r, st') \<Longrightarrow> advanced env st st' \<and> manifest_result env st' r"
proof (induction eps arbitrary: st le)
  case (Cons base eps)
  obtain x st1 where x: "resolve_at env reg repo req want base st = (x, st1)" by force
  note a = resolve_at_advanced [OF Cons.prems(1) x]
  show ?case
  proof (cases x)
    case (Inl e)
    with Cons.prems x have "resolve_single_manifest env reg repo req want (Some e) eps st1 = (r, st')" by simp
    from Cons.IH [OF Cons.prems(1) this] a show ?thesis using advanced_trans by blast
  next
    case (Inr v)
    with Cons.prems x a show ?thesis by simp
  qed
qed (auto simp: manifest_result_def)

lemma blob_from_advanced:
  "io_ok env \<Longrightarrow> blob_from env reg repo dig le eps st = (r, st') \<Longrightarrow>
    advanced env st st' \<and> (r = Inr () \<longrightarrow> stored (pe_sha env) (pl_store st') dig)"
proof (induction eps arbitrary: st le)
  case (Cons base eps)
  obtain x st1 where x: "fetch env (base @ ''/v2/'' @ repo @ ''/blobs/'' @ dig) None reg repo st = (x, st1)" by force
  note a = fetch_advanced [OF x]
  show ?case
  proof (cases x)
    case (Inl e)
    with Cons.prems x have "blob_from env reg repo dig (Some e) eps st1 = (r, st')" by simp
    from Cons.IH [OF Cons.prems(1) this] a show ?thesis using advanced_trans by blast
  next
    case (Inr resp)
    obtain w s where w: "store_blob_stream (pe_sha env) (pe_readable env) (pe_io env dig) dig (re_reader resp) (pl_store st1) = (w, s)" by force
    have g: "grown (pe_sha env) (pl_store st1) s \<and> (w = Inr () \<longrightarrow> stored (pe_sha env) s dig)"
      by (rule layer_writer.op_grown [where io = "pe_io env" and reader = "re_reader resp" and readable = "pe_readable env"])
        (use Cons.prems(1) w in \<open>simp_all add: io_ok_def\<close>)
    then have a2: "advanced env st (st1\<lparr>pl_store := s\<rparr>)" using a by (auto simp: advanced_def intro: grown_trans)
    show ?thesis
    proof (cases w)
      case w1: (Inl e)
      with Cons.prems x w Inr have "blob_from env reg repo dig (Some (FromStore e)) eps (st1\<lparr>pl_store := s\<rparr>) = (r, st')" by simp
      from Cons.IH [OF Cons.prems(1) this] a2 show ?thesis using advanced_trans by blast
    next
      case w2: (Inr u)
      with Cons.prems x w Inr a2 g show ?thesis by auto
    qed
  qed
qed auto

lemma ensure_blob_advanced:
  "io_ok env \<Longrightarrow> ensure_blob env eps reg repo dig st = (r, st') \<Longrightarrow>
    advanced env st st' \<and> (r = Inr () \<longrightarrow> stored (pe_sha env) (pl_store st') dig)"
  by (auto simp: ensure_blob_def split: sum.splits bool.splits intro: verified_stored dest: blob_from_advanced)

lemma ensure_layers_advanced:
  "io_ok env \<Longrightarrow> ensure_layers env eps reg repo ls st = (r, st') \<Longrightarrow>
    advanced env st st' \<and> (r = Inr () \<longrightarrow> (\<forall>l \<in> set ls. stored (pe_sha env) (pl_store st') (d_digest l)))"
proof (induction ls arbitrary: st)
  case (Cons l ls)
  obtain x st1 where x: "ensure_blob env eps reg repo (d_digest l) st = (x, st1)" by force
  note a = ensure_blob_advanced [OF Cons.prems(1) x]
  show ?case
  proof (cases x)
    case (Inl e)
    with Cons.prems x a show ?thesis by auto
  next
    case (Inr u)
    with Cons.prems x have "ensure_layers env eps reg repo ls st1 = (r, st')" by simp
    from Cons.IH [OF Cons.prems(1) this] a Inr advanced_stored [of env st1 st' "d_digest l"] advanced_trans [of env st st1 st'] show ?thesis by auto
  qed
qed simp

section \<open>The whole pull\<close>

lemma layer_checked_blobs: "is_blobs s' = is_blobs s \<Longrightarrow> layer_checked env s' l d \<longleftrightarrow> layer_checked env s l d"
  by (simp add: layer_checked_def open_layer_reader_def)

lemma stored_blobs: "is_blobs s' = is_blobs s \<Longrightarrow> stored sha s' d \<longleftrightarrow> stored sha s d"
  by (simp add: stored_def)

lemma add_index_Inr:
  "add_index_image lock written t name tg md cd n idx s = (Inr u, s') \<Longrightarrow>
    is_blobs s' = is_blobs s \<and> (\<exists>rs. records s' = Inr rs \<and> new_record t name tg md cd n idx \<in> set rs)"
  by (auto simp: add_index_image_def save_records_def records_def upsert_record_def split: if_splits sum.splits)

definition recorded_tag :: "Reference \<Rightarrow> string option" where
  "recorded_tag reference = (case digest reference of Some _ \<Rightarrow> None
     | None \<Rightarrow> Some (case tag reference of Some t \<Rightarrow> t | None \<Rightarrow> ''latest''))"

text \<open>What a pull that succeeded leaves: manifest, configuration and layers under their digests, the record, and a root file system
  that was there or whose layers were checked.\<close>

definition pulled :: "pull_env \<Rightarrow> Reference \<Rightarrow> fnode \<Rightarrow> Manifest \<Rightarrow> string \<Rightarrow> string option \<Rightarrow> PulledImage \<Rightarrow> pull_state \<Rightarrow> bool" where
  "pulled env reference t m md idx p st \<longleftrightarrow>
     stored (pe_sha env) (pl_store st) (d_digest (m_config m)) \<and>
     (\<forall>l \<in> set (m_layers m). stored (pe_sha env) (pl_store st) (d_digest l)) \<and>
     (\<exists>rs. records (pl_store st) = Inr rs \<and>
       new_record (pe_now env) (registry reference @ ''/'' @ repository reference) (recorded_tag reference) md (d_digest (m_config m))
         (layer_bytes m) idx \<in> set rs) \<and>
     (\<exists>hex. d_digest (m_config m) = ''sha256:'' @ hex \<and> pi_rootfs p = pe_dir env @ [hex]) \<and>
     (is_dir t (pi_rootfs p) \<or> list_all2 (layer_checked (pe_layers env) (pl_store st)) (m_layers m) (ic_diff_ids (pi_config p)))"

lemma pull_manifest_pulled:
  assumes "io_ok env" and "solid (pl_fs st) (pe_dir env)" and "wf_node (pl_fs st)" and "\<And>p. k_allow (le_kernel (pe_layers env)) Unlink p"
    and "pull_manifest env reference want eps md m idx st = (Inr p, st')"
  shows "pulled env reference (pl_fs st) m md idx p st' \<and> config_matches (pi_config p) want \<and> kept (pe_dir env) (pl_fs st) (pl_fs st') \<and>
    (\<forall>d. stored (pe_sha env) (pl_store st) d \<longrightarrow> stored (pe_sha env) (pl_store st') d)"
proof -
  let ?reg = "registry reference" and ?repo = "repository reference" and ?cd = "d_digest (m_config m)"
  from assms(5) obtain st1 bytes cfg st2 t s where 1: "ensure_blob env eps ?reg ?repo ?cd st = (Inr (), st1)"
    and cfg: "pe_config env bytes = Some cfg" "config_matches cfg want" "pi_config p = cfg"
    and 2: "ensure_layers env eps ?reg ?repo (m_layers m) st1 = (Inr (), st2)"
    and 3: "materialize_local_rootfs (pe_layers env) (pl_store st2) (pe_dir env) m cfg (pl_fs st2) = (Inr (pi_rootfs p), t)"
    and 4: "add_index_image (pe_lock env) (pe_written env) (pe_now env) (?reg @ ''/'' @ ?repo) (recorded_tag reference) md ?cd (layer_bytes m) idx
        (pl_store st2) = (Inr (), s)" and st': "st' = st2\<lparr>pl_fs := t, pl_store := s\<rparr>"
    unfolding pull_manifest_def materialize_rootfs_def recorded_tag_def
    by (auto simp: Let_def split: prod.splits sum.splits option.splits if_splits)
  from ensure_blob_advanced [OF assms(1) 1] have a1: "advanced env st st1" "stored (pe_sha env) (pl_store st1) ?cd" by auto
  from ensure_layers_advanced [OF assms(1) 2] have a2: "advanced env st1 st2" "\<forall>l \<in> set (m_layers m). stored (pe_sha env) (pl_store st2) (d_digest l)" by auto
  have fs: "pl_fs st2 = pl_fs st" using a1 a2 by (simp add: advanced_def)
  from add_index_Inr [OF 4] obtain rs where s: "is_blobs s = is_blobs (pl_store st2)" and rs: "records s = Inr rs"
    "new_record (pe_now env) (?reg @ ''/'' @ ?repo) (recorded_tag reference) md ?cd (layer_bytes m) idx \<in> set rs" by blast
  note mat = materialize_cases [OF assms(2,3,4) 3 [unfolded fs]]
  then obtain hex where hex: "?cd = ''sha256:'' @ hex" "pi_rootfs p = pe_dir env @ [hex]" by (auto simp: digest_hex_Inr)
  have lc: "layer_checked (pe_layers env) s = layer_checked (pe_layers env) (pl_store st2)" by (intro ext layer_checked_blobs s)
  have ls: "is_dir (pl_fs st) (pi_rootfs p) \<or> list_all2 (layer_checked (pe_layers env) s) (m_layers m) (ic_diff_ids cfg)"
    unfolding lc using mat by blast
  have up: "stored (pe_sha env) s d" if "stored (pe_sha env) (pl_store st2) d" for d using that by (simp only: stored_blobs [OF s])
  have proj: "pl_store st' = s" "pl_fs st' = t" by (simp_all add: st')
  have "pulled env reference (pl_fs st) m md idx p st'"
    unfolding pulled_def proj cfg(3) using up a1(2) a2 advanced_stored [OF a2(1)] rs hex ls by blast
  moreover have "stored (pe_sha env) s d" if "stored (pe_sha env) (pl_store st) d" for d
    by (rule up, rule advanced_stored [OF a2(1)], rule advanced_stored [OF a1(1)], rule that)
  ultimately show ?thesis unfolding proj cfg(3) using mat cfg(2) by blast
qed

end
