(* ===== verification/Pull_Props.thy ===== *)
theory Pull_Props
  imports Pull_Facts Rootfs_Props
begin

text \<open>
  The properties of pulls, with a small registry to try them on, and what a registry can do that the sources do not notice.
\<close>

section \<open>A sample registry\<close>

text \<open>The registry serves the manifest \<open>M\<close> whatever is asked for by name, and by the last letter of the digest its configuration \<open>C\<close> and its layer \<open>L\<close>.\<close>

definition body_response :: "string \<Rightarrow> response" where
  "body_response b = \<lparr>re_status = 200, re_header = (\<lambda>_. None), re_text = Inr b, re_reader = [Some b]\<rparr>"

definition served :: "string \<Rightarrow> string \<Rightarrow> string" where
  "served root_body url = (let c = last url in
     if c = CHR ''a'' then ''J'' else if c = CHR ''b'' then ''C'' else if c = CHR ''c'' then ''L'' else root_body)"

definition image_http :: "string \<Rightarrow> http_env" where
  "image_http root_body = \<lparr>ureq = (\<lambda>sent. Answered (body_response (served root_body (hq_url (last sent))))),
     clock = (\<lambda>n. n), file_error = (\<lambda>_. None), token_json = (\<lambda>_. Inl []), lower_rest = id\<rparr>"

definition image_sha :: "string \<Rightarrow> string" where
  "image_sha b = hex_of (if b = ''M'' \<or> b = ''J'' then CHR ''a'' else if b = ''C'' then CHR ''b'' else CHR ''c'')"

definition linux :: Platform where
  "linux = \<lparr>p_os = ''linux'', p_architecture = ''amd64'', p_variant = None\<rparr>"

text \<open>The index \<open>I\<close> lists \<open>J\<close>, which is an index again.\<close>

definition image_json :: "string \<Rightarrow> json_view option" where
  "image_json b =
     (if b = ''I'' \<or> b = ''J''
      then Some \<lparr>has_manifests = True, as_index = Some \<lparr>i_manifests = [(desc CHR ''a'')\<lparr>d_platform := Some linux\<rparr>]\<rparr>, as_manifest = None\<rparr>
      else sample_json b)"

definition image_env :: "string \<Rightarrow> pull_env" where
  "image_env root_body = \<lparr>pe_http = image_http root_body, pe_layers = layer_host\<lparr>le_sha := image_sha, le_untar := (\<lambda>_. Some [])\<rparr>, pe_json = image_json,
     pe_config = (\<lambda>b. if b = ''C'' then Some layer_config else None),
     pe_io = (\<lambda>d. \<lparr>io_tmp = ''.tmp-1'', io_create = True, io_write = True, io_rename = True, io_left = None\<rparr>),
     pe_host = linux, pe_dir = [''s''], pe_same_root = True, pe_lock = True, pe_written = True, pe_now = 0\<rparr>"

definition image_state :: pull_state where
  "image_state = \<lparr>pl_client = with_credentials [] [], pl_store = \<lparr>is_root = ''/data'', is_blobs = [], is_rootfs = [], is_locks = [], is_index = NoIndex\<rparr>,
     pl_fs = sample_tree\<rparr>"

definition image_ref :: Reference where
  "image_ref = \<lparr>registry = ''docker.io'', repository = ''library/r'', tag = Some ''latest'', digest = None\<rparr>"

abbreviation blank :: "RegistryClient \<Rightarrow> bool" where
  "blank c \<equiv> rc_tokens c = (\<lambda>_. None) \<and> rc_mirrors c = []"

lemma image_fetch:
  assumes "blank (pl_client st)"
  shows "\<exists>c. fetch (image_env b) url accept reg repo st = (Inr (body_response (served b url)), st\<lparr>pl_client := c\<rparr>) \<and> blank c"
  using assms by (simp add: fetch_def image_env_def image_http_def get_def request_def request_rounds.simps request_attempts.simps
    usable_token_def body_error_def send_def Let_def build_request_def) (rule exI, rule conjI, rule refl, simp)

definition image_store_with :: "(string \<times> blob_entry) list \<Rightarrow> image_store" where
  "image_store_with bs = \<lparr>is_root = ''/data'', is_blobs = bs, is_rootfs = [], is_locks = [], is_index = NoIndex\<rparr>"

definition filled :: image_store where
  "filled = image_store_with [(hex_of CHR ''a'', BlobFile ''M''), (hex_of CHR ''b'', BlobFile ''C''), (hex_of CHR ''c'', BlobFile ''L'')]"

lemma filled_rootfs:
  "fst (materialize_local_rootfs (pe_layers (image_env ''M'')) filled [''s''] layer_manifest layer_config sample_tree) = Inr [''s'', hex_of CHR ''b'']"
  by code_simp

lemma image_env_simps [simp]:
  "pe_json (image_env b) = image_json" "le_sha (pe_layers (image_env b)) = image_sha" "le_readable (pe_layers (image_env b)) = (\<lambda>_. True)"
  "pe_config (image_env b) ''C'' = Some layer_config" "pe_host (image_env b) = linux" "pe_dir (image_env b) = [''s'']"
  "pe_same_root (image_env b)" "pe_now (image_env b) = 0" "pe_lock (image_env b)" "pe_written (image_env b)"
  "pe_io (image_env b) d = \<lparr>io_tmp = ''.tmp-1'', io_create = True, io_write = True, io_rename = True, io_left = None\<rparr>"
  by (simp_all add: image_env_def layer_host_def)

lemma image_docs [simp]: "classify image_json ''M'' = Inr (DocManifest layer_manifest)"
  "image_sha ''M'' = hex_of CHR ''a''" "image_sha ''C'' = hex_of CHR ''b''" "image_sha ''L'' = hex_of CHR ''c''"
  "config_matches layer_config linux" "re_text (body_response b) = Inr b" "re_reader (body_response b) = [Some b]" "re_header (body_response b) h = None"
  by (simp_all add: classify_def image_json_def sample_json_def layer_manifest_def desc_def dig_def image_sha_def config_matches_def layer_config_def body_response_def)

lemma image_manifest:
  "store_manifest (image_env b) None ''M'' (image_store_with []) = (Inr (dig CHR ''a''), image_store_with [(hex_of CHR ''a'', BlobFile ''M'')])"
proof -
  have d: "''sha256:'' @ image_sha ''M'' = dig CHR ''a''" by (simp add: dig_def)
  show ?thesis unfolding store_manifest_def image_env_simps d option.case sum.case Let_def
    by (simp add: write_blob_def verify_blob_def install_blob_temp_def set_blobs_def image_store_with_def)
qed

lemma image_blob:
  assumes "map_of bs (hex_of c) = None" and "image_sha body = hex_of c" and "is_config_name (hex_of c)" and "body \<noteq> []"
  shows "verify_blob image_sha (\<lambda>_. True) (dig c) (image_store_with bs) = Inr False"
    and "store_blob_stream image_sha (\<lambda>_. True) (pe_io (image_env b) (dig c)) (dig c) [Some body] (image_store_with bs) =
      (Inr (), image_store_with (bs @ [(hex_of c, BlobFile body)]))"
proof -
  have u: "AList.update (hex_of c) v bs = bs @ [(hex_of c, v)]" for v using assms(1) by (induction bs) auto
  show v: "verify_blob image_sha (\<lambda>_. True) (dig c) (image_store_with bs) = Inr False"
    using assms by (simp add: verify_blob_def image_store_with_def)
  show "store_blob_stream image_sha (\<lambda>_. True) (pe_io (image_env b) (dig c)) (dig c) [Some body] (image_store_with bs) =
      (Inr (), image_store_with (bs @ [(hex_of c, BlobFile body)]))"
    using assms v by (simp add: store_blob_stream_def install_blob_temp_def set_blobs_def) (simp add: image_store_with_def u)
qed

lemma image_ensure:
  assumes "blank (pl_client st)" and "pl_store st = image_store_with bs" and "map_of bs (hex_of c) = None"
    and "(c, body) \<in> {(CHR ''b'', ''C''), (CHR ''c'', ''L'')}"
  shows "\<exists>cl. ensure_blob (image_env b) [base] reg repo (dig c) st =
    (Inr (), st\<lparr>pl_client := cl, pl_store := image_store_with (bs @ [(hex_of c, BlobFile body)])\<rparr>) \<and> blank cl"
proof -
  let ?url = "base @ ''/v2/'' @ repo @ ''/blobs/'' @ dig c"
  have "last ?url = c" by (simp add: dig_def hex_of_def)
  then have sv: "served b ?url = body" using assms(4) by (auto simp: served_def)
  obtain cl where f: "fetch (image_env b) ?url None reg repo st = (Inr (body_response body), st\<lparr>pl_client := cl\<rparr>)" "blank cl"
    using image_fetch [OF assms(1), of b ?url] sv by metis
  have i: "image_sha body = hex_of c" "is_config_name (hex_of c)" "body \<noteq> []" using assms(4) by auto
  have "ensure_blob (image_env b) [base] reg repo (dig c) st =
    (Inr (), st\<lparr>pl_client := cl, pl_store := image_store_with (bs @ [(hex_of c, BlobFile body)])\<rparr>)"
    unfolding ensure_blob_def image_env_simps assms(2) image_blob(1) [OF assms(3) i] sum.case bool.case blob_from.simps f(1) prod.case
    using image_blob(2) [OF assms(3) i, of b] assms(2) by simp
  with f(2) show ?thesis by blast
qed

lemma filled_index:
  "add_index_image True True 0 (''docker.io/'' @ repo) tg (dig CHR ''a'') (dig CHR ''b'') 1 None filled =
    (Inr (), filled\<lparr>is_index := IndexFile [new_record 0 (''docker.io/'' @ repo) tg (dig CHR ''a'') (dig CHR ''b'') 1 None]\<rparr>)"
  by (simp add: add_index_image_def records_def filled_def image_store_with_def save_records_def upsert_record_def)

lemma layer_manifest_parts:
  "d_digest (m_config layer_manifest) = dig CHR ''b''" "m_layers layer_manifest = [desc CHR ''c'']" "layer_bytes layer_manifest = 1"
  "d_digest (desc CHR ''c'') = dig CHR ''c''"
  by (simp_all add: layer_manifest_def desc_def layer_bytes_def)

lemma image_pull:
  assumes "requested_ref reference \<noteq> []" and "last (requested_ref reference) \<notin> {CHR ''a'', CHR ''b'', CHR ''c''}" and "registry reference = ''docker.io''"
  shows "\<exists>p st'. pull_image_with_lease (image_env ''M'') reference None image_state = (Returns (Inr p), st') \<and>
    records (pl_store st') = Inr [new_record 0 (''docker.io/'' @ repository reference) (recorded_tag reference) (dig CHR ''a'') (dig CHR ''b'') 1 None]"
proof -
  let ?env = "image_env ''M''" and ?reg = "''docker.io''" and ?repo = "repository reference"
  let ?sa = "image_store_with [(hex_of CHR ''a'', BlobFile ''M'')]"
  let ?sb = "image_store_with [(hex_of CHR ''a'', BlobFile ''M''), (hex_of CHR ''b'', BlobFile ''C'')]"
  have url: "served ''M'' (manifest_url DOCKER_HUB_API ?repo (requested_ref reference)) = ''M''"
    using assms(1,2) by (simp add: served_def manifest_url_def Let_def)
  have st: "blank (pl_client image_state)" "pl_store image_state = image_store_with []" "pl_fs image_state = sample_tree"
    by (simp_all add: image_state_def with_credentials_def image_store_with_def)
  obtain c1 where f1: "fetch ?env (manifest_url DOCKER_HUB_API ?repo (requested_ref reference)) (Some ACCEPT_MANIFEST) ?reg ?repo image_state =
      (Inr (body_response ''M''), image_state\<lparr>pl_client := c1\<rparr>)" "blank c1"
    using image_fetch [OF st(1), of "''M''" "manifest_url DOCKER_HUB_API ?repo (requested_ref reference)"] url by metis
  define s1 where "s1 = image_state\<lparr>pl_client := c1, pl_store := ?sa\<rparr>"
  have r: "resolve_single_manifest ?env ?reg ?repo (requested_ref reference) linux None [DOCKER_HUB_API] image_state = (Inr (dig CHR ''a'', ''M'', None), s1)"
    by (simp add: resolve_at_def f1 keep_manifest_def st image_manifest s1_def)
  have b1: "blank (pl_client s1)" "pl_store s1 = ?sa" using f1(2) by (simp_all add: s1_def)
  obtain c2 where e2: "ensure_blob ?env [DOCKER_HUB_API] ?reg ?repo (dig CHR ''b'') s1 = (Inr (), s1\<lparr>pl_client := c2, pl_store := ?sb\<rparr>)" "blank c2"
    using image_ensure [OF b1, of "CHR ''b''" "''C''" "''M''" DOCKER_HUB_API ?reg ?repo] by auto
  define s2 where "s2 = s1\<lparr>pl_client := c2, pl_store := ?sb\<rparr>"
  have b2: "blank (pl_client s2)" "pl_store s2 = ?sb" using e2(2) by (simp_all add: s2_def)
  obtain c3 where e3: "ensure_blob ?env [DOCKER_HUB_API] ?reg ?repo (dig CHR ''c'') s2 = (Inr (), s2\<lparr>pl_client := c3, pl_store := filled\<rparr>)"
    using image_ensure [OF b2, of "CHR ''c''" "''L''" "''M''" DOCKER_HUB_API ?reg ?repo] by (auto simp: filled_def)
  obtain t where m: "materialize_local_rootfs (pe_layers ?env) filled [''s''] layer_manifest layer_config sample_tree = (Inr [''s'', hex_of CHR ''b''], t)"
    using filled_rootfs by (metis prod.collapse)
  have rb: "read_blob (\<lambda>_. True) (dig CHR ''b'') ?sb = Inr (Some ''C'')" by (simp add: read_blob_def image_store_with_def)
  have fs: "pl_fs s2 = sample_tree" by (simp add: s2_def s1_def st)
  let ?rec = "new_record 0 (''docker.io/'' @ ?repo) (recorded_tag reference) (dig CHR ''a'') (dig CHR ''b'') 1 None"
  have pm: "pull_manifest ?env reference linux [DOCKER_HUB_API] (dig CHR ''a'') layer_manifest None s1 =
      (Inr \<lparr>pi_rootfs = [''s'', hex_of CHR ''b''], pi_config = layer_config, pi_size = 1\<rparr>,
       s2\<lparr>pl_client := c3, pl_store := filled\<lparr>is_index := IndexFile [?rec]\<rparr>, pl_fs := t\<rparr>)"
    using filled_index [of ?repo "recorded_tag reference"]
    by (simp add: pull_manifest_def materialize_rootfs_def assms(3) layer_manifest_parts e2(1) e3 m rb fs b2 recorded_tag_def [symmetric] flip: s2_def)
  show ?thesis
    using r pm by (simp add: pull_image_with_lease_def wanted_platform_def assms(3) endpoints_def st records_def)
qed

section \<open>Properties\<close>



section \<open>What is not checked\<close>

text \<open>A reference pinned to a digest: the body is compared with the digest the registry sends along, if it sends one, and never with
  the digest that was asked for.\<close>

lemma pin_not_checked:
  assumes "digest reference = Some (dig CHR ''e'')" and "registry reference = ''docker.io''"
  shows "\<exists>p st' r. pull_image_with_lease (image_env ''M'') reference None image_state = (Returns (Inr p), st') \<and>
    records (pl_store st') = Inr [r] \<and> ir_manifest r = dig CHR ''a'' \<and> dig CHR ''a'' \<noteq> dig CHR ''e''"
proof -
  have "requested_ref reference = dig CHR ''e''" using assms by (simp add: requested_ref_def)
  with image_pull [of reference] assms(2) show ?thesis by (auto simp: new_record_def dig_def hex_of_def)
qed

text \<open>An index whose entry for the platform is an index again ends the program.\<close>

lemma nested_index_panics: "fst (pull_image_with_lease (image_env ''I'') image_ref None image_state) = Panics"
proof -
  have "(case fst (pull_image_with_lease (image_env ''I'') image_ref None image_state) of Panics \<Rightarrow> True | _ \<Rightarrow> False)" by code_simp
  then show ?thesis by (simp split: outcome.splits)
qed

section \<open>The image of a run\<close>

text \<open>With \<open>--pull never\<close> nothing is sent and nothing changes.\<close>

lemma never_offline: "snd (resolve_run_image env reference platform Never st) = st"
  by (auto simp: resolve_run_image_def Let_def split: sum.splits option.splits prod.splits)

end
